(* ===== verification/CTC_Prelude.thy ===== *)
theory CTC_Prelude
  imports Main "HOL-Library.Word" "HOL-Library.Signed_Division"
begin

text \<open>
  The vocabulary every component of the development shares: the C integer conversions of the
  sources as functions on \<^typ>\<open>int\<close>, positional values of digit lists, and the collections of
  rewrite rules the component proofs use.

  A C expression of type int32 or int64 is a term of type \<^typ>\<open>int\<close>; a conversion to a narrower
  or unsigned type is one of the casts below, so that every place where the sources can lose
  bits is visible in the definitions. Division and remainder of the sources truncate towards
  zero; they are \<^term>\<open>x sdiv y\<close> and \<^term>\<open>x smod y\<close> where an operand may be negative.
\<close>

named_theorems cast_simps \<open>casts that lose nothing because the value fits\<close>

section \<open>C integer conversions\<close>

definition u8 :: "int \<Rightarrow> int" where
  "u8 x = x mod 256"

definition u16 :: "int \<Rightarrow> int" where
  "u16 x = x mod 65536"

definition u32 :: "int \<Rightarrow> int" where
  "u32 x = x mod 4294967296"

definition u64 :: "int \<Rightarrow> int" where
  "u64 x = x mod 18446744073709551616"

definition s8 :: "int \<Rightarrow> int" where
  "s8 x = (x + 128) mod 256 - 128"

definition s16 :: "int \<Rightarrow> int" where
  "s16 x = (x + 32768) mod 65536 - 32768"

definition s32 :: "int \<Rightarrow> int" where
  "s32 x = (x + 2147483648) mod 4294967296 - 2147483648"

lemma u8_id [cast_simps]: "0 \<le> x \<Longrightarrow> x < 256 \<Longrightarrow> u8 x = x"
  by (simp add: u8_def)

lemma u16_id [cast_simps]: "0 \<le> x \<Longrightarrow> x < 65536 \<Longrightarrow> u16 x = x"
  by (simp add: u16_def)

lemma u32_id [cast_simps]: "0 \<le> x \<Longrightarrow> x < 4294967296 \<Longrightarrow> u32 x = x"
  by (simp add: u32_def)

lemma u64_id [cast_simps]: "0 \<le> x \<Longrightarrow> x < 18446744073709551616 \<Longrightarrow> u64 x = x"
  by (simp add: u64_def)

lemma s8_id [cast_simps]: "-128 \<le> x \<Longrightarrow> x < 128 \<Longrightarrow> s8 x = x"
  by (simp add: s8_def)

lemma s16_id [cast_simps]: "-32768 \<le> x \<Longrightarrow> x < 32768 \<Longrightarrow> s16 x = x"
  by (simp add: s16_def)

lemma s32_id [cast_simps]: "-2147483648 \<le> x \<Longrightarrow> x < 2147483648 \<Longrightarrow> s32 x = x"
  by (simp add: s32_def)

section \<open>Truncating division\<close>

lemma sdiv_nonneg: "0 \<le> x \<Longrightarrow> 0 \<le> y \<Longrightarrow> x sdiv y = x div (y::int)"
  by (cases "x = 0"; cases "y = 0") (auto simp: signed_divide_int_def)

lemma smod_nonneg: "0 \<le> x \<Longrightarrow> 0 \<le> y \<Longrightarrow> x smod y = x mod (y::int)"
  by (cases "x = 0"; cases "y = 0")
    (auto simp: signed_modulo_int_def sdiv_nonneg minus_div_mult_eq_mod)

lemma sdiv_neg: "x < 0 \<Longrightarrow> 0 < y \<Longrightarrow> x sdiv y = - ((- x) div (y::int))"
  by (simp add: signed_divide_int_def)

section \<open>Division with remainder on the integers\<close>

lemma div_Suc_int:
  assumes "0 < (k::int)"
  shows "(n + 1) div k = n div k + (if (n + 1) mod k = 0 then 1 else 0)"
proof (cases "(n + 1) mod k = 0")
  case True
  then have "n + 1 = k * ((n + 1) div k)" using mult_div_mod_eq [of k "n + 1"] by simp
  then have "n = k * ((n + 1) div k - 1) + (k - 1)" by (simp add: algebra_simps)
  then have "n div k = (n + 1) div k - 1" using assms by (intro int_div_pos_eq [where r = "k - 1"]) auto
  with True show ?thesis by simp
next
  case False
  have "k * ((n + 1) div k) + (n + 1) mod k = n + 1" by (rule mult_div_mod_eq)
  then have "n = k * ((n + 1) div k) + ((n + 1) mod k - 1)" by linarith
  moreover have "0 \<le> (n + 1) mod k - 1"
    using False assms pos_mod_sign [of k "n + 1"] by linarith
  moreover have "(n + 1) mod k - 1 < k"
    using assms pos_mod_bound [of k "n + 1"] by linarith
  ultimately have "n div k = (n + 1) div k" by (rule int_div_pos_eq)
  with False show ?thesis by simp
qed

lemma div_less_int:
  assumes "0 < (k::int)" "n < k * q"
  shows "n div k < q"
proof (rule ccontr)
  assume "\<not> n div k < q"
  then have "k * q \<le> k * (n div k)" using assms(1) by simp
  moreover have "k * (n div k) \<le> n"
    using mult_div_mod_eq [of k n] pos_mod_sign [OF assms(1), of n] by linarith
  ultimately show False using assms(2) by linarith
qed

lemma div_minus_self_int: "0 < (k::int) \<Longrightarrow> n div k = (n - k) div k + 1"
  using div_add_self2 [of k "n - k"] by simp

lemma mod_minus_self_int: "(n - k) mod k = n mod (k::int)"
  by simp

lemma split_day:
  assumes "0 < (u::int)"
  shows "(if date - date sdiv u * u < 0 then (date - date sdiv u * u + u, date sdiv u - 1)
      else (date - date sdiv u * u, date sdiv u)) = (date mod u, date div u)"
proof -
  have m: "date - date div u * u = date mod u" by (rule minus_div_mult_eq_mod)
  have b: "0 \<le> date mod u" "date mod u < u" using assms by simp_all
  show ?thesis
  proof (cases "0 \<le> date \<or> date mod u = 0")
    case True
    then have "date sdiv u = date div u"
      using assms by (cases "0 \<le> date") (simp_all add: sdiv_nonneg sdiv_neg zdiv_zminus1_eq_if)
    then show ?thesis using m b by simp
  next
    case False
    then have q: "date sdiv u = date div u + 1"
      using assms by (simp add: sdiv_neg zdiv_zminus1_eq_if)
    have "date - (date div u + 1) * u = date mod u - u" using m by (simp add: distrib_right)
    then show ?thesis using b unfolding q by simp
  qed
qed

end
