(* ===== verification/CTC_Date.thy ===== *)
theory CTC_Date
  imports CTC_Prelude "HOL-Library.List_Lexorder"
begin

text \<open>
  The Cantian date type (datatype_cnvrtr.cc, datatype_cnvrtr.h): a signed 64-bit count of
  microseconds, its decoding into and encoding from the fields of \<open>date_detail_t\<close>, the
  validity check that guards the encoder, and the conversions from and to the MySQL
  structures that use them.

  Assertion failures and reads past the end of \<open>g_cantian_month_days\<close> are the value
  \<^const>\<open>None\<close>; that they do not happen on the inputs the callers produce is proved.
\<close>

section \<open>Data\<close>

text \<open>\<open>date_detail_t\<close>; the width of a field appears where it is assigned.\<close>

record date_detail =
  dd_year :: int
  dd_mon :: int
  dd_day :: int
  dd_hour :: int
  dd_min :: int
  dd_sec :: int
  dd_millisec :: int
  dd_microsec :: int
  dd_nanosec :: int
  dd_tz_offset :: int

text \<open>The members of MySQL's \<open>MYSQL_TIME\<close> the sources read and write.\<close>

record mysql_time =
  mt_year :: int
  mt_month :: int
  mt_day :: int
  mt_hour :: int
  mt_minute :: int
  mt_second :: int
  mt_second_part :: int
  mt_neg :: bool

definition UNITS_PER_DAY :: int where "UNITS_PER_DAY = 86400000000"
definition SECONDS_PER_DAY :: int where "SECONDS_PER_DAY = 86400"
definition SECONDS_PER_HOUR :: int where "SECONDS_PER_HOUR = 3600"
definition SECONDS_PER_MIN :: int where "SECONDS_PER_MIN = 60"
definition MICROSECS_PER_MILLISEC :: int where "MICROSECS_PER_MILLISEC = 1000"
definition MILLISECS_PER_SECOND :: int where "MILLISECS_PER_SECOND = 1000"
definition CM_BASELINE_DAY :: int where "CM_BASELINE_DAY = 730120"
definition DAYS_1 :: int where "DAYS_1 = 365"
definition DAYS_4 :: int where "DAYS_4 = DAYS_1 * 4 + 1"
definition DAYS_100 :: int where "DAYS_100 = DAYS_4 * 25 - 1"
definition DAYS_400 :: int where "DAYS_400 = DAYS_100 * 4 + 1"
definition CM_ALL_ZERO_DATETIME :: int where "CM_ALL_ZERO_DATETIME = -63113904000000000"

lemmas date_consts [simp] =
  UNITS_PER_DAY_def SECONDS_PER_DAY_def SECONDS_PER_HOUR_def SECONDS_PER_MIN_def
  MICROSECS_PER_MILLISEC_def MILLISECS_PER_SECOND_def CM_BASELINE_DAY_def
  DAYS_1_def DAYS_4_def DAYS_100_def DAYS_400_def CM_ALL_ZERO_DATETIME_def

definition IS_LEAP_YEAR :: "int \<Rightarrow> bool" where
  "IS_LEAP_YEAR year \<longleftrightarrow> year mod 4 = 0 \<and> (year mod 100 \<noteq> 0 \<or> year mod 400 = 0)"

definition CM_IS_VALID_YEAR :: "int \<Rightarrow> bool" where
  "CM_IS_VALID_YEAR year \<longleftrightarrow> year \<ge> 1 \<and> year \<le> 9999"

definition g_cantian_month_days :: "bool \<Rightarrow> int list" where
  "g_cantian_month_days leap =
     (if leap then [31, 29, 31, 30, 31, 30, 31, 31, 30, 31, 30, 31]
      else [31, 28, 31, 30, 31, 30, 31, 31, 30, 31, 30, 31])"

definition CM_MONTH_DAYS :: "int \<Rightarrow> int \<Rightarrow> int" where
  "CM_MONTH_DAYS year mon = g_cantian_month_days (IS_LEAP_YEAR year) ! nat (mon - 1)"

section \<open>Decoding\<close>

text \<open>The four loops of \<open>cm_decode_leap\<close>, on the pair of \<open>detail->year\<close> and \<open>days\<close>.\<close>

function decode_400 :: "int \<Rightarrow> int \<Rightarrow> int \<times> int" where
  "decode_400 year days =
     (if days \<ge> DAYS_400 then decode_400 (u16 (year + 400)) (days - DAYS_400) else (year, days))"
  by pat_completeness auto
termination
  by (relation "measure (\<lambda>(_, days). nat days)") auto

function decode_100 :: "int \<Rightarrow> int \<Rightarrow> int \<Rightarrow> int \<times> int" where
  "decode_100 hundred_count year days =
     (if days \<ge> DAYS_100 \<and> hundred_count < 4
      then decode_100 (hundred_count + 1) (u16 (year + 100)) (days - DAYS_100)
      else (year, days))"
  by pat_completeness auto
termination
  by (relation "measure (\<lambda>(_, _, days). nat days)") auto

function decode_4 :: "int \<Rightarrow> int \<Rightarrow> int \<times> int" where
  "decode_4 year days =
     (if days \<ge> DAYS_4 then decode_4 (u16 (year + 4)) (days - DAYS_4) else (year, days))"
  by pat_completeness auto
termination
  by (relation "measure (\<lambda>(_, days). nat days)") auto

function decode_1 :: "int \<Rightarrow> int \<Rightarrow> int \<times> int" where
  "decode_1 year days =
     (if days > DAYS_1
      then decode_1 (u16 (year + 1))
             ((if IS_LEAP_YEAR year then days - 1 else days) - DAYS_1)
      else (year, days))"
  by pat_completeness auto
termination
  by (relation "measure (\<lambda>(_, days). nat days)") auto

declare decode_400.simps [simp del] decode_100.simps [simp del]
  decode_4.simps [simp del] decode_1.simps [simp del]

definition cm_decode_leap :: "int \<Rightarrow> int \<Rightarrow> int \<times> int" where
  "cm_decode_leap year d =
     (let (y, days) = decode_400 year d;
          (y, days) = decode_100 1 y days;
          (y, days) = decode_4 y days
      in decode_1 y days)"

definition cm_set_all_zero_detail :: "date_detail \<Rightarrow> date_detail" where
  "cm_set_all_zero_detail detail = detail\<lparr>dd_year := 0, dd_mon := 0, dd_day := 0,
     dd_hour := 0, dd_min := 0, dd_sec := 0, dd_millisec := 0, dd_microsec := 0, dd_nanosec := 0\<rparr>"

text \<open>
  The loop \<open>while (days > day_tab[i])\<close> over the months from index \<open>i\<close> on; running past the
  twelfth entry is \<^const>\<open>None\<close>.
\<close>

fun skip_months :: "int list \<Rightarrow> int \<Rightarrow> int \<Rightarrow> (int \<times> int) option" where
  "skip_months [] i days = None"
| "skip_months (t # ts) i days =
     (if days > t then skip_months ts (i + 1) (days - t) else Some (i, days))"

text \<open>The time of day, then the date, of \<open>cm_decode_date\<close>.\<close>

definition decode_time :: "int \<Rightarrow> date_detail \<Rightarrow> date_detail" where
  "decode_time time detail =
     (let microsec = u16 (time smod MICROSECS_PER_MILLISEC);
          time = time sdiv MICROSECS_PER_MILLISEC;
          millisec = u16 (time smod MILLISECS_PER_SECOND);
          time = time sdiv MILLISECS_PER_SECOND;
          hour = u8 (time sdiv SECONDS_PER_HOUR);
          time = time - u32 (hour * SECONDS_PER_HOUR);
          min = u8 (time sdiv SECONDS_PER_MIN);
          time = time - u32 (min * SECONDS_PER_MIN)
      in detail\<lparr>dd_microsec := microsec, dd_millisec := millisec,
           dd_hour := hour, dd_min := min, dd_sec := u8 time\<rparr>)"

definition decode_days :: "int \<Rightarrow> date_detail \<Rightarrow> date_detail option" where
  "decode_days days detail =
     (let (year, days) = cm_decode_leap 1 days
      in if days = 0
         then Some (detail\<lparr>dd_year := u16 (year - 1), dd_mon := 12, dd_day := 31\<rparr>)
         else case skip_months (g_cantian_month_days (IS_LEAP_YEAR year)) 0 days of
             None \<Rightarrow> None
           | Some (i, days) \<Rightarrow>
               Some (detail\<lparr>dd_year := year, dd_mon := u8 (1 + i), dd_day := u8 days\<rparr>))"

definition cm_decode_date :: "int \<Rightarrow> date_detail \<Rightarrow> date_detail option" where
  "cm_decode_date date detail =
     (if date = CM_ALL_ZERO_DATETIME then Some (cm_set_all_zero_detail detail)
      else
        let time = date;
            date = date sdiv UNITS_PER_DAY;
            time = time - date * UNITS_PER_DAY;
            (time, date) = (if time < 0 then (time + UNITS_PER_DAY, date - 1) else (time, date))
        in decode_days (s32 (date + CM_BASELINE_DAY)) (decode_time time detail))"

section \<open>Encoding\<close>

definition days_before_year :: "int \<Rightarrow> int" where
  "days_before_year year =
     (let year = year - 1 in year * 365 + year sdiv 4 - year sdiv 100 + year sdiv 400)"

definition total_days_before_date :: "date_detail \<Rightarrow> int" where
  "total_days_before_date detail =
     days_before_year (dd_year detail) - CM_BASELINE_DAY
     + sum_list (take (nat (dd_mon detail - 1))
         (g_cantian_month_days (IS_LEAP_YEAR (dd_year detail))))
     + dd_day detail"

definition check_zero_date :: "date_detail \<Rightarrow> bool" where
  "check_zero_date d \<longleftrightarrow>
     \<not> (dd_year d \<noteq> 0 \<or> dd_mon d \<noteq> 0 \<or> dd_day d \<noteq> 0 \<or> dd_hour d \<noteq> 0 \<or> dd_min d \<noteq> 0 \<or>
        dd_sec d \<noteq> 0 \<or> dd_millisec d \<noteq> 0 \<or> dd_microsec d \<noteq> 0 \<or> dd_nanosec d \<noteq> 0)"

definition check_datetime_vaild :: "date_detail \<Rightarrow> bool" where
  "check_datetime_vaild d =
     (if check_zero_date d then True
      else if \<not> CM_IS_VALID_YEAR (dd_year d) then False
      else if dd_mon d < 1 \<or> dd_mon d > 12 then False
      else if dd_day d < 1 \<or> dd_day d > CM_MONTH_DAYS (dd_year d) (dd_mon d) then False
      else if dd_hour d > 23 \<or> dd_min d > 59 \<or> dd_sec d > 59 then False
      else if dd_millisec d > 999 \<or> dd_microsec d > 999 then False
      else True)"

definition encode_asserts :: "date_detail \<Rightarrow> bool" where
  "encode_asserts d \<longleftrightarrow>
     CM_IS_VALID_YEAR (dd_year d) \<and> (dd_mon d \<ge> 1 \<and> dd_mon d \<le> 12) \<and>
     (dd_day d \<ge> 1 \<and> dd_day d \<le> 31) \<and> dd_hour d \<le> 23 \<and> dd_min d \<le> 59 \<and> dd_sec d \<le> 59 \<and>
     dd_microsec d \<le> 999 \<and> dd_millisec d \<le> 999"

definition cm_encode_date :: "date_detail \<Rightarrow> int option" where
  "cm_encode_date d =
     (if check_zero_date d then Some CM_ALL_ZERO_DATETIME
      else if \<not> encode_asserts d then None
      else
        let date = total_days_before_date d * SECONDS_PER_DAY;
            date = date + dd_hour d * SECONDS_PER_HOUR;
            date = date + dd_min d * SECONDS_PER_MIN;
            date = date + dd_sec d;
            date = date * MILLISECS_PER_SECOND + dd_millisec d
        in Some (date * MICROSECS_PER_MILLISEC + dd_microsec d))"

text \<open>The range of the unsigned members of \<open>date_detail_t\<close>: what every C value satisfies.\<close>

definition detail_typed :: "date_detail \<Rightarrow> bool" where
  "detail_typed d \<longleftrightarrow>
     0 \<le> dd_year d \<and> dd_year d < 65536 \<and> 0 \<le> dd_mon d \<and> dd_mon d < 256 \<and>
     0 \<le> dd_day d \<and> dd_day d < 256 \<and> 0 \<le> dd_hour d \<and> dd_hour d < 256 \<and>
     0 \<le> dd_min d \<and> dd_min d < 256 \<and> 0 \<le> dd_sec d \<and> dd_sec d < 256 \<and>
     0 \<le> dd_millisec d \<and> dd_millisec d < 65536 \<and>
     0 \<le> dd_microsec d \<and> dd_microsec d < 65536 \<and>
     0 \<le> dd_nanosec d \<and> dd_nanosec d < 65536"

section \<open>The day number\<close>

text \<open>Closed form of the days before a year, and its differences.\<close>

definition dby :: "int \<Rightarrow> int" where
  "dby y = (y - 1) * 365 + (y - 1) div 4 - (y - 1) div 100 + (y - 1) div 400"

lemma days_before_year_dby: "1 \<le> y \<Longrightarrow> days_before_year y = dby y"
  by (simp add: days_before_year_def dby_def sdiv_nonneg Let_def)

definition year_len :: "int \<Rightarrow> int" where
  "year_len y = (if IS_LEAP_YEAR y then 366 else 365)"

lemma dby_Suc: "dby (y + 1) = dby y + year_len y"
proof -
  define p q r where "p = (y - 1) div 4" and "q = (y - 1) div 100" and "r = (y - 1) div 400"
  define l4 l100 l400 where "l4 \<longleftrightarrow> y mod 4 = 0" and "l100 \<longleftrightarrow> y mod 100 = 0"
    and "l400 \<longleftrightarrow> y mod 400 = 0"
  have s: "y div k = (y - 1) div k + (if y mod k = 0 then 1 else 0)" if "0 < k" for k
    using div_Suc_int [OF that, of "y - 1"] by simp
  have "y div 4 = p + (if l4 then 1 else 0)" "y div 100 = q + (if l100 then 1 else 0)"
    "y div 400 = r + (if l400 then 1 else 0)"
    by (simp_all only: p_def q_def r_def l4_def l100_def l400_def s zero_less_numeral)
  then have "dby (y + 1) = y * 365 + (p + (if l4 then 1 else 0)) - (q + (if l100 then 1 else 0))
      + (r + (if l400 then 1 else 0))"
    by (simp only: dby_def add_diff_cancel_right')
  moreover have "dby y = (y - 1) * 365 + p - q + r"
    by (simp only: dby_def p_def q_def r_def)
  moreover have "year_len y = (if l4 \<and> (\<not> l100 \<or> l400) then 366 else 365)"
    by (simp only: year_len_def IS_LEAP_YEAR_def l4_def l100_def l400_def)
  moreover have "l100 \<Longrightarrow> l4" "l400 \<Longrightarrow> l100"
    unfolding l4_def l100_def l400_def mod_eq_0_iff_dvd
    using dvd_trans [of 4 100 y] dvd_trans [of 100 400 y] by simp_all
  ultimately show ?thesis by (cases l4; cases l100; cases l400) simp_all
qed

lemma year_len_bounds: "365 \<le> year_len y" "year_len y \<le> 366"
  by (auto simp: year_len_def)

lemma dby_less: "x < y \<Longrightarrow> dby x + year_len x \<le> dby y"
proof (induction "nat (y - x)" arbitrary: y)
  case 0
  then show ?case by simp
next
  case (Suc n)
  show ?case
  proof (cases "x + 1 = y")
    case True
    then show ?thesis using dby_Suc [of x] by simp
  next
    case False
    with Suc have "dby x + year_len x \<le> dby (y - 1)" by simp
    then show ?thesis using dby_Suc [of "y - 1"] year_len_bounds [of "y - 1"] by simp
  qed
qed

lemma dby_inject_range:
  assumes "dby x < n" "n \<le> dby x + year_len x" "dby y < n" "n \<le> dby y + year_len y"
  shows "x = y"
  using dby_less [of x y] dby_less [of y x] assms by (cases x y rule: linorder_cases) auto

lemma dby_cycle:
  assumes "0 \<le> b" "b \<le> 3" "0 \<le> c" "c \<le> 24"
  shows "dby (1 + 400 * a + 100 * b + 4 * c) = 146097 * a + 36524 * b + 1461 * c"
proof -
  have "(400 * a + 100 * b + 4 * c) div 4 = 100 * a + 25 * b + c"
    by (rule int_div_pos_eq [where r = 0]) simp_all
  moreover have "(400 * a + 100 * b + 4 * c) div 100 = 4 * a + b"
    using assms by (intro int_div_pos_eq [where r = "4 * c"]) simp_all
  moreover have "(400 * a + 100 * b + 4 * c) div 400 = a"
    using assms by (intro int_div_pos_eq [where r = "100 * b + 4 * c"]) simp_all
  ultimately show ?thesis by (simp add: dby_def)
qed

section \<open>The loops of the decoder\<close>

text \<open>A loop that subtracts a period and steps the year, in closed form.\<close>

lemma decode_400_closed:
  assumes "0 \<le> days" "0 \<le> y" "y + 400 * (days div 146097) < 65536"
  shows "decode_400 y days = (y + 400 * (days div 146097), days mod 146097)"
  using assms
proof (induction y days rule: decode_400.induct)
  case (1 y days)
  show ?case
  proof (cases "days \<ge> 146097")
    case True
    have d: "days div 146097 = (days - 146097) div 146097 + 1"
      by (rule div_minus_self_int) simp
    have q: "0 \<le> (days - 146097) div 146097" using True by (simp add: pos_imp_zdiv_nonneg_iff)
    have "u16 (y + 400) = y + 400" using "1.prems" d q by (intro u16_id) linarith+
    then show ?thesis
      using "1.IH" "1.prems" True d q by (subst decode_400.simps) (simp add: mod_minus_self_int)
  next
    case False
    then show ?thesis using "1.prems" by (subst decode_400.simps) simp
  qed
qed

lemma decode_4_closed:
  assumes "0 \<le> days" "0 \<le> y" "y + 4 * (days div 1461) < 65536"
  shows "decode_4 y days = (y + 4 * (days div 1461), days mod 1461)"
  using assms
proof (induction y days rule: decode_4.induct)
  case (1 y days)
  show ?case
  proof (cases "days \<ge> 1461")
    case True
    have d: "days div 1461 = (days - 1461) div 1461 + 1"
      by (rule div_minus_self_int) simp
    have q: "0 \<le> (days - 1461) div 1461" using True by (simp add: pos_imp_zdiv_nonneg_iff)
    have "u16 (y + 4) = y + 4" using "1.prems" d q by (intro u16_id) linarith+
    then show ?thesis
      using "1.IH" "1.prems" True d q by (subst decode_4.simps) (simp add: mod_minus_self_int)
  next
    case False
    then show ?thesis using "1.prems" by (subst decode_4.simps) simp
  qed
qed

lemma decode_100_closed:
  assumes "0 \<le> days" "days < 146097" "0 \<le> y" "y < 65000"
  shows "\<exists>b. 0 \<le> b \<and> b \<le> 3 \<and> decode_100 1 y days = (y + 100 * b, days - 36524 * b) \<and>
    0 \<le> days - 36524 * b \<and> days - 36524 * b < 36525"
proof -
  consider "days < 36524" | "36524 \<le> days" "days < 73048" | "73048 \<le> days" "days < 109572"
    | "109572 \<le> days"
    by linarith
  then show ?thesis
  proof cases
    case 1
    then show ?thesis using assms by (intro exI [of _ 0]) (simp add: decode_100.simps)
  next
    case 2
    then show ?thesis using assms by (intro exI [of _ 1]) (simp add: decode_100.simps cast_simps)
  next
    case 3
    then show ?thesis using assms by (intro exI [of _ 2]) (simp add: decode_100.simps cast_simps)
  next
    case 4
    then show ?thesis using assms by (intro exI [of _ 3]) (simp add: decode_100.simps cast_simps)
  qed
qed

lemma decode_1_spec:
  assumes "0 \<le> days" "1 \<le> y" "y + days < 65536" "decode_1 y days = (y', r)"
  shows "dby y' + r = dby y + days \<and> 0 \<le> r \<and> r \<le> 365 \<and> y \<le> y' \<and> y' \<le> y + days"
  using assms
proof (induction y days rule: decode_1.induct)
  case (1 y days)
  show ?case
  proof (cases "days > 365")
    case True
    let ?d = "(if IS_LEAP_YEAR y then days - 1 else days) - 365"
    have eq: "?d = days - year_len y" by (simp add: year_len_def)
    have c: "u16 (y + 1) = y + 1" using "1.prems" True by (intro u16_id) linarith+
    have "decode_1 (y + 1) ?d = (y', r)"
      using "1.prems"(4) True c by (subst (asm) decode_1.simps) simp
    then have "dby y' + r = dby (y + 1) + ?d \<and> 0 \<le> r \<and> r \<le> 365 \<and> y + 1 \<le> y' \<and> y' \<le> y + 1 + ?d"
      using "1.IH" "1.prems" True c by simp
    then show ?thesis using dby_Suc [of y] eq year_len_bounds [of y] by linarith
  next
    case False
    then show ?thesis using "1.prems" by (subst (asm) decode_1.simps) auto
  qed
qed

lemma cm_decode_leap_spec:
  assumes "0 \<le> n" "n < 20000000" "cm_decode_leap 1 n = (y, r)"
  shows "dby y + r = n \<and> 0 \<le> r \<and> r \<le> 365 \<and> 1 \<le> y \<and> y < 65536"
proof -
  let ?a = "n div 146097" and ?d = "n mod 146097"
  have a1: "0 \<le> ?a" using assms by (simp add: pos_imp_zdiv_nonneg_iff)
  have a2: "?a < 137" using assms by (intro div_less_int) simp_all
  note a = a1 a2
  have d: "0 \<le> ?d" "?d < 146097" by simp_all
  have s1: "decode_400 1 n = (1 + 400 * ?a, ?d)"
    using assms(1) a by (intro decode_400_closed) linarith+
  obtain b where b: "0 \<le> b" "b \<le> 3" and s2: "decode_100 1 (1 + 400 * ?a) ?d = (1 + 400 * ?a + 100 * b, ?d - 36524 * b)"
    and e: "0 \<le> ?d - 36524 * b" "?d - 36524 * b < 36525"
    using decode_100_closed [OF d, of "1 + 400 * ?a"] a by auto
  let ?e = "?d - 36524 * b"
  let ?c = "?e div 1461" and ?f = "?e mod 1461"
  have c1: "0 \<le> ?c" using e(1) by (simp only: pos_imp_zdiv_nonneg_iff zero_less_numeral)
  have c2: "?c < 25" using e(2) by (intro div_less_int) simp_all
  note c = c1 c2
  have f: "0 \<le> ?f" "?f < 1461" by simp_all
  have s3: "decode_4 (1 + 400 * ?a + 100 * b) ?e = (1 + 400 * ?a + 100 * b + 4 * ?c, ?f)"
    using a b c e by (intro decode_4_closed) linarith+
  have "decode_1 (1 + 400 * ?a + 100 * b + 4 * ?c) ?f = (y, r)"
    using assms(3) s1 s2 s3 by (simp add: cm_decode_leap_def)
  from decode_1_spec [OF f(1) _ _ this]
  have *: "dby y + r = dby (1 + 400 * ?a + 100 * b + 4 * ?c) + ?f \<and> 0 \<le> r \<and> r \<le> 365 \<and>
      1 + 400 * ?a + 100 * b + 4 * ?c \<le> y \<and> y \<le> 1 + 400 * ?a + 100 * b + 4 * ?c + ?f"
    using a b c f by linarith
  have "dby (1 + 400 * ?a + 100 * b + 4 * ?c) = 146097 * ?a + 36524 * b + 1461 * ?c"
    using b c by (intro dby_cycle) linarith+
  moreover have "146097 * ?a + ?d = n" "1461 * ?c + ?f = ?e" by (simp_all only: mult_div_mod_eq)
  ultimately show ?thesis using * a b c f by linarith
qed

section \<open>Months\<close>

lemma skip_months_spec:
  assumes "skip_months ts i days = Some (j, d)" "0 < days"
  shows "\<exists>m < length ts. j = i + int m \<and> days = sum_list (take m ts) + d \<and> 0 < d \<and> d \<le> ts ! m"
  using assms
proof (induction ts i days rule: skip_months.induct)
  case (2 t ts i days)
  show ?case
  proof (cases "days > t")
    case True
    with 2 obtain m where "m < length ts" "j = i + 1 + int m"
      "days - t = sum_list (take m ts) + d" "0 < d" "d \<le> ts ! m"
      by auto
    then show ?thesis by (intro exI [of _ "Suc m"]) simp
  next
    case False
    with 2 show ?thesis by (intro exI [of _ 0]) simp
  qed
qed simp

lemma skip_months_take:
  assumes "m < length ts" "0 < d" "d \<le> ts ! m" "\<forall>t \<in> set ts. 0 \<le> t"
  shows "skip_months ts i (sum_list (take m ts) + d) = Some (i + int m, d)"
  using assms
proof (induction ts arbitrary: i m)
  case (Cons t ts)
  show ?case
  proof (cases m)
    case 0
    then show ?thesis using Cons.prems by simp
  next
    case (Suc k)
    have "0 \<le> sum_list (take k ts)"
      using Cons.prems by (intro sum_list_nonneg) (auto dest: in_set_takeD)
    then show ?thesis using Cons Suc by (simp add: add.assoc)
  qed
qed simp

lemma length_month_days [simp]: "length (g_cantian_month_days l) = 12"
  by (simp add: g_cantian_month_days_def)

lemma sum_month_days: "sum_list (g_cantian_month_days (IS_LEAP_YEAR y)) = year_len y"
  by (simp add: g_cantian_month_days_def year_len_def)

lemma month_days_pos: "\<forall>t \<in> set (g_cantian_month_days l). 0 \<le> t"
  by (simp add: g_cantian_month_days_def)

lemma month_days_le: "m < 12 \<Longrightarrow> g_cantian_month_days l ! m \<le> 31"
proof -
  assume "m < 12"
  then have "g_cantian_month_days l ! m \<in> set (g_cantian_month_days l)" by simp
  then show ?thesis by (auto simp: g_cantian_month_days_def split: if_splits)
qed


section \<open>Decoding a day number\<close>

definition month_offset :: "int \<Rightarrow> int \<Rightarrow> int" where
  "month_offset y m = sum_list (take (nat (m - 1)) (g_cantian_month_days (IS_LEAP_YEAR y)))"

definition civil :: "int \<Rightarrow> int \<Rightarrow> int \<Rightarrow> bool" where
  "civil y m d \<longleftrightarrow> 1 \<le> y \<and> y \<le> 9999 \<and> 1 \<le> m \<and> m \<le> 12 \<and> 1 \<le> d \<and> d \<le> CM_MONTH_DAYS y m"

lemma civil_day_le: "civil y m d \<Longrightarrow> d \<le> 31"
proof -
  assume c: "civil y m d"
  then have "nat (m - 1) < 12" by (auto simp: civil_def)
  from month_days_le [OF this, of "IS_LEAP_YEAR y"] c show ?thesis
    by (auto simp: civil_def CM_MONTH_DAYS_def)
qed

lemma month_offset_bounds:
  assumes "civil y m d"
  shows "0 \<le> month_offset y m" "month_offset y m + d \<le> year_len y"
proof -
  let ?tab = "g_cantian_month_days (IS_LEAP_YEAR y)" and ?m = "nat (m - 1)"
  have m: "?m < 12" using assms by (auto simp: civil_def)
  show "0 \<le> month_offset y m" unfolding month_offset_def
    using month_days_pos by (intro sum_list_nonneg) (auto dest: in_set_takeD)
  have "?tab = take ?m ?tab @ ?tab ! ?m # drop (Suc ?m) ?tab"
    using m by (simp add: id_take_nth_drop)
  then have "year_len y = sum_list (take ?m ?tab @ ?tab ! ?m # drop (Suc ?m) ?tab)"
    using sum_month_days [of y] by metis
  moreover have "0 \<le> sum_list (drop (Suc ?m) ?tab)"
    using month_days_pos by (intro sum_list_nonneg) (auto dest: in_set_dropD)
  ultimately show "month_offset y m + d \<le> year_len y"
    using assms by (simp add: month_offset_def civil_def CM_MONTH_DAYS_def)
qed

lemma skip_months_civil:
  assumes "civil y m d"
  shows "skip_months (g_cantian_month_days (IS_LEAP_YEAR y)) 0 (month_offset y m + d) = Some (m - 1, d)"
proof -
  have "nat (m - 1) < 12" "int (nat (m - 1)) = m - 1" using assms by (auto simp: civil_def)
  moreover have "0 < d" "d \<le> g_cantian_month_days (IS_LEAP_YEAR y) ! nat (m - 1)"
    using assms by (auto simp: civil_def CM_MONTH_DAYS_def)
  ultimately show ?thesis
    unfolding month_offset_def using skip_months_take [of "nat (m - 1)" _ d 0] month_days_pos
    by simp
qed

lemma skip_months_last:
  "skip_months (g_cantian_month_days (IS_LEAP_YEAR y)) 0 (year_len y) = Some (11, 31)"
  by (simp add: g_cantian_month_days_def year_len_def)

lemma dby_bounds: "1 \<le> y \<Longrightarrow> y \<le> 9999 \<Longrightarrow> 0 \<le> dby y \<and> dby y \<le> 3651695"
proof -
  assume y: "1 \<le> y" "y \<le> 9999"
  have "dby 1 = 0" "dby 9999 = 3651694" by (simp_all add: dby_def)
  then show ?thesis
    using y dby_less [of 1 y] dby_less [of y 9999] year_len_bounds [of 1] year_len_bounds [of y]
    by (cases "y = 1"; cases "y = 9999") auto
qed

lemma decode_days_civil:
  assumes "civil y m d"
  shows "decode_days (dby y + month_offset y m + d) det =
    Some (det\<lparr>dd_year := y, dd_mon := m, dd_day := d\<rparr>)"
proof -
  let ?k = "month_offset y m + d" and ?n = "dby y + month_offset y m + d"
  have k: "1 \<le> ?k" "?k \<le> year_len y"
    using month_offset_bounds [OF assms] assms by (auto simp: civil_def)
  have y: "1 \<le> y" "y \<le> 9999" using assms by (auto simp: civil_def)
  have small: "u8 m = m" "u8 d = d"
    using assms civil_day_le [OF assms] by (auto simp: civil_def intro!: u8_id)
  obtain z r where zr: "cm_decode_leap 1 ?n = (z, r)" by fastforce
  have sp: "dby z + r = ?n" "0 \<le> r" "r \<le> 365" "1 \<le> z" "z < 65536"
    using cm_decode_leap_spec [OF _ _ zr] k y dby_bounds [OF y] year_len_bounds [of y] by auto
  show ?thesis
  proof (cases "r = 0")
    case True
    have "dby (z - 1) < ?n" "?n \<le> dby (z - 1) + year_len (z - 1)"
      using sp True dby_Suc [of "z - 1"] year_len_bounds [of "z - 1"] by auto
    with k have z: "z = y + 1" using dby_inject_range [of "z - 1" ?n y] by auto
    then have "?k = year_len y" using sp True dby_Suc [of y] by auto
    then have "m = 12" "d = 31"
      using skip_months_civil [OF assms] skip_months_last [of y] by auto
    then show ?thesis using zr True z y by (simp add: decode_days_def cast_simps)
  next
    case False
    have "dby z < ?n" "?n \<le> dby z + year_len z"
      using sp False year_len_bounds [of z] by auto
    with k have z: "z = y" using dby_inject_range [of z ?n y] by auto
    then have "r = ?k" using sp by simp
    then show ?thesis
      using zr z False skip_months_civil [OF assms] small by (simp add: decode_days_def)
  qed
qed

section \<open>The time of day\<close>

lemma cm_decode_date_split:
  assumes "date \<noteq> CM_ALL_ZERO_DATETIME"
  shows "cm_decode_date date det = decode_days (s32 (date div 86400000000 + 730120))
    (decode_time (date mod 86400000000) det)"
  unfolding cm_decode_date_def if_not_P [OF assms]
  by (simp only: Let_def UNITS_PER_DAY_def CM_BASELINE_DAY_def prod.case
      split_day [OF zero_less_numeral])

definition day_micros :: "date_detail \<Rightarrow> int" where
  "day_micros d = ((dd_hour d * 3600 + dd_min d * 60 + dd_sec d) * 1000 + dd_millisec d) * 1000
     + dd_microsec d"

definition valid_time :: "date_detail \<Rightarrow> bool" where
  "valid_time d \<longleftrightarrow> 0 \<le> dd_hour d \<and> dd_hour d \<le> 23 \<and> 0 \<le> dd_min d \<and> dd_min d \<le> 59 \<and>
     0 \<le> dd_sec d \<and> dd_sec d \<le> 59 \<and> 0 \<le> dd_millisec d \<and> dd_millisec d \<le> 999 \<and>
     0 \<le> dd_microsec d \<and> dd_microsec d \<le> 999"

lemma day_micros_bounds: "valid_time d \<Longrightarrow> 0 \<le> day_micros d \<and> day_micros d < 86400000000"
  unfolding valid_time_def day_micros_def by auto

lemma decode_time_day_micros:
  assumes "valid_time d"
  shows "decode_time (day_micros d) det = det\<lparr>dd_microsec := dd_microsec d,
    dd_millisec := dd_millisec d, dd_hour := dd_hour d, dd_min := dd_min d, dd_sec := dd_sec d\<rparr>"
proof -
  have v: "0 \<le> dd_hour d" "dd_hour d \<le> 23" "0 \<le> dd_min d" "dd_min d \<le> 59"
     "0 \<le> dd_sec d" "dd_sec d \<le> 59" "0 \<le> dd_millisec d" "dd_millisec d \<le> 999"
     "0 \<le> dd_microsec d" "dd_microsec d \<le> 999"
    using assms by (auto simp: valid_time_def)
  let ?s = "dd_hour d * 3600 + dd_min d * 60 + dd_sec d"
  have n: "0 \<le> day_micros d" using day_micros_bounds [OF assms] by simp
  have a: "day_micros d sdiv 1000 = ?s * 1000 + dd_millisec d" "day_micros d smod 1000 = dd_microsec d"
    using v n int_div_pos_eq [of "day_micros d" 1000 "?s * 1000 + dd_millisec d" "dd_microsec d"]
      int_mod_pos_eq [of "day_micros d" 1000 "?s * 1000 + dd_millisec d" "dd_microsec d"]
    by (simp_all add: sdiv_nonneg smod_nonneg day_micros_def)
  have b: "(?s * 1000 + dd_millisec d) sdiv 1000 = ?s" "(?s * 1000 + dd_millisec d) smod 1000 = dd_millisec d"
    using v int_div_pos_eq [of "?s * 1000 + dd_millisec d" 1000 ?s "dd_millisec d"]
      int_mod_pos_eq [of "?s * 1000 + dd_millisec d" 1000 ?s "dd_millisec d"]
    by (simp_all add: sdiv_nonneg smod_nonneg)
  have "?s div 3600 = dd_hour d"
    using v by (intro int_div_pos_eq [where r = "dd_min d * 60 + dd_sec d"]) auto
  then have c: "?s sdiv 3600 = dd_hour d" using v by (simp add: sdiv_nonneg)
  have "(dd_min d * 60 + dd_sec d) div 60 = dd_min d"
    using v by (intro int_div_pos_eq [where r = "dd_sec d"]) auto
  then have e: "(dd_min d * 60 + dd_sec d) sdiv 60 = dd_min d" using v by (simp add: sdiv_nonneg)
  show ?thesis using v a b c e
    by (simp add: decode_time_def Let_def cast_simps)
qed

section \<open>Round trips\<close>

lemma cm_encode_date_closed:
  assumes "civil (dd_year d) (dd_mon d) (dd_day d)" "valid_time d"
  shows "cm_encode_date d =
    Some ((dby (dd_year d) + month_offset (dd_year d) (dd_mon d) + dd_day d - 730120) * 86400000000
      + day_micros d)"
proof -
  have "dd_day d \<le> 31" using assms(1) by (rule civil_day_le)
  then have "encode_asserts d" "\<not> check_zero_date d"
    using assms by (auto simp: encode_asserts_def check_zero_date_def civil_def valid_time_def CM_IS_VALID_YEAR_def)
  then show ?thesis using assms(1)
    by (simp add: cm_encode_date_def Let_def total_days_before_date_def days_before_year_dby
        civil_def month_offset_def day_micros_def algebra_simps)
qed

lemma check_datetime_vaild_iff:
  assumes "detail_typed d"
  shows "check_datetime_vaild d \<longleftrightarrow>
    check_zero_date d \<or> civil (dd_year d) (dd_mon d) (dd_day d) \<and> valid_time d"
  using assms
  by (auto simp: check_datetime_vaild_def civil_def valid_time_def detail_typed_def CM_IS_VALID_YEAR_def)

lemma cm_decode_encoded:
  assumes "civil y m day" "valid_time d"
  shows "cm_decode_date ((dby y + month_offset y m + day - 730120) * 86400000000 + day_micros d) det =
    Some (det\<lparr>dd_year := y, dd_mon := m, dd_day := day, dd_hour := dd_hour d, dd_min := dd_min d,
      dd_sec := dd_sec d, dd_millisec := dd_millisec d, dd_microsec := dd_microsec d\<rparr>)"
proof -
  let ?n = "dby y + month_offset y m + day"
  let ?date = "(?n - 730120) * 86400000000 + day_micros d"
  have b: "0 \<le> day_micros d" "day_micros d < 86400000000" using day_micros_bounds [OF assms(2)] by auto
  have n: "1 \<le> ?n" "?n \<le> 4000000"
    using assms(1) dby_bounds [of y] month_offset_bounds [OF assms(1)] year_len_bounds [of y]
    by (auto simp: civil_def)
  have "?date = 86400000000 * (?n - 730120) + day_micros d" by simp
  from int_mod_pos_eq [OF this b] int_div_pos_eq [OF this b]
  have dm: "?date mod 86400000000 = day_micros d" "?date div 86400000000 = ?n - 730120" .
  have z: "?date \<noteq> CM_ALL_ZERO_DATETIME" using n b by simp
  have "cm_decode_date ?date det = decode_days (s32 (?n - 730120 + 730120)) (decode_time (day_micros d) det)"
    by (simp only: cm_decode_date_split [OF z] dm)
  also have "s32 (?n - 730120 + 730120) = ?n" using n by (simp add: cast_simps)
  finally show ?thesis
    using decode_days_civil [OF assms(1)] decode_time_day_micros [OF assms(2)] by simp
qed

lemma ex_year:
  assumes "1 \<le> n" "n \<le> 3652059"
  shows "\<exists>y. 1 \<le> y \<and> y \<le> 9999 \<and> dby y < n \<and> n \<le> dby y + year_len y"
proof -
  obtain z r where zr: "cm_decode_leap 1 n = (z, r)" by fastforce
  have sp: "dby z + r = n" "0 \<le> r" "r \<le> 365" "1 \<le> z"
    using cm_decode_leap_spec [OF _ _ zr] assms by auto
  define y where "y = (if r = 0 then z - 1 else z)"
  have "dby y < n" "n \<le> dby y + year_len y"
    using sp dby_Suc [of "z - 1"] year_len_bounds [of "z - 1"] year_len_bounds [of z]
    by (auto simp: y_def)
  moreover have "dby 1 = 0" "dby 10000 = 3652059" by (simp_all add: dby_def)
  moreover have "1 \<le> y"
  proof (rule ccontr)
    assume "\<not> 1 \<le> y"
    then have "dby y + year_len y \<le> dby 1" by (intro dby_less) simp
    with calculation assms show False by simp
  qed
  moreover have "y \<le> 9999"
  proof (rule ccontr)
    assume "\<not> y \<le> 9999"
    then have "dby 10000 \<le> dby y"
      using dby_less [of 10000 y] year_len_bounds [of 10000] by (cases "y = 10000") auto
    with calculation assms show False by simp
  qed
  ultimately show ?thesis by blast
qed

lemma skip_months_Some:
  "0 < days \<Longrightarrow> days \<le> sum_list ts \<Longrightarrow> \<exists>r. skip_months ts i days = Some r"
  by (induction ts i days rule: skip_months.induct) auto

lemma ex_civil:
  assumes "1 \<le> n" "n \<le> 3652059"
  shows "\<exists>y m d. civil y m d \<and> n = dby y + month_offset y m + d"
proof -
  obtain y where y: "1 \<le> y" "y \<le> 9999" "dby y < n" "n \<le> dby y + year_len y"
    using ex_year [OF assms] by auto
  let ?tab = "g_cantian_month_days (IS_LEAP_YEAR y)"
  have "0 < n - dby y" "n - dby y \<le> sum_list ?tab" using y by (simp_all add: sum_month_days)
  then obtain j d where "skip_months ?tab 0 (n - dby y) = Some (j, d)"
    using skip_months_Some by fastforce
  from skip_months_spec [OF this] y obtain m where
    "m < 12" "j = int m" "n - dby y = sum_list (take m ?tab) + d" "0 < d" "d \<le> ?tab ! m"
    by auto
  then have "civil y (int m + 1) d \<and> n = dby y + month_offset y (int m + 1) + d"
    using y by (simp add: civil_def CM_MONTH_DAYS_def month_offset_def)
  then show ?thesis by blast
qed

lemma ex_day_micros:
  assumes "0 \<le> t" "t < 86400000000"
  shows "\<exists>d. valid_time d \<and> day_micros d = t"
proof -
  define us ms0 ms s0 s mi0 mi h where "us = t mod 1000" and "ms0 = t div 1000" and "ms = ms0 mod 1000"
    and "s0 = ms0 div 1000" and "s = s0 mod 60" and "mi0 = s0 div 60" and "mi = mi0 mod 60"
    and "h = mi0 div 60"
  note defs = us_def ms0_def ms_def s0_def s_def mi0_def mi_def h_def
  have eqs: "1000 * ms0 + us = t" "1000 * s0 + ms = ms0" "60 * mi0 + s = s0" "60 * h + mi = mi0"
    by (simp_all only: defs mult_div_mod_eq)
  have b: "0 \<le> us" "us < 1000" "0 \<le> ms" "ms < 1000" "0 \<le> s" "s < 60" "0 \<le> mi" "mi < 60"
    by (simp_all only: defs pos_mod_sign pos_mod_bound zero_less_numeral)
  have "0 \<le> h \<and> h \<le> 23" using eqs b assms by linarith
  moreover define d where "d = \<lparr>dd_year = 0, dd_mon = 0, dd_day = 0, dd_hour = h, dd_min = mi,
    dd_sec = s, dd_millisec = ms, dd_microsec = us, dd_nanosec = 0, dd_tz_offset = 0\<rparr>"
  ultimately have "valid_time d" "day_micros d = t"
    using b eqs by (simp_all add: valid_time_def day_micros_def)
  then show ?thesis by blast
qed

lemma ex_encoded:
  assumes "-63082281600000000 \<le> t" "t < 252455616000000000"
  shows "\<exists>y m day d. civil y m day \<and> valid_time d \<and>
    t = (dby y + month_offset y m + day - 730120) * 86400000000 + day_micros d"
proof -
  obtain q r where t: "t = 86400000000 * q + r" "0 \<le> r" "r < 86400000000"
    using mult_div_mod_eq [of 86400000000 t] pos_mod_sign [of 86400000000 t]
      pos_mod_bound [of 86400000000 t] by (metis zero_less_numeral)
  then have q: "1 \<le> q + 730120" "q + 730120 \<le> 3652059" using assms by linarith+
  obtain y m day where c: "civil y m day" "q + 730120 = dby y + month_offset y m + day"
    using ex_civil [OF q] by auto
  obtain d where d: "valid_time d" "day_micros d = r" using ex_day_micros [OF t(2,3)] by auto
  have "t = (dby y + month_offset y m + day - 730120) * 86400000000 + day_micros d"
    using t(1) d(2) by (simp only: c(2) [symmetric]) simp
  then show ?thesis using c(1) d(1) by blast
qed

section \<open>Order\<close>

definition date_fields :: "date_detail \<Rightarrow> int list" where
  "date_fields d = [dd_year d, dd_mon d, dd_day d, dd_hour d, dd_min d, dd_sec d,
     dd_millisec d, dd_microsec d]"

lemma month_offset_less:
  assumes "civil y m d" "civil y m' d'" "m < m'"
  shows "month_offset y m + d \<le> month_offset y m'"
proof -
  let ?tab = "g_cantian_month_days (IS_LEAP_YEAR y)" and ?m = "nat (m - 1)" and ?m' = "nat (m' - 1)"
  have m: "?m < ?m'" "?m' < 12" using assms by (auto simp: civil_def)
  have "?m' = Suc ?m + (?m' - Suc ?m)" using m by linarith
  then have "take ?m' ?tab = take (Suc ?m + (?m' - Suc ?m)) ?tab" by (rule arg_cong)
  also have "\<dots> = take ?m ?tab @ ?tab ! ?m # take (?m' - Suc ?m) (drop (Suc ?m) ?tab)"
    using m by (simp only: take_add take_Suc_conv_app_nth length_month_days) simp
  finally have "month_offset y m' =
      month_offset y m + ?tab ! ?m + sum_list (take (?m' - Suc ?m) (drop (Suc ?m) ?tab))"
    by (simp add: month_offset_def)
  moreover have "0 \<le> sum_list (take (?m' - Suc ?m) (drop (Suc ?m) ?tab))"
    using month_days_pos by (intro sum_list_nonneg) (auto dest: in_set_dropD in_set_takeD)
  ultimately show ?thesis using assms(1) by (simp add: civil_def CM_MONTH_DAYS_def)
qed

lemma day_number_less:
  assumes "civil y m d" "civil y' m' d'" "y < y' \<or> y = y' \<and> (m < m' \<or> m = m' \<and> d < d')"
  shows "dby y + month_offset y m + d < dby y' + month_offset y' m' + d'"
  using assms(3)
proof (elim disjE conjE)
  assume "y < y'"
  then show ?thesis
    using dby_less [of y y'] month_offset_bounds [OF assms(1)] month_offset_bounds [OF assms(2)] assms(2)
    by (auto simp: civil_def)
next
  assume "y = y'" "m < m'"
  then show ?thesis using month_offset_less [of y m d m' d'] assms by (auto simp: civil_def)
next
  assume "y = y'" "m = m'" "d < d'"
  then show ?thesis by simp
qed


lemma day_micros_less:
  assumes "valid_time d" "valid_time e"
    and "[dd_hour d, dd_min d, dd_sec d, dd_millisec d, dd_microsec d] <
      [dd_hour e, dd_min e, dd_sec e, dd_millisec e, dd_microsec e]"
  shows "day_micros d < day_micros e"
  using assms unfolding valid_time_def day_micros_def Cons_less_Cons by auto

lemma encoded_less:
  assumes "civil (dd_year d) (dd_mon d) (dd_day d)" "valid_time d"
    and "civil (dd_year e) (dd_mon e) (dd_day e)" "valid_time e"
    and "date_fields d < date_fields e"
    and "cm_encode_date d = Some s" "cm_encode_date e = Some t"
  shows "s < t"
proof -
  let ?n = "\<lambda>d. dby (dd_year d) + month_offset (dd_year d) (dd_mon d) + dd_day d"
  have st: "s = (?n d - 730120) * 86400000000 + day_micros d"
      "t = (?n e - 730120) * 86400000000 + day_micros e"
    using assms cm_encode_date_closed [OF assms(1,2)] cm_encode_date_closed [OF assms(3,4)] by auto
  have b: "0 \<le> day_micros d" "day_micros d < 86400000000" "0 \<le> day_micros e" "day_micros e < 86400000000"
    using day_micros_bounds assms(2,4) by auto
  consider "?n d < ?n e" | "?n d = ?n e" "day_micros d < day_micros e"
    using assms(5) day_number_less [OF assms(1,3)] day_micros_less [OF assms(2,4)]
    by (auto simp: date_fields_def)
  then show ?thesis
  proof cases
    case 1
    then have "(?n d - 730120 + 1) * 86400000000 \<le> (?n e - 730120) * 86400000000"
      by (intro mult_right_mono) simp_all
    then show ?thesis unfolding st using b by (simp add: distrib_right)
  next
    case 2
    then show ?thesis unfolding st by simp
  qed
qed

section \<open>Properties\<close>

text \<open>
  C17: every date the validity check accepts is encoded without an assertion failure, and
  decoding the encoded value, into whatever the output structure held before, restores year,
  month, day, hour, minute, second, millisecond and microsecond. The all-zero date is included.
\<close>

theorem encode_decode_date:
  assumes "detail_typed d" "check_datetime_vaild d"
  shows "\<exists>t r. cm_encode_date d = Some t \<and> cm_decode_date t det = Some r \<and>
    date_fields r = date_fields d"
proof (cases "check_zero_date d")
  case True
  then show ?thesis
    by (simp add: cm_encode_date_def cm_decode_date_def cm_set_all_zero_detail_def date_fields_def
        check_zero_date_def del: date_consts)
next
  case False
  with assms have c: "civil (dd_year d) (dd_mon d) (dd_day d)" "valid_time d"
    by (simp_all add: check_datetime_vaild_iff)
  show ?thesis
    using cm_encode_date_closed [OF c] cm_decode_encoded [OF c] by (simp add: date_fields_def)
qed

text \<open>
  every 64-bit value from 0001-01-01 00:00:00 up to the last microsecond of the year 9999
  decodes, without running past the month table, to a date the validity check accepts, and
  encoding that date returns the value.
\<close>

lemma decode_encode_date:
  assumes "-63082281600000000 \<le> t" "t < 252455616000000000"
  shows "\<exists>r. cm_decode_date t det = Some r \<and> \<not> check_zero_date r \<and> check_datetime_vaild r \<and>
    cm_encode_date r = Some t"
proof -
  obtain y m day d where c: "civil y m day" "valid_time d"
    "t = (dby y + month_offset y m + day - 730120) * 86400000000 + day_micros d"
    using ex_encoded [OF assms] by auto
  define r where "r = det\<lparr>dd_year := y, dd_mon := m, dd_day := day, dd_hour := dd_hour d,
    dd_min := dd_min d, dd_sec := dd_sec d, dd_millisec := dd_millisec d, dd_microsec := dd_microsec d\<rparr>"
  have "civil (dd_year r) (dd_mon r) (dd_day r)" "valid_time r" "day_micros r = day_micros d"
    using c by (simp_all add: r_def valid_time_def day_micros_def)
  then show ?thesis
    using cm_decode_encoded [OF c(1,2)] c(3) cm_encode_date_closed [of r]
    by (auto simp: r_def civil_def check_zero_date_def check_datetime_vaild_def valid_time_def
       CM_IS_VALID_YEAR_def)
qed

text \<open>
  the encoding of the non-zero valid dates is an order embedding: comparing two encoded
  values as integers, as the index structures do, compares the dates field by field.
\<close>

lemma encode_date_mono:
  assumes "detail_typed d" "check_datetime_vaild d" "\<not> check_zero_date d"
    and "detail_typed e" "check_datetime_vaild e" "\<not> check_zero_date e"
    and "cm_encode_date d = Some s" "cm_encode_date e = Some t"
  shows "s < t \<longleftrightarrow> date_fields d < date_fields e"
proof -
  have c: "civil (dd_year d) (dd_mon d) (dd_day d)" "valid_time d"
    "civil (dd_year e) (dd_mon e) (dd_day e)" "valid_time e"
    using assms by (simp_all add: check_datetime_vaild_iff)
  have eq: "s = t" if "date_fields d = date_fields e"
    using that c assms(7,8) by (simp add: cm_encode_date_closed date_fields_def day_micros_def)
  show ?thesis
    using encoded_less [OF c _ assms(7,8)] encoded_less [OF c(3,4,1,2) _ assms(8,7)] eq
    by (metis linorder_neqE order_less_asym)
qed


section \<open>Witnesses\<close>

definition leap_day :: date_detail where
  "leap_day = \<lparr>dd_year = 2000, dd_mon = 2, dd_day = 29, dd_hour = 23, dd_min = 59, dd_sec = 58,
     dd_millisec = 123, dd_microsec = 456, dd_nanosec = 0, dd_tz_offset = 0\<rparr>"

definition year_end :: date_detail where
  "year_end = leap_day\<lparr>dd_mon := 12, dd_day := 31\<rparr>"

lemma leap_day_valid: "detail_typed leap_day \<and> check_datetime_vaild leap_day \<and> \<not> check_zero_date leap_day"
  by (simp add: leap_day_def detail_typed_def check_datetime_vaild_def check_zero_date_def
      CM_IS_VALID_YEAR_def CM_MONTH_DAYS_def g_cantian_month_days_def IS_LEAP_YEAR_def)

lemma year_end_valid: "detail_typed year_end \<and> check_datetime_vaild year_end \<and> \<not> check_zero_date year_end"
  by (simp add: year_end_def leap_day_def detail_typed_def check_datetime_vaild_def check_zero_date_def
      CM_IS_VALID_YEAR_def CM_MONTH_DAYS_def g_cantian_month_days_def IS_LEAP_YEAR_def)

lemma leap_day_encoded: "cm_encode_date leap_day = Some 5183998123456"
  by (simp add: leap_day_def cm_encode_date_def check_zero_date_def encode_asserts_def Let_def
      CM_IS_VALID_YEAR_def total_days_before_date_def days_before_year_def sdiv_nonneg
      g_cantian_month_days_def IS_LEAP_YEAR_def)

lemma year_end_encoded: "cm_encode_date year_end = Some 31622398123456"
  by (simp add: year_end_def leap_day_def cm_encode_date_def check_zero_date_def encode_asserts_def
      Let_def CM_IS_VALID_YEAR_def total_days_before_date_def days_before_year_def sdiv_nonneg
      g_cantian_month_days_def IS_LEAP_YEAR_def)

theorem encode_decode_date_witness:
  "detail_typed leap_day \<and> check_datetime_vaild leap_day \<and>
   (\<exists>t r. cm_encode_date leap_day = Some t \<and> cm_decode_date t year_end = Some r \<and>
      date_fields r = date_fields leap_day)"
  using encode_decode_date [of leap_day year_end] leap_day_valid by simp

lemma decode_encode_date_witness:
  "\<exists>r. cm_decode_date (-1) leap_day = Some r \<and> \<not> check_zero_date r \<and> check_datetime_vaild r \<and>
    cm_encode_date r = Some (-1)"
  using decode_encode_date [of "-1" leap_day] by simp

lemma encode_date_mono_witness:
  "cm_encode_date leap_day = Some 5183998123456 \<and> cm_encode_date year_end = Some 31622398123456 \<and>
   date_fields leap_day < date_fields year_end"
  using encode_date_mono [of leap_day year_end 5183998123456 31622398123456]
    leap_day_valid year_end_valid leap_day_encoded year_end_encoded by simp

end
