(* ===== verification/CTC_Mydec.thy ===== *)
theory CTC_Mydec
  imports CTC_Prelude
begin

text \<open>
  Decimal columns (datatype_cnvrtr.cc): MySQL's \<open>my_decimal\<close> keeps nine decimal digits in a
  word, Cantian's \<open>dec4_t\<close> four digits in a cell and an exponent to the base 10000. The
  conversion in either direction goes through a buffer \<open>digits\<close> of single decimal digits with
  three indices: \<open>start\<close>, \<open>point\<close> (the first fraction digit) and \<open>end\<close>.

  A digit buffer is a list of \<^typ>\<open>int\<close>; indices are \<^typ>\<open>int\<close>, since the loops run them below 0.
  The cells of a \<open>dec4_t\<close> are the list of the cells in use, \<open>cells[0 .. ncells - 1]\<close>; that they
  fit the 18 cells of the C type is a theorem. The meaning of both formats is the decimal
  expansion of the number: the digit at each power of ten.
\<close>

section \<open>Data\<close>

record my_decimal =
  md_sign :: bool
  md_intg :: int
  md_frac :: int
  md_buf :: "int list"

record dec4 =
  d4_sign :: int
  d4_ncells :: int
  d4_expn :: int
  d4_cells :: "int list"

definition DIG_PER_MYDEC :: int where "DIG_PER_MYDEC = 9"
definition DIG_PER_DEC4 :: int where "DIG_PER_DEC4 = 4"
definition DEC4_CELL_SIZE :: int where "DEC4_CELL_SIZE = 18"

lemmas mydec_consts [simp] = DIG_PER_MYDEC_def DIG_PER_DEC4_def DEC4_CELL_SIZE_def

text \<open>
  Reading a digit buffer; the model's lists are as long as the C array, so that an index out of
  the range of the list is an index out of the range of the array.
\<close>

definition dig :: "int list \<Rightarrow> int \<Rightarrow> int" where
  "dig digits i = (if 0 \<le> i \<and> i < int (length digits) then digits ! nat i else 0)"

section \<open>Single words\<close>

text \<open>The loop of \<open>record_digital\<close>: \<open>end\<close> runs down from the last index of the word.\<close>

function record_loop :: "int list \<Rightarrow> int \<Rightarrow> int \<Rightarrow> int \<Rightarrow> int list" where
  "record_loop digits val start end =
     (if val \<noteq> 0 \<and> end \<ge> start
      then record_loop (digits[nat end := u8 (val smod 10)]) (val sdiv 10) start (end - 1)
      else digits)"
  by pat_completeness auto
termination
  by (relation "measure (\<lambda>(_, _, start, end). nat (end - start + 1))") auto

declare record_loop.simps [simp del]

definition record_digital :: "int list \<Rightarrow> int \<Rightarrow> int \<Rightarrow> int \<Rightarrow> int list" where
  "record_digital digits val start step = record_loop digits val start (start + step - 1)"

text \<open>The two loops of \<open>restore_digital\<close>: the digits up to \<open>end\<close>, then zeros up to \<open>newEnd\<close>.\<close>

function restore_digits :: "int list \<Rightarrow> int \<Rightarrow> int \<Rightarrow> int \<Rightarrow> int" where
  "restore_digits digits val start end =
     (if start \<le> end then restore_digits digits (val * 10 + dig digits start) (start + 1) end
      else val)"
  by pat_completeness auto
termination
  by (relation "measure (\<lambda>(_, _, start, end). nat (end - start + 1))") auto

function restore_zeros :: "int \<Rightarrow> int \<Rightarrow> int \<Rightarrow> int" where
  "restore_zeros val start newEnd =
     (if start \<le> newEnd then restore_zeros (val * 10) (start + 1) newEnd else val)"
  by pat_completeness auto
termination
  by (relation "measure (\<lambda>(_, start, newEnd). nat (newEnd - start + 1))") auto

declare restore_digits.simps [simp del] restore_zeros.simps [simp del]

definition restore_digital :: "int list \<Rightarrow> int \<Rightarrow> int \<Rightarrow> int \<Rightarrow> int" where
  "restore_digital digits start end step =
     restore_zeros (restore_digits digits 0 start end)
       (if start \<le> end then end + 1 else start) (start + step - 1)"

section \<open>From MySQL to the digit buffer\<close>

text \<open>The loops over the words \<open>buf[i]\<close>, \<open>i\<close> up to but not including \<open>n\<close>.\<close>

fun record_words :: "int list \<Rightarrow> int list \<Rightarrow> int \<Rightarrow> int \<Rightarrow> int list" where
  "record_words digits [] i step = digits"
| "record_words digits (w # ws) i step =
     record_words (record_digital digits w (i * step) step) ws (i + 1) step"

text \<open>\<open>while (end >= point && digits[end] == 0) end--;\<close>\<close>

function trim_end :: "int list \<Rightarrow> int \<Rightarrow> int \<Rightarrow> int" where
  "trim_end digits point end =
     (if end \<ge> point \<and> dig digits end = 0 then trim_end digits point (end - 1) else end)"
  by pat_completeness auto
termination
  by (relation "measure (\<lambda>(_, point, end). nat (end - point + 1))") auto

text \<open>\<open>while (start < bound && digits[start] == 0) start++;\<close>\<close>

function trim_start :: "int list \<Rightarrow> int \<Rightarrow> int \<Rightarrow> int" where
  "trim_start digits bound start =
     (if start < bound \<and> dig digits start = 0 then trim_start digits bound (start + 1) else start)"
  by pat_completeness auto
termination
  by (relation "measure (\<lambda>(_, bound, start). nat (bound - start))") auto

declare trim_end.simps [simp del] trim_start.simps [simp del]

definition convert_mydec_to_digital ::
    "my_decimal \<Rightarrow> int list \<Rightarrow> int list \<times> int \<times> int \<times> int" where
  "convert_mydec_to_digital myd digits =
     (let my_point_loc = (md_intg myd + DIG_PER_MYDEC - 1) sdiv DIG_PER_MYDEC;
          digits = record_words digits (take (nat my_point_loc) (md_buf myd)) 0 DIG_PER_MYDEC;
          digits = (if md_frac myd \<noteq> 0
            then let my_frac_loc = (md_frac myd + DIG_PER_MYDEC - 1) sdiv DIG_PER_MYDEC + my_point_loc
                 in record_words digits
                      (take (nat (my_frac_loc - my_point_loc)) (drop (nat my_point_loc) (md_buf myd)))
                      my_point_loc DIG_PER_MYDEC
            else digits);
          point = my_point_loc * DIG_PER_MYDEC;
          end = trim_end digits point (point + md_frac myd - 1);
          start = trim_start digits end 0
      in (digits, start, point, end))"

section \<open>From the digit buffer to Cantian\<close>

text \<open>\<open>while (non_zero_end >= 0 && digits[non_zero_end] == 0) non_zero_end--;\<close> is \<open>trim_end\<close> with bound 0.\<close>

function dec4_cells_loop :: "int list \<Rightarrow> int \<Rightarrow> int \<Rightarrow> int list" where
  "dec4_cells_loop digits digidx non_zero_end =
     (if digidx \<le> non_zero_end
      then u16 (if digidx + DIG_PER_DEC4 \<le> non_zero_end
                then restore_digital digits digidx (digidx + DIG_PER_DEC4 - 1) DIG_PER_DEC4
                else restore_digital digits digidx non_zero_end DIG_PER_DEC4)
           # dec4_cells_loop digits (digidx + DIG_PER_DEC4) non_zero_end
      else [])"
  by pat_completeness auto
termination
  by (relation "measure (\<lambda>(_, digidx, nze). nat (nze - digidx + 1))") auto

declare dec4_cells_loop.simps [simp del]

definition convert_digital_to_dec4 ::
    "int list \<Rightarrow> bool \<Rightarrow> int \<Rightarrow> int \<Rightarrow> int \<Rightarrow> dec4" where
  "convert_digital_to_dec4 digits sign start point end =
     (let expn = point - start; d4_sg = (if sign then 1 else 0)
      in if start = end \<and> dig digits start = 0 \<or> start = point \<and> end < point
         then \<lparr>d4_sign = d4_sg, d4_ncells = 0, d4_expn = 0, d4_cells = []\<rparr>
         else
           let (cell0_num, expn) =
                 (if expn > 0
                  then let cell0_num = expn smod DIG_PER_DEC4
                       in (cell0_num,
                           if cell0_num = 0 \<and> expn \<ge> DIG_PER_DEC4 then expn - DIG_PER_DEC4 else expn)
                  else let cell0_num = DIG_PER_DEC4 + expn smod DIG_PER_DEC4
                       in (cell0_num, expn - cell0_num));
               cell0 = (if cell0_num \<noteq> 0
                        then [u16 (restore_digits digits 0 start (start + cell0_num - 1))] else []);
               digidx = start + cell0_num;
               non_zero_end = trim_end digits 0 end;
               cells = cell0 @ dec4_cells_loop digits digidx non_zero_end
           in \<lparr>d4_sign = d4_sg, d4_ncells = int (length cells), d4_expn = s8 (expn sdiv DIG_PER_DEC4),
               d4_cells = cells\<rparr>)"

section \<open>From Cantian to the digit buffer\<close>

text \<open>
  The first test of \<open>convert_dec4_to_digital\<close> compares the address of the array \<open>cells\<close>
  with 0, so its branch is never taken.
\<close>

definition convert_dec4_to_digital :: "dec4 \<Rightarrow> int list \<Rightarrow> int list \<times> int \<times> int \<times> int" where
  "convert_dec4_to_digital d digits =
     (let (point, i) =
            (if d4_expn d \<ge> 0
             then (if d4_ncells d \<noteq> 0 then (d4_expn d + 1) * DIG_PER_DEC4 else 0, 0)
             else (0, - (d4_expn d + 1)));
          digits = record_words digits (take (nat (d4_ncells d)) (d4_cells d)) i DIG_PER_DEC4;
          i = i + d4_ncells d;
          end = i * DIG_PER_DEC4 - 1;
          end = (if d4_expn d > d4_ncells d - 1 then point else end);
          end = trim_end digits point end;
          start = trim_start digits point 0
      in (digits, start, point, end))"

section \<open>From the digit buffer to MySQL\<close>

function mydec_buf_loop :: "int list \<Rightarrow> int \<Rightarrow> int \<Rightarrow> int list" where
  "mydec_buf_loop digits digidx end =
     (if digidx \<le> end
      then (if digidx + DIG_PER_MYDEC \<le> end
            then restore_digital digits digidx (digidx + DIG_PER_MYDEC - 1) DIG_PER_MYDEC
            else restore_digital digits digidx end DIG_PER_MYDEC)
           # mydec_buf_loop digits (digidx + DIG_PER_MYDEC) end
      else [])"
  by pat_completeness auto
termination
  by (relation "measure (\<lambda>(_, digidx, end). nat (end - digidx + 1))") auto

declare mydec_buf_loop.simps [simp del]

definition convert_digital_to_mydec ::
    "int list \<Rightarrow> bool \<Rightarrow> int \<Rightarrow> int \<Rightarrow> int \<Rightarrow> my_decimal" where
  "convert_digital_to_mydec digits sign start point end =
     (let intg = point - start; frac = end - point + 1;
          buf0_num = intg smod DIG_PER_MYDEC;
          buf0 = (if buf0_num \<noteq> 0
                  then [restore_digits digits 0 start (start + buf0_num - 1)] else []);
          buf = buf0 @ mydec_buf_loop digits (start + buf0_num) end
      in if intg = 0 \<and> frac = 0
         then \<lparr>md_sign = sign, md_intg = 1, md_frac = frac, md_buf = [0]\<rparr>
         else \<lparr>md_sign = sign, md_intg = intg, md_frac = frac, md_buf = buf\<rparr>)"

section \<open>The two conversions\<close>

text \<open>
  \<open>n\<close> is the length of the local array, \<open>DECIMAL_MAX_STR_LENGTH\<close>, a constant of MySQL.
\<close>

definition convert_mydec_to_dec4 :: "nat \<Rightarrow> my_decimal \<Rightarrow> dec4" where
  "convert_mydec_to_dec4 n from =
     (let (digits, start, point, end) = convert_mydec_to_digital from (replicate n 0)
      in convert_digital_to_dec4 digits (md_sign from) start point end)"

definition convert_dec4_to_mydec :: "nat \<Rightarrow> dec4 \<Rightarrow> my_decimal" where
  "convert_dec4_to_mydec n from =
     (let (digits, start, point, end) = convert_dec4_to_digital from (replicate n 0)
      in convert_digital_to_mydec digits (d4_sign from \<noteq> 0) start point end)"

definition cm_dec4_stor_sz :: "dec4 \<Rightarrow> int" where
  "cm_dec4_stor_sz d4 = u32 (1 + d4_ncells d4) * 2"

section \<open>Decimal expansions\<close>

text \<open>
  The digit at position \<open>p\<close> of a list of words of \<open>b\<close> decimal digits each, most significant
  word and digit first; 0 outside the list.
\<close>

definition words_digit :: "nat \<Rightarrow> int list \<Rightarrow> int \<Rightarrow> int" where
  "words_digit b ws p =
     (if 0 \<le> p \<and> p < int b * int (length ws)
      then ws ! nat (p div int b) div 10 ^ (b - 1 - nat (p mod int b)) mod 10 else 0)"

lemma words_digit_Nil [simp]: "words_digit b [] p = 0"
  by (simp add: words_digit_def)

lemma words_digit_neg: "p < 0 \<Longrightarrow> words_digit b ws p = 0"
  by (simp add: words_digit_def)

lemma words_digit_Cons:
  assumes "0 < b"
  shows "words_digit b (w # ws) p =
    (if p < 0 then 0 else if p < int b then w div 10 ^ (b - 1 - nat p) mod 10
     else words_digit b ws (p - int b))"
proof -
  have d1: "p div int b = (p - int b) div int b + 1"
    using assms by (intro div_minus_self_int) simp
  have d2: "p mod int b = (p - int b) mod int b" by simp
  note d = d1 d2
  consider "p < 0" | "0 \<le> p" "p < int b" | "int b \<le> p" by linarith
  then show ?thesis
  proof cases
    case 3
    then have "nat (p div int b) = Suc (nat ((p - int b) div int b))"
      using assms d by (simp add: nat_add_distrib pos_imp_zdiv_nonneg_iff)
    moreover have "p < int b * int (length (w # ws)) \<longleftrightarrow> p - int b < int b * int (length ws)"
      by (simp add: distrib_left) linarith
    ultimately show ?thesis using 3 d2 assms by (simp only: words_digit_def) auto
  next
    case 2
    have "0 \<le> int b * int (length ws)" by simp
    then have "p < int b * int (length (w # ws))" using 2 by (simp add: distrib_left del: mult_nonneg_nonneg)
    then show ?thesis using 2 by (simp add: words_digit_def)
  qed (simp add: words_digit_def)
qed

lemma words_digit_range: "0 \<le> words_digit b ws p \<and> words_digit b ws p \<le> 9"
proof -
  have "0 \<le> x mod 10 \<and> x mod 10 \<le> 9" for x :: int
    using pos_mod_bound [of 10 x] pos_mod_sign [of 10 x] by linarith
  then show ?thesis by (simp add: words_digit_def)
qed

section \<open>Digit buffers\<close>

definition digits_ok :: "int list \<Rightarrow> bool" where
  "digits_ok digits \<longleftrightarrow> (\<forall>d \<in> set digits. 0 \<le> d \<and> d \<le> 9)"

lemma dig_range: "digits_ok digits \<Longrightarrow> 0 \<le> dig digits k \<and> dig digits k \<le> 9"
  by (auto simp: digits_ok_def dig_def)

lemma digits_okI: "(\<And>k. 0 \<le> dig digits k \<and> dig digits k \<le> 9) \<Longrightarrow> digits_ok digits"
proof -
  assume a: "\<And>k. 0 \<le> dig digits k \<and> dig digits k \<le> 9"
  show ?thesis unfolding digits_ok_def
  proof
    fix d assume "d \<in> set digits"
    then obtain i where "i < length digits" "d = digits ! i" by (auto simp: in_set_conv_nth)
    then show "0 \<le> d \<and> d \<le> 9" using a [of "int i"] by (simp add: dig_def)
  qed
qed

lemma dig_replicate [simp]: "dig (replicate n 0) k = 0"
proof (cases "0 \<le> k \<and> k < int n")
  case True
  then have "nat k < n" by linarith
  then show ?thesis by (simp add: dig_def)
qed (auto simp: dig_def)

lemma dig_update:
  "0 \<le> i \<Longrightarrow> i < int (length ds) \<Longrightarrow> dig (ds[nat i := v]) k = (if k = i then v else dig ds k)"
  by (auto simp: dig_def nth_list_update)

lemma record_loop_spec:
  assumes "0 \<le> val" "0 \<le> start" "end < int (length ds)"
    and "\<And>k. start \<le> k \<Longrightarrow> k \<le> end \<Longrightarrow> dig ds k = 0"
  shows "length (record_loop ds val start end) = length ds \<and>
    (\<forall>k. dig (record_loop ds val start end) k =
      (if start \<le> k \<and> k \<le> end then val div 10 ^ nat (end - k) mod 10 else dig ds k))"
  using assms
proof (induction ds val start "end" rule: record_loop.induct)
  case (1 ds val start e)
  show ?case
  proof (cases "val \<noteq> 0 \<and> e \<ge> start")
    case True
    let ?ds = "ds[nat e := val mod 10]"
    have r: "0 \<le> val mod 10" "val mod 10 < 10" by simp_all
    have v: "u8 (val smod 10) = val mod 10" "val sdiv 10 = val div 10" "0 \<le> val div 10"
      using "1.prems"(1) r by (simp_all add: smod_nonneg sdiv_nonneg u8_id)
    have upd: "dig ?ds k = (if k = e then val mod 10 else dig ds k)" for k
      using True "1.prems" v by (simp add: dig_update)
    have IH: "length (record_loop ?ds (val div 10) start (e - 1)) = length ?ds \<and>
      (\<forall>k. dig (record_loop ?ds (val div 10) start (e - 1)) k =
        (if start \<le> k \<and> k \<le> e - 1 then val div 10 div 10 ^ nat (e - 1 - k) mod 10 else dig ?ds k))"
      using "1.IH" True "1.prems" upd by (simp add: v)
    have pw: "val div 10 div 10 ^ nat (e - 1 - k) = val div 10 ^ nat (e - k)" if "k \<le> e - 1" for k
    proof -
      have "nat (e - k) = Suc (nat (e - 1 - k))" using that by simp
      then show ?thesis by (simp add: zdiv_zmult2_eq)
    qed
    show ?thesis
      using IH True by (subst (1 2) record_loop.simps) (auto simp: v upd pw)
  next
    case False
    then show ?thesis using "1.prems" by (subst (1 2) record_loop.simps) auto
  qed
qed

lemma record_words_spec:
  assumes "0 < b" "\<forall>w \<in> set ws. 0 \<le> w" "0 \<le> i" "(i + int (length ws)) * int b \<le> int (length ds)"
    and "\<And>k. i * int b \<le> k \<Longrightarrow> dig ds k = 0"
  shows "length (record_words ds ws i (int b)) = length ds \<and>
    (\<forall>k. dig (record_words ds ws i (int b)) k =
      (if i * int b \<le> k then words_digit b ws (k - i * int b) else dig ds k))"
  using assms
proof (induction ws arbitrary: ds i)
  case Nil
  then show ?case by simp
next
  case (Cons w ws)
  let ?ds = "record_digital ds w (i * int b) (int b)"
  have s: "(i + 1) * int b = i * int b + int b" by (simp add: distrib_right)
  have le: "i * int b + int b + int (length ws) * int b \<le> int (length ds)"
    using Cons.prems(4) by (simp add: distrib_right)
  have nn: "0 \<le> int (length ws) * int b" "0 \<le> i * int b" using Cons.prems by simp_all
  have rec: "length ?ds = length ds \<and> (\<forall>k. dig ?ds k =
      (if i * int b \<le> k \<and> k \<le> i * int b + int b - 1
       then w div 10 ^ nat (i * int b + int b - 1 - k) mod 10 else dig ds k))"
    unfolding record_digital_def
  proof (rule record_loop_spec)
    show "i * int b + int b - 1 < int (length ds)" using le nn by linarith
  qed (use Cons.prems in auto)
  have IH: "length (record_words ?ds ws (i + 1) (int b)) = length ?ds \<and>
    (\<forall>k. dig (record_words ?ds ws (i + 1) (int b)) k =
      (if (i + 1) * int b \<le> k then words_digit b ws (k - (i + 1) * int b) else dig ?ds k))"
    using Cons.prems rec le by (intro Cons.IH) (auto simp: s distrib_right)
  have nt: "b - Suc (nat (k - i * int b)) = nat (i * int b + int b - 1 - k)" if "i * int b \<le> k" for k
    using that by linarith
  show ?case
    using IH rec Cons.prems(1) nt by (auto simp: words_digit_Cons s algebra_simps)
qed

text \<open>The value of \<open>n\<close> digits from index \<open>s\<close>.\<close>

fun dv :: "int list \<Rightarrow> int \<Rightarrow> nat \<Rightarrow> int" where
  "dv ds s 0 = 0"
| "dv ds s (Suc n) = dv ds s n * 10 + dig ds (s + int n)"

lemma dv_zero: "(\<And>k. s \<le> k \<Longrightarrow> dig ds k = 0) \<Longrightarrow> dv ds s n = 0"
  by (induction n) auto

lemma dv_add: "dv ds s (m + n) = dv ds s m * 10 ^ n + dv ds (s + int m) n"
  by (induction n) (simp_all add: algebra_simps)

lemma dv_range: "digits_ok ds \<Longrightarrow> 0 \<le> dv ds s n \<and> dv ds s n < 10 ^ n"
proof (induction n)
  case (Suc n)
  then show ?case using dig_range [OF Suc.prems, of "s + int n"] by auto
qed simp

lemma dv_digit:
  assumes "digits_ok ds" "j < n"
  shows "dv ds s n div 10 ^ (n - 1 - j) mod 10 = dig ds (s + int j)"
proof -
  let ?m = "n - 1 - j"
  have n: "n = Suc j + ?m" using assms(2) by simp
  have "dv ds s n = dv ds s (Suc j) * 10 ^ ?m + dv ds (s + int (Suc j)) ?m"
    using dv_add [of ds s "Suc j" ?m] n by simp
  then have "dv ds s n div 10 ^ ?m = dv ds s (Suc j)"
    using dv_range [OF assms(1), of "s + int (Suc j)" ?m]
    by (intro int_div_pos_eq [where r = "dv ds (s + int (Suc j)) ?m"]) (auto simp: mult.commute)
  then have "dv ds s n div 10 ^ ?m mod 10 = (dv ds s j * 10 + dig ds (s + int j)) mod 10" by simp
  also have "\<dots> = dig ds (s + int j) mod 10" by simp
  also have "\<dots> = dig ds (s + int j)" using dig_range [OF assms(1), of "s + int j"] by simp
  finally show ?thesis .
qed

lemma restore_digits_dv:
  "start \<le> end + 1 \<Longrightarrow> restore_digits ds val start end =
     val * 10 ^ nat (end + 1 - start) + dv ds start (nat (end + 1 - start))"
proof (induction ds val start "end" rule: restore_digits.induct)
  case (1 ds val start e)
  show ?case
  proof (cases "start \<le> e")
    case True
    let ?n = "nat (e + 1 - (start + 1))"
    have n: "nat (e + 1 - start) = Suc ?n" using True by simp
    have "restore_digits ds val start e =
        (val * 10 + dig ds start) * 10 ^ ?n + dv ds (start + 1) ?n"
      using "1.IH" True by (subst restore_digits.simps) simp
    also have "\<dots> = val * 10 ^ Suc ?n + dv ds start (1 + ?n)"
      unfolding dv_add by (simp add: algebra_simps)
    finally show ?thesis unfolding n by simp
  next
    case False
    then have "start = e + 1" using "1.prems" by simp
    then show ?thesis by (subst restore_digits.simps) simp
  qed
qed

lemma restore_zeros_pow: "restore_zeros val s e = val * 10 ^ nat (e + 1 - s)"
proof (induction val s e rule: restore_zeros.induct)
  case (1 val s e)
  have "s \<le> e \<Longrightarrow> nat (e + 1 - s) = Suc (nat (e + 1 - (s + 1)))" by simp
  with 1 show ?case by (subst restore_zeros.simps) auto
qed

lemma restore_digital_dv:
  assumes "start \<le> end" "end \<le> start + int step - 1" "\<And>k. end < k \<Longrightarrow> k < start + int step \<Longrightarrow> dig ds k = 0"
  shows "restore_digital ds start end (int step) = dv ds start step"
proof -
  let ?n = "nat (end + 1 - start)" and ?m = "nat (start + int step - 1 - end)"
  have st: "step = ?n + ?m" using assms(1,2) by simp
  have "dv ds (end + 1) m = 0" if "m \<le> ?m" for m
    using that
  proof (induction m)
    case (Suc m)
    then show ?case using assms(3) [of "end + 1 + int m"] by simp
  qed simp
  then have z: "dv ds (start + int ?n) ?m = 0" using assms(1) by simp
  have "start + int step - 1 + 1 - (end + 1) = start + int step - 1 - end" by simp
  then have "restore_digital ds start end (int step) = dv ds start ?n * 10 ^ ?m"
    using assms(1,2) by (simp only: restore_digital_def restore_digits_dv restore_zeros_pow if_True) simp
  also have "\<dots> = dv ds start step" by (subst st) (simp only: dv_add z add_0_right)
  finally show ?thesis .
qed


section \<open>Groups of digits\<close>

function groups :: "nat \<Rightarrow> int list \<Rightarrow> int \<Rightarrow> int \<Rightarrow> int list" where
  "groups b ds s e =
     (if 0 < b \<and> s \<le> e then dv ds s b # groups b ds (s + int b) e else [])"
  by pat_completeness auto
termination
  by (relation "measure (\<lambda>(_, _, s, e). nat (e - s + 1))") auto

declare groups.simps [simp del]

lemma dec4_cells_loop_groups:
  assumes "digits_ok ds" "\<And>k. e < k \<Longrightarrow> dig ds k = 0"
  shows "dec4_cells_loop ds s e = groups 4 ds s e"
  using assms
proof (induction ds s e rule: dec4_cells_loop.induct)
  case (1 ds s e)
  have "u16 (dv ds s 4) = dv ds s 4" using dv_range [OF "1.prems"(1), of s 4] by (intro u16_id) simp_all
  moreover have "restore_digital ds s (3 + s) (int 4) = dv ds s 4"
    by (rule restore_digital_dv) simp_all
  moreover have "restore_digital ds s e (int 4) = dv ds s 4" if "s \<le> e" "\<not> s + 4 \<le> e"
    using that "1.prems"(2) by (intro restore_digital_dv) simp_all
  ultimately show ?case
    using 1 by (subst dec4_cells_loop.simps, subst groups.simps) (simp add: algebra_simps)
qed

lemma mydec_buf_loop_groups:
  assumes "digits_ok ds" "\<And>k. e < k \<Longrightarrow> dig ds k = 0"
  shows "mydec_buf_loop ds s e = groups 9 ds s e"
  using assms
proof (induction ds s e rule: mydec_buf_loop.induct)
  case (1 ds s e)
  have "restore_digital ds s (8 + s) (int 9) = dv ds s 9"
    by (rule restore_digital_dv) simp_all
  moreover have "restore_digital ds s e (int 9) = dv ds s 9" if "s \<le> e" "\<not> s + 9 \<le> e"
    using that "1.prems"(2) by (intro restore_digital_dv) simp_all
  ultimately show ?case
    using 1 by (subst mydec_buf_loop.simps, subst groups.simps) (simp add: algebra_simps)
qed

lemma words_digit_groups:
  assumes "0 < b" "digits_ok ds" "\<And>k. e < k \<Longrightarrow> dig ds k = 0" "0 \<le> p"
  shows "words_digit b (groups b ds s e) p = dig ds (s + p)"
  using assms
proof (induction b ds s e arbitrary: p rule: groups.induct)
  case (1 b ds s e)
  show ?case
  proof (cases "s \<le> e")
    case True
    have "dv ds s b div 10 ^ (b - 1 - nat p) mod 10 = dig ds (s + p)" if "p < int b"
      using dv_digit [OF "1.prems"(2), of "nat p" b s] that "1.prems"(4) by simp
    then show ?thesis
      using 1 True by (subst groups.simps) (simp add: words_digit_Cons)
  next
    case False
    then show ?thesis using "1.prems" by (subst groups.simps) simp
  qed
qed

text \<open>A first word of \<open>c\<close> digits, then groups of \<open>b\<close>: the expansion starts at \<open>s + c - b\<close>.\<close>

lemma words_digit_first_groups:
  assumes "0 < b" "c \<le> b" "digits_ok ds" "\<And>k. e < k \<Longrightarrow> dig ds k = 0" "\<And>k. k < s \<Longrightarrow> dig ds k = 0" "0 \<le> p"
  shows "words_digit b (dv ds s c # groups b ds (s + int c) e) p = dig ds (s + int c - int b + p)"
proof (cases "p < int b")
  case True
  let ?q = "b - 1 - nat p"
  have "dv ds s c div 10 ^ ?q mod 10 = dig ds (s + int c - int b + p)"
  proof (cases "c \<le> ?q")
    case True
    then have le: "(10::int) ^ c \<le> 10 ^ ?q" by (intro power_increasing) simp_all
    have "dv ds s c < 10 ^ c" using dv_range [OF assms(3)] by blast
    then have "dv ds s c < 10 ^ ?q" using le by (rule order_less_le_trans)
    then have "dv ds s c div 10 ^ ?q = 0" using dv_range [OF assms(3), of s c] by simp
    moreover have "s + int c - int b + p < s" using True \<open>p < int b\<close> assms(6) by linarith
    ultimately show ?thesis using assms(5) by simp
  next
    case False
    let ?j = "c - 1 - ?q"
    have j: "?j < c" "c - 1 - ?j = ?q" "int ?j = int c - int b + p"
      using False \<open>p < int b\<close> assms(2,6) by linarith+
    show ?thesis using dv_digit [OF assms(3) j(1), of s] unfolding j(2) j(3) by (simp add: algebra_simps)
  qed
  then show ?thesis using True assms by (simp add: words_digit_Cons)
next
  case False
  then have "words_digit b (groups b ds (s + int c) e) (p - int b) = dig ds (s + int c + (p - int b))"
    using assms by (intro words_digit_groups) auto
  then show ?thesis using False assms by (simp add: words_digit_Cons algebra_simps)
qed

lemma groups_range: "digits_ok ds \<Longrightarrow> w \<in> set (groups b ds s e) \<Longrightarrow> 0 \<le> w \<and> w < 10 ^ b"
proof (induction b ds s e rule: groups.induct)
  case (1 b ds s e)
  from "1.prems"(2) have "0 < b \<and> s \<le> e" by (subst (asm) groups.simps) (auto split: if_splits)
  moreover from "1.prems"(2) this have "w = dv ds s b \<or> w \<in> set (groups b ds (s + int b) e)"
    by (subst (asm) groups.simps) simp
  ultimately show ?case using 1 dv_range [OF "1.prems"(1), of s b] by blast
qed

lemma length_groups:
  "0 < b \<Longrightarrow> s \<le> e + 1 \<Longrightarrow> int (length (groups b ds s e)) = (e + 1 - s + int b - 1) div int b"
proof (induction b ds s e rule: groups.induct)
  case (1 b ds s e)
  show ?case
  proof (cases "s \<le> e")
    case True
    have "(e + 1 - s + int b - 1) div int b = (e + 1 - s + int b - 1 - int b) div int b + 1"
      using "1.prems" by (intro div_minus_self_int) simp
    moreover have "int (length (groups b ds (s + int b) e)) = (e + 1 - s + int b - 1 - int b) div int b"
    proof (cases "s + int b \<le> e + 1")
      case t: True
      then show ?thesis using "1.IH" "1.prems" True by (simp add: algebra_simps)
    next
      case False
      then have "groups b ds (s + int b) e = []" by (subst groups.simps) simp
      moreover have "(e + 1 - s - 1) div int b = 0" using False True by (intro div_pos_pos_trivial) simp_all
      ultimately show ?thesis by (simp add: algebra_simps)
    qed
    ultimately show ?thesis using True "1.prems" by (subst groups.simps) simp
  next
    case False
    then have "s = e + 1" using "1.prems" by simp
    then show ?thesis using "1.prems" by (subst groups.simps) simp
  qed
qed

section \<open>Trimming\<close>

lemma trim_end_spec:
  "trim_end ds point e \<le> e \<and> (point \<le> e + 1 \<longrightarrow> point - 1 \<le> trim_end ds point e) \<and>
   (\<forall>k. trim_end ds point e < k \<longrightarrow> k \<le> e \<longrightarrow> dig ds k = 0) \<and>
   (point \<le> trim_end ds point e \<longrightarrow> dig ds (trim_end ds point e) \<noteq> 0)"
proof (induction ds point e rule: trim_end.induct)
  case (1 ds point e)
  show ?case
  proof (cases "e \<ge> point \<and> dig ds e = 0")
    case True
    note IH = "1.IH" [OF True]
    have eq: "trim_end ds point e = trim_end ds point (e - 1)" using True by (subst trim_end.simps) simp
    have "dig ds k = 0" if "trim_end ds point (e - 1) < k" "k \<le> e" for k
      using IH that True by (cases "k = e") auto
    then show ?thesis unfolding eq using IH True by auto
  next
    case False
    then have eq: "trim_end ds point e = e" by (subst trim_end.simps) (simp only: if_not_P if_False)
    show ?thesis unfolding eq using False by auto
  qed
qed

lemma trim_start_spec:
  "start \<le> trim_start ds bound start \<and> (start \<le> bound \<longrightarrow> trim_start ds bound start \<le> bound) \<and>
   (bound < start \<longrightarrow> trim_start ds bound start = start) \<and>
   (\<forall>k. start \<le> k \<longrightarrow> k < trim_start ds bound start \<longrightarrow> dig ds k = 0) \<and>
   (trim_start ds bound start < bound \<longrightarrow> dig ds (trim_start ds bound start) \<noteq> 0)"
proof (induction ds bound start rule: trim_start.induct)
  case (1 ds bound start)
  show ?case
  proof (cases "start < bound \<and> dig ds start = 0")
    case True
    note IH = "1.IH" [OF True]
    have eq: "trim_start ds bound start = trim_start ds bound (start + 1)"
      using True by (subst trim_start.simps) simp
    have "dig ds k = 0" if "start \<le> k" "k < trim_start ds bound (start + 1)" for k
      using IH that True by (cases "k = start") auto
    then show ?thesis unfolding eq using IH True by auto
  next
    case False
    then have "trim_start ds bound start = start" by (subst trim_start.simps) (simp only: if_not_P if_False)
    then show ?thesis using False by auto
  qed
qed

section \<open>The numbers\<close>

text \<open>
  \<open>mydec_digit m e\<close> and \<open>dec4_digit d e\<close> are the decimal digit at \<open>10 ^ e\<close> of the number's
  absolute value. \<open>mydec_wf\<close> is what MySQL promises of a \<open>my_decimal\<close>: words of nine digits, and
  zeros around the \<open>intg\<close> and \<open>frac\<close> digits in use.
\<close>

definition intg_words :: "my_decimal \<Rightarrow> int" where
  "intg_words m = (md_intg m + 8) div 9"

definition frac_words :: "my_decimal \<Rightarrow> int" where
  "frac_words m = (md_frac m + 8) div 9"

definition mydec_digit :: "my_decimal \<Rightarrow> int \<Rightarrow> int" where
  "mydec_digit m e = words_digit 9 (md_buf m) (9 * intg_words m - 1 - e)"

definition dec4_digit :: "dec4 \<Rightarrow> int \<Rightarrow> int" where
  "dec4_digit d e = words_digit 4 (d4_cells d) (4 * d4_expn d + 3 - e)"

definition mydec_wf :: "my_decimal \<Rightarrow> bool" where
  "mydec_wf m \<longleftrightarrow> 0 \<le> md_intg m \<and> 0 \<le> md_frac m \<and>
     int (length (md_buf m)) = intg_words m + frac_words m \<and>
     (\<forall>w \<in> set (md_buf m). 0 \<le> w \<and> w < 10 ^ 9) \<and>
     (\<forall>e \<in> {md_intg m ..< 9 * intg_words m}. mydec_digit m e = 0) \<and>
     (\<forall>e \<in> {- 9 * frac_words m ..< - md_frac m}. mydec_digit m e = 0)"

definition dec4_wf :: "dec4 \<Rightarrow> bool" where
  "dec4_wf d \<longleftrightarrow> d4_ncells d = int (length (d4_cells d)) \<and>
     (\<forall>w \<in> set (d4_cells d). 0 \<le> w \<and> w < 10 ^ 4)"

lemma words_digit_beyond: "int b * int (length ws) \<le> p \<Longrightarrow> words_digit b ws p = 0"
  by (simp add: words_digit_def)

lemma words_digit_append:
  assumes "0 < b"
  shows "words_digit b (us @ ws) p =
    (if p < int b * int (length us) then words_digit b us p
     else words_digit b ws (p - int b * int (length us)))"
proof (induction us arbitrary: p)
  case (Cons u us)
  define q where "q = int b * int (length us)"
  have q: "0 \<le> q" "int b * int (length (u # us)) = int b + q" by (simp_all add: q_def distrib_left)
  show ?case
    using Cons [of "p - int b"] assms q(1) unfolding q(2) q_def [symmetric] append_Cons
    by (auto simp: words_digit_Cons algebra_simps)
qed (simp add: words_digit_neg)

lemma mydec_digit_low: "mydec_wf m \<Longrightarrow> e < - md_frac m \<Longrightarrow> mydec_digit m e = 0"
proof (cases "- 9 * frac_words m \<le> e")
  case False
  assume "mydec_wf m"
  then have "int (length (md_buf m)) = intg_words m + frac_words m" by (simp add: mydec_wf_def)
  then show ?thesis using False unfolding mydec_digit_def by (intro words_digit_beyond) simp
qed (auto simp: mydec_wf_def)

lemma mydec_digit_high: "mydec_wf m \<Longrightarrow> md_intg m \<le> e \<Longrightarrow> mydec_digit m e = 0"
proof (cases "e < 9 * intg_words m")
  case False
  then show ?thesis unfolding mydec_digit_def by (intro words_digit_neg) simp
qed (auto simp: mydec_wf_def)

section \<open>The digit buffer of a number\<close>

text \<open>
  What the two conversions into a digit buffer guarantee, and the two conversions out of it rely
  on: \<open>f\<close> is the expansion, and the buffer is zero outside \<open>start .. end\<close>.
\<close>

definition buffer_of :: "(int \<Rightarrow> int) \<Rightarrow> int list \<Rightarrow> int \<Rightarrow> int \<Rightarrow> int \<Rightarrow> bool" where
  "buffer_of f digits start point end \<longleftrightarrow> digits_ok digits \<and>
     0 \<le> start \<and> point - 1 \<le> end \<and> end < int (length digits) \<and>
     (\<forall>k < start. dig digits k = 0) \<and> (\<forall>k > end. dig digits k = 0) \<and>
     (\<forall>e. f e = dig digits (point - 1 - e))"

lemma record_mydec:
  assumes "mydec_wf m" "9 * (intg_words m + frac_words m) \<le> int n"
    and "convert_mydec_to_digital m (replicate n 0) = (digits, start, point, end)"
  shows "length digits = n \<and> point = 9 * intg_words m \<and>
    (\<forall>k. dig digits k = words_digit 9 (md_buf m) k) \<and>
    end = trim_end digits point (point + md_frac m - 1) \<and> start = trim_start digits end 0"
proof -
  let ?i = "intg_words m" and ?f = "frac_words m" and ?b = "md_buf m"
  have wf: "0 \<le> md_intg m" "0 \<le> md_frac m" "int (length ?b) = ?i + ?f" "\<forall>w \<in> set ?b. 0 \<le> w"
    using assms(1) by (auto simp: mydec_wf_def)
  have nn: "0 \<le> ?i" "0 \<le> ?f" using wf by (auto simp: intg_words_def frac_words_def pos_imp_zdiv_nonneg_iff)
  have loc: "(8 + md_intg m) sdiv 9 = ?i" "(8 + md_frac m) sdiv 9 = ?f"
    using wf by (simp_all add: sdiv_nonneg intg_words_def frac_words_def add.commute)
  let ?t = "take (nat ?i) ?b" and ?d = "drop (nat ?i) ?b"
  let ?D1 = "record_words (replicate n 0) ?t 0 9"
  have lt: "length ?t = nat ?i" "length ?d = nat ?f" using wf nn by auto
  have ws: "\<forall>w \<in> set ?t. 0 \<le> w" "\<forall>w \<in> set ?d. 0 \<le> w"
    using wf(4) by (auto dest: in_set_takeD in_set_dropD)
  have b9: "9 = int 9" by simp
  have 1: "length ?D1 = n \<and> (\<forall>k. dig ?D1 k = words_digit 9 ?t k)"
  proof -
    have "length (record_words (replicate n 0) ?t 0 (int 9)) = length (replicate n (0::int)) \<and>
      (\<forall>k. dig (record_words (replicate n 0) ?t 0 (int 9)) k =
        (if 0 * int 9 \<le> k then words_digit 9 ?t (k - 0 * int 9) else dig (replicate n 0) k))"
      using assms(2) nn ws lt by (intro record_words_spec) simp_all
    then show ?thesis by (auto simp: words_digit_neg)
  qed
  let ?D2 = "record_words ?D1 ?d ?i 9"
  have 2: "length ?D2 = n \<and> (\<forall>k. dig ?D2 k = words_digit 9 ?b k)"
  proof -
    have z: "dig ?D1 k = 0" if "?i * int 9 \<le> k" for k
      using 1 that lt nn by (simp add: words_digit_beyond)
    have "length (record_words ?D1 ?d ?i (int 9)) = length ?D1 \<and>
      (\<forall>k. dig (record_words ?D1 ?d ?i (int 9)) k =
        (if ?i * int 9 \<le> k then words_digit 9 ?d (k - ?i * int 9) else dig ?D1 k))"
      using assms(2) nn ws lt 1 z by (intro record_words_spec) simp_all
    then have "length ?D2 = n \<and> (\<forall>k. dig ?D2 k =
        (if ?i * 9 \<le> k then words_digit 9 ?d (k - ?i * 9) else words_digit 9 ?t k))" using 1 by simp
    moreover have "words_digit 9 ?b k =
        (if k < 9 * ?i then words_digit 9 ?t k else words_digit 9 ?d (k - 9 * ?i))" for k
      using words_digit_append [of 9 ?t ?d k] lt nn by simp
    ultimately show ?thesis by (simp add: mult.commute not_less)
  qed
  have fr: "nat (?f + ?i - ?i) = nat ?f" "take (nat ?f) ?d = ?d" using lt by simp_all
  have f0: "?b = ?t" if "md_frac m = 0"
    using that wf nn by (simp add: frac_words_def)
  have e: "(digits, start, point, end) =
    (let D = (if md_frac m \<noteq> 0 then ?D2 else ?D1); E = trim_end D (?i * 9) (?i * 9 + md_frac m - 1)
     in (D, trim_start D E 0, ?i * 9, E))"
    by (simp add: assms(3) [symmetric] convert_mydec_to_digital_def Let_def loc fr)
  show ?thesis
  proof (cases "md_frac m = 0")
    case True
    then show ?thesis using e 1 f0 by (simp add: Let_def)
  next
    case False
    then show ?thesis using e 2 by (simp add: Let_def)
  qed
qed

lemma buffer_mydec:
  assumes "mydec_wf m" "9 * (intg_words m + frac_words m) \<le> int n"
    and "convert_mydec_to_digital m (replicate n 0) = (digits, start, point, end)"
  shows "buffer_of (mydec_digit m) digits start point end \<and>
    (start < end \<longrightarrow> dig digits start \<noteq> 0) \<and> (start \<le> end \<or> start = 0) \<and>
    point = 9 * intg_words m \<and> end < point + md_frac m"
proof -
  note r = record_mydec [OF assms]
  have nn: "0 \<le> md_intg m" "0 \<le> md_frac m" using assms(1) by (simp_all add: mydec_wf_def)
  have i0: "0 \<le> intg_words m" using nn by (simp add: intg_words_def pos_imp_zdiv_nonneg_iff)
  have fr: "md_frac m \<le> 9 * frac_words m"
    using div_mult_mod_eq [of "md_frac m + 8" 9] pos_mod_bound [of 9 "md_frac m + 8"]
    unfolding frac_words_def by linarith
  have pt: "point = 9 * intg_words m" and len: "length digits = n"
    and D: "\<And>k. dig digits k = words_digit 9 (md_buf m) k"
    and e: "end = trim_end digits point (point + md_frac m - 1)" and s: "start = trim_start digits end 0"
    using r by blast+
  have exp: "mydec_digit m x = dig digits (point - 1 - x)" for x
    by (simp add: mydec_digit_def D pt)
  note te = trim_end_spec [of digits point "point + md_frac m - 1", folded e]
  note ts = trim_start_spec [of 0 digits "end", folded s]
  have "dig digits k = 0" if "end < k" for k
  proof (cases "k \<le> point + md_frac m - 1")
    case False
    then have "mydec_digit m (point - 1 - k) = 0" by (intro mydec_digit_low [OF assms(1)]) simp
    then show ?thesis by (simp add: exp)
  qed (use te that in blast)
  moreover have "dig digits k = 0" if "k < start" for k
    using ts that by (cases "0 \<le> k") (auto simp: dig_def)
  moreover have "digits_ok digits" by (rule digits_okI) (simp add: D words_digit_range)
  moreover have "end < int (length digits)" using te fr assms(2) len pt by auto
  ultimately show ?thesis unfolding buffer_of_def using te ts nn exp pt by auto
qed

lemma buffer_ofD:
  assumes "buffer_of f digits start point end"
  shows "digits_ok digits" "0 \<le> start" "point - 1 \<le> end" "end < int (length digits)"
    "k < start \<Longrightarrow> dig digits k = 0" "end < k \<Longrightarrow> dig digits k = 0"
    "f e = dig digits (point - 1 - e)"
  using assms by (simp_all add: buffer_of_def)

text \<open>The number of digits in \<open>cells[0]\<close> and the exponent, for an expansion that starts at \<open>10 ^ (x - 1)\<close>.\<close>

definition cell0_expn :: "int \<Rightarrow> int \<times> int" where
  "cell0_expn x =
     (if x > 0 then (x smod 4, (if x smod 4 = 0 \<and> x \<ge> 4 then x - 4 else x) sdiv 4)
      else (4 + x smod 4, (x - (4 + x smod 4)) sdiv 4))"

lemma cell0_expn:
  assumes "cell0_expn x = (c, y)"
  shows "0 \<le> c \<and> c \<le> 4 \<and> 4 * y + (if c = 0 then 4 else c) = x"
proof (cases "x > 0")
  case True
  define q r where "q = x div 4" and "r = x mod 4"
  have qr: "x = 4 * q + r" "0 \<le> r" "r < 4" by (simp_all add: q_def r_def)
  have c: "c = r" using assms True by (simp add: cell0_expn_def smod_nonneg r_def)
  show ?thesis
  proof (cases "r = 0")
    case t: True
    then have "x \<ge> 4" using qr True by presburger
    then have "y = (x - 4) div 4"
      using assms True t by (auto simp: cell0_expn_def smod_nonneg sdiv_nonneg r_def)
    also have "\<dots> = q - 1" using qr t by simp
    finally show ?thesis using c qr t by simp
  next
    case False
    then have "y = q" using assms True by (simp add: cell0_expn_def smod_nonneg sdiv_nonneg r_def q_def)
    then show ?thesis using c qr False by simp
  qed
next
  case False
  define q r where "q = (- x) div 4" and "r = (- x) mod 4"
  have qr: "- x = 4 * q + r" "0 \<le> r" "r < 4" by (simp_all add: q_def r_def)
  have m: "x smod 4 = - r"
  proof (cases "x = 0")
    case True
    then show ?thesis by (simp add: r_def smod_nonneg)
  next
    case f: False
    then show ?thesis using False sdiv_neg [of x 4] unfolding modulo_int_def q_def r_def
      by (simp add: signed_modulo_int_def signed_divide_int_def modulo_int_def sgn_if abs_if)
  qed
  have "x - (4 - r) = - (4 * (q + 1))" using qr by simp
  moreover have "y = (x - (4 - r)) sdiv 4" using assms False m by (auto simp: cell0_expn_def)
  ultimately have "y = (- (4 * (q + 1))) sdiv 4" by metis
  also have "\<dots> = - (q + 1)"
  proof -
    have "0 \<le> q" using False by (simp add: q_def pos_imp_zdiv_nonneg_iff)
    then show ?thesis by (simp add: signed_divide_int_def sgn_if abs_if)
  qed
  finally have "y = - (q + 1)" .
  moreover have "c = 4 - r" using assms False m by (simp add: cell0_expn_def)
  ultimately show ?thesis using qr by simp
qed

lemma convert_digital_to_dec4_cells:
  assumes "\<not> (start = end \<and> dig digits start = 0 \<or> start = point \<and> end < point)"
    and "cell0_expn (point - start) = (c, y)"
  shows "convert_digital_to_dec4 digits sign start point end =
    (let cells = (if c \<noteq> 0 then [u16 (restore_digits digits 0 start (start + c - 1))] else []) @
                 dec4_cells_loop digits (start + c) (trim_end digits 0 end)
     in \<lparr>d4_sign = (if sign then 1 else 0), d4_ncells = int (length cells), d4_expn = s8 y, d4_cells = cells\<rparr>)"
  using assms unfolding convert_digital_to_dec4_def cell0_expn_def
  by (auto simp: Let_def split: if_splits)

lemma digital_to_dec4_correct:
  assumes B: "buffer_of f digits start point end" and r: "-500 \<le> point - start" "point - start \<le> 500"
    and d: "d = convert_digital_to_dec4 digits sign start point end"
  shows "dec4_digit d e = f e \<and> dec4_wf d \<and> d4_sign d = (if sign then 1 else 0)"
proof (cases "start = end \<and> dig digits start = 0 \<or> start = point \<and> end < point")
  case True
  have "dig digits k = 0" for k
  proof -
    consider "k < start" | "end < k" | "k = start" "start = end" using True by fastforce
    then show ?thesis using buffer_ofD(5,6) [OF B] True by cases auto
  qed
  then have "f e = 0" using buffer_ofD(7) [OF B] by simp
  then show ?thesis using True by (simp add: d convert_digital_to_dec4_def dec4_digit_def dec4_wf_def Let_def)
next
  case False
  obtain c y where cy: "cell0_expn (point - start) = (c, y)" by fastforce
  note c = cell0_expn [OF cy]
  have y: "s8 y = y" using c r by (intro s8_id) (auto split: if_splits)
  note ok = buffer_ofD(1) [OF B]
  let ?z = "trim_end digits 0 end"
  have z: "dig digits k = 0" if "?z < k" for k
    using trim_end_spec [of digits 0 "end"] that buffer_ofD(6) [OF B] by (cases "k \<le> end") auto
  let ?g = "groups 4 digits (start + c) ?z"
  have c0: "restore_digits digits 0 start (start + c - 1) = dv digits start (nat c)" if "c \<noteq> 0"
    using restore_digits_dv [of start "start + c - 1"] c that by simp
  have v: "0 \<le> dv digits start (nat c) \<and> dv digits start (nat c) < 10 ^ 4"
  proof -
    have "nat c \<le> 4" using c by (auto simp: nat_le_iff)
    then have "(10::int) ^ nat c \<le> 10 ^ 4" by (intro power_increasing) simp_all
    then show ?thesis using dv_range [OF ok, of start "nat c"] by linarith
  qed
  then have u: "u16 (dv digits start (nat c)) = dv digits start (nat c)" by (intro u16_id) simp_all
  define cells where "cells = (if c \<noteq> 0 then [dv digits start (nat c)] else []) @ ?g"
  have D: "d = \<lparr>d4_sign = (if sign then 1 else 0), d4_ncells = int (length cells), d4_expn = y, d4_cells = cells\<rparr>"
    using convert_digital_to_dec4_cells [OF False cy, of sign] dec4_cells_loop_groups [OF ok z]
    by (simp add: d cells_def y u c0)
  have "words_digit 4 cells (4 * y + 3 - e) = dig digits (point - 1 - e)"
  proof (cases "0 \<le> 4 * y + 3 - e")
    case p: True
    show ?thesis
    proof (cases "c = 0")
      case True
      then have "words_digit 4 cells (4 * y + 3 - e) = dig digits (start + c + (4 * y + 3 - e))"
        unfolding cells_def using p by (auto intro!: words_digit_groups ok z)
      also have "start + c + (4 * y + 3 - e) = point - 1 - e" using c True by simp
      finally show ?thesis .
    next
      case False
      then have "words_digit 4 cells (4 * y + 3 - e) =
          words_digit 4 (dv digits start (nat c) # groups 4 digits (start + int (nat c)) ?z) (4 * y + 3 - e)"
        using c by (simp add: cells_def)
      also have "\<dots> = dig digits (start + int (nat c) - int 4 + (4 * y + 3 - e))"
        using c p by (intro words_digit_first_groups ok z buffer_ofD(5) [OF B]) auto
      also have "start + int (nat c) - int 4 + (4 * y + 3 - e) = point - 1 - e" using c False by auto
      finally show ?thesis .
    qed
  next
    case f: False
    then have "point - 1 - e < start" using c by (auto split: if_splits)
    then show ?thesis using f buffer_ofD(5) [OF B] by (simp add: words_digit_neg)
  qed
  moreover have "\<forall>w \<in> set cells. 0 \<le> w \<and> w < 10 ^ 4"
    using v groups_range [OF ok, of _ 4] unfolding cells_def by (auto split: if_splits)
  ultimately show ?thesis by (simp add: D dec4_digit_def dec4_wf_def buffer_ofD(7) [OF B])
qed

lemma buffer_dec4:
  assumes "dec4_wf d" "4 * (max (d4_expn d) (-1) + 1) < int n" "4 * (max (- d4_expn d - 1) 0 + d4_ncells d) \<le> int n"
    and "convert_dec4_to_digital d (replicate n 0) = (digits, start, point, end)"
  shows "buffer_of (dec4_digit d) digits start point end \<and> start \<le> point"
proof -
  let ?x = "d4_expn d" and ?n = "d4_ncells d" and ?c = "d4_cells d"
  define i where "i = (if ?x \<ge> 0 then 0 else - (?x + 1))"
  define D where "D = record_words (replicate n 0) ?c i 4"
  define E where "E = (if ?x > ?n - 1 then point else (i + ?n) * 4 - 1)"
  have wf: "?n = int (length ?c)" "\<forall>w \<in> set ?c. 0 \<le> w" using assms(1) by (auto simp: dec4_wf_def)
  have i0: "0 \<le> i" by (simp add: i_def)
  have le: "(i + int (length ?c)) * 4 \<le> int n" using assms(3) wf(1) by (simp add: i_def max_def split: if_splits)
  have "length (record_words (replicate n 0) ?c i (int 4)) = length (replicate n (0::int)) \<and>
    (\<forall>k. dig (record_words (replicate n 0) ?c i (int 4)) k =
      (if i * int 4 \<le> k then words_digit 4 ?c (k - i * int 4) else dig (replicate n 0) k))"
    using wf i0 le by (intro record_words_spec) simp_all
  then have D: "length D = n" "\<And>k. dig D k = words_digit 4 ?c (k - i * 4)"
    by (auto simp: D_def words_digit_neg)
  have eq: "digits = D" "end = trim_end D point E" "start = trim_start D point 0"
    "point = (if ?x \<ge> 0 \<and> ?n \<noteq> 0 then (?x + 1) * 4 else 0)"
    using assms(4) wf unfolding D_def E_def i_def
    by (auto simp: convert_dec4_to_digital_def Let_def split: if_splits)
  note te = trim_end_spec [of D point E, folded eq(2)]
  note ts = trim_start_spec [of 0 D point, folded eq(3)]
  have p0: "0 \<le> point" by (simp add: eq(4))
  have E1: "point \<le> E + 1" using wf i0 by (auto simp: E_def eq(4) i_def)
  have EN: "E < int n" using assms(2) le wf(1) by (auto simp: E_def eq(4) max_def split: if_splits)
  have hi: "dig D k = 0" if "end < k" for k
  proof (cases "k \<le> E")
    case False
    then have "4 * int (length ?c) \<le> k - i * 4"
      using wf i0 by (auto simp: E_def eq(4) i_def split: if_splits)
    then show ?thesis by (simp add: D words_digit_beyond)
  qed (use te that in blast)
  have lo: "dig D k = 0" if "k < start" for k
    using ts that by (cases "0 \<le> k") (auto simp: dig_def)
  have "dec4_digit d e = dig D (point - 1 - e)" for e
    using wf by (cases "?n = 0") (auto simp: dec4_digit_def D eq(4) i_def algebra_simps)
  then show ?thesis
    using te ts hi lo p0 E1 EN D(1) words_digit_range unfolding buffer_of_def eq(1)
    by (auto intro!: digits_okI simp: D(2))
qed

lemma intg_words_first:
  assumes "0 \<le> x"
  shows "9 * ((x + 8) div 9) = x - x mod 9 + (if x mod 9 = 0 then 0 else (9::int))"
proof -
  define q r where "q = x div 9" and "r = x mod 9"
  have qr: "x = 9 * q + r" "0 \<le> r" "r < 9" by (simp_all add: q_def r_def)
  show ?thesis
  proof (cases "r = 0")
    case True
    then have "(x + 8) div 9 = q" using qr by (intro int_div_pos_eq [where r = 8]) simp_all
    then show ?thesis using qr True unfolding r_def [symmetric] by simp
  next
    case False
    then have "(x + 8) div 9 = q + 1" using qr by (intro int_div_pos_eq [where r = "r - 1"]) simp_all
    then show ?thesis using qr False unfolding r_def [symmetric] by simp
  qed
qed

lemma digital_to_mydec_correct:
  assumes B: "buffer_of f digits start point end" and le: "start \<le> point"
    and m: "m = convert_digital_to_mydec digits sign start point end"
  shows "mydec_digit m e = f e \<and> md_sign m = sign"
proof (cases "point - start = 0 \<and> end - point + 1 = 0")
  case True
  have "dig digits k = 0" for k
    using buffer_ofD(5,6) [OF B] True by (cases "k < start") auto
  then have "f e = 0" using buffer_ofD(7) [OF B] by simp
  moreover have "words_digit 9 [0] p = 0" for p by (simp add: words_digit_Cons)
  ultimately show ?thesis using True
    by (simp add: m convert_digital_to_mydec_def mydec_digit_def Let_def)
next
  case False
  let ?x = "point - start"
  define c where "c = ?x mod 9"
  have c: "0 \<le> c" "c < 9" "9 * ((?x + 8) div 9) = ?x - c + (if c = 0 then 0 else 9)"
    using intg_words_first [of ?x] le by (simp_all add: c_def)
  note ok = buffer_ofD(1) [OF B]
  have c0: "restore_digits digits 0 start (start + c - 1) = dv digits start (nat c)" if "c \<noteq> 0"
    using restore_digits_dv [of start "start + c - 1"] c that by simp
  define buf where "buf = (if c \<noteq> 0 then [dv digits start (nat c)] else []) @ groups 9 digits (start + c) end"
  have L: "mydec_buf_loop digits (start + c) end = groups 9 digits (start + c) end"
    by (rule mydec_buf_loop_groups [OF ok buffer_ofD(6) [OF B]])
  have M: "m = \<lparr>md_sign = sign, md_intg = ?x, md_frac = end - point + 1, md_buf = buf\<rparr>"
    using False le L
    by (auto simp: m convert_digital_to_mydec_def Let_def smod_nonneg c_def [symmetric] c0 buf_def)
  let ?p = "9 * ((?x + 8) div 9) - 1 - e"
  have "words_digit 9 buf ?p = dig digits (point - 1 - e)"
  proof (cases "0 \<le> ?p")
    case p: True
    show ?thesis
    proof (cases "c = 0")
      case True
      then have "words_digit 9 buf ?p = dig digits (start + c + ?p)"
        unfolding buf_def using p by (auto intro!: words_digit_groups ok buffer_ofD(6) [OF B])
      also have "start + c + ?p = point - 1 - e" using c True by simp
      finally show ?thesis .
    next
      case False
      then have "words_digit 9 buf ?p =
          words_digit 9 (dv digits start (nat c) # groups 9 digits (start + int (nat c)) end) ?p"
        using c by (simp add: buf_def)
      also have "\<dots> = dig digits (start + int (nat c) - int 9 + ?p)"
        using c(1,2) p by (intro words_digit_first_groups ok buffer_ofD(5,6) [OF B]) auto
      also have "start + int (nat c) - int 9 + ?p = point - 1 - e" using c False by simp
      finally show ?thesis .
    qed
  next
    case f: False
    then have "point - 1 - e < start" using c by (auto split: if_splits)
    then show ?thesis using f buffer_ofD(5) [OF B] by (simp add: words_digit_neg)
  qed
  then show ?thesis by (simp add: M mydec_digit_def intg_words_def buffer_ofD(7) [OF B])
qed

text \<open>How far the cells of a result reach, in digits before and after the point.\<close>

lemma dec4_extent:
  assumes B: "buffer_of f digits start point end" and r: "-500 \<le> point - start" "point - start \<le> 500"
    and ends: "start < end \<longrightarrow> dig digits start \<noteq> 0" "start \<le> end \<or> start = 0" "0 \<le> point"
    and ext: "\<And>e. a \<le> e \<Longrightarrow> f e = 0" "end < point + b" "0 \<le> a" "0 \<le> b"
    and d: "d = convert_digital_to_dec4 digits sign start point end"
  shows "4 * (d4_expn d + 1) \<le> max a 1 + 3 \<and> 4 * (d4_ncells d - d4_expn d - 1) \<le> b + 3 \<and>
    - (b + 3) \<le> 4 * (d4_expn d + 1)"
proof (cases "start = end \<and> dig digits start = 0 \<or> start = point \<and> end < point")
  case True
  then show ?thesis using ext(3,4) by (simp add: d convert_digital_to_dec4_def Let_def)
next
  case False
  obtain c y where cy: "cell0_expn (point - start) = (c, y)" by fastforce
  note c = cell0_expn [OF cy]
  have y: "s8 y = y" using c r by (intro s8_id) (auto split: if_splits)
  note ok = buffer_ofD(1) [OF B]
  let ?z = "trim_end digits 0 end"
  have z: "dig digits k = 0" if "?z < k" for k
    using trim_end_spec [of digits 0 "end"] that buffer_ofD(6) [OF B] by (cases "k \<le> end") auto
  have le: "start \<le> end" using ends False buffer_ofD(2,3) [OF B] by auto
  have nz: "dig digits start \<noteq> 0" using ends le False by force
  have sz: "start \<le> ?z" using z nz by (meson not_less)
  have ze: "?z \<le> end" using trim_end_spec by blast
  have "f (point - 1 - start) \<noteq> 0" using nz buffer_ofD(7) [OF B] by simp
  then have a: "point - start \<le> a" using ext(1) [of "point - 1 - start"] by linarith
  have g: "4 * int (length (groups 4 digits (start + c) ?z)) \<le> max (?z - start - c + 4) 0"
  proof (cases "start + c \<le> ?z + 1")
    case True
    have "int (length (groups 4 digits (start + c) ?z)) = (?z + 1 - (start + c) + int 4 - 1) div int 4"
      by (rule length_groups) (use True in simp_all)
    then show ?thesis by simp
  next
    case False
    then have "groups 4 digits (start + c) ?z = []" by (subst groups.simps) simp
    then show ?thesis by simp
  qed
  have D: "d4_expn d = y" "d4_ncells d = (if c \<noteq> 0 then 1 else 0) + int (length (groups 4 digits (start + c) ?z))"
    using convert_digital_to_dec4_cells [OF False cy, of sign] dec4_cells_loop_groups [OF ok z]
    by (simp_all add: d y Let_def)
  show ?thesis
    using g c a sz ze ext(2) unfolding D by (auto simp: max_def split: if_splits)
qed

text \<open>
  A MySQL \<open>DECIMAL(prec, scale)\<close> has at most 65 digits, 30 of them after the point; the local
  digit array of the conversions, of \<open>n = DECIMAL_MAX_STR_LENGTH\<close> bytes, has room for its nine words.
\<close>

definition decimal_column :: "my_decimal \<Rightarrow> bool" where
  "decimal_column m \<longleftrightarrow> mydec_wf m \<and> md_intg m + md_frac m \<le> 65 \<and> md_frac m \<le> 30"

lemma decimal_column_words: "decimal_column m \<Longrightarrow> 9 * (intg_words m + frac_words m) \<le> 81"
proof -
  assume "decimal_column m"
  then have "md_intg m + md_frac m \<le> 65" by (simp add: decimal_column_def)
  moreover have "9 * intg_words m \<le> md_intg m + 8" "9 * frac_words m \<le> md_frac m + 8"
    by (simp_all add: intg_words_def frac_words_def)
  ultimately show ?thesis by (simp add: distrib_left)
qed

lemma mydec_to_dec4_correct:
  assumes "mydec_wf m" "9 * (intg_words m + frac_words m) \<le> int n" "n \<le> 500"
  shows "dec4_digit (convert_mydec_to_dec4 n m) e = mydec_digit m e \<and>
    dec4_wf (convert_mydec_to_dec4 n m) \<and>
    d4_sign (convert_mydec_to_dec4 n m) = (if md_sign m then 1 else 0) \<and>
    4 * (d4_expn (convert_mydec_to_dec4 n m) + 1) \<le> max (md_intg m) 1 + 3 \<and>
    4 * (d4_ncells (convert_mydec_to_dec4 n m) - d4_expn (convert_mydec_to_dec4 n m) - 1) \<le> md_frac m + 3 \<and>
    - (md_frac m + 3) \<le> 4 * (d4_expn (convert_mydec_to_dec4 n m) + 1)"
proof -
  obtain digits s p e' where c: "convert_mydec_to_digital m (replicate n 0) = (digits, s, p, e')"
    using prod_cases4 by blast
  note B = buffer_mydec [OF assms(1,2) c]
  have len: "length digits = n" using record_mydec [OF assms(1,2) c] by simp
  have nn: "0 \<le> md_intg m" "0 \<le> md_frac m" using assms(1) by (simp_all add: mydec_wf_def)
  have p: "0 \<le> p" using B nn by (simp add: intg_words_def pos_imp_zdiv_nonneg_iff)
  have r: "-500 \<le> p - s" "p - s \<le> 500"
    using B buffer_ofD(2-4) [OF B [THEN conjunct1]] p len assms(3) by auto
  have d: "convert_mydec_to_dec4 n m = convert_digital_to_dec4 digits (md_sign m) s p e'"
    by (simp add: convert_mydec_to_dec4_def c)
  show ?thesis
    using digital_to_dec4_correct [OF B [THEN conjunct1] r d]
      dec4_extent [OF B [THEN conjunct1] r _ _ p mydec_digit_high [OF assms(1)] _ nn d] B by blast
qed

lemma dec4_to_mydec_correct:
  assumes "dec4_wf d" "4 * (max (d4_expn d) (-1) + 1) < int n" "4 * (max (- d4_expn d - 1) 0 + d4_ncells d) \<le> int n"
  shows "mydec_digit (convert_dec4_to_mydec n d) e = dec4_digit d e \<and>
    md_sign (convert_dec4_to_mydec n d) = (d4_sign d \<noteq> 0)"
proof -
  obtain digits s p e' where c: "convert_dec4_to_digital d (replicate n 0) = (digits, s, p, e')"
    using prod_cases4 by blast
  note B = buffer_dec4 [OF assms c]
  have m: "convert_dec4_to_mydec n d = convert_digital_to_mydec digits (d4_sign d \<noteq> 0) s p e'"
    by (simp add: convert_dec4_to_mydec_def c)
  show ?thesis by (rule digital_to_mydec_correct [OF B [THEN conjunct1] B [THEN conjunct2] m])
qed

lemma decimal_column_extent:
  assumes "decimal_column m" "81 \<le> n" "n \<le> 500" and d: "d = convert_mydec_to_dec4 n m"
  shows "9 * (intg_words m + frac_words m) \<le> int n" "mydec_wf m"
    "4 * d4_expn d + 4 \<le> 68" "- 33 \<le> 4 * d4_expn d + 4"
    "4 * d4_ncells d \<le> 71" "4 * d4_ncells d - 4 * d4_expn d - 4 \<le> 33" "0 \<le> d4_ncells d"
proof -
  show wf: "mydec_wf m" and n: "9 * (intg_words m + frac_words m) \<le> int n"
    using assms(1,2) decimal_column_words [OF assms(1)] by (simp_all add: decimal_column_def)
  have a: "max (md_intg m) 1 + md_frac m \<le> 65" "md_frac m \<le> 30" "0 \<le> md_frac m"
    using assms(1) by (auto simp: decimal_column_def mydec_wf_def max_def)
  have "4 * (d4_expn d + 1) \<le> max (md_intg m) 1 + 3" "- (md_frac m + 3) \<le> 4 * (d4_expn d + 1)"
    "4 * (d4_ncells d - d4_expn d - 1) \<le> md_frac m + 3" "dec4_wf d"
    using mydec_to_dec4_correct [OF wf n assms(3), folded d] by blast+
  then show "4 * d4_expn d + 4 \<le> 68" "- 33 \<le> 4 * d4_expn d + 4"
    "4 * d4_ncells d \<le> 71" "4 * d4_ncells d - 4 * d4_expn d - 4 \<le> 33" "0 \<le> d4_ncells d"
    using a by (simp_all add: dec4_wf_def)
qed

section \<open>Properties\<close>

text \<open>
  storing a MySQL decimal in Cantian keeps its sign and every decimal digit, and yields
  cells of four digits each.
\<close>

lemma mydec_to_dec4_digits:
  assumes "mydec_wf m" "9 * (intg_words m + frac_words m) \<le> int n" "n \<le> 500"
  shows "(\<forall>e. dec4_digit (convert_mydec_to_dec4 n m) e = mydec_digit m e) \<and>
    dec4_wf (convert_mydec_to_dec4 n m) \<and>
    (d4_sign (convert_mydec_to_dec4 n m) \<noteq> 0 \<longleftrightarrow> md_sign m)"
  using mydec_to_dec4_correct [OF assms] by simp

text \<open>The number -1234567890123.05: two integer words and one fraction word.\<close>

definition sample_decimal :: my_decimal where
  "sample_decimal = \<lparr>md_sign = True, md_intg = 13, md_frac = 2, md_buf = [1234, 567890123, 50000000]\<rparr>"

lemma upto_singletons: "{13..<18::int} = set [13..17]" "{- 9..<- 2::int} = set [-9..-3]"
  by auto

lemma sample_decimal_wf: "mydec_wf sample_decimal"
  unfolding mydec_wf_def sample_decimal_def intg_words_def frac_words_def mydec_digit_def
  by (simp add: upto_singletons words_digit_def upto.simps)

lemma mydec_to_dec4_digits_witness:
  "mydec_wf sample_decimal \<and>
   (\<forall>e. dec4_digit (convert_mydec_to_dec4 83 sample_decimal) e = mydec_digit sample_decimal e)"
  using mydec_to_dec4_digits [of sample_decimal 83] sample_decimal_wf
  by (simp add: intg_words_def frac_words_def sample_decimal_def)

text \<open>
  reading a Cantian decimal back into MySQL's form keeps its sign and every decimal digit,
  when the digit array has room for the digits of the number.
\<close>

lemma dec4_to_mydec_digits:
  assumes "dec4_wf d" "4 * (max (d4_expn d) (-1) + 1) < int n" "4 * (max (- d4_expn d - 1) 0 + d4_ncells d) \<le> int n"
  shows "(\<forall>e. mydec_digit (convert_dec4_to_mydec n d) e = dec4_digit d e) \<and>
    md_sign (convert_dec4_to_mydec n d) = (d4_sign d \<noteq> 0)"
  using dec4_to_mydec_correct [OF assms] by simp

definition sample_dec4 :: dec4 where
  "sample_dec4 = \<lparr>d4_sign = 0, d4_ncells = 3, d4_expn = -2, d4_cells = [12, 0, 3400]\<rparr>"

lemma dec4_to_mydec_digits_witness:
  "dec4_wf sample_dec4 \<and>
   (\<forall>e. mydec_digit (convert_dec4_to_mydec 83 sample_dec4) e = dec4_digit sample_dec4 e)"
  using dec4_to_mydec_digits [of sample_dec4 83] by (simp add: dec4_wf_def sample_dec4_def)

text \<open>
  C18: every value of a decimal column survives the way into Cantian and back: the sign and every
  decimal digit of the number read are those of the number written.
\<close>

theorem decimal_round_trip:
  assumes "decimal_column m" "81 \<le> n" "n \<le> 500"
  shows "md_sign (convert_dec4_to_mydec n (convert_mydec_to_dec4 n m)) = md_sign m \<and>
    (\<forall>e. mydec_digit (convert_dec4_to_mydec n (convert_mydec_to_dec4 n m)) e = mydec_digit m e)"
proof -
  let ?d = "convert_mydec_to_dec4 n m"
  note x = decimal_column_extent [OF assms refl]
  have "4 * (max (d4_expn ?d) (-1) + 1) < int n" "4 * (max (- d4_expn ?d - 1) 0 + d4_ncells ?d) \<le> int n"
    using x(3-) assms(2) by (simp_all add: max_def)
  then show ?thesis using dec4_to_mydec_correct mydec_to_dec4_correct [OF x(2,1) assms(3)] by auto
qed

theorem decimal_round_trip_witness:
  "decimal_column sample_decimal \<and>
   (\<forall>e. mydec_digit (convert_dec4_to_mydec 83 (convert_mydec_to_dec4 83 sample_decimal)) e = mydec_digit sample_decimal e)"
proof -
  have "decimal_column sample_decimal"
    using sample_decimal_wf by (simp add: decimal_column_def sample_decimal_def)
  then show ?thesis using decimal_round_trip [of sample_decimal 83] by simp
qed

text \<open>
  the Cantian form of a value of a decimal column needs at most 17 of the 18 cells of
  \<open>dec4_t\<close> and at most 36 bytes of storage, its exponent fits the signed byte, and every cell is
  below 10000.
\<close>

lemma dec4_storage_bounds:
  assumes "decimal_column m" "81 \<le> n" "n \<le> 500" "d = convert_mydec_to_dec4 n m"
  shows "0 \<le> d4_ncells d \<and> d4_ncells d < DEC4_CELL_SIZE \<and> cm_dec4_stor_sz d \<le> 36 \<and>
    - 10 \<le> d4_expn d \<and> d4_expn d \<le> 16 \<and> (\<forall>w \<in> set (d4_cells d). 0 \<le> w \<and> w < 10000)"
proof -
  note x = decimal_column_extent [OF assms]
  have c: "0 \<le> d4_ncells d" "d4_ncells d \<le> 17" "-10 \<le> d4_expn d" "d4_expn d \<le> 16"
    using x(3-) by simp_all
  moreover have "cm_dec4_stor_sz d = (1 + d4_ncells d) * 2"
    using c unfolding cm_dec4_stor_sz_def by (subst u32_id) auto
  ultimately show ?thesis
    using mydec_to_dec4_correct [OF x(2,1) assms(3), folded assms(4)] by (simp add: dec4_wf_def)
qed

lemma dec4_storage_bounds_witness:
  "decimal_column sample_decimal \<and> cm_dec4_stor_sz (convert_mydec_to_dec4 83 sample_decimal) \<le> 36"
proof -
  have "decimal_column sample_decimal"
    using sample_decimal_wf by (simp add: decimal_column_def sample_decimal_def)
  then show ?thesis using dec4_storage_bounds [of sample_decimal 83] by simp
qed

end
