(* ===== verification/CTC_Types.thy ===== *)
theory CTC_Types
  imports CTC_Prelude
begin

text \<open>
  The column types (datatype_cnvrtr.cc, datatype_cnvrtr.h, ctc_srv.h): MySQL's types, the types
  Cantian's data definition uses, and the table \<open>g_field_cnvrt_aux_array\<close> that maps the ones to
  the others, with its two lookup functions.

  The numbers of MySQL's enumeration are not in these sources: \<open>num\<close> is a parameter, and
  \<open>mysql_enum\<close> is what MySQL documents of it.
\<close>

section \<open>Types\<close>

datatype field_type =
    MYSQL_TYPE_DECIMAL | MYSQL_TYPE_TINY | MYSQL_TYPE_SHORT | MYSQL_TYPE_LONG | MYSQL_TYPE_FLOAT
  | MYSQL_TYPE_DOUBLE | MYSQL_TYPE_NULL | MYSQL_TYPE_TIMESTAMP | MYSQL_TYPE_LONGLONG
  | MYSQL_TYPE_INT24 | MYSQL_TYPE_DATE | MYSQL_TYPE_TIME | MYSQL_TYPE_DATETIME | MYSQL_TYPE_YEAR
  | MYSQL_TYPE_NEWDATE | MYSQL_TYPE_VARCHAR | MYSQL_TYPE_BIT | MYSQL_TYPE_TIMESTAMP2
  | MYSQL_TYPE_DATETIME2 | MYSQL_TYPE_TIME2 | MYSQL_TYPE_TYPED_ARRAY | MYSQL_TYPE_INVALID
  | MYSQL_TYPE_BOOL | MYSQL_TYPE_JSON | MYSQL_TYPE_NEWDECIMAL | MYSQL_TYPE_ENUM | MYSQL_TYPE_SET
  | MYSQL_TYPE_TINY_BLOB | MYSQL_TYPE_MEDIUM_BLOB | MYSQL_TYPE_LONG_BLOB | MYSQL_TYPE_BLOB
  | MYSQL_TYPE_VAR_STRING | MYSQL_TYPE_STRING | MYSQL_TYPE_GEOMETRY

datatype ddl_field_type =
    CTC_DDL_TYPE_UNKNOW | CTC_DDL_TYPE_DECIMAL | CTC_DDL_TYPE_TINY | CTC_DDL_TYPE_SHORT
  | CTC_DDL_TYPE_LONG | CTC_DDL_TYPE_FLOAT | CTC_DDL_TYPE_DOUBLE | CTC_DDL_TYPE_NULL
  | CTC_DDL_TYPE_TIMESTAMP | CTC_DDL_TYPE_LONGLONG | CTC_DDL_TYPE_INT24 | CTC_DDL_TYPE_DATE
  | CTC_DDL_TYPE_TIME | CTC_DDL_TYPE_DATETIME | CTC_DDL_TYPE_YEAR | CTC_DDL_TYPE_NEWDATE
  | CTC_DDL_TYPE_VARCHAR | CTC_DDL_TYPE_BIT | CTC_DDL_TYPE_TIMESTAMP2 | CTC_DDL_TYPE_DATETIME2
  | CTC_DDL_TYPE_TIME2 | CTC_DDL_TYPE_TYPED_ARRAY | CTC_DDL_TYPE_JSON | CTC_DDL_TYPE_NEWDECIMAL
  | CTC_DDL_TYPE_CLOB | CTC_DDL_TYPE_TINY_BLOB | CTC_DDL_TYPE_MEDIUM_BLOB | CTC_DDL_TYPE_LONG_BLOB
  | CTC_DDL_TYPE_BLOB | CTC_DDL_TYPE_VAR_STRING | CTC_DDL_TYPE_STRING

datatype sql_data_type = UNKNOW_DATA | NUMERIC_DATA | DATETIME_DATA | STRING_DATA | LOB_DATA

text \<open>The two bits of a column in the row bitmap: its storage class.\<close>

definition CANTIAN_COL_BITS_NULL :: "8 word" where "CANTIAN_COL_BITS_NULL = 0"
definition CANTIAN_COL_BITS_4 :: "8 word" where "CANTIAN_COL_BITS_4 = 1"
definition CANTIAN_COL_BITS_8 :: "8 word" where "CANTIAN_COL_BITS_8 = 2"
definition CANTIAN_COL_BITS_VAR :: "8 word" where "CANTIAN_COL_BITS_VAR = 3"

lemmas col_bits_defs = CANTIAN_COL_BITS_NULL_def CANTIAN_COL_BITS_4_def CANTIAN_COL_BITS_8_def
  CANTIAN_COL_BITS_VAR_def

record field_cnvrt_aux =
  aux_mysql_field_type :: field_type
  aux_cantian_map_type :: "8 word"
  aux_sql_data_type :: sql_data_type
  aux_ddl_field_type :: ddl_field_type

definition aux_entry :: "field_type \<Rightarrow> 8 word \<Rightarrow> sql_data_type \<Rightarrow> ddl_field_type \<Rightarrow> field_cnvrt_aux" where
  "aux_entry t m s d = \<lparr>aux_mysql_field_type = t, aux_cantian_map_type = m, aux_sql_data_type = s, aux_ddl_field_type = d\<rparr>"

definition g_field_cnvrt_aux_array :: "field_cnvrt_aux list" where
  "g_field_cnvrt_aux_array = [
     aux_entry MYSQL_TYPE_DECIMAL CANTIAN_COL_BITS_NULL UNKNOW_DATA CTC_DDL_TYPE_DECIMAL,
     aux_entry MYSQL_TYPE_TINY CANTIAN_COL_BITS_4 NUMERIC_DATA CTC_DDL_TYPE_LONG,
     aux_entry MYSQL_TYPE_SHORT CANTIAN_COL_BITS_4 NUMERIC_DATA CTC_DDL_TYPE_LONG,
     aux_entry MYSQL_TYPE_LONG CANTIAN_COL_BITS_4 NUMERIC_DATA CTC_DDL_TYPE_LONG,
     aux_entry MYSQL_TYPE_FLOAT CANTIAN_COL_BITS_8 NUMERIC_DATA CTC_DDL_TYPE_DOUBLE,
     aux_entry MYSQL_TYPE_DOUBLE CANTIAN_COL_BITS_8 NUMERIC_DATA CTC_DDL_TYPE_DOUBLE,
     aux_entry MYSQL_TYPE_NULL CANTIAN_COL_BITS_NULL UNKNOW_DATA CTC_DDL_TYPE_NULL,
     aux_entry MYSQL_TYPE_TIMESTAMP CANTIAN_COL_BITS_8 DATETIME_DATA CTC_DDL_TYPE_TIMESTAMP,
     aux_entry MYSQL_TYPE_LONGLONG CANTIAN_COL_BITS_8 NUMERIC_DATA CTC_DDL_TYPE_LONGLONG,
     aux_entry MYSQL_TYPE_INT24 CANTIAN_COL_BITS_4 NUMERIC_DATA CTC_DDL_TYPE_LONG,
     aux_entry MYSQL_TYPE_DATE CANTIAN_COL_BITS_8 DATETIME_DATA CTC_DDL_TYPE_DATE,
     aux_entry MYSQL_TYPE_TIME CANTIAN_COL_BITS_8 DATETIME_DATA CTC_DDL_TYPE_TIME,
     aux_entry MYSQL_TYPE_DATETIME CANTIAN_COL_BITS_8 DATETIME_DATA CTC_DDL_TYPE_DATETIME,
     aux_entry MYSQL_TYPE_YEAR CANTIAN_COL_BITS_8 DATETIME_DATA CTC_DDL_TYPE_YEAR,
     aux_entry MYSQL_TYPE_NEWDATE CANTIAN_COL_BITS_NULL UNKNOW_DATA CTC_DDL_TYPE_NEWDATE,
     aux_entry MYSQL_TYPE_VARCHAR CANTIAN_COL_BITS_VAR STRING_DATA CTC_DDL_TYPE_VARCHAR,
     aux_entry MYSQL_TYPE_BIT CANTIAN_COL_BITS_8 NUMERIC_DATA CTC_DDL_TYPE_LONGLONG,
     aux_entry MYSQL_TYPE_TIMESTAMP2 CANTIAN_COL_BITS_NULL UNKNOW_DATA CTC_DDL_TYPE_TIMESTAMP2,
     aux_entry MYSQL_TYPE_DATETIME2 CANTIAN_COL_BITS_NULL UNKNOW_DATA CTC_DDL_TYPE_DATETIME2,
     aux_entry MYSQL_TYPE_TIME2 CANTIAN_COL_BITS_NULL UNKNOW_DATA CTC_DDL_TYPE_TIME2,
     aux_entry MYSQL_TYPE_TYPED_ARRAY CANTIAN_COL_BITS_NULL UNKNOW_DATA CTC_DDL_TYPE_TYPED_ARRAY,
     aux_entry MYSQL_TYPE_JSON CANTIAN_COL_BITS_VAR LOB_DATA CTC_DDL_TYPE_JSON,
     aux_entry MYSQL_TYPE_NEWDECIMAL CANTIAN_COL_BITS_VAR NUMERIC_DATA CTC_DDL_TYPE_NEWDECIMAL,
     aux_entry MYSQL_TYPE_TINY_BLOB CANTIAN_COL_BITS_VAR LOB_DATA CTC_DDL_TYPE_TINY_BLOB,
     aux_entry MYSQL_TYPE_MEDIUM_BLOB CANTIAN_COL_BITS_VAR LOB_DATA CTC_DDL_TYPE_MEDIUM_BLOB,
     aux_entry MYSQL_TYPE_LONG_BLOB CANTIAN_COL_BITS_VAR LOB_DATA CTC_DDL_TYPE_LONG_BLOB,
     aux_entry MYSQL_TYPE_BLOB CANTIAN_COL_BITS_VAR LOB_DATA CTC_DDL_TYPE_BLOB,
     aux_entry MYSQL_TYPE_VAR_STRING CANTIAN_COL_BITS_NULL UNKNOW_DATA CTC_DDL_TYPE_VAR_STRING,
     aux_entry MYSQL_TYPE_STRING CANTIAN_COL_BITS_VAR STRING_DATA CTC_DDL_TYPE_STRING]"

section \<open>Lookup\<close>

definition get_idx_for_field_convert :: "(field_type \<Rightarrow> int) \<Rightarrow> field_type \<Rightarrow> int" where
  "get_idx_for_field_convert num t =
     (if num t < num MYSQL_TYPE_INVALID then num t
      else if num t \<ge> num MYSQL_TYPE_JSON \<and> num t \<le> num MYSQL_TYPE_NEWDECIMAL
      then num t - num MYSQL_TYPE_JSON + (num MYSQL_TYPE_TYPED_ARRAY - num MYSQL_TYPE_DECIMAL + 1)
      else if num t \<ge> num MYSQL_TYPE_TINY_BLOB \<and> num t \<le> num MYSQL_TYPE_STRING
      then num t - num MYSQL_TYPE_TINY_BLOB + (num MYSQL_TYPE_TYPED_ARRAY - num MYSQL_TYPE_DECIMAL + 1)
             + (num MYSQL_TYPE_NEWDECIMAL - num MYSQL_TYPE_JSON + 1)
      else -1)"

text \<open>What the lookup reads of a MySQL \<open>Field\<close>.\<close>

record field_desc =
  fd_real_type :: field_type
  fd_pack_length :: int
  fd_blob_flag :: bool
  fd_binary_flag :: bool
  fd_charset_bin :: bool

definition enum_storage_type :: "int \<Rightarrow> field_type" where
  "enum_storage_type field_len =
     (if field_len = 1 then MYSQL_TYPE_TINY else if field_len = 2 then MYSQL_TYPE_SHORT
      else if field_len = 3 then MYSQL_TYPE_INT24 else if field_len = 4 then MYSQL_TYPE_LONG
      else MYSQL_TYPE_LONGLONG)"

text \<open>
  The result is the index of the entry the code returns a pointer to, with the array after the
  call: for a blob or text column the call overwrites \<open>ddl_field_type\<close> in the shared entry.
\<close>

definition get_auxiliary_for_field_convert ::
    "(field_type \<Rightarrow> int) \<Rightarrow> field_cnvrt_aux list \<Rightarrow> field_desc \<Rightarrow> field_type \<Rightarrow> field_cnvrt_aux list \<times> nat option" where
  "get_auxiliary_for_field_convert num arr field t =
     (if num t < num MYSQL_TYPE_INVALID then (arr, Some (nat (num t)))
      else
        let real = (if fd_real_type field = MYSQL_TYPE_ENUM \<or> fd_real_type field = MYSQL_TYPE_SET
                    then enum_storage_type (fd_pack_length field) else t);
            idx = get_idx_for_field_convert num real
        in if idx = -1 then (arr, None)
           else if fd_blob_flag field
           then (arr[nat idx := (arr ! nat idx)\<lparr>aux_ddl_field_type :=
                   (if fd_charset_bin field \<and> fd_binary_flag field then CTC_DDL_TYPE_BLOB else CTC_DDL_TYPE_CLOB)\<rparr>],
                 Some (nat idx))
           else (arr, Some (nat idx)))"

section \<open>The table is consistent\<close>

text \<open>MySQL's documented type numbers.\<close>

definition mysql_type_no :: "field_type \<Rightarrow> int" where
  "mysql_type_no t = (case t of
     MYSQL_TYPE_DECIMAL \<Rightarrow> 0 | MYSQL_TYPE_TINY \<Rightarrow> 1 | MYSQL_TYPE_SHORT \<Rightarrow> 2 | MYSQL_TYPE_LONG \<Rightarrow> 3
   | MYSQL_TYPE_FLOAT \<Rightarrow> 4 | MYSQL_TYPE_DOUBLE \<Rightarrow> 5 | MYSQL_TYPE_NULL \<Rightarrow> 6 | MYSQL_TYPE_TIMESTAMP \<Rightarrow> 7
   | MYSQL_TYPE_LONGLONG \<Rightarrow> 8 | MYSQL_TYPE_INT24 \<Rightarrow> 9 | MYSQL_TYPE_DATE \<Rightarrow> 10 | MYSQL_TYPE_TIME \<Rightarrow> 11
   | MYSQL_TYPE_DATETIME \<Rightarrow> 12 | MYSQL_TYPE_YEAR \<Rightarrow> 13 | MYSQL_TYPE_NEWDATE \<Rightarrow> 14 | MYSQL_TYPE_VARCHAR \<Rightarrow> 15
   | MYSQL_TYPE_BIT \<Rightarrow> 16 | MYSQL_TYPE_TIMESTAMP2 \<Rightarrow> 17 | MYSQL_TYPE_DATETIME2 \<Rightarrow> 18 | MYSQL_TYPE_TIME2 \<Rightarrow> 19
   | MYSQL_TYPE_TYPED_ARRAY \<Rightarrow> 20 | MYSQL_TYPE_INVALID \<Rightarrow> 243 | MYSQL_TYPE_BOOL \<Rightarrow> 244 | MYSQL_TYPE_JSON \<Rightarrow> 245
   | MYSQL_TYPE_NEWDECIMAL \<Rightarrow> 246 | MYSQL_TYPE_ENUM \<Rightarrow> 247 | MYSQL_TYPE_SET \<Rightarrow> 248 | MYSQL_TYPE_TINY_BLOB \<Rightarrow> 249
   | MYSQL_TYPE_MEDIUM_BLOB \<Rightarrow> 250 | MYSQL_TYPE_LONG_BLOB \<Rightarrow> 251 | MYSQL_TYPE_BLOB \<Rightarrow> 252
   | MYSQL_TYPE_VAR_STRING \<Rightarrow> 253 | MYSQL_TYPE_STRING \<Rightarrow> 254 | MYSQL_TYPE_GEOMETRY \<Rightarrow> 255)"

definition mysql_enum :: "(field_type \<Rightarrow> int) \<Rightarrow> bool" where
  "mysql_enum num \<longleftrightarrow> (\<forall>t. num t = mysql_type_no t)"

lemma mysql_enum_eq: "mysql_enum num \<Longrightarrow> num = mysql_type_no"
  by (auto simp: mysql_enum_def)

text \<open>
  The index computed for a column type is -1 exactly for the types the conversion table has
  no entry for, and otherwise the index of the table's entry for that very type.
\<close>

lemma field_index_correct:
  assumes "mysql_enum num"
  shows "if t \<in> {MYSQL_TYPE_INVALID, MYSQL_TYPE_BOOL, MYSQL_TYPE_ENUM, MYSQL_TYPE_SET, MYSQL_TYPE_GEOMETRY}
         then get_idx_for_field_convert num t = -1
         else 0 \<le> get_idx_for_field_convert num t \<and>
              nat (get_idx_for_field_convert num t) < length g_field_cnvrt_aux_array \<and>
              aux_mysql_field_type (g_field_cnvrt_aux_array ! nat (get_idx_for_field_convert num t)) = t"
  unfolding mysql_enum_eq [OF assms]
  by (cases t) (simp_all add: get_idx_for_field_convert_def mysql_type_no_def g_field_cnvrt_aux_array_def aux_entry_def)

lemma field_index_correct_witness:
  "mysql_enum mysql_type_no \<and> get_idx_for_field_convert mysql_type_no MYSQL_TYPE_STRING = 28 \<and>
   aux_mysql_field_type (g_field_cnvrt_aux_array ! 28) = MYSQL_TYPE_STRING"
proof -
  have m: "mysql_enum mysql_type_no" by (simp add: mysql_enum_def)
  have "get_idx_for_field_convert mysql_type_no MYSQL_TYPE_STRING = 28"
    by (simp add: get_idx_for_field_convert_def mysql_type_no_def)
  then show ?thesis using m field_index_correct [of mysql_type_no MYSQL_TYPE_STRING] by simp
qed

text \<open>A column whose type has an entry, as the row conversion uses it.\<close>

definition same_layout :: "field_cnvrt_aux \<Rightarrow> field_cnvrt_aux \<Rightarrow> bool" where
  "same_layout a b \<longleftrightarrow> aux_mysql_field_type a = aux_mysql_field_type b \<and>
     aux_cantian_map_type a = aux_cantian_map_type b \<and> aux_sql_data_type a = aux_sql_data_type b"

lemma lookup_update:
  "get_auxiliary_for_field_convert num arr field t = (arr', r) \<Longrightarrow>
   arr' = arr \<or> (\<exists>i d. r = Some i \<and> arr' = arr[i := (arr ! i)\<lparr>aux_ddl_field_type := d\<rparr>])"
  by (auto simp: get_auxiliary_for_field_convert_def Let_def split: if_splits)

lemma same_layout_update:
  "list_all2 same_layout arr (arr[i := (arr ! i)\<lparr>aux_ddl_field_type := d\<rparr>])"
proof (rule list_all2_all_nthI)
  fix j assume "j < length arr"
  then show "same_layout (arr ! j) (arr[i := (arr ! i)\<lparr>aux_ddl_field_type := d\<rparr>] ! j)"
    by (cases "i = j") (simp_all add: same_layout_def)
qed simp

lemma same_layout_refl: "list_all2 same_layout arr arr"
  by (simp add: list.rel_refl same_layout_def)

text \<open>
  A lookup never changes the storage class, the conversion family or the MySQL type of any
  entry of the shared table, whatever lookups went before; only the data-definition type of the
  entry it returns may change.
\<close>

lemma lookup_keeps_layout:
  assumes "get_auxiliary_for_field_convert num arr field t = (arr', r)"
  shows "list_all2 same_layout arr arr' \<and> (\<forall>i < length arr. r \<noteq> Some i \<longrightarrow> arr' ! i = arr ! i)"
  using lookup_update [OF assms]
proof
  assume "\<exists>i d. r = Some i \<and> arr' = arr[i := (arr ! i)\<lparr>aux_ddl_field_type := d\<rparr>]"
  then obtain i d where "r = Some i" "arr' = arr[i := (arr ! i)\<lparr>aux_ddl_field_type := d\<rparr>]" by blast
  then show ?thesis using same_layout_update by (metis nth_list_update_neq)
qed (simp add: same_layout_refl)

definition text_column :: field_desc where
  "text_column = \<lparr>fd_real_type = MYSQL_TYPE_BLOB, fd_pack_length = 10, fd_blob_flag = True,
     fd_binary_flag = False, fd_charset_bin = False\<rparr>"

lemma lookup_keeps_layout_witness:
  "list_all2 same_layout g_field_cnvrt_aux_array
     (fst (get_auxiliary_for_field_convert mysql_type_no g_field_cnvrt_aux_array text_column MYSQL_TYPE_BLOB)) \<and>
   aux_ddl_field_type (fst (get_auxiliary_for_field_convert mysql_type_no g_field_cnvrt_aux_array text_column MYSQL_TYPE_BLOB) ! 26)
     = CTC_DDL_TYPE_CLOB"
proof -
  let ?r = "get_auxiliary_for_field_convert mysql_type_no g_field_cnvrt_aux_array text_column MYSQL_TYPE_BLOB"
  have "list_all2 same_layout g_field_cnvrt_aux_array (fst ?r)"
    using lookup_keeps_layout [of mysql_type_no g_field_cnvrt_aux_array text_column MYSQL_TYPE_BLOB "fst ?r" "snd ?r"] by simp
  moreover have "aux_ddl_field_type (fst ?r ! 26) = CTC_DDL_TYPE_CLOB"
    by (simp add: get_auxiliary_for_field_convert_def get_idx_for_field_convert_def mysql_type_no_def
        text_column_def g_field_cnvrt_aux_array_def aux_entry_def)
  ultimately show ?thesis ..
qed

end
