(* ===== verification/CTC_Cond.thy ===== *)
theory CTC_Cond
  imports CTC_Types CTC_Date
begin

text \<open>
  Condition pushdown (ctc_util.cc, ha_ctc.cc): a WHERE condition is split into a part the storage
  engine evaluates during the scan and a remainder. An \<open>Item\<close> of MySQL is a node with the
  attributes the sources read and a list of arguments; a \<open>dynamic_cast\<close> that may fail is an
  attribute of the node. The predicates on column types and the constructors of
  \<open>Item_cond_and\<close> and \<open>Item_cond_or\<close> belong to MySQL and are parameters.
\<close>

section \<open>Items\<close>

datatype item_type =
  FUNC_ITEM | COND_ITEM | FIELD_ITEM | INT_ITEM | REAL_ITEM | DECIMAL_ITEM | STRING_ITEM | NULL_ITEM
  | CACHE_ITEM | OTHER_ITEM

datatype functype =
  EQ_FUNC | EQUAL_FUNC | NE_FUNC | LT_FUNC | LE_FUNC | GT_FUNC | GE_FUNC | LIKE_FUNC | ISNULL_FUNC
  | ISNOTNULL_FUNC | COND_AND_FUNC | COND_OR_FUNC | XOR_FUNC | MOD_FUNC | PLUS_FUNC | MINUS_FUNC
  | MUL_FUNC | DIV_FUNC | DATE_FUNC | DATETIME_LITERAL | OTHER_FUNC

datatype item_result =
  INVALID_RESULT | STRING_RESULT | REAL_RESULT | INT_RESULT | ROW_RESULT | DECIMAL_RESULT

record item_attr =
  it_type :: item_type
  it_is_func :: bool
  it_is_cond :: bool
  it_is_field :: bool
  it_is_like :: bool
  it_functype :: functype
  it_cmp_context :: item_result
  it_result_type :: item_result
  it_data_type :: field_type
  it_real_type :: field_type
  it_is_gcol :: bool
  it_prefix_key :: bool
  it_pad_char :: char
  it_basic_const :: bool
  it_escape_used :: bool
  it_get_date :: "mysql_time option"

datatype item = Item (attr: item_attr) (arguments: "item list")

abbreviation item_type :: "item \<Rightarrow> item_type" where "item_type t \<equiv> it_type (attr t)"

record mysql_api =
  is_integer_type :: "field_type \<Rightarrow> bool"
  is_string_type :: "field_type \<Rightarrow> bool"
  is_numeric_type :: "field_type \<Rightarrow> bool"
  is_temporal_type :: "field_type \<Rightarrow> bool"
  non_zero_date :: "mysql_time \<Rightarrow> bool"

section \<open>Function types\<close>

datatype ctc_func_type =
  CTC_EQ_FUNC | CTC_EQUAL_FUNC | CTC_NE_FUNC | CTC_LT_FUNC | CTC_LE_FUNC | CTC_GE_FUNC | CTC_GT_FUNC
  | CTC_LIKE_FUNC | CTC_ISNULL_FUNC | CTC_ISNOTNULL_FUNC | CTC_COND_AND_FUNC | CTC_COND_OR_FUNC
  | CTC_XOR_FUNC | CTC_MOD_FUNC | CTC_PLUS_FUNC | CTC_MINUS_FUNC | CTC_MUL_FUNC | CTC_DIV_FUNC
  | CTC_DATE_FUNC | CTC_UNKNOWN_FUNC

datatype ctc_cond_type =
  CTC_FIELD_EXPR | CTC_CONST_EXPR | CTC_NULL_EXPR | CTC_LIKE_EXPR | CTC_CMP_EXPR | CTC_LOGIC_EXPR
  | CTC_ARITHMATIC_EXPR | CTC_DATE_EXPR | CTC_UNKNOWN_EXPR

definition g_cond_func_type :: "(functype \<times> ctc_func_type \<times> ctc_cond_type) list" where
  "g_cond_func_type = [
     (EQ_FUNC, CTC_EQ_FUNC, CTC_CMP_EXPR),
     (EQUAL_FUNC, CTC_EQUAL_FUNC, CTC_CMP_EXPR),
     (NE_FUNC, CTC_NE_FUNC, CTC_CMP_EXPR),
     (LT_FUNC, CTC_LT_FUNC, CTC_CMP_EXPR),
     (LE_FUNC, CTC_LE_FUNC, CTC_CMP_EXPR),
     (GT_FUNC, CTC_GT_FUNC, CTC_CMP_EXPR),
     (GE_FUNC, CTC_GE_FUNC, CTC_CMP_EXPR),
     (LIKE_FUNC, CTC_LIKE_FUNC, CTC_LIKE_EXPR),
     (ISNULL_FUNC, CTC_ISNULL_FUNC, CTC_NULL_EXPR),
     (ISNOTNULL_FUNC, CTC_ISNOTNULL_FUNC, CTC_NULL_EXPR),
     (COND_AND_FUNC, CTC_COND_AND_FUNC, CTC_LOGIC_EXPR),
     (COND_OR_FUNC, CTC_COND_OR_FUNC, CTC_LOGIC_EXPR),
     (XOR_FUNC, CTC_XOR_FUNC, CTC_LOGIC_EXPR),
     (MOD_FUNC, CTC_MOD_FUNC, CTC_ARITHMATIC_EXPR),
     (PLUS_FUNC, CTC_PLUS_FUNC, CTC_ARITHMATIC_EXPR),
     (MINUS_FUNC, CTC_MINUS_FUNC, CTC_ARITHMATIC_EXPR),
     (MUL_FUNC, CTC_MUL_FUNC, CTC_ARITHMATIC_EXPR),
     (DIV_FUNC, CTC_DIV_FUNC, CTC_ARITHMATIC_EXPR),
     (DATE_FUNC, CTC_DATE_FUNC, CTC_DATE_EXPR),
     (DATETIME_LITERAL, CTC_DATE_FUNC, CTC_DATE_EXPR)]"

definition get_cond_func_type_map :: "functype \<Rightarrow> (ctc_func_type \<times> ctc_cond_type) option" where
  "get_cond_func_type_map fc = map_of g_cond_func_type fc"

definition set_cond_types :: "functype \<Rightarrow> ctc_cond_type \<times> ctc_func_type" where
  "set_cond_types fc = (case get_cond_func_type_map fc of
     Some (f, c) \<Rightarrow> (c, f) | None \<Rightarrow> (CTC_UNKNOWN_EXPR, CTC_UNKNOWN_FUNC))"

section \<open>What can be pushed\<close>

definition logic_parent :: "functype \<Rightarrow> bool" where
  "logic_parent parent_type \<longleftrightarrow> parent_type = COND_AND_FUNC \<or> parent_type = COND_OR_FUNC"

definition is_supported_conds :: "item \<Rightarrow> functype \<Rightarrow> bool" where
  "is_supported_conds term parent_type =
     (if \<not> logic_parent parent_type then False
      else if \<not> it_is_func (attr term) then False
      else it_functype (attr term) = COND_AND_FUNC \<or> it_functype (attr term) = COND_OR_FUNC)"

text \<open>The argument vectors of LIKE and of the NULL tests have two and one elements at least.\<close>

definition is_supported_funcs_like :: "mysql_api \<Rightarrow> item \<Rightarrow> functype \<Rightarrow> bool" where
  "is_supported_funcs_like api item_func parent_type =
     (if \<not> logic_parent parent_type then False
      else case arguments item_func of
        a0 # a1 # _ \<Rightarrow>
          if item_type a1 \<noteq> STRING_ITEM \<or> it_cmp_context (attr a1) \<noteq> STRING_RESULT then False
          else if item_type a0 \<noteq> FIELD_ITEM then False
          else if \<not> it_is_like (attr item_func) \<or> it_escape_used (attr item_func) then False
          else if \<not> it_is_field (attr a0) then False
          else is_string_type api (it_data_type (attr a0))
      | _ \<Rightarrow> False)"

definition is_arithmetic_function :: "functype \<Rightarrow> bool" where
  "is_arithmetic_function functype \<longleftrightarrow>
     functype \<in> {PLUS_FUNC, MINUS_FUNC, MUL_FUNC, DIV_FUNC, MOD_FUNC}"

definition arithmetic_operand :: "mysql_api \<Rightarrow> item \<Rightarrow> bool" where
  "arithmetic_operand api a =
     (if item_type a = FIELD_ITEM then it_is_field (attr a) \<and> is_integer_type api (it_data_type (attr a))
      else if item_type a = FUNC_ITEM then is_arithmetic_function (it_functype (attr a))
      else item_type a = INT_ITEM \<or> item_type a = CACHE_ITEM)"

definition is_supported_funcs_arithmetic :: "mysql_api \<Rightarrow> item \<Rightarrow> functype \<Rightarrow> bool" where
  "is_supported_funcs_arithmetic api item_func parent_type =
     (if logic_parent parent_type then False
      else if length (arguments item_func) \<noteq> 2 then False
      else list_all (arithmetic_operand api) (arguments item_func))"

text \<open>The code after \<open>return true\<close> in \<open>is_supported_funcs_logic\<close> is not reached.\<close>

definition is_supported_funcs_logic :: "item \<Rightarrow> functype \<Rightarrow> bool" where
  "is_supported_funcs_logic item_func parent_type =
     (if \<not> logic_parent parent_type then False
      else if length (arguments item_func) \<noteq> 2 then False else True)"

definition is_supported_funcs_null :: "item \<Rightarrow> functype \<Rightarrow> bool" where
  "is_supported_funcs_null item_func parent_type =
     (if \<not> logic_parent parent_type then False
      else case arguments item_func of a0 # _ \<Rightarrow> item_type a0 = FIELD_ITEM | [] \<Rightarrow> False)"

definition check_cmp_result :: "mysql_api \<Rightarrow> item \<Rightarrow> item \<Rightarrow> bool" where
  "check_cmp_result api item_field right =
     (let ft = it_data_type (attr item_field); type = item_type right; ctx = it_cmp_context (attr right)
      in if \<not> it_is_field (attr item_field) then False
         else if type = NULL_ITEM then True
         else if ft = MYSQL_TYPE_YEAR then type = INT_ITEM \<and> ctx = INT_RESULT
         else if is_temporal_type api ft
         then (if \<not> (it_basic_const (attr right) \<and> ctx = INT_RESULT) then False
               else if ft = MYSQL_TYPE_TIMESTAMP
               then (if \<not> it_is_func (attr right) then False
                     else case it_get_date (attr right) of None \<Rightarrow> False
                       | Some ltime \<Rightarrow>
                           if non_zero_date api ltime
                           then mt_year ltime \<noteq> 0 \<and> mt_month ltime \<noteq> 0 \<and> mt_day ltime \<noteq> 0 else True)
               else True)
         else if is_string_type api ft then type = STRING_ITEM \<and> ctx = STRING_RESULT
         else if is_integer_type api ft then type = INT_ITEM \<and> ctx = INT_RESULT \<or> type = CACHE_ITEM
         else if is_numeric_type api ft then (type = REAL_ITEM \<or> type = DECIMAL_ITEM) \<and> ctx \<noteq> STRING_RESULT
         else False)"

definition is_supported_const :: "item \<Rightarrow> functype \<Rightarrow> bool" where
  "is_supported_const term parent_type =
     (if logic_parent parent_type then False
      else item_type term \<in> {INT_ITEM, STRING_ITEM, REAL_ITEM, DECIMAL_ITEM, NULL_ITEM})"

definition is_valid_cmp_operand :: "mysql_api \<Rightarrow> item \<Rightarrow> item \<Rightarrow> functype \<Rightarrow> bool" where
  "is_valid_cmp_operand api operand1 operand2 parent_type =
     (if item_type operand1 = FUNC_ITEM
      then (if \<not> it_is_func (attr operand1) then False
            else case get_cond_func_type_map (it_functype (attr operand1)) of None \<Rightarrow> False
              | Some (_, cond_type) \<Rightarrow>
                  if cond_type = CTC_ARITHMATIC_EXPR
                  then (if item_type operand2 = INT_ITEM then True
                        else if item_type operand2 = CACHE_ITEM then it_result_type (attr operand2) = INT_RESULT
                        else if item_type operand2 = FIELD_ITEM then is_integer_type api (it_data_type (attr operand2))
                        else if item_type operand2 = FUNC_ITEM then is_arithmetic_function (it_functype (attr operand2))
                        else False)
                  else False)
      else if item_type operand1 = FIELD_ITEM then check_cmp_result api operand1 operand2
      else is_supported_const operand2 parent_type)"

definition is_supported_funcs_cmp :: "mysql_api \<Rightarrow> item \<Rightarrow> functype \<Rightarrow> bool" where
  "is_supported_funcs_cmp api item_func parent_type =
     (if \<not> logic_parent parent_type then False
      else case arguments item_func of
        [left, right] \<Rightarrow>
          is_valid_cmp_operand api left right (it_functype (attr item_func)) \<or>
          is_valid_cmp_operand api right left (it_functype (attr item_func))
      | _ \<Rightarrow> False)"

definition is_supported_funcs_date :: "functype \<Rightarrow> bool" where
  "is_supported_funcs_date parent_type = (\<not> logic_parent parent_type)"

definition is_supported_funcs :: "mysql_api \<Rightarrow> item \<Rightarrow> functype \<Rightarrow> bool" where
  "is_supported_funcs api term parent_type =
     (if \<not> it_is_func (attr term) then False
      else case get_cond_func_type_map (it_functype (attr term)) of None \<Rightarrow> False
        | Some (_, cond_type) \<Rightarrow>
           (case cond_type of
              CTC_CMP_EXPR \<Rightarrow> is_supported_funcs_cmp api term parent_type
            | CTC_LOGIC_EXPR \<Rightarrow> is_supported_funcs_logic term parent_type
            | CTC_NULL_EXPR \<Rightarrow> is_supported_funcs_null term parent_type
            | CTC_LIKE_EXPR \<Rightarrow> is_supported_funcs_like api term parent_type
            | CTC_ARITHMATIC_EXPR \<Rightarrow> is_supported_funcs_arithmetic api term parent_type
            | CTC_DATE_EXPR \<Rightarrow> is_supported_funcs_date parent_type
            | _ \<Rightarrow> False))"

definition is_supported_cache :: "item \<Rightarrow> functype \<Rightarrow> bool" where
  "is_supported_cache term parent_type =
     (if logic_parent parent_type then False else it_result_type (attr term) = INT_RESULT)"

definition is_supported_datatype_field :: "field_type \<Rightarrow> bool" where
  "is_supported_datatype_field t \<longleftrightarrow>
     t \<notin> {MYSQL_TYPE_JSON, MYSQL_TYPE_ENUM, MYSQL_TYPE_SET, MYSQL_TYPE_BIT, MYSQL_TYPE_NULL,
           MYSQL_TYPE_TYPED_ARRAY, MYSQL_TYPE_TINY_BLOB, MYSQL_TYPE_MEDIUM_BLOB, MYSQL_TYPE_LONG_BLOB,
           MYSQL_TYPE_BLOB}"

definition is_supported_field :: "item \<Rightarrow> functype \<Rightarrow> bool" where
  "is_supported_field term parent_type =
     (if logic_parent parent_type then False
      else if item_type term \<noteq> FIELD_ITEM then False
      else if \<not> it_is_field (attr term) then False
      else if it_is_gcol (attr term) \<or> it_prefix_key (attr term) then False
      else if \<not> is_supported_datatype_field (it_real_type (attr term)) then False
      else if it_data_type (attr term) = MYSQL_TYPE_STRING \<and> it_pad_char (attr term) = CHR 0x00 then False
      else if parent_type = ISNULL_FUNC \<or> parent_type = ISNOTNULL_FUNC then True
      else case get_cond_func_type_map parent_type of None \<Rightarrow> False
        | Some (_, cond_type) \<Rightarrow> \<not> (cond_type = CTC_CMP_EXPR \<and> it_cmp_context (attr term) = INVALID_RESULT))"

text \<open>The column \<open>is_support\<close> of \<open>g_cond_push_map\<close>; a type not in the table has none.\<close>

definition is_support :: "mysql_api \<Rightarrow> item \<Rightarrow> functype \<Rightarrow> bool" where
  "is_support api term parent_type = (case item_type term of
     FUNC_ITEM \<Rightarrow> is_supported_funcs api term parent_type
   | COND_ITEM \<Rightarrow> is_supported_conds term parent_type
   | FIELD_ITEM \<Rightarrow> is_supported_field term parent_type
   | INT_ITEM \<Rightarrow> is_supported_const term parent_type
   | REAL_ITEM \<Rightarrow> is_supported_const term parent_type
   | DECIMAL_ITEM \<Rightarrow> is_supported_const term parent_type
   | STRING_ITEM \<Rightarrow> is_supported_const term parent_type
   | NULL_ITEM \<Rightarrow> is_supported_const term parent_type
   | CACHE_ITEM \<Rightarrow> is_supported_cache term parent_type
   | OTHER_ITEM \<Rightarrow> False)"

section \<open>Splitting a condition\<close>

text \<open>The pair (pushed_cond, remainder_cond); \<^const>\<open>None\<close> is the null pointer.\<close>

type_synonym split_cond = "item option \<times> item option"

definition push_all_cond_item :: "item \<Rightarrow> split_cond" where
  "push_all_cond_item term = (Some term, None)"

definition remain_all_cond_item :: "item \<Rightarrow> split_cond" where
  "remain_all_cond_item term = (None, Some term)"

text \<open>
  \<open>new_cond fc l\<close> is \<open>new Item_cond_and(l)\<close> or \<open>new Item_cond_or(l)\<close>; \<^const>\<open>None\<close> when the allocation
  fails, in which case \<open>create_and_conditions\<close> and \<open>create_or_conditions\<close> return 1, here \<^const>\<open>None\<close>.
\<close>

definition create_and_conditions ::
    "(functype \<Rightarrow> item list \<Rightarrow> item option) \<Rightarrow> item \<Rightarrow> item list \<Rightarrow> item list \<Rightarrow> split_cond option" where
  "create_and_conditions new_cond cond pushed_list remainder_list =
     (if remainder_list = [] then Some (Some cond, None)
      else if pushed_list = [] then Some (None, Some cond)
      else case (if length pushed_list = 1 then Some (hd pushed_list) else new_cond COND_AND_FUNC pushed_list) of
             None \<Rightarrow> None
           | Some p \<Rightarrow>
              (case (if length remainder_list = 1 then Some (hd remainder_list)
                     else new_cond COND_AND_FUNC remainder_list) of
                 None \<Rightarrow> None
               | Some r \<Rightarrow> Some (Some p, Some r)))"

definition create_or_conditions ::
    "(functype \<Rightarrow> item list \<Rightarrow> item option) \<Rightarrow> item \<Rightarrow> item list \<Rightarrow> item list \<Rightarrow> split_cond option" where
  "create_or_conditions new_cond cond pushed_list remainder_list =
     (if remainder_list = [] then Some (Some cond, None)
      else case new_cond COND_OR_FUNC pushed_list of None \<Rightarrow> None | Some p \<Rightarrow> Some (Some p, Some cond))"

definition option_list :: "'a option \<Rightarrow> 'a list" where
  "option_list x = (case x of None \<Rightarrow> [] | Some a \<Rightarrow> [a])"

text \<open>
  \<open>push_func_args\<close> is the loop of \<open>push_func_item\<close>: whether every operand is pushed.
  \<open>push_bool_args\<close> is the loop of \<open>cond_push_boolean_term\<close>: the two lists, or \<^const>\<open>None\<close> when the
  loop returns because an operand of an OR is not pushed.
\<close>

fun cond_push_term ::
      "mysql_api \<Rightarrow> (functype \<Rightarrow> item list \<Rightarrow> item option) \<Rightarrow> functype \<Rightarrow> item \<Rightarrow> split_cond"
  and push_func_args ::
      "mysql_api \<Rightarrow> (functype \<Rightarrow> item list \<Rightarrow> item option) \<Rightarrow> functype \<Rightarrow> item list \<Rightarrow> bool"
  and push_bool_args ::
      "mysql_api \<Rightarrow> (functype \<Rightarrow> item list \<Rightarrow> item option) \<Rightarrow> functype \<Rightarrow> item list \<Rightarrow> (item list \<times> item list) option"
where
  "cond_push_term api new_cond parent_type (Item a args) =
     (if \<not> is_support api (Item a args) parent_type then remain_all_cond_item (Item a args)
      else if it_type a = FUNC_ITEM
      then (if push_func_args api new_cond (it_functype a) args then push_all_cond_item (Item a args)
            else remain_all_cond_item (Item a args))
      else if it_type a = COND_ITEM
      then (if \<not> it_is_cond a then (None, None)
            else case push_bool_args api new_cond (it_functype a) args of
               None \<Rightarrow> remain_all_cond_item (Item a args)
             | Some (pushed_list, remainder_list) \<Rightarrow>
                (case (if it_functype a = COND_AND_FUNC
                       then create_and_conditions new_cond (Item a args) pushed_list remainder_list
                       else create_or_conditions new_cond (Item a args) pushed_list remainder_list) of
                   None \<Rightarrow> remain_all_cond_item (Item a args)
                 | Some pr \<Rightarrow> pr))
      else push_all_cond_item (Item a args))"
| "push_func_args api new_cond fc [] = True"
| "push_func_args api new_cond fc (operand # rest) =
     (case cond_push_term api new_cond fc operand of
        (None, _) \<Rightarrow> False
      | (Some _, _) \<Rightarrow> push_func_args api new_cond fc rest)"
| "push_bool_args api new_cond fc [] = Some ([], [])"
| "push_bool_args api new_cond fc (operand # rest) =
     (case cond_push_term api new_cond fc operand of (pushed, remainder) \<Rightarrow>
        if pushed = None \<and> fc \<noteq> COND_AND_FUNC then None
        else case push_bool_args api new_cond fc rest of
          None \<Rightarrow> None
        | Some (pl, rl) \<Rightarrow> Some (option_list pushed @ pl, option_list remainder @ rl))"

text \<open>\<open>prep_cond_push\<close>, and what \<open>cond_push\<close> returns to the server: the whole condition.\<close>

definition prep_cond_push :: "mysql_api \<Rightarrow> (functype \<Rightarrow> item list \<Rightarrow> item option) \<Rightarrow> item \<Rightarrow> split_cond" where
  "prep_cond_push api new_cond cond = cond_push_term api new_cond COND_AND_FUNC cond"

record pushdown =
  m_pushed_conds :: "item option"
  m_remainder_conds :: "item option"
  pushed_cond :: "item option"
  m_cond :: bool

text \<open>
  \<open>enabled\<close> is the optimizer switch, \<open>recursive\<close> the test for a recursive query, \<open>alloc\<close> and \<open>fill\<close>
  the outcomes of \<open>ctc_alloc_buf\<close> and \<open>ctc_fill_conds\<close>; the result is the handler's state and the
  condition the server goes on to evaluate.
\<close>

definition cond_push ::
    "mysql_api \<Rightarrow> (functype \<Rightarrow> item list \<Rightarrow> item option) \<Rightarrow> bool \<Rightarrow> bool \<Rightarrow> bool \<Rightarrow> (item \<Rightarrow> bool) \<Rightarrow>
     item \<Rightarrow> pushdown \<Rightarrow> pushdown \<times> item" where
  "cond_push api new_cond enabled recursive alloc fill cond h =
     (if \<not> enabled then (h, cond)
      else if recursive then (h, cond)
      else
        let (p, r) = prep_cond_push api new_cond cond; h = h\<lparr>m_pushed_conds := p, m_remainder_conds := r\<rparr>
        in case p of
             None \<Rightarrow> (h, cond)
           | Some pushed \<Rightarrow>
               if \<not> alloc then (h\<lparr>m_cond := False\<rparr>, cond)
               else if \<not> fill pushed
               then (h\<lparr>m_cond := False, m_pushed_conds := None, m_remainder_conds := None\<rparr>, cond)
               else (h\<lparr>m_cond := True, pushed_cond := Some pushed, m_remainder_conds := Some cond\<rparr>, cond))"

section \<open>Meaning of a condition\<close>

text \<open>SQL's three truth values, ordered: AND is the minimum, OR the maximum.\<close>

datatype truth = FALSE | UNKNOWN | TRUE

instantiation truth :: linorder
begin

definition truth_rank :: "truth \<Rightarrow> nat" where
  "truth_rank v = (case v of FALSE \<Rightarrow> 0 | UNKNOWN \<Rightarrow> 1 | TRUE \<Rightarrow> 2)"

definition less_eq_truth :: "truth \<Rightarrow> truth \<Rightarrow> bool" where
  "less_eq_truth v w \<longleftrightarrow> truth_rank v \<le> truth_rank w"

definition less_truth :: "truth \<Rightarrow> truth \<Rightarrow> bool" where
  "less_truth v w \<longleftrightarrow> truth_rank v < truth_rank w"

instance
  by standard (auto simp: less_eq_truth_def less_truth_def truth_rank_def split: truth.splits)

end

lemma truth_top [simp]: "v \<le> TRUE" "min v TRUE = v" "min TRUE v = v" "TRUE \<le> v \<longleftrightarrow> v = TRUE"
  by (cases v; simp add: less_eq_truth_def truth_rank_def min_def)+

lemma truth_bot [simp]: "FALSE \<le> v" "max v FALSE = v" "max FALSE v = v"
  by (cases v; simp add: less_eq_truth_def truth_rank_def max_def)+

definition all_true :: "truth list \<Rightarrow> truth" where
  "all_true vs = fold min vs TRUE"

definition some_true :: "truth list \<Rightarrow> truth" where
  "some_true vs = fold max vs FALSE"

lemma fold_min: "fold min vs v = min v (fold min vs (TRUE::truth))"
proof (induction vs arbitrary: v)
  case (Cons w vs)
  show ?case using Cons.IH [of "min w v"] Cons.IH [of w] by (simp add: min.commute min.left_commute min.assoc)
qed simp

lemma fold_max: "fold max vs v = max v (fold max vs (FALSE::truth))"
proof (induction vs arbitrary: v)
  case (Cons w vs)
  show ?case using Cons.IH [of "max w v"] Cons.IH [of w] by (simp add: max.commute max.left_commute max.assoc)
qed simp

lemma all_true_simps [simp]: "all_true [] = TRUE" "all_true (v # vs) = min v (all_true vs)"
  using fold_min [of vs v] by (simp_all add: all_true_def)

lemma some_true_simps [simp]: "some_true [] = FALSE" "some_true (v # vs) = max v (some_true vs)"
  using fold_max [of vs v] by (simp_all add: some_true_def)

text \<open>
  The value of a condition for one row; \<open>val\<close> gives the value of what is not an AND or OR
  condition.
\<close>

fun eval :: "(item \<Rightarrow> truth) \<Rightarrow> item \<Rightarrow> truth" where
  "eval val (Item a args) =
     (if it_type a = COND_ITEM \<and> it_functype a = COND_AND_FUNC then all_true (map (eval val) args)
      else if it_type a = COND_ITEM \<and> it_functype a = COND_OR_FUNC then some_true (map (eval val) args)
      else val (Item a args))"

definition eval_opt :: "(item \<Rightarrow> truth) \<Rightarrow> item option \<Rightarrow> truth" where
  "eval_opt val c = (case c of None \<Rightarrow> TRUE | Some t \<Rightarrow> eval val t)"

text \<open>
  MySQL's class hierarchy: an item of type COND_ITEM is an \<open>Item_cond\<close>, and AND and OR are such
  items, never of type FUNC_ITEM. A new condition is an \<open>Item_cond\<close> over the list it was given.
\<close>

fun item_wf :: "item \<Rightarrow> bool" where
  "item_wf (Item a args) \<longleftrightarrow> (it_type a = COND_ITEM \<longrightarrow> it_is_cond a) \<and>
     (it_type a = FUNC_ITEM \<longrightarrow> \<not> logic_parent (it_functype a)) \<and> list_all item_wf args"

definition new_cond_ok :: "(functype \<Rightarrow> item list \<Rightarrow> item option) \<Rightarrow> bool" where
  "new_cond_ok new_cond \<longleftrightarrow> (\<forall>fc l c. new_cond fc l = Some c \<longrightarrow>
     item_type c = COND_ITEM \<and> it_is_func (attr c) \<and> it_functype (attr c) = fc \<and> arguments c = l)"

lemma eval_new_cond:
  assumes "new_cond_ok new_cond"
  shows "new_cond COND_AND_FUNC l = Some c \<Longrightarrow> eval val c = all_true (map (eval val) l)"
    "new_cond COND_OR_FUNC l = Some c \<Longrightarrow> eval val c = some_true (map (eval val) l)"
  using assms unfolding new_cond_ok_def by (cases c; fastforce)+

lemma all_true_option_list:
  "all_true (map (eval val) (option_list c @ l)) = min (eval_opt val c) (all_true (map (eval val) l))"
  by (auto simp: option_list_def eval_opt_def split: option.splits)

section \<open>The split keeps the meaning\<close>

lemma create_and_conditions_eval:
  assumes "new_cond_ok new_cond" "create_and_conditions new_cond cond pl rl = Some (p, r)"
    and "min (all_true (map (eval val) pl)) (all_true (map (eval val) rl)) = eval val cond"
  shows "min (eval_opt val p) (eval_opt val r) = eval val cond"
proof -
  have single: "all_true (map (eval val) l) = eval val x"
    if "(if length l = 1 then Some (hd l) else new_cond COND_AND_FUNC l) = Some x" "l \<noteq> []" for l x
  proof (cases "length l = 1")
    case True
    then obtain y where "l = [y]" by (cases l) auto
    then show ?thesis using that by simp
  qed (use that eval_new_cond(1) [OF assms(1)] in auto)
  show ?thesis
    using assms(2,3) single unfolding create_and_conditions_def
    by (auto simp: eval_opt_def split: if_splits option.splits)
qed

lemma create_or_conditions_eval:
  assumes "new_cond_ok new_cond" "create_or_conditions new_cond cond pl rl = Some (p, r)"
    and "eval val cond \<le> some_true (map (eval val) pl)"
  shows "min (eval_opt val p) (eval_opt val r) = eval val cond"
  using assms(2,3) eval_new_cond(2) [OF assms(1)] unfolding create_or_conditions_def
  by (auto simp: eval_opt_def min_def split: if_splits option.splits)

lemma push_split:
  shows "cond_push_term api new_cond fc t = (p, r) \<Longrightarrow> new_cond_ok new_cond \<Longrightarrow> item_wf t \<Longrightarrow>
      min (eval_opt val p) (eval_opt val r) = eval val t"
    and "push_func_args api new_cond fc args \<Longrightarrow> True"
    and "push_bool_args api new_cond fc args = Some (pl, rl) \<Longrightarrow> new_cond_ok new_cond \<Longrightarrow>
      list_all item_wf args \<Longrightarrow>
      (fc = COND_AND_FUNC \<longrightarrow>
        min (all_true (map (eval val) pl)) (all_true (map (eval val) rl)) = all_true (map (eval val) args)) \<and>
      (fc \<noteq> COND_AND_FUNC \<longrightarrow> some_true (map (eval val) args) \<le> some_true (map (eval val) pl))"
proof (induction api new_cond fc t and api new_cond fc args and api new_cond fc args
    arbitrary: p r and and pl rl rule: cond_push_term_push_func_args_push_bool_args.induct)
  case (1 api new_cond parent_type a args)
  let ?t = "Item a args"
  have whole: "min (eval_opt val p) (eval_opt val r) = eval val ?t"
    if "(p, r) = push_all_cond_item ?t \<or> (p, r) = remain_all_cond_item ?t"
    using that by (auto simp: push_all_cond_item_def remain_all_cond_item_def eval_opt_def)
  show ?case
  proof (cases "is_support api ?t parent_type \<and> it_type a = COND_ITEM")
    case True
    then have s: "is_support api ?t parent_type" "it_type a = COND_ITEM" "it_is_cond a"
      "it_functype a = COND_AND_FUNC \<or> it_functype a = COND_OR_FUNC"
      using 1(5) by (auto simp: is_support_def is_supported_conds_def split: if_splits)
    show ?thesis
    proof (cases "push_bool_args api new_cond (it_functype a) args")
      case None
      then show ?thesis using 1(3) s by (intro whole) auto
    next
      case (Some lists)
      then obtain pl rl where l: "push_bool_args api new_cond (it_functype a) args = Some (pl, rl)" by (cases lists) auto
      have wf: "list_all item_wf args" using 1(5) by simp
      have IH: "(it_functype a = COND_AND_FUNC \<longrightarrow>
          min (all_true (map (eval val) pl)) (all_true (map (eval val) rl)) = all_true (map (eval val) args)) \<and>
        (it_functype a \<noteq> COND_AND_FUNC \<longrightarrow> some_true (map (eval val) args) \<le> some_true (map (eval val) pl))"
        using 1(2) s l 1(4) wf by auto
      define c where "c = (if it_functype a = COND_AND_FUNC then create_and_conditions new_cond ?t pl rl
        else create_or_conditions new_cond ?t pl rl)"
      show ?thesis
      proof (cases c)
        case None
        then show ?thesis using 1(3) s l unfolding c_def by (intro whole) auto
      next
        case (Some pr)
        then have "pr = (p, r)" using 1(3) s l unfolding c_def by auto
        then show ?thesis
          using Some IH s 1(4) create_and_conditions_eval create_or_conditions_eval unfolding c_def
          by (fastforce split: if_splits)
      qed
    qed
  next
    case False
    then show ?thesis using 1(3) by (intro whole) (auto split: if_splits)
  qed
next
  case (5 api new_cond fc operand rest)
  obtain po ro where c: "cond_push_term api new_cond fc operand = (po, ro)" by fastforce
  have IH1: "min (eval_opt val po) (eval_opt val ro) = eval val operand"
    using 5(1) c 5(4,5) by simp
  have n: "\<not> (po = None \<and> fc \<noteq> COND_AND_FUNC)" using 5(3) c by (auto split: if_splits)
  obtain pl' rl' where l: "push_bool_args api new_cond fc rest = Some (pl', rl')"
    "pl = option_list po @ pl'" "rl = option_list ro @ rl'"
    using 5(3) c n by (auto split: option.splits if_splits)
  have IH2: "(fc = COND_AND_FUNC \<longrightarrow>
        min (all_true (map (eval val) pl')) (all_true (map (eval val) rl')) = all_true (map (eval val) rest)) \<and>
      (fc \<noteq> COND_AND_FUNC \<longrightarrow> some_true (map (eval val) rest) \<le> some_true (map (eval val) pl'))"
    using 5(2) c n l 5(4,5) by auto
  show ?case
  proof (cases "fc = COND_AND_FUNC")
    case True
    then show ?thesis
      using IH1 IH2 unfolding l(2,3) all_true_option_list list.map all_true_simps
      by (metis min.assoc min.left_commute)
  next
    case False
    then obtain x where x: "po = Some x" using n by (cases po) auto
    have "eval val operand \<le> eval val x" using IH1 unfolding x eval_opt_def by (metis min.cobounded1 option.simps(5))
    then show ?thesis using False IH2 x l(2) by (auto simp: option_list_def max.coboundedI1 max.coboundedI2)
  qed
qed simp_all

section \<open>What is pushed is supported\<close>

text \<open>Every node of the tree has passed the test of its type, under the function type of its parent.\<close>

fun supported_tree :: "mysql_api \<Rightarrow> functype \<Rightarrow> item \<Rightarrow> bool" where
  "supported_tree api parent_type (Item a args) \<longleftrightarrow> is_support api (Item a args) parent_type \<and>
     (it_type a \<in> {FUNC_ITEM, COND_ITEM} \<longrightarrow> list_all (supported_tree api (it_functype a)) args)"

lemma is_support_logic:
  assumes "logic_parent f" "logic_parent g"
  shows "is_support api t f = is_support api t g"
  using assms
  by (simp add: is_support_def is_supported_funcs_def is_supported_conds_def is_supported_field_def
      is_supported_const_def is_supported_cache_def is_supported_funcs_cmp_def is_supported_funcs_logic_def
      is_supported_funcs_null_def is_supported_funcs_like_def is_supported_funcs_arithmetic_def
      is_supported_funcs_date_def split: item_type.splits option.splits ctc_cond_type.splits)

lemma supported_tree_logic:
  assumes "logic_parent f" "logic_parent g"
  shows "supported_tree api f t = supported_tree api g t"
  using is_support_logic [OF assms] by (cases t) simp

lemma supported_new_cond:
  assumes "new_cond_ok new_cond" "new_cond fc l = Some c" "logic_parent fc" "logic_parent f"
    "list_all (supported_tree api fc) l"
  shows "supported_tree api f c"
proof -
  have "item_type c = COND_ITEM" "it_is_func (attr c)" "it_functype (attr c) = fc" "arguments c = l"
    using assms(1,2) by (auto simp: new_cond_ok_def)
  then show ?thesis using assms(3-)
    by (cases c) (auto simp: is_support_def is_supported_conds_def logic_parent_def)
qed

lemma create_conditions_supported:
  assumes "new_cond_ok new_cond" "logic_parent fc" "logic_parent f"
    and "c = create_and_conditions new_cond cond pl rl \<and> fc = COND_AND_FUNC \<or>
         c = create_or_conditions new_cond cond pl rl \<and> fc = COND_OR_FUNC"
    and "c = Some (Some p, r)" "list_all (supported_tree api fc) pl"
    and "rl = [] \<Longrightarrow> supported_tree api f cond"
  shows "supported_tree api f p \<and> (r = None \<longrightarrow> p = cond \<and> rl = [])"
proof -
  have "supported_tree api f (hd pl)" if "length pl = 1"
    using that assms(6) supported_tree_logic [OF assms(2,3), of api] by (cases pl) auto
  then show ?thesis
    using assms(2,4,5,7) supported_new_cond [OF assms(1) _ assms(2,3,6)]
    by (auto simp: create_and_conditions_def create_or_conditions_def split: if_splits option.splits)
qed

lemma push_supported:
  shows "cond_push_term api new_cond fc t = (p, r) \<Longrightarrow> new_cond_ok new_cond \<Longrightarrow> item_wf t \<Longrightarrow>
      (\<forall>x. p = Some x \<longrightarrow> supported_tree api fc x) \<and> (r = None \<longrightarrow> p = Some t) \<and>
      (p \<noteq> None \<longrightarrow> \<not> logic_parent fc \<longrightarrow> p = Some t)"
    and "push_func_args api new_cond fc args \<Longrightarrow> new_cond_ok new_cond \<Longrightarrow> list_all item_wf args \<Longrightarrow>
      \<not> logic_parent fc \<Longrightarrow> list_all (supported_tree api fc) args"
    and "push_bool_args api new_cond fc args = Some (pl, rl) \<Longrightarrow> new_cond_ok new_cond \<Longrightarrow>
      list_all item_wf args \<Longrightarrow> list_all (supported_tree api fc) pl \<and> (rl = [] \<longrightarrow> pl = args)"
proof (induction api new_cond fc t and api new_cond fc args and api new_cond fc args
    arbitrary: p r and and pl rl rule: cond_push_term_push_func_args_push_bool_args.induct)
  case (1 api new_cond parent_type a args)
  let ?t = "Item a args"
  show ?case
  proof (cases "is_support api ?t parent_type \<and> it_type a = COND_ITEM")
    case True
    then have s: "is_support api ?t parent_type" "it_type a = COND_ITEM" "it_is_cond a" "logic_parent parent_type"
      "logic_parent (it_functype a)" "it_functype a = COND_AND_FUNC \<or> it_functype a = COND_OR_FUNC"
      using 1(5) by (auto simp: is_support_def is_supported_conds_def logic_parent_def split: if_splits)
    have wf: "list_all item_wf args" using 1(5) by simp
    show ?thesis
    proof (cases "push_bool_args api new_cond (it_functype a) args")
      case None
      then show ?thesis using 1(3) s by (auto simp: remain_all_cond_item_def)
    next
      case (Some lists)
      then obtain pl rl where l: "push_bool_args api new_cond (it_functype a) args = Some (pl, rl)" by (cases lists) auto
      have IH: "list_all (supported_tree api (it_functype a)) pl \<and> (rl = [] \<longrightarrow> pl = args)"
        using 1(2) s l 1(4) wf by auto
      define c where "c = (if it_functype a = COND_AND_FUNC then create_and_conditions new_cond ?t pl rl
        else create_or_conditions new_cond ?t pl rl)"
      have c: "c = create_and_conditions new_cond ?t pl rl \<and> it_functype a = COND_AND_FUNC \<or>
         c = create_or_conditions new_cond ?t pl rl \<and> it_functype a = COND_OR_FUNC"
        using s(6) by (auto simp: c_def)
      have t: "supported_tree api parent_type ?t" if "rl = []" using IH that s by auto
      show ?thesis
      proof (cases c)
        case None
        then show ?thesis using 1(3) s l unfolding c_def by (auto simp: remain_all_cond_item_def)
      next
        case (Some pr)
        then have pr: "c = Some (p, r)" using 1(3) s l unfolding c_def by auto
        show ?thesis
        proof (cases p)
          case None
          then show ?thesis using pr c
            by (auto simp: create_and_conditions_def create_or_conditions_def split: if_splits option.splits)
        next
          case (Some x)
          then show ?thesis using create_conditions_supported [OF 1(4) s(5,4) c] pr IH t s(4) by auto
        qed
      qed
    qed
  next
    case False
    show ?thesis
    proof (cases "is_support api ?t parent_type \<and> it_type a = FUNC_ITEM")
      case True
      then show ?thesis using 1(1,3,4,5)
        by (auto simp: push_all_cond_item_def remain_all_cond_item_def split: if_splits)
    next
      case f: False
      then show ?thesis using 1(3) False
        by (auto simp: push_all_cond_item_def remain_all_cond_item_def split: if_splits)
    qed
  qed
next
  case (3 api new_cond fc operand rest)
  obtain po ro where c: "cond_push_term api new_cond fc operand = (po, ro)" by fastforce
  then obtain x where x: "po = Some x" using 3(3) by (cases po) auto
  then show ?case using 3 c by auto
next
  case (5 api new_cond fc operand rest)
  obtain po ro where c: "cond_push_term api new_cond fc operand = (po, ro)" by fastforce
  have n: "\<not> (po = None \<and> fc \<noteq> COND_AND_FUNC)" using 5(3) c by (auto split: if_splits)
  obtain pl' rl' where l: "push_bool_args api new_cond fc rest = Some (pl', rl')"
    "pl = option_list po @ pl'" "rl = option_list ro @ rl'"
    using 5(3) c n by (auto split: option.splits if_splits)
  have "list_all (supported_tree api fc) pl' \<and> (rl' = [] \<longrightarrow> pl' = rest)"
    using 5(2) c n l 5(4,5) by auto
  moreover have "(\<forall>x. po = Some x \<longrightarrow> supported_tree api fc x) \<and> (ro = None \<longrightarrow> po = Some operand)"
    using 5(1) c 5(4,5) by auto
  ultimately show ?case unfolding l(2,3) by (auto simp: option_list_def split: option.splits)
qed simp_all

text \<open>The items \<open>dfs_fill_conds\<close> walks through.\<close>

fun nodes :: "item \<Rightarrow> item list" where
  "nodes (Item a args) =
     Item a args # (if it_type a \<in> {FUNC_ITEM, COND_ITEM} then concat (map nodes args) else [])"

text \<open>What the engine can evaluate: the node's type and function type have an entry in the tables, and a
  column is neither generated nor a prefix key part, and of a supported type.\<close>

definition engine_node :: "item \<Rightarrow> bool" where
  "engine_node t \<longleftrightarrow> item_type t \<noteq> OTHER_ITEM \<and>
     (item_type t \<in> {FUNC_ITEM, COND_ITEM} \<longrightarrow> fst (set_cond_types (it_functype (attr t))) \<noteq> CTC_UNKNOWN_EXPR) \<and>
     (item_type t = FIELD_ITEM \<longrightarrow> \<not> it_is_gcol (attr t) \<and> \<not> it_prefix_key (attr t) \<and>
        is_supported_datatype_field (it_real_type (attr t)))"

lemma is_support_engine_node: "is_support api t f \<Longrightarrow> engine_node t"
  by (auto simp: engine_node_def is_support_def is_supported_field_def is_supported_funcs_def
      is_supported_conds_def set_cond_types_def get_cond_func_type_map_def g_cond_func_type_def
      split: item_type.splits if_splits option.splits)

lemma supported_tree_nodes:
  "supported_tree api f t \<Longrightarrow> n \<in> set (nodes t) \<Longrightarrow> engine_node n"
proof (induction t arbitrary: f n rule: nodes.induct)
  case (1 a args)
  show ?case
  proof (cases "n = Item a args")
    case True
    then show ?thesis using 1(2) is_support_engine_node by auto
  next
    case False
    then obtain x where "x \<in> set args" "n \<in> set (nodes x)" "it_type a \<in> {FUNC_ITEM, COND_ITEM}"
      using 1(3) by (auto split: if_splits)
    then show ?thesis using 1(1) [of x "it_functype a" n] 1(2) by (auto simp: list_all_iff)
  qed
qed

section \<open>Properties\<close>

text \<open>
  the two parts a WHERE condition is split into have together the truth value of the
  condition, for every row and in SQL's three-valued logic.
\<close>

lemma cond_push_split:
  assumes "new_cond_ok new_cond" "item_wf cond" "prep_cond_push api new_cond cond = (p, r)"
  shows "min (eval_opt val p) (eval_opt val r) = eval val cond"
  using push_split(1) [OF _ assms(1,2)] assms(3) by (simp add: prep_cond_push_def)

text \<open>An integer column, a constant, and an AND of a comparison with an unsupported function.\<close>

definition base_attr :: item_attr where
  "base_attr = \<lparr>it_type = OTHER_ITEM, it_is_func = False, it_is_cond = False, it_is_field = False, it_is_like = False,
     it_functype = OTHER_FUNC, it_cmp_context = INT_RESULT, it_result_type = INT_RESULT,
     it_data_type = MYSQL_TYPE_LONG, it_real_type = MYSQL_TYPE_LONG, it_is_gcol = False, it_prefix_key = False,
     it_pad_char = CHR '' '', it_basic_const = True, it_escape_used = False, it_get_date = None\<rparr>"

definition sample_func :: "functype \<Rightarrow> item list \<Rightarrow> item" where
  "sample_func fc args = Item (base_attr\<lparr>it_type := FUNC_ITEM, it_is_func := True, it_functype := fc\<rparr>) args"

definition sample_new_cond :: "functype \<Rightarrow> item list \<Rightarrow> item option" where
  "sample_new_cond fc args =
     Some (Item (base_attr\<lparr>it_type := COND_ITEM, it_is_func := True, it_is_cond := True, it_functype := fc\<rparr>) args)"

definition sample_column :: item where
  "sample_column = Item (base_attr\<lparr>it_type := FIELD_ITEM, it_is_field := True\<rparr>) []"

definition sample_constant :: item where
  "sample_constant = Item (base_attr\<lparr>it_type := INT_ITEM\<rparr>) []"

definition sample_api :: mysql_api where
  "sample_api = \<lparr>is_integer_type = (\<lambda>t. t = MYSQL_TYPE_LONG), is_string_type = (\<lambda>t. t = MYSQL_TYPE_STRING),
     is_numeric_type = (\<lambda>t. t = MYSQL_TYPE_LONG), is_temporal_type = (\<lambda>t. t = MYSQL_TYPE_DATE),
     non_zero_date = (\<lambda>d. mt_year d \<noteq> 0)\<rparr>"

definition sample_less :: item where
  "sample_less = sample_func LT_FUNC [sample_column, sample_constant]"

definition sample_other :: item where
  "sample_other = sample_func OTHER_FUNC [sample_column]"

definition sample_where :: item where
  "sample_where = the (sample_new_cond COND_AND_FUNC [sample_less, sample_other])"

lemmas sample_defs = base_attr_def sample_func_def sample_new_cond_def sample_column_def sample_constant_def
  sample_api_def sample_less_def sample_other_def sample_where_def

lemmas support_defs = is_support_def is_supported_conds_def is_supported_funcs_def is_supported_funcs_cmp_def
  is_valid_cmp_operand_def check_cmp_result_def is_supported_const_def is_supported_field_def
  is_supported_datatype_field_def get_cond_func_type_map_def g_cond_func_type_def logic_parent_def
  is_supported_funcs_logic_def

lemma sample_new_cond_ok: "new_cond_ok sample_new_cond"
  by (simp add: new_cond_ok_def sample_new_cond_def)

lemma sample_where_wf: "item_wf sample_where"
  by (simp add: sample_defs logic_parent_def)

lemma sample_where_split:
  "prep_cond_push sample_api sample_new_cond sample_where = (Some sample_less, Some sample_other)"
  by (simp add: prep_cond_push_def sample_defs support_defs push_all_cond_item_def remain_all_cond_item_def
      create_and_conditions_def option_list_def)

lemma cond_push_split_witness:
  "new_cond_ok sample_new_cond \<and> item_wf sample_where \<and>
   (\<forall>val. min (eval_opt val (Some sample_less)) (eval_opt val (Some sample_other)) = eval val sample_where)"
  using cond_push_split [OF sample_new_cond_ok sample_where_wf sample_where_split] sample_new_cond_ok sample_where_wf
  by simp


definition idle_pushdown :: pushdown where
  "idle_pushdown = \<lparr>m_pushed_conds = None, m_remainder_conds = None, pushed_cond = None, m_cond = False\<rparr>"


text \<open>
  every node of a condition that is pushed down is one the engine knows: its item type and its
  function type have an entry in the translation tables, and a column in it is not generated, not
  part of a prefix key and not of an unsupported type.
\<close>

lemma pushed_nodes_supported:
  assumes "new_cond_ok new_cond" "item_wf cond" "prep_cond_push api new_cond cond = (Some p, r)"
  shows "\<forall>n \<in> set (nodes p). engine_node n"
  using push_supported(1) [OF _ assms(1,2), of api COND_AND_FUNC "Some p" r] assms(3) supported_tree_nodes
  by (auto simp: prep_cond_push_def)

lemma pushed_nodes_supported_witness:
  "item_wf sample_where \<and> list_all engine_node (nodes sample_less)"
  using pushed_nodes_supported [OF sample_new_cond_ok sample_where_wf sample_where_split] sample_where_wf
  by (simp add: list_all_iff)

text \<open>
  an XOR of comparisons is never pushed down, contrary to the comment in
  \<open>is_supported_funcs_logic\<close>: its operands are tested with XOR as their parent, and a comparison is
  supported under AND and OR only.
\<close>

lemma xor_comparison_not_pushed:
  assumes "item_type x = FUNC_ITEM" "it_functype (attr x) = XOR_FUNC" "arguments x = [l, r]"
    and "item_type l = FUNC_ITEM" "get_cond_func_type_map (it_functype (attr l)) = Some (f, CTC_CMP_EXPR)"
  shows "prep_cond_push api new_cond x = (None, Some x)"
proof -
  have "\<not> is_support api l XOR_FUNC"
    using assms(4,5) by (simp add: is_support_def is_supported_funcs_def is_supported_funcs_cmp_def logic_parent_def)
  then have "cond_push_term api new_cond XOR_FUNC l = (None, Some l)"
    by (cases l) (simp add: remain_all_cond_item_def)
  then show ?thesis using assms(1-3)
    by (cases x) (simp add: prep_cond_push_def remain_all_cond_item_def)
qed

lemma xor_comparison_not_pushed_witness:
  "is_support sample_api (sample_func XOR_FUNC [sample_less, sample_less]) COND_AND_FUNC \<and>
   prep_cond_push sample_api sample_new_cond (sample_func XOR_FUNC [sample_less, sample_less]) =
     (None, Some (sample_func XOR_FUNC [sample_less, sample_less]))"
proof -
  have "is_support sample_api (sample_func XOR_FUNC [sample_less, sample_less]) COND_AND_FUNC"
    by (simp add: sample_defs support_defs)
  moreover have "prep_cond_push sample_api sample_new_cond (sample_func XOR_FUNC [sample_less, sample_less]) =
     (None, Some (sample_func XOR_FUNC [sample_less, sample_less]))"
    by (rule xor_comparison_not_pushed [where l = sample_less and r = sample_less and f = CTC_LT_FUNC])
      (simp_all add: sample_defs get_cond_func_type_map_def g_cond_func_type_def)
  ultimately show ?thesis ..
qed

end
