(* ===== verification/CTC_Bytes.thy ===== *)
theory CTC_Bytes
  imports CTC_Prelude
begin

text \<open>
  Byte memory: a record buffer is a map from addresses to bytes, integers are stored in the byte
  order of the platforms the connector supports, least significant byte first.
\<close>

unbundle bit_operations_syntax

type_synonym byte = "8 word"
type_synonym mem = "nat \<Rightarrow> byte"

section \<open>Reading and writing\<close>

definition mem_read :: "mem \<Rightarrow> nat \<Rightarrow> nat \<Rightarrow> byte list" where
  "mem_read m a n = map (\<lambda>i. m (a + i)) [0..<n]"

definition mem_write :: "nat \<Rightarrow> byte list \<Rightarrow> mem \<Rightarrow> mem" where
  "mem_write a bs m = (\<lambda>i. if a \<le> i \<and> i < a + length bs then bs ! (i - a) else m i)"

definition disjoint_areas :: "nat \<Rightarrow> nat \<Rightarrow> nat \<Rightarrow> nat \<Rightarrow> bool" where
  "disjoint_areas a n b k \<longleftrightarrow> a + n \<le> b \<or> b + k \<le> a \<or> n = 0 \<or> k = 0"

lemma length_mem_read [simp]: "length (mem_read m a n) = n"
  by (simp add: mem_read_def)

lemma nth_mem_read [simp]: "i < n \<Longrightarrow> mem_read m a n ! i = m (a + i)"
  by (simp add: mem_read_def)

lemma mem_read_eqI: "(\<And>i. i < n \<Longrightarrow> m (a + i) = m' (a + i)) \<Longrightarrow> mem_read m a n = mem_read m' a n"
  by (simp add: mem_read_def)

lemma mem_read_eqD: "mem_read m a n = mem_read m' a n \<Longrightarrow> i < n \<Longrightarrow> m (a + i) = m' (a + i)"
  by (metis nth_mem_read)

lemma mem_read_write_same: "mem_read (mem_write a bs m) a (length bs) = bs"
  by (rule nth_equalityI) (simp_all add: mem_write_def)

lemma mem_read_write_same' [simp]: "length bs = n \<Longrightarrow> mem_read (mem_write a bs m) a n = bs"
  using mem_read_write_same by blast

lemma mem_write_other: "i < a \<or> a + length bs \<le> i \<Longrightarrow> mem_write a bs m i = m i"
  by (auto simp: mem_write_def)

lemma mem_read_write_other:
  "disjoint_areas a (length bs) b n \<Longrightarrow> mem_read (mem_write a bs m) b n = mem_read m b n"
  by (rule mem_read_eqI, rule mem_write_other) (auto simp: disjoint_areas_def)

lemma mem_read_append: "mem_read m a (n + k) = mem_read m a n @ mem_read m (a + n) k"
  by (rule nth_equalityI) (auto simp: nth_append)

lemma take_mem_read: "k \<le> n \<Longrightarrow> take k (mem_read m a n) = mem_read m a k"
  by (rule nth_equalityI) simp_all

lemma mem_read_split: "n \<le> k \<Longrightarrow> mem_read m a k = mem_read m a n @ mem_read m (a + n) (k - n)"
  using mem_read_append [of m a n "k - n"] by simp

lemma mem_write_mem_read [simp]: "mem_write a (mem_read m a n) m = m"
  by (rule ext) (auto simp: mem_write_def mem_read_def)

lemma mem_write_append: "mem_write (a + length xs) ys (mem_write a xs m) = mem_write a (xs @ ys) m"
  by (rule ext) (auto simp: mem_write_def nth_append)

lemma mem_write_Nil [simp]: "mem_write a [] m = m"
  by (rule ext) (auto simp: mem_write_def)

section \<open>Integers\<close>

fun le_val :: "byte list \<Rightarrow> int" where
  "le_val [] = 0"
| "le_val (b # bs) = uint b + 256 * le_val bs"

fun le_bytes :: "nat \<Rightarrow> int \<Rightarrow> byte list" where
  "le_bytes 0 v = []"
| "le_bytes (Suc n) v = word_of_int (v mod 256) # le_bytes n (v div 256)"

text \<open>The value of bytes read as a signed integer.\<close>

definition le_sval :: "byte list \<Rightarrow> int" where
  "le_sval bs = (if 2 * le_val bs \<ge> 256 ^ length bs then le_val bs - 256 ^ length bs else le_val bs)"

lemma length_le_bytes [simp]: "length (le_bytes n v) = n"
  by (induction n arbitrary: v) simp_all

lemma le_val_range: "0 \<le> le_val bs \<and> le_val bs < 256 ^ length bs"
proof (induction bs)
  case (Cons b bs)
  have "0 \<le> uint b" "uint b < 256" using uint_bounded [of b] by simp_all
  then show ?case using Cons by auto
qed simp

lemma le_bytes_le_val [simp]: "le_bytes (length bs) (le_val bs) = bs"
proof (induction bs)
  case (Cons b bs)
  have "0 \<le> uint b" "uint b < 256" using uint_bounded [of b] by simp_all
  then have "(uint b + 256 * le_val bs) mod 256 = uint b" "(uint b + 256 * le_val bs) div 256 = le_val bs"
    by simp_all
  then show ?case using Cons by simp
qed simp

lemma le_val_le_bytes: "le_val (le_bytes n v) = v mod 256 ^ n"
proof (induction n arbitrary: v)
  case (Suc n)
  have "uint (word_of_int (v mod 256) :: byte) = v mod 256" by (simp add: uint_word_of_int)
  then show ?case using Suc by (simp add: mod_mult2_eq' zmod_zmult2_eq)
qed simp

lemma le_bytes_mod: "le_bytes n (v mod 256 ^ n) = le_bytes n v"
  using le_bytes_le_val [of "le_bytes n v"] by (simp add: le_val_le_bytes)

lemma le_bytes_cong: "v mod 256 ^ n = w mod 256 ^ n \<Longrightarrow> le_bytes n v = le_bytes n w"
  by (metis le_bytes_mod)

lemma le_sval_mod: "le_sval bs mod 256 ^ length bs = le_val bs"
  using le_val_range [of bs] by (auto simp: le_sval_def mod_diff_right_eq)

lemma le_sval_range:
  assumes "bs \<noteq> []"
  shows "- (256 ^ length bs) \<le> 2 * le_sval bs \<and> 2 * le_sval bs < 256 ^ length bs"
  using le_val_range [of bs] by (auto simp: le_sval_def)

text \<open>Bytes of a number, then the low bytes of it, are the bytes of the number.\<close>

lemma take_le_bytes: "k \<le> n \<Longrightarrow> take k (le_bytes n v) = le_bytes k v"
proof (induction k arbitrary: n v)
  case (Suc k)
  then show ?case by (cases n) simp_all
qed simp

lemma le_val_append: "le_val (xs @ ys) = le_val xs + 256 ^ length xs * le_val ys"
  by (induction xs) (simp_all add: algebra_simps)

text \<open>
  Widening an integer of \<open>k\<close> bytes to \<open>n\<close> and narrowing it again is the identity, read as
  an unsigned or as a signed number.
\<close>

lemma widen_narrow:
  assumes "length bs = k" "k \<le> n" "v mod 256 ^ k = le_val bs" "w mod 256 ^ n = v mod 256 ^ n"
  shows "le_bytes k w = bs"
proof -
  have "(256::int) ^ k dvd 256 ^ n" using assms(2) by (simp add: le_imp_power_dvd)
  then have "w mod 256 ^ k = v mod 256 ^ k" using assms(4) by (metis mod_mod_cancel)
  then have "le_bytes k w = le_bytes k (le_val bs)"
    using assms(3) by (intro le_bytes_cong) (metis mod_mod_trivial)
  then show ?thesis using assms(1) by (metis le_bytes_le_val)
qed

end
