(* ===== verification/CTC_Rowhead.thy ===== *)
theory CTC_Rowhead
  imports CTC_Bytes CTC_Types
begin

text \<open>
  The head of a Cantian row (datatype_cnvrtr.h, datatype_cnvrtr.cc): eight bytes, \<open>size\<close> in bytes 0
  and 1, \<open>column_count\<close> (ten bits) and the flags in bytes 2 and 3, \<open>itl_id\<close> in byte 4 and from byte 5
  on two bits per column that give its storage class. Three bytes of bitmap are part of
  \<open>row_head_t\<close>; rows of more than twelve columns have more of it.
\<close>

unbundle bit_operations_syntax

section \<open>Bitmap\<close>

definition ROW_HEAD_SIZE :: nat where "ROW_HEAD_SIZE = 8"
definition BITMAP_ADDR :: nat where "BITMAP_ADDR = 5"

definition row_set_column_bits2 :: "mem \<Rightarrow> byte \<Rightarrow> nat \<Rightarrow> mem" where
  "row_set_column_bits2 row bits col_id =
     (let map_id = BITMAP_ADDR + col_id div 4;
          row = row(map_id := row map_id AND NOT (push_bit (2 * (col_id mod 4)) 3))
      in row(map_id := row map_id OR push_bit (2 * (col_id mod 4)) bits))"

definition row_get_column_bits2 :: "mem \<Rightarrow> nat \<Rightarrow> byte" where
  "row_get_column_bits2 row i = drop_bit (2 * (i mod 4)) (row (BITMAP_ADDR + i div 4)) AND 3"

text \<open>\<open>CM_ALIGN16\<close> and the number of bytes of bitmap behind the row head.\<close>

definition CM_ALIGN16 :: "nat \<Rightarrow> nat" where
  "CM_ALIGN16 n = (if n mod 16 = 0 then n else n + 16 - n mod 16)"

definition CT_SPRS_COLUMNS :: nat where "CT_SPRS_COLUMNS = 1024"

definition col_bitmap_ex_size :: "nat \<Rightarrow> nat" where
  "col_bitmap_ex_size cols =
     (if cols \<ge> CT_SPRS_COLUMNS then CM_ALIGN16 (cols - 4) div 4
      else if cols \<le> 12 then 0 else CM_ALIGN16 (cols - 12) div 4)"

section \<open>Row head fields\<close>

definition set_row_size :: "nat \<Rightarrow> mem \<Rightarrow> mem" where
  "set_row_size n row = mem_write 0 (le_bytes 2 (int n)) row"

text \<open>Ten bits of column count below six bits of flags; the flags are cleared after the count is set.\<close>

definition set_column_count :: "nat \<Rightarrow> mem \<Rightarrow> mem" where
  "set_column_count n row = mem_write 2 (le_bytes 2 (int n mod 1024)) row"

definition get_column_count :: "mem \<Rightarrow> nat" where
  "get_column_count row = nat (le_val (mem_read row 2 2) mod 1024)"

section \<open>Bitmap laws\<close>

lemma bit_three: "bit (3 :: byte) n \<longleftrightarrow> n < 2" "bit (3 :: int) n \<longleftrightarrow> n < 2"
  by (cases n; auto simp: bit_numeral_rec bit_1_iff split: nat.splits)+

text \<open>A storage class: a byte of two bits.\<close>

definition col_class :: "byte \<Rightarrow> bool" where
  "col_class c \<longleftrightarrow> c AND 3 = c"

lemma col_class_bit: "col_class c \<Longrightarrow> bit c n \<Longrightarrow> n < 2"
  unfolding col_class_def by (metis bit_three(1) bit_and_iff)

lemma col_class_consts [simp]:
  "col_class CANTIAN_COL_BITS_NULL" "col_class CANTIAN_COL_BITS_4" "col_class CANTIAN_COL_BITS_8"
  "col_class CANTIAN_COL_BITS_VAR"
  by (simp_all add: col_class_def col_bits_defs)

lemma two_bits_same:
  fixes b :: byte
  assumes "col_class v" "k \<le> 6"
  shows "drop_bit k ((b AND NOT (push_bit k 3)) OR push_bit k v) AND 3 = v"
proof (rule bit_eqI)
  fix n assume "possible_bit TYPE(byte) n"
  then have n: "n < 8" by simp
  show "bit (drop_bit k ((b AND NOT (push_bit k 3)) OR push_bit k v) AND 3) n \<longleftrightarrow> bit v n"
  proof (cases "n < 2")
    case True
    then show ?thesis using assms(2)
      by (auto simp: bit_and_iff bit_or_iff bit_not_iff bit_push_bit_iff bit_drop_bit_eq bit_three)
  next
    case False
    then show ?thesis using col_class_bit [OF assms(1)] by (auto simp: bit_and_iff bit_three)
  qed
qed

lemma two_bits_other:
  fixes b :: byte
  assumes "col_class v" "j + 2 \<le> k \<or> k + 2 \<le> j"
  shows "drop_bit j ((b AND NOT (push_bit k 3)) OR push_bit k v) AND 3 = drop_bit j b AND 3"
proof (rule bit_eqI)
  fix n assume "possible_bit TYPE(byte) n"
  have "\<not> bit v (j + n - k)" if "n < 2" "k \<le> j + n"
    using col_class_bit [OF assms(1), of "j + n - k"] assms(2) that by auto
  then show "bit (drop_bit j ((b AND NOT (push_bit k 3)) OR push_bit k v) AND 3) n \<longleftrightarrow> bit (drop_bit j b AND 3) n"
    using assms(2)
    by (auto simp: bit_and_iff bit_or_iff bit_not_iff bit_push_bit_iff bit_drop_bit_eq bit_three bit_imp_possible_bit
        dest: bit_imp_le_length)
qed

text \<open>
  The contract of the bitmap the row conversions rely on: the class of a column is the one set
  last, and setting it touches no other column.
\<close>

locale column_classes =
  fixes get_class :: "'r \<Rightarrow> nat \<Rightarrow> 'c" and set_class :: "'r \<Rightarrow> 'c \<Rightarrow> nat \<Rightarrow> 'r" and class_ok :: "'c \<Rightarrow> bool"
  assumes get_set_same: "class_ok c \<Longrightarrow> get_class (set_class r c i) i = c"
    and get_set_other: "class_ok c \<Longrightarrow> i \<noteq> j \<Longrightarrow> get_class (set_class r c i) j = get_class r j"
begin

lemma get_set: "class_ok c \<Longrightarrow> get_class (set_class r c i) j = (if i = j then c else get_class r j)"
  by (simp add: get_set_same get_set_other)

lemma set_all_classes:
  assumes "\<forall>c \<in> set cs. class_ok c"
  shows "get_class (fold (\<lambda>(i, c) r. set_class r c i) (enumerate n cs) r) j =
    (if n \<le> j \<and> j < n + length cs then cs ! (j - n) else get_class r j)"
  using assms
proof (induction cs arbitrary: n r)
  case (Cons c cs)
  have "j - n = Suc (j - Suc n)" if "Suc n \<le> j" using that by simp
  with Cons show ?case by (auto simp: get_set)
qed auto

end

lemma bits2_get_set:
  assumes "col_class c"
  shows "row_get_column_bits2 (row_set_column_bits2 row c i) j = (if i = j then c else row_get_column_bits2 row j)"
proof (cases "i div 4 = j div 4")
  case True
  show ?thesis
  proof (cases "i = j")
    case t: True
    have "2 * (j mod 4) \<le> 6" by simp
    then show ?thesis
      using t two_bits_same [OF assms] by (simp add: row_get_column_bits2_def row_set_column_bits2_def Let_def)
  next
    case False
    then have "i mod 4 \<noteq> j mod 4" using True by (metis div_mult_mod_eq)
    then have "2 * (j mod 4) + 2 \<le> 2 * (i mod 4) \<or> 2 * (i mod 4) + 2 \<le> 2 * (j mod 4)" by auto
    then show ?thesis
      using False True two_bits_other [OF assms] by (simp add: row_get_column_bits2_def row_set_column_bits2_def Let_def)
  qed
qed (auto simp: row_get_column_bits2_def row_set_column_bits2_def Let_def)

interpretation row_bits: column_classes row_get_column_bits2 row_set_column_bits2 col_class
  by unfold_locales (simp_all add: bits2_get_set)

lemma col_class_get: "col_class (row_get_column_bits2 row i)"
  by (simp add: col_class_def row_get_column_bits2_def and.assoc)

section \<open>Room for the bitmap\<close>

lemma CM_ALIGN16: "n \<le> CM_ALIGN16 n \<and> CM_ALIGN16 n mod 16 = 0 \<and> CM_ALIGN16 n < n + 16"
proof (cases "n mod 16 = 0")
  case False
  define q r where "q = n div 16" and "r = n mod 16"
  have "n = 16 * q + r" "r < 16" "0 < r" using False by (simp_all add: q_def r_def)
  moreover from this have "CM_ALIGN16 n = 16 * (q + 1)"
    using False by (simp add: CM_ALIGN16_def r_def [symmetric])
  ultimately show ?thesis by simp
qed (simp add: CM_ALIGN16_def)

lemma bitmap_room:
  assumes "i < cols"
  shows "BITMAP_ADDR + i div 4 < ROW_HEAD_SIZE + col_bitmap_ex_size cols"
proof -
  have d: "CM_ALIGN16 n div 4 * 4 = CM_ALIGN16 n" for n
  proof -
    obtain k where "CM_ALIGN16 n = 16 * k" using CM_ALIGN16 [of n] by (metis mod_0_imp_dvd dvdE)
    then show ?thesis by simp
  qed
  have i: "i div 4 * 4 \<le> i" by simp
  consider "cols \<ge> 1024" | "12 < cols" "cols < 1024" | "cols \<le> 12" by linarith
  then show ?thesis
  proof cases
    case 1
    have "cols - 4 \<le> CM_ALIGN16 (cols - 4) div 4 * 4" using d CM_ALIGN16 by metis
    then show ?thesis using 1 assms i
      by (simp add: BITMAP_ADDR_def ROW_HEAD_SIZE_def col_bitmap_ex_size_def CT_SPRS_COLUMNS_def)
  next
    case 2
    have "cols - 12 \<le> CM_ALIGN16 (cols - 12) div 4 * 4" using d CM_ALIGN16 by metis
    then show ?thesis using 2 assms i
      by (simp add: BITMAP_ADDR_def ROW_HEAD_SIZE_def col_bitmap_ex_size_def CT_SPRS_COLUMNS_def)
  next
    case 3
    then show ?thesis using assms i
      by (simp add: BITMAP_ADDR_def ROW_HEAD_SIZE_def col_bitmap_ex_size_def CT_SPRS_COLUMNS_def)
  qed
qed

lemma row_get_write_above:
  assumes "i < cols" "ROW_HEAD_SIZE + col_bitmap_ex_size cols \<le> a"
  shows "row_get_column_bits2 (mem_write a bs row) i = row_get_column_bits2 row i"
  using bitmap_room [OF assms(1)] assms(2) by (simp add: row_get_column_bits2_def mem_write_other)

lemma row_get_write_head:
  assumes "a + length bs \<le> BITMAP_ADDR"
  shows "row_get_column_bits2 (mem_write a bs row) i = row_get_column_bits2 row i"
  using assms by (simp add: row_get_column_bits2_def mem_write_other)

lemma row_set_read_above:
  assumes "i < cols" "ROW_HEAD_SIZE + col_bitmap_ex_size cols \<le> a"
  shows "row_set_column_bits2 row c i a = row a"
  using bitmap_room [OF assms(1)] assms(2) by (auto simp: row_set_column_bits2_def Let_def)

end
