(* ===== verification/CTC_Error.thy ===== *)
theory CTC_Error
  imports CTC_Prelude
begin

text \<open>
  Error codes (ctc_error.h, ctc_error.cc, ha_ctc.cc): Cantian's codes are the numbers of the enumeration
  \<open>ct_errno_t\<close>; a code the server sends need not be one of them. MySQL's codes are not in these
  sources and appear by name only; \<open>NO_ERROR\<close> is 0.
\<close>

section \<open>Codes\<close>

type_synonym ct_errno = int

definition CT_SUCCESS :: ct_errno where "CT_SUCCESS = 0"
definition ERR_OAMAP_DUP_KEY_ERROR :: ct_errno where "ERR_OAMAP_DUP_KEY_ERROR = 2008"
definition ERR_OAMAP_INSERTION_FAILED :: ct_errno where "ERR_OAMAP_INSERTION_FAILED = 2009"
definition ERR_OAMAP_FETCH_FAILED :: ct_errno where "ERR_OAMAP_FETCH_FAILED = 2010"
definition ERR_GENERIC_INTERNAL_ERROR :: ct_errno where "ERR_GENERIC_INTERNAL_ERROR = 299"
definition ERR_NOT_SUPPORT :: ct_errno where "ERR_NOT_SUPPORT = 404"
definition ERR_OPERATIONS_NOT_SUPPORT :: ct_errno where "ERR_OPERATIONS_NOT_SUPPORT = 130"
definition ERR_DEAD_LOCK :: ct_errno where "ERR_DEAD_LOCK = 716"
definition ERR_SERIALIZE_ACCESS :: ct_errno where "ERR_SERIALIZE_ACCESS = 735"
definition ERR_LOCK_TIMEOUT :: ct_errno where "ERR_LOCK_TIMEOUT = 717"
definition ERR_RECORD_SIZE_OVERFLOW :: ct_errno where "ERR_RECORD_SIZE_OVERFLOW = 727"
definition ERR_DUPLICATE_KEY :: ct_errno where "ERR_DUPLICATE_KEY = 729"
definition ERR_CONSTRAINT_VIOLATED_NO_FOUND :: ct_errno where "ERR_CONSTRAINT_VIOLATED_NO_FOUND = 1128"
definition ERR_ROW_IS_REFERENCED :: ct_errno where "ERR_ROW_IS_REFERENCED = 1123"
definition ERR_DEF_CHANGED :: ct_errno where "ERR_DEF_CHANGED = 732"
definition ERR_SAVEPOINT_NOT_EXIST :: ct_errno where "ERR_SAVEPOINT_NOT_EXIST = 736"
definition ERR_NO_MORE_LOCKS :: ct_errno where "ERR_NO_MORE_LOCKS = 740"
definition ERR_FILE_NOT_EXIST :: ct_errno where "ERR_FILE_NOT_EXIST = 771"
definition ERR_SPACE_NOT_EXIST :: ct_errno where "ERR_SPACE_NOT_EXIST = 780"
definition ERR_SPACE_ALREADY_EXIST :: ct_errno where "ERR_SPACE_ALREADY_EXIST = 788"
definition ERR_BTREE_LEVEL_EXCEEDED :: ct_errno where "ERR_BTREE_LEVEL_EXCEEDED = 820"
definition ERR_TABLE_OR_VIEW_NOT_EXIST :: ct_errno where "ERR_TABLE_OR_VIEW_NOT_EXIST = 843"
definition ERR_DC_INVALIDATED :: ct_errno where "ERR_DC_INVALIDATED = 722"
definition ERR_INDEX_INVALID :: ct_errno where "ERR_INDEX_INVALID = 759"
definition ERR_CONNECTION_FAILED :: ct_errno where "ERR_CONNECTION_FAILED = 4004"
definition ERR_ALLOC_MEMORY :: ct_errno where "ERR_ALLOC_MEMORY = 1"
definition ERR_ROW_LOCKED_NOWAIT :: ct_errno where "ERR_ROW_LOCKED_NOWAIT = 408"
definition ERR_OPERATION_CANCELED :: ct_errno where "ERR_OPERATION_CANCELED = 718"
definition ERR_SEM_FAULT :: ct_errno where "ERR_SEM_FAULT = 4000"
definition ERR_BATCH_DATA_HANDLE_FAILED :: ct_errno where "ERR_BATCH_DATA_HANDLE_FAILED = 4001"
definition ERR_SHM_SEND_MSG_FAILED :: ct_errno where "ERR_SHM_SEND_MSG_FAILED = 4002"
definition ERR_INSTANCE_REG_FAILED :: ct_errno where "ERR_INSTANCE_REG_FAILED = 4003"
definition ERR_AUTOINC_READ_FAILED :: ct_errno where "ERR_AUTOINC_READ_FAILED = 1467"
definition ERR_OBJECT_ALREADY_DROPPED :: ct_errno where "ERR_OBJECT_ALREADY_DROPPED = 849"
definition ERR_PAGE_CORRUPTED :: ct_errno where "ERR_PAGE_CORRUPTED = 880"
definition ERR_CAPABILITY_NOT_SUPPORT :: ct_errno where "ERR_CAPABILITY_NOT_SUPPORT = 101"
definition ERR_WRITE_OPT_IN_READONLY :: ct_errno where "ERR_WRITE_OPT_IN_READONLY = 4008"
definition ERR_DATABASE_ROLE :: ct_errno where "ERR_DATABASE_ROLE = 773"
definition ERR_COLUMNS_MISMATCH :: ct_errno where "ERR_COLUMNS_MISMATCH = 619"
definition ERR_ROW_SELF_UPDATED :: ct_errno where "ERR_ROW_SELF_UPDATED = 814"
definition ERR_COLUMN_HAS_NULL :: ct_errno where "ERR_COLUMN_HAS_NULL = 709"
definition ERR_TOO_MANY_CONNECTIONS :: ct_errno where "ERR_TOO_MANY_CONNECTIONS = 403"
definition ERR_NAME_TOO_LONG :: ct_errno where "ERR_NAME_TOO_LONG = 748"
definition ERR_CHILD_DUPLICATE_KEY :: ct_errno where "ERR_CHILD_DUPLICATE_KEY = 4007"
definition ERR_FK_NO_INDEX_PAREN_4MYSQL :: ct_errno where "ERR_FK_NO_INDEX_PAREN_4MYSQL = 4006"
definition ERR_EXCEED_MAX_CASCADE_DEPTH :: ct_errno where "ERR_EXCEED_MAX_CASCADE_DEPTH = 1133"
definition ERR_SNAPSHOT_TOO_OLD :: ct_errno where "ERR_SNAPSHOT_TOO_OLD = 715"
definition ERR_CHILD_ROW_CANNOT_ADD_OR_UPDATE :: ct_errno where "ERR_CHILD_ROW_CANNOT_ADD_OR_UPDATE = 1134"

lemmas errno_defs =
  CT_SUCCESS_def ERR_OAMAP_DUP_KEY_ERROR_def ERR_OAMAP_INSERTION_FAILED_def
  ERR_OAMAP_FETCH_FAILED_def ERR_GENERIC_INTERNAL_ERROR_def ERR_NOT_SUPPORT_def
  ERR_OPERATIONS_NOT_SUPPORT_def ERR_DEAD_LOCK_def ERR_SERIALIZE_ACCESS_def ERR_LOCK_TIMEOUT_def
  ERR_RECORD_SIZE_OVERFLOW_def ERR_DUPLICATE_KEY_def ERR_CONSTRAINT_VIOLATED_NO_FOUND_def
  ERR_ROW_IS_REFERENCED_def ERR_DEF_CHANGED_def ERR_SAVEPOINT_NOT_EXIST_def ERR_NO_MORE_LOCKS_def
  ERR_FILE_NOT_EXIST_def ERR_SPACE_NOT_EXIST_def ERR_SPACE_ALREADY_EXIST_def
  ERR_BTREE_LEVEL_EXCEEDED_def ERR_TABLE_OR_VIEW_NOT_EXIST_def ERR_DC_INVALIDATED_def
  ERR_INDEX_INVALID_def ERR_CONNECTION_FAILED_def ERR_ALLOC_MEMORY_def ERR_ROW_LOCKED_NOWAIT_def
  ERR_OPERATION_CANCELED_def ERR_SEM_FAULT_def ERR_BATCH_DATA_HANDLE_FAILED_def
  ERR_SHM_SEND_MSG_FAILED_def ERR_INSTANCE_REG_FAILED_def ERR_AUTOINC_READ_FAILED_def
  ERR_OBJECT_ALREADY_DROPPED_def ERR_PAGE_CORRUPTED_def ERR_CAPABILITY_NOT_SUPPORT_def
  ERR_WRITE_OPT_IN_READONLY_def ERR_DATABASE_ROLE_def ERR_COLUMNS_MISMATCH_def
  ERR_ROW_SELF_UPDATED_def ERR_COLUMN_HAS_NULL_def ERR_TOO_MANY_CONNECTIONS_def
  ERR_NAME_TOO_LONG_def ERR_CHILD_DUPLICATE_KEY_def ERR_FK_NO_INDEX_PAREN_4MYSQL_def
  ERR_EXCEED_MAX_CASCADE_DEPTH_def ERR_SNAPSHOT_TOO_OLD_def ERR_CHILD_ROW_CANNOT_ADD_OR_UPDATE_def

datatype mysql_errno =
    NO_ERROR
  | HA_ERR_GENERIC | HA_ERR_WRONG_COMMAND | HA_ERR_LOCK_DEADLOCK | HA_ERR_RECORD_CHANGED
  | HA_ERR_LOCK_WAIT_TIMEOUT | HA_ERR_TOO_BIG_ROW | HA_ERR_FOUND_DUPP_KEY
  | HA_ERR_NO_REFERENCED_ROW | HA_ERR_ROW_IS_REFERENCED | HA_ERR_TABLE_DEF_CHANGED
  | HA_ERR_NO_SAVEPOINT | HA_ERR_LOCK_TABLE_FULL | HA_ERR_WRONG_FILE_NAME
  | HA_ERR_TABLESPACE_MISSING | HA_ERR_TABLESPACE_EXISTS | HA_ERR_INTERNAL_ERROR
  | HA_ERR_NO_SUCH_TABLE | HA_ERR_WRONG_INDEX | HA_ERR_NO_CONNECTION | HA_ERR_SE_OUT_OF_MEMORY
  | HA_ERR_NO_WAIT_LOCK | HA_ERR_QUERY_INTERRUPTED | HA_ERR_AUTOINC_READ_FAILED
  | HA_ERR_TABLE_CORRUPT | ER_DISALLOWED_OPERATION | ER_OPEN_AS_READONLY | ER_WRONG_VALUE_COUNT
  | ER_LOCK_NOWAIT | ER_MULTI_UPDATE_KEY_CONFLICT | ER_INVALID_USE_OF_NULL | ER_CON_COUNT_ERROR
  | ER_TOO_LONG_IDENT | ER_FOREIGN_DUPLICATE_KEY_WITH_CHILD_INFO | ER_CANNOT_ADD_FOREIGN
  | ER_FK_DEPTH_EXCEEDED | HA_ERR_TOO_MANY_CONCURRENT_TRXS | ER_NO_REFERENCED_ROW_2
  | ER_LOCK_WAIT_TIMEOUT | HA_ERR_READ_ONLY_TRANSACTION | ER_GET_ERRNO | HA_ERR_END_OF_FILE
  | HA_ERR_KEY_NOT_FOUND | HA_ERR_OUT_OF_MEM | HA_ERR_AUTOINC_ERANGE | HA_ERR_RECORD_IS_THE_SAME

definition err_code_lookup_map :: "(ct_errno \<times> mysql_errno) list" where
  "err_code_lookup_map = [
     (ERR_OAMAP_DUP_KEY_ERROR, HA_ERR_GENERIC),
     (ERR_OAMAP_INSERTION_FAILED, HA_ERR_GENERIC),
     (ERR_OAMAP_FETCH_FAILED, HA_ERR_GENERIC),
     (ERR_GENERIC_INTERNAL_ERROR, HA_ERR_GENERIC),
     (ERR_NOT_SUPPORT, HA_ERR_WRONG_COMMAND),
     (ERR_OPERATIONS_NOT_SUPPORT, HA_ERR_WRONG_COMMAND),
     (ERR_DEAD_LOCK, HA_ERR_LOCK_DEADLOCK),
     (ERR_SERIALIZE_ACCESS, HA_ERR_RECORD_CHANGED),
     (ERR_LOCK_TIMEOUT, HA_ERR_LOCK_WAIT_TIMEOUT),
     (ERR_RECORD_SIZE_OVERFLOW, HA_ERR_TOO_BIG_ROW),
     (ERR_DUPLICATE_KEY, HA_ERR_FOUND_DUPP_KEY),
     (ERR_CONSTRAINT_VIOLATED_NO_FOUND, HA_ERR_NO_REFERENCED_ROW),
     (ERR_ROW_IS_REFERENCED, HA_ERR_ROW_IS_REFERENCED),
     (ERR_DEF_CHANGED, HA_ERR_TABLE_DEF_CHANGED),
     (ERR_SAVEPOINT_NOT_EXIST, HA_ERR_NO_SAVEPOINT),
     (ERR_NO_MORE_LOCKS, HA_ERR_LOCK_TABLE_FULL),
     (ERR_FILE_NOT_EXIST, HA_ERR_WRONG_FILE_NAME),
     (ERR_SPACE_NOT_EXIST, HA_ERR_TABLESPACE_MISSING),
     (ERR_SPACE_ALREADY_EXIST, HA_ERR_TABLESPACE_EXISTS),
     (ERR_BTREE_LEVEL_EXCEEDED, HA_ERR_INTERNAL_ERROR),
     (ERR_TABLE_OR_VIEW_NOT_EXIST, HA_ERR_NO_SUCH_TABLE),
     (ERR_DC_INVALIDATED, HA_ERR_NO_SUCH_TABLE),
     (ERR_INDEX_INVALID, HA_ERR_WRONG_INDEX),
     (ERR_CONNECTION_FAILED, HA_ERR_NO_CONNECTION),
     (ERR_ALLOC_MEMORY, HA_ERR_SE_OUT_OF_MEMORY),
     (ERR_ROW_LOCKED_NOWAIT, HA_ERR_NO_WAIT_LOCK),
     (ERR_OPERATION_CANCELED, HA_ERR_QUERY_INTERRUPTED),
     (ERR_SEM_FAULT, HA_ERR_INTERNAL_ERROR),
     (ERR_BATCH_DATA_HANDLE_FAILED, HA_ERR_INTERNAL_ERROR),
     (ERR_SHM_SEND_MSG_FAILED, HA_ERR_NO_CONNECTION),
     (ERR_INSTANCE_REG_FAILED, HA_ERR_INTERNAL_ERROR),
     (ERR_AUTOINC_READ_FAILED, HA_ERR_AUTOINC_READ_FAILED),
     (ERR_OBJECT_ALREADY_DROPPED, HA_ERR_TABLE_CORRUPT),
     (ERR_PAGE_CORRUPTED, HA_ERR_TABLE_CORRUPT)]"

text \<open>The codes reported to the client at once, with the code of the report.\<close>

definition convert_cantian_err_to_mysql :: "ct_errno \<Rightarrow> mysql_errno" where
  "convert_cantian_err_to_mysql error =
     (if error = ERR_CAPABILITY_NOT_SUPPORT then ER_DISALLOWED_OPERATION
      else if error = ERR_WRITE_OPT_IN_READONLY then ER_OPEN_AS_READONLY
      else if error = ERR_DATABASE_ROLE then ER_DISALLOWED_OPERATION
      else if error = ERR_COLUMNS_MISMATCH then ER_WRONG_VALUE_COUNT
      else if error = ERR_ROW_LOCKED_NOWAIT then ER_LOCK_NOWAIT
      else if error = ERR_ROW_SELF_UPDATED then ER_MULTI_UPDATE_KEY_CONFLICT
      else if error = ERR_COLUMN_HAS_NULL then ER_INVALID_USE_OF_NULL
      else if error = ERR_TOO_MANY_CONNECTIONS then ER_CON_COUNT_ERROR
      else if error = ERR_NAME_TOO_LONG then ER_TOO_LONG_IDENT
      else if error = ERR_CHILD_DUPLICATE_KEY then ER_FOREIGN_DUPLICATE_KEY_WITH_CHILD_INFO
      else if error = ERR_FK_NO_INDEX_PAREN_4MYSQL then ER_CANNOT_ADD_FOREIGN
      else if error = ERR_EXCEED_MAX_CASCADE_DEPTH then ER_FK_DEPTH_EXCEEDED
      else if error = ERR_SNAPSHOT_TOO_OLD then HA_ERR_TOO_MANY_CONCURRENT_TRXS
      else if error = ERR_CHILD_ROW_CANNOT_ADD_OR_UPDATE then ER_NO_REFERENCED_ROW_2
      else if error = ERR_LOCK_TIMEOUT then ER_LOCK_WAIT_TIMEOUT
      else NO_ERROR)"

definition convert_ctc_error_code_to_mysql_impl :: "ct_errno \<Rightarrow> mysql_errno" where
  "convert_ctc_error_code_to_mysql_impl error =
     (if error = CT_SUCCESS then NO_ERROR
      else let err_code = convert_cantian_err_to_mysql error
           in if err_code \<noteq> NO_ERROR
              then (if err_code = ER_OPEN_AS_READONLY then HA_ERR_READ_ONLY_TRANSACTION else HA_ERR_WRONG_COMMAND)
              else case map_of err_code_lookup_map error of Some c \<Rightarrow> c | None \<Rightarrow> HA_ERR_GENERIC)"

text \<open>The code \<open>ctc_alter_table_handle_fault\<close> reports to the client.\<close>

definition ctc_alter_table_handle_fault :: "ct_errno \<Rightarrow> mysql_errno" where
  "ctc_alter_table_handle_fault error =
     (if error = ERR_CONSTRAINT_VIOLATED_NO_FOUND then ER_NO_REFERENCED_ROW_2 else ER_GET_ERRNO)"

text \<open>
  \<open>ha_ctc::check_error_code_to_mysql\<close>: the code handed on, and whether the transaction is marked for
  rollback; \<open>no_foreign_key_check\<close> is the session option OPTION_NO_FOREIGN_KEY_CHECKS.
\<close>

definition check_error_code_to_mysql :: "bool \<Rightarrow> ct_errno \<Rightarrow> ct_errno \<times> bool" where
  "check_error_code_to_mysql no_foreign_key_check ret =
     (if ret = ERR_DEAD_LOCK then (ret, True)
      else if no_foreign_key_check = False then (ret, False)
      else if ret = ERR_CONSTRAINT_VIOLATED_NO_FOUND \<or> ret = ERR_ROW_IS_REFERENCED then (CT_SUCCESS, False)
      else (ret, False))"

section \<open>Properties\<close>

text \<open>The codes of the lookup table that are errors of the same code in the switch before it.\<close>

lemma lookup_never_success: "map_of err_code_lookup_map error \<noteq> Some NO_ERROR"
  by (simp add: err_code_lookup_map_def)

lemma lookup_keys_distinct: "distinct (map fst err_code_lookup_map)"
  by (simp add: err_code_lookup_map_def errno_defs)

lemma converted_no_error: "convert_ctc_error_code_to_mysql_impl error = NO_ERROR \<longleftrightarrow> error = CT_SUCCESS"
  using lookup_never_success [of error]
  by (auto simp: convert_ctc_error_code_to_mysql_impl_def Let_def split: option.splits)

text \<open>
  C19: no error of Cantian is reported to MySQL as success, and success is reported as success: the
  converted code is 0 exactly for CT_SUCCESS.
\<close>

theorem error_never_lost: "convert_ctc_error_code_to_mysql_impl error = NO_ERROR \<longleftrightarrow> error = CT_SUCCESS"
  by (rule converted_no_error)

text \<open>
  C29: a deadlock marks the transaction for rollback and reaches MySQL as HA_ERR_LOCK_DEADLOCK
  whatever the session options are; and the only errors ever turned into success are the two
  foreign key violations, with foreign key checks off.
\<close>

theorem error_check_correct:
  "convert_ctc_error_code_to_mysql_impl (fst (check_error_code_to_mysql no_fk ERR_DEAD_LOCK)) = HA_ERR_LOCK_DEADLOCK \<and>
   (snd (check_error_code_to_mysql no_fk error) \<longleftrightarrow> error = ERR_DEAD_LOCK) \<and>
   (convert_ctc_error_code_to_mysql_impl (fst (check_error_code_to_mysql no_fk error)) = NO_ERROR \<longleftrightarrow>
      error = CT_SUCCESS \<or> no_fk \<and> error \<in> {ERR_CONSTRAINT_VIOLATED_NO_FOUND, ERR_ROW_IS_REFERENCED})"
proof -
  have d: "convert_ctc_error_code_to_mysql_impl (fst (check_error_code_to_mysql no_fk ERR_DEAD_LOCK)) = HA_ERR_LOCK_DEADLOCK"
    by (simp add: check_error_code_to_mysql_def convert_ctc_error_code_to_mysql_impl_def Let_def
        convert_cantian_err_to_mysql_def err_code_lookup_map_def errno_defs)
  show ?thesis unfolding converted_no_error using d by (auto simp: check_error_code_to_mysql_def errno_defs)
qed

text \<open>
  an error the client has already been told about (one of the switch of
  \<open>convert_cantian_err_to_mysql\<close>) becomes HA_ERR_READ_ONLY_TRANSACTION for a write in read-only mode
  and HA_ERR_WRONG_COMMAND otherwise, whatever the lookup table holds for it; so the entries
  of that table for ERR_LOCK_TIMEOUT and ERR_ROW_LOCKED_NOWAIT are never used: both errors reach
  MySQL as HA_ERR_WRONG_COMMAND.
\<close>

lemma reported_errors:
  "(convert_cantian_err_to_mysql error \<noteq> NO_ERROR \<longrightarrow>
      convert_ctc_error_code_to_mysql_impl error =
        (if error = ERR_WRITE_OPT_IN_READONLY then HA_ERR_READ_ONLY_TRANSACTION else HA_ERR_WRONG_COMMAND)) \<and>
   map_of err_code_lookup_map ERR_LOCK_TIMEOUT = Some HA_ERR_LOCK_WAIT_TIMEOUT \<and>
   convert_ctc_error_code_to_mysql_impl ERR_LOCK_TIMEOUT = HA_ERR_WRONG_COMMAND \<and>
   map_of err_code_lookup_map ERR_ROW_LOCKED_NOWAIT = Some HA_ERR_NO_WAIT_LOCK \<and>
   convert_ctc_error_code_to_mysql_impl ERR_ROW_LOCKED_NOWAIT = HA_ERR_WRONG_COMMAND"
  by (simp add: convert_ctc_error_code_to_mysql_impl_def convert_cantian_err_to_mysql_def Let_def
      err_code_lookup_map_def errno_defs)

lemma reported_errors_witness:
  "convert_cantian_err_to_mysql ERR_WRITE_OPT_IN_READONLY \<noteq> NO_ERROR \<and>
   convert_ctc_error_code_to_mysql_impl ERR_WRITE_OPT_IN_READONLY = HA_ERR_READ_ONLY_TRANSACTION"
proof -
  have "convert_cantian_err_to_mysql ERR_WRITE_OPT_IN_READONLY \<noteq> NO_ERROR"
    by (simp add: convert_cantian_err_to_mysql_def errno_defs)
  then show ?thesis using reported_errors [of ERR_WRITE_OPT_IN_READONLY] by simp
qed

end
