(* ===== verification/CTC_Lob.thy ===== *)
theory CTC_Lob
  imports CTC_Bytes CTC_Error
begin

text \<open>
  Large objects (datatype_cnvrtr.cc, \<open>convert_blob_to_cantian\<close> and \<open>convert_blob_to_mysql\<close>). A value of at
  most 4000 bytes is kept inside its locator, a longer one is written to the storage engine piece by piece
  and the row keeps the first 44 bytes of the locator. The engine's \<open>ctc_knl_write_lob\<close> and
  \<open>ctc_knl_read_lob\<close> and the outcome of \<open>my_malloc\<close> are parameters; \<open>lob_store\<close> states what is used of
  the engine.
\<close>

section \<open>Locators\<close>

definition LOB_HEAD_SIZE :: nat where "LOB_HEAD_SIZE = 12"
definition LOB_LOCATOR_SIZE :: nat where "LOB_LOCATOR_SIZE = 44"
definition CTC_LOB_LOCATOR_BUF_SIZE :: nat where "CTC_LOB_LOCATOR_BUF_SIZE = 4012"
definition CTC_LOB_MAX_INLINE_SIZE :: nat where
  "CTC_LOB_MAX_INLINE_SIZE = CTC_LOB_LOCATOR_BUF_SIZE - LOB_HEAD_SIZE"
definition LOB_DATA_SIZE_100K :: nat where "LOB_DATA_SIZE_100K = 1024 * 100"
definition LOB_DATA_SIZE_1M :: nat where "LOB_DATA_SIZE_1M = 1024 * 1024"
definition LOB_DATA_SIZE_8M :: nat where "LOB_DATA_SIZE_8M = 1024 * 1024 * 8"
definition LOB_DATA_BUFFER_SIZE_8K :: nat where "LOB_DATA_BUFFER_SIZE_8K = 1024 * 8"

lemmas lob_consts = LOB_HEAD_SIZE_def LOB_LOCATOR_SIZE_def CTC_LOB_LOCATOR_BUF_SIZE_def CTC_LOB_MAX_INLINE_SIZE_def
  LOB_DATA_SIZE_100K_def LOB_DATA_SIZE_1M_def LOB_DATA_SIZE_8M_def LOB_DATA_BUFFER_SIZE_8K_def

text \<open>A locator: \<open>size\<close> and \<open>type\<close> of four bytes each, the bit \<open>is_outline\<close> with 31 unused ones, the data.\<close>

definition lob_size :: "byte list \<Rightarrow> nat" where
  "lob_size locator = nat (le_val (take 4 locator))"

definition lob_is_outline :: "byte list \<Rightarrow> bool" where
  "lob_is_outline locator = bit (locator ! 8) 0"

definition get_lob_locator_size :: "byte list \<Rightarrow> nat" where
  "get_lob_locator_size locator =
     (if lob_is_outline locator then LOB_LOCATOR_SIZE else lob_size locator + LOB_HEAD_SIZE)"

definition g_blob_field_buffer_size_map :: "nat \<rightharpoonup> nat" where
  "g_blob_field_buffer_size_map = [LOB_DATA_SIZE_100K \<mapsto> LOB_DATA_BUFFER_SIZE_8K,
     LOB_DATA_SIZE_1M \<mapsto> LOB_DATA_SIZE_100K, LOB_DATA_SIZE_8M \<mapsto> LOB_DATA_SIZE_1M]"

definition get_blob_buffer_size :: "nat \<Rightarrow> nat" where
  "get_blob_buffer_size remain_size =
     (if remain_size < LOB_DATA_SIZE_100K then the (g_blob_field_buffer_size_map LOB_DATA_SIZE_100K)
      else if remain_size < LOB_DATA_SIZE_1M then the (g_blob_field_buffer_size_map LOB_DATA_SIZE_1M)
      else if remain_size < LOB_DATA_SIZE_8M then the (g_blob_field_buffer_size_map LOB_DATA_SIZE_8M)
      else LOB_DATA_SIZE_8M)"

lemma buffer_size_bounds: "8192 \<le> get_blob_buffer_size n" "get_blob_buffer_size n \<le> 8388608"
  by (simp_all add: get_blob_buffer_size_def g_blob_field_buffer_size_map_def lob_consts)

lemma buffer_size_pos [simp]: "0 < get_blob_buffer_size n"
  using buffer_size_bounds(1) [of n] by simp

section \<open>Writing\<close>

text \<open>
  The engine's calls: the return code, with the locator after a write and the bytes that were read. A
  read delivers at most the bytes that were asked for.
\<close>

record 'h lob_api =
  knl_write_lob :: "'h \<Rightarrow> byte list \<Rightarrow> nat \<Rightarrow> byte list \<Rightarrow> bool \<Rightarrow> 'h \<times> ct_errno \<times> byte list"
  knl_read_lob :: "'h \<Rightarrow> byte list \<Rightarrow> nat \<Rightarrow> nat \<Rightarrow> ct_errno \<times> byte list"
  malloc_ok :: "nat \<Rightarrow> bool"

datatype lob_error = Lob_overrun | Lob_err mysql_errno

text \<open>\<open>memset\<close> to 0xFF, then \<open>size = 0\<close>; and the locator of a value kept inline.\<close>

definition fresh_locator :: "nat \<Rightarrow> byte list" where
  "fresh_locator n = le_bytes 4 0 @ replicate (n - 4) 255"

definition inline_locator :: "byte list \<Rightarrow> byte list" where
  "inline_locator data = le_bytes 4 (int (length data)) @ [0, 0, 0, 0] @ [254, 255, 255, 255] @ data"

text \<open>The loop of \<open>convert_blob_to_cantian\<close>; the buffer size is that of the whole value.\<close>

function write_pieces ::
    "('h, 'a) lob_api_scheme \<Rightarrow> 'h \<Rightarrow> nat \<Rightarrow> nat \<Rightarrow> byte list \<Rightarrow> bool \<Rightarrow> byte list \<Rightarrow> 'h \<times> (ct_errno + byte list)" where
  "write_pieces api h total_size column_id locator force_outline data =
     (if data = [] then (h, Inr locator)
      else case knl_write_lob api h locator column_id (take (get_blob_buffer_size total_size) data) force_outline of
        (h, ret, locator) \<Rightarrow>
          if ret \<noteq> CT_SUCCESS then (h, Inl ret)
          else write_pieces api h total_size column_id locator True (drop (get_blob_buffer_size total_size) data))"
  by pat_completeness auto
termination by (relation "measure (\<lambda>(_, _, _, _, _, _, data). length data)") auto

declare write_pieces.simps [simp del]

text \<open>
  The Cantian buffer with the two length bytes and the locator, the position behind the length
  bytes, and \<open>field_len\<close>. \<open>locator_size\<close> is a 32-bit sum: for the last values below 4 GB it wraps to
  fewer bytes than the head of a locator has, which is then written beyond the allocation.
\<close>

definition convert_blob_to_cantian ::
    "('h, 'a) lob_api_scheme \<Rightarrow> 'h \<Rightarrow> mem \<Rightarrow> nat \<Rightarrow> byte list \<Rightarrow> nat \<Rightarrow> 'h \<times> (lob_error + mem \<times> nat \<times> nat)" where
  "convert_blob_to_cantian api h c coff blob_str column_id =
     (let remain_size = length blob_str;
          locator_size = (LOB_HEAD_SIZE + remain_size) mod 2 ^ 32;
          locator_size = (if locator_size > CTC_LOB_LOCATOR_BUF_SIZE then CTC_LOB_LOCATOR_BUF_SIZE else locator_size)
      in if \<not> malloc_ok api locator_size then (h, Inl (Lob_err HA_ERR_SE_OUT_OF_MEMORY))
         else if locator_size < LOB_HEAD_SIZE then (h, Inl Lob_overrun)
         else case (if remain_size \<le> CTC_LOB_MAX_INLINE_SIZE then (h, Inr (inline_locator blob_str))
                    else write_pieces api h remain_size column_id (fresh_locator locator_size) False blob_str) of
           (h, Inl ret) \<Rightarrow> (h, Inl (Lob_err (convert_ctc_error_code_to_mysql_impl ret)))
         | (h, Inr locator) \<Rightarrow>
             let field_len = get_lob_locator_size locator
             in (h, Inr (mem_write (coff + 2) (take field_len locator) (mem_write coff (le_bytes 2 (int field_len)) c),
                         coff + 2, field_len)))"

section \<open>Reading\<close>

text \<open>
  The loop of \<open>convert_blob_to_mysql\<close>: \<^const>\<open>None\<close> when a read fails or delivers nothing.
\<close>

function read_pieces ::
    "('h, 'a) lob_api_scheme \<Rightarrow> 'h \<Rightarrow> byte list \<Rightarrow> nat \<Rightarrow> nat \<Rightarrow> nat \<Rightarrow> byte list \<Rightarrow> byte list option" where
  "read_pieces api h locator buffer_size offset remain_size blob_buf =
     (if remain_size = 0 then Some blob_buf
      else let piece_len = (if remain_size > buffer_size then buffer_size else remain_size);
               (ret, bs) = knl_read_lob api h locator offset piece_len;
               bs = take piece_len bs
           in if ret \<noteq> CT_SUCCESS then None
              else if bs = [] then None
              else read_pieces api h locator buffer_size (offset + length bs) (remain_size - length bs) (blob_buf @ bs))"
  by pat_completeness auto
termination
  by (relation "measure (\<lambda>(_, _, _, _, _, remain_size, _). remain_size)") (auto split: if_splits)

declare read_pieces.simps [simp del]

text \<open>
  What becomes of the pointer in the MySQL record: the address of a buffer with these bytes, the null
  pointer after a failed read, or nothing is stored because the buffer could not be allocated.
\<close>

datatype blob_buf = Blob_data "byte list" | Blob_null | Blob_untouched

definition convert_blob_to_mysql :: "('h, 'a) lob_api_scheme \<Rightarrow> 'h \<Rightarrow> mem \<Rightarrow> nat \<Rightarrow> blob_buf" where
  "convert_blob_to_mysql api h c ptr =
     (let blob_len = lob_size (mem_read c ptr 4)
      in if blob_len = 0 then Blob_data []
         else if \<not> malloc_ok api blob_len then Blob_untouched
         else if \<not> lob_is_outline (mem_read c ptr LOB_HEAD_SIZE) then Blob_data (mem_read c (ptr + LOB_HEAD_SIZE) blob_len)
         else case read_pieces api h (mem_read c ptr LOB_LOCATOR_SIZE) (get_blob_buffer_size blob_len) 0 blob_len [] of
                Some bs \<Rightarrow> Blob_data bs | None \<Rightarrow> Blob_null)"

section \<open>What was written is read back\<close>

text \<open>
  The engine's promise. A locator of 4012 bytes whose first 44 bytes name \<open>bs\<close> in the engine's state is a
  locator of an outline value of that size. The first write of more than 4000 bytes makes such a
  locator, a forced one appends, and a read delivers some of the bytes asked for.
\<close>

definition lob_holds :: "('h \<Rightarrow> byte list \<Rightarrow> byte list) \<Rightarrow> 'h \<Rightarrow> byte list \<Rightarrow> byte list \<Rightarrow> bool" where
  "lob_holds content h locator bs \<longleftrightarrow> length locator = CTC_LOB_LOCATOR_BUF_SIZE \<and> lob_is_outline locator \<and>
     lob_size locator = length bs \<and> content h (take LOB_LOCATOR_SIZE locator) = bs"

definition lob_store :: "('h, 'a) lob_api_scheme \<Rightarrow> ('h \<Rightarrow> byte list \<Rightarrow> byte list) \<Rightarrow> bool" where
  "lob_store api content \<longleftrightarrow>
     (\<forall>h locator column_id piece h' locator'.
        knl_write_lob api h locator column_id piece False = (h', CT_SUCCESS, locator') \<and>
        length locator = CTC_LOB_LOCATOR_BUF_SIZE \<and> CTC_LOB_MAX_INLINE_SIZE < length piece \<and>
        length piece < 2 ^ 32 \<longrightarrow>
        lob_holds content h' locator' piece) \<and>
     (\<forall>h locator column_id piece h' locator' bs.
        knl_write_lob api h locator column_id piece True = (h', CT_SUCCESS, locator') \<and>
        lob_holds content h locator bs \<and> length bs + length piece < 2 ^ 32 \<longrightarrow>
        lob_holds content h' locator' (bs @ piece)) \<and>
     (\<forall>h locator bs offset n. lob_holds content h locator bs \<and> offset < length bs \<and> 0 < n \<longrightarrow>
        (\<exists>k. 0 < k \<and> k \<le> n \<and>
           knl_read_lob api h (take LOB_LOCATOR_SIZE locator) offset n = (CT_SUCCESS, take k (drop offset bs))))"

lemma store_first:
  "lob_store api content \<Longrightarrow> knl_write_lob api h locator column_id piece False = (h', CT_SUCCESS, locator') \<Longrightarrow>
   length locator = CTC_LOB_LOCATOR_BUF_SIZE \<Longrightarrow> CTC_LOB_MAX_INLINE_SIZE < length piece \<Longrightarrow> length piece < 2 ^ 32 \<Longrightarrow>
   lob_holds content h' locator' piece"
  unfolding lob_store_def by blast

lemma store_more:
  "lob_store api content \<Longrightarrow> knl_write_lob api h locator column_id piece True = (h', CT_SUCCESS, locator') \<Longrightarrow>
   lob_holds content h locator bs \<Longrightarrow> length bs + length piece < 2 ^ 32 \<Longrightarrow> lob_holds content h' locator' (bs @ piece)"
  unfolding lob_store_def by blast

lemma store_read:
  assumes "lob_store api content" "lob_holds content h locator bs" "offset < length bs" "0 < n"
  obtains k where "0 < k" "k \<le> n"
    "knl_read_lob api h (take LOB_LOCATOR_SIZE locator) offset n = (CT_SUCCESS, take k (drop offset bs))"
  using assms unfolding lob_store_def by blast

lemma write_pieces_more:
  assumes "lob_store api content" "lob_holds content h locator bs" "length bs + length data < 2 ^ 32"
    and "write_pieces api h n column_id locator True data = (h', Inr locator')"
  shows "lob_holds content h' locator' (bs @ data)"
  using assms(2-)
proof (induction "length data" arbitrary: h locator bs data rule: less_induct)
  case less
  let ?k = "get_blob_buffer_size n"
  show ?case
  proof (cases "data = []")
    case True
    then show ?thesis using less.prems by (simp add: write_pieces.simps)
  next
    case False
    obtain h1 ret l1 where w: "knl_write_lob api h locator column_id (take ?k data) True = (h1, ret, l1)"
      by (metis prod.exhaust)
    have ret: "ret = CT_SUCCESS" "write_pieces api h1 n column_id l1 True (drop ?k data) = (h', Inr locator')"
      using less.prems(3) False w by (auto simp: write_pieces.simps [of api h] split: if_splits)
    have "lob_holds content h1 l1 (bs @ take ?k data)"
      using store_more [OF assms(1), of h locator column_id "take ?k data" h1 l1 bs] w ret(1) less.prems(1,2) by simp
    then show ?thesis
      using less.hyps [of "drop ?k data" h1 l1 "bs @ take ?k data"] ret(2) False less.prems(2) by simp
  qed
qed

lemma read_pieces_all:
  assumes "lob_store api content" "lob_holds content h locator bs" "0 < buffer_size" "offset \<le> length bs"
  shows "read_pieces api h (take LOB_LOCATOR_SIZE locator) buffer_size offset (length bs - offset) (take offset bs) = Some bs"
  using assms(4)
proof (induction "length bs - offset" arbitrary: offset rule: less_induct)
  case less
  show ?case
  proof (cases "offset = length bs")
    case True
    then show ?thesis by (simp add: read_pieces.simps)
  next
    case False
    let ?p = "if length bs - offset > buffer_size then buffer_size else length bs - offset"
    have "offset < length bs" "0 < ?p" using False less.prems assms(3) by auto
    then obtain k where k: "0 < k" "k \<le> ?p"
      "knl_read_lob api h (take LOB_LOCATOR_SIZE locator) offset ?p = (CT_SUCCESS, take k (drop offset bs))"
      using store_read [OF assms(1,2)] by metis
    have kl: "k \<le> length bs - offset" using k(2) by (auto split: if_splits)
    have "take ?p (take k (drop offset bs)) = take k (drop offset bs)" using k(2) by (simp add: min_absorb2)
    moreover have "take k (drop offset bs) \<noteq> []" "length (take k (drop offset bs)) = k"
      using k(1) kl \<open>offset < length bs\<close> by auto
    moreover have "read_pieces api h (take LOB_LOCATOR_SIZE locator) buffer_size (offset + k) (length bs - (offset + k))
        (take (offset + k) bs) = Some bs"
      using less.hyps [of "offset + k"] k(1) kl less.prems by simp
    ultimately show ?thesis using False less.prems k(3) assms(3)
      by (subst read_pieces.simps) (simp add: Let_def take_add)
  qed
qed


lemma write_pieces_first:
  assumes "lob_store api content" "CTC_LOB_MAX_INLINE_SIZE < length data" "length data < 2 ^ 32"
    and "length locator = CTC_LOB_LOCATOR_BUF_SIZE" "write_pieces api h n column_id locator False data = (h', Inr locator')"
  shows "lob_holds content h' locator' data"
proof -
  let ?k = "get_blob_buffer_size n"
  have ne: "data \<noteq> []" using assms(2) by auto
  obtain h1 ret l1 where w: "knl_write_lob api h locator column_id (take ?k data) False = (h1, ret, l1)"
    by (metis prod.exhaust)
  have ret: "ret = CT_SUCCESS" "write_pieces api h1 n column_id l1 True (drop ?k data) = (h', Inr locator')"
    using assms(5) ne w by (auto simp: write_pieces.simps [of api h] split: if_splits)
  have "CTC_LOB_MAX_INLINE_SIZE < length (take ?k data)"
    using assms(2) buffer_size_bounds(1) [of n] by (simp add: lob_consts)
  then have "lob_holds content h1 l1 (take ?k data)"
    using store_first [OF assms(1), of h locator column_id "take ?k data" h1 l1] w ret(1) assms(3,4) by simp
  then show ?thesis
    using write_pieces_more [OF assms(1) _ _ ret(2), of "take ?k data"] assms(3) by simp
qed

lemma inline_locator_fields:
  assumes "length data < 2 ^ 32"
  shows "lob_size (inline_locator data) = length data" "\<not> lob_is_outline (inline_locator data)"
    "get_lob_locator_size (inline_locator data) = length (inline_locator data)"
proof -
  have "int (length data) mod 2 ^ 32 = int (length data)" using assms by simp
  then show a: "lob_size (inline_locator data) = length data"
    by (simp add: lob_size_def inline_locator_def le_val_le_bytes)
  show b: "\<not> lob_is_outline (inline_locator data)"
    by (simp add: lob_is_outline_def inline_locator_def nth_append)
  show "get_lob_locator_size (inline_locator data) = length (inline_locator data)"
    using a b by (simp add: get_lob_locator_size_def inline_locator_def lob_consts)
qed

lemma write_pieces_succeeds:
  assumes "\<And>h locator column_id piece f. fst (snd (knl_write_lob api h locator column_id piece f)) = CT_SUCCESS"
  shows "\<exists>h' locator'. write_pieces api h n column_id locator f data = (h', Inr locator')"
proof (induction "length data" arbitrary: h locator f data rule: less_induct)
  case less
  let ?k = "get_blob_buffer_size n"
  obtain h1 ret l1 where w: "knl_write_lob api h locator column_id (take ?k data) f = (h1, ret, l1)"
    by (metis prod.exhaust)
  then have "ret = CT_SUCCESS" using assms [of h locator column_id "take ?k data" f] by simp
  then show ?case using less [of "drop ?k data" h1 l1 True] w
    by (cases "data = []") (auto simp: write_pieces.simps [of api h])
qed

lemma mem_read_locator:
  assumes "mem_read c ptr (length loc) = loc" "n \<le> length loc"
  shows "mem_read c ptr n = take n loc"
  using assms take_mem_read [of n "length loc" c ptr] by simp

lemma inline_read:
  assumes "mem_read c ptr (length (inline_locator data)) = inline_locator data" "length data < 2 ^ 32" "\<And>n. malloc_ok api n"
  shows "convert_blob_to_mysql api h c ptr = Blob_data data"
proof -
  let ?l = "inline_locator data"
  have len: "length ?l = 12 + length data" by (simp add: inline_locator_def)
  have t4: "mem_read c ptr 4 = take 4 ?l" and t12: "mem_read c ptr LOB_HEAD_SIZE = take 12 ?l"
    using mem_read_locator [OF assms(1)] len by (simp_all add: lob_consts)
  have s: "lob_size (mem_read c ptr 4) = length data"
    using inline_locator_fields(1) [OF assms(2)] unfolding t4 by (simp add: lob_size_def)
  have o: "\<not> lob_is_outline (mem_read c ptr LOB_HEAD_SIZE)"
    using inline_locator_fields(2) [OF assms(2)] len unfolding t12 by (simp add: lob_is_outline_def)
  have "mem_read c ptr (12 + length data) = ?l" using assms(1) len by simp
  then have "mem_read c (ptr + 12) (length data) = drop 12 ?l"
    using mem_read_append [of c ptr 12 "length data"] by (metis append_eq_conv_conj length_mem_read)
  also have "\<dots> = data" by (simp add: inline_locator_def)
  finally show ?thesis using s o assms(3) by (auto simp: convert_blob_to_mysql_def Let_def lob_consts)
qed

lemma outline_read:
  assumes "lob_store api content" "lob_holds content h locator data" "data \<noteq> []" "\<And>n. malloc_ok api n"
    and "mem_read c ptr LOB_LOCATOR_SIZE = take LOB_LOCATOR_SIZE locator"
  shows "convert_blob_to_mysql api h c ptr = Blob_data data"
proof -
  let ?l = "take LOB_LOCATOR_SIZE locator"
  have len: "length ?l = 44" using assms(2) by (simp add: lob_holds_def lob_consts)
  have t: "mem_read c ptr 4 = take 4 locator" "mem_read c ptr LOB_HEAD_SIZE = take 12 locator"
    using mem_read_locator [of c ptr ?l] assms(5) len by (simp_all add: lob_consts)
  have s: "lob_size (mem_read c ptr 4) = length data" "lob_is_outline (mem_read c ptr LOB_HEAD_SIZE)"
    using assms(2) unfolding t by (simp_all add: lob_holds_def lob_size_def lob_is_outline_def)
  have "read_pieces api h ?l (get_blob_buffer_size (length data)) 0 (length data) [] = Some data"
    using read_pieces_all [OF assms(1,2), of "get_blob_buffer_size (length data)" 0] by simp
  then show ?thesis using s assms(3-5) by (simp add: convert_blob_to_mysql_def Let_def)
qed

lemma lob_written_read:
  assumes "lob_store api content" "length data < 2 ^ 32 - 12" "\<And>n. malloc_ok api n"
    and "\<And>h locator column_id piece f. fst (snd (knl_write_lob api h locator column_id piece f)) = CT_SUCCESS"
  shows "\<exists>h' c' len. convert_blob_to_cantian api h c coff data column_id = (h', Inr (c', coff + 2, len)) \<and>
    len \<le> CTC_LOB_LOCATOR_BUF_SIZE \<and> le_val (mem_read c' coff 2) = int len \<and>
    convert_blob_to_mysql api h' c' (coff + 2) = Blob_data data"
proof -
  have w: "(LOB_HEAD_SIZE + length data) mod 2 ^ 32 = 12 + length data" using assms(2) by (simp add: lob_consts)
  define put where "put l = mem_write (coff + 2) (take (get_lob_locator_size l) l)
      (mem_write coff (le_bytes 2 (int (get_lob_locator_size l))) c)" for l
  have put: "le_val (mem_read (put l) coff 2) = int (get_lob_locator_size l)"
      "mem_read (put l) (coff + 2) (get_lob_locator_size l) = take (get_lob_locator_size l) l"
    if "get_lob_locator_size l \<le> 4012" "get_lob_locator_size l \<le> length l" for l
  proof -
    have "mem_read (put l) coff 2 = le_bytes 2 (int (get_lob_locator_size l))"
      unfolding put_def using mem_read_write_other [of "coff + 2" "take (get_lob_locator_size l) l" coff 2]
        mem_read_write_same [of coff "le_bytes 2 (int (get_lob_locator_size l))" c]
      by (simp add: disjoint_areas_def)
    then show "le_val (mem_read (put l) coff 2) = int (get_lob_locator_size l)"
      using that(1) by (simp add: le_val_le_bytes)
    show "mem_read (put l) (coff + 2) (get_lob_locator_size l) = take (get_lob_locator_size l) l"
      unfolding put_def using that(2) mem_read_write_same [of "coff + 2" "take (get_lob_locator_size l) l"] by (simp add: min_absorb2)
  qed
  show ?thesis
  proof (cases "length data \<le> CTC_LOB_MAX_INLINE_SIZE")
    case True
    let ?l = "inline_locator data"
    have d: "length data < 2 ^ 32" using assms(2) by simp
    have sz: "get_lob_locator_size ?l = length ?l" "length ?l = 12 + length data"
      using inline_locator_fields(3) [OF d] by (simp_all add: inline_locator_def)
    have "convert_blob_to_cantian api h c coff data column_id = (h, Inr (put ?l, coff + 2, length ?l))"
      using True w assms(3) sz by (simp add: convert_blob_to_cantian_def Let_def put_def lob_consts)
    moreover have "convert_blob_to_mysql api h (put ?l) (coff + 2) = Blob_data data"
      using put(2) [of ?l] sz True by (intro inline_read [OF _ d assms(3)]) (simp add: lob_consts)
    ultimately show ?thesis using put(1) [of ?l] sz True by (simp add: lob_consts)
  next
    case False
    obtain h' l where l: "write_pieces api h (length data) column_id (fresh_locator 4012) False data = (h', Inr l)"
      using write_pieces_succeeds [of api, OF assms(4)] by blast
    have holds: "lob_holds content h' l data"
      using write_pieces_first [OF assms(1) _ _ _ l] False assms(2) by (simp add: fresh_locator_def lob_consts)
    then have sz: "get_lob_locator_size l = 44" "length l = 4012" "data \<noteq> []"
      using False by (auto simp: lob_holds_def get_lob_locator_size_def lob_consts)
    have "convert_blob_to_cantian api h c coff data column_id = (h', Inr (put l, coff + 2, 44))"
      using False w assms(3) sz l by (simp add: convert_blob_to_cantian_def Let_def put_def lob_consts)
    moreover have "convert_blob_to_mysql api h' (put l) (coff + 2) = Blob_data data"
      using put(2) [of l] sz by (intro outline_read [OF assms(1) holds sz(3) assms(3)]) (simp add: lob_consts)
    ultimately show ?thesis using put(1) [of l] sz by (simp add: lob_consts)
  qed
qed

text \<open>
  C4: a large object is read back. For every value of up to 4 GB less twelve bytes, inline or written
  in pieces, when the engine keeps its promise and no call fails: the conversion succeeds, leaves a
  locator of at most 4012 bytes behind its two length bytes, and reading it gives the bytes that were
  written, whatever sizes the engine reads in.
\<close>

theorem lob_round_trip:
  assumes "lob_store api content" "length data < 2 ^ 32 - 12" "\<And>n. malloc_ok api n"
    and "\<And>h locator column_id piece f. fst (snd (knl_write_lob api h locator column_id piece f)) = CT_SUCCESS"
  shows "\<exists>h' c' len. convert_blob_to_cantian api h c coff data column_id = (h', Inr (c', coff + 2, len)) \<and>
    len \<le> CTC_LOB_LOCATOR_BUF_SIZE \<and> le_val (mem_read c' coff 2) = int len \<and>
    convert_blob_to_mysql api h' c' (coff + 2) = Blob_data data"
  using assms by (rule lob_written_read)

lemma write_pieces_error:
  "write_pieces api h n column_id locator f data = (h', Inl ret) \<Longrightarrow> ret \<noteq> CT_SUCCESS"
proof (induction "length data" arbitrary: h locator f data rule: less_induct)
  case less
  let ?k = "get_blob_buffer_size n"
  obtain h1 r l1 where w: "knl_write_lob api h locator column_id (take ?k data) f = (h1, r, l1)"
    by (metis prod.exhaust)
  show ?case using less.hyps [of "drop ?k data" h1 l1 True] less.prems w
    by (cases "data = []") (auto simp: write_pieces.simps [of api h] split: if_splits)
qed


text \<open>
  an engine error while a large object is written is never lost: whatever the engine does, a
  conversion that fails reports a code that is not success, and one whose first write fails does fail.
\<close>

lemma lob_error_reported:
  "(convert_blob_to_cantian api h c coff data column_id = (h', Inl e) \<longrightarrow> e \<noteq> Lob_err NO_ERROR) \<and>
   (CTC_LOB_MAX_INLINE_SIZE < length data \<and> length data < 2 ^ 32 - 12 \<and> malloc_ok api CTC_LOB_LOCATOR_BUF_SIZE \<and>
      knl_write_lob api h (fresh_locator CTC_LOB_LOCATOR_BUF_SIZE) column_id
        (take (get_blob_buffer_size (length data)) data) False = (h1, ret, loc) \<and> ret \<noteq> CT_SUCCESS \<longrightarrow>
    convert_blob_to_cantian api h c coff data column_id = (h1, Inl (Lob_err (convert_ctc_error_code_to_mysql_impl ret))))"
proof (intro conjI impI)
  assume "convert_blob_to_cantian api h c coff data column_id = (h', Inl e)"
  then show "e \<noteq> Lob_err NO_ERROR"
    by (auto simp: convert_blob_to_cantian_def Let_def converted_no_error
        split: if_splits prod.splits sum.splits dest: write_pieces_error)
next
  assume a: "CTC_LOB_MAX_INLINE_SIZE < length data \<and> length data < 2 ^ 32 - 12 \<and> malloc_ok api CTC_LOB_LOCATOR_BUF_SIZE \<and>
      knl_write_lob api h (fresh_locator CTC_LOB_LOCATOR_BUF_SIZE) column_id
        (take (get_blob_buffer_size (length data)) data) False = (h1, ret, loc) \<and> ret \<noteq> CT_SUCCESS"
  then have "write_pieces api h (length data) column_id (fresh_locator 4012) False data = (h1, Inl ret)"
    by (subst write_pieces.simps) (auto simp: lob_consts)
  moreover have "(LOB_HEAD_SIZE + length data) mod 2 ^ 32 = 12 + length data" using a by (simp add: lob_consts)
  ultimately show "convert_blob_to_cantian api h c coff data column_id = (h1, Inl (Lob_err (convert_ctc_error_code_to_mysql_impl ret)))"
    using a by (simp add: convert_blob_to_cantian_def Let_def lob_consts)
qed

text \<open>An engine that keeps one value and reads at most a thousand bytes at a time.\<close>

definition one_value_api :: "byte list lob_api" where
  "one_value_api = \<lparr>
     knl_write_lob = (\<lambda>h locator column_id piece f.
       let h = (if f then h @ piece else piece)
       in (h, CT_SUCCESS, le_bytes 4 (int (length h)) @ replicate 4008 255)),
     knl_read_lob = (\<lambda>h locator offset n. (CT_SUCCESS, take (min n 1000) (drop offset h))),
     malloc_ok = (\<lambda>n. True)\<rparr>"

lemma one_value_store: "lob_store one_value_api (\<lambda>h _. h)"
proof -
  have size: "lob_size (le_bytes 4 (int (length bs)) @ replicate 4008 255) = length bs" if "length bs < 2 ^ 32" for bs :: "byte list"
  proof -
    have "int (length bs) mod 256 ^ 4 = int (length bs)" using that by simp
    then show ?thesis by (simp add: lob_size_def le_val_le_bytes)
  qed
  have size2: "lob_size (le_bytes 4 (int (length bs) + int (length cs)) @ replicate 4008 255) = length bs + length cs"
    if "length bs + length cs < 2 ^ 32" for bs cs :: "byte list" using size [of "bs @ cs"] that by simp
  have out: "lob_is_outline (le_bytes 4 v @ replicate 4008 255)" for v
    by (simp add: lob_is_outline_def nth_append)
  have read: "\<exists>k>0. k \<le> n \<and> take (min n 1000) bs = take k bs" if "0 < n" for n and bs :: "byte list"
    using that by (intro exI [of _ "min n 1000"]) simp
  show ?thesis
    unfolding lob_store_def
    by (intro conjI allI impI; elim conjE)
      (auto simp: one_value_api_def lob_holds_def Let_def size size2 out read CTC_LOB_LOCATOR_BUF_SIZE_def)
qed

theorem lob_round_trip_witness:
  "\<exists>h' c' len. convert_blob_to_cantian one_value_api [] (\<lambda>_. 0) 8 (replicate 9000 7) 3 = (h', Inr (c', 8 + 2, len)) \<and>
    len \<le> CTC_LOB_LOCATOR_BUF_SIZE \<and> le_val (mem_read c' 8 2) = int len \<and>
    convert_blob_to_mysql one_value_api h' c' (8 + 2) = Blob_data (replicate 9000 7)"
  by (rule lob_round_trip [OF one_value_store]) (simp_all add: one_value_api_def Let_def)

lemma lob_error_reported_witness:
  "convert_blob_to_cantian (one_value_api\<lparr>knl_write_lob := \<lambda>h locator column_id piece f. (h, ERR_ALLOC_MEMORY, locator)\<rparr>)
     [] (\<lambda>_. 0) 8 (replicate 9000 7) 3 = ([], Inl (Lob_err (convert_ctc_error_code_to_mysql_impl ERR_ALLOC_MEMORY)))"
  using lob_error_reported [of "one_value_api\<lparr>knl_write_lob := \<lambda>h locator column_id piece f. (h, ERR_ALLOC_MEMORY, locator)\<rparr>"
      "[]" "\<lambda>_. 0" 8 "replicate 9000 7" 3 "[]" _ "[]" ERR_ALLOC_MEMORY "fresh_locator CTC_LOB_LOCATOR_BUF_SIZE"]
  by (simp add: one_value_api_def lob_consts errno_defs)

lemma read_pieces_length:
  "read_pieces api h locator k offset n acc = Some bs \<Longrightarrow> length bs = length acc + n"
proof (induction n arbitrary: offset acc rule: less_induct)
  case (less n)
  show ?case
  proof (cases "n = 0")
    case True
    then show ?thesis using less.prems by (simp add: read_pieces.simps)
  next
    case False
    let ?p = "if n > k then k else n"
    obtain ret xs where r: "knl_read_lob api h locator offset ?p = (ret, xs)" by (metis prod.exhaust)
    let ?b = "take ?p xs"
    have b: "?b \<noteq> []" "read_pieces api h locator k (offset + length ?b) (n - length ?b) (acc @ ?b) = Some bs"
      using less.prems False r by (auto simp: read_pieces.simps [of api h locator k offset n] Let_def split: if_splits)
    have "length ?b \<le> n" "n - length ?b < n" using b(1) False by (auto split: if_splits)
    then show ?thesis using less.IH [OF _ b(2)] by simp
  qed
qed

lemma blob_data_size: "convert_blob_to_mysql api h c ptr = Blob_data bs \<Longrightarrow> lob_size (mem_read c ptr 4) = length bs"
  by (auto simp: convert_blob_to_mysql_def Let_def split: if_splits option.splits dest: read_pieces_length)

end
