(* ===== verification/CTC_Row.thy ===== *)
theory CTC_Row
  imports CTC_Rowhead CTC_Date CTC_Mydec CTC_Lob
begin

text \<open>
  Record conversion (datatype_cnvrtr.cc): a MySQL record buffer to a Cantian row and back, column by
  column. Both buffers are byte memories. A \<open>Field\<close> of MySQL is a record of the attributes the
  sources read. Functions of MySQL's own libraries (packed times, binary decimals, three-byte
  integers, time zones), the conversion between \<open>float\<close> and \<open>double\<close>, the value of a MySQL blob field and
  the address of a new buffer are parameters, the record \<open>row_api\<close>, beside those of large objects.
\<close>

unbundle bit_operations_syntax

section \<open>Fields\<close>

record column =
  c_type :: field_type
  c_desc :: field_desc
  c_index :: nat
  c_offset :: nat
  c_nullable :: bool
  c_null_offset :: nat
  c_null_bit :: byte
  c_virtual_gcol :: bool
  c_unsigned :: bool
  c_auto_increment :: bool
  c_length_bytes :: nat
  c_row_pack_length :: nat
  c_pack_length :: nat
  c_decimals :: nat
  c_precision :: nat
  c_pad_char :: byte
  c_bytes_in_rec :: nat
  c_bit_len :: nat
  c_bit_ofs :: nat
  c_bit_addr :: nat

text \<open>A failed assertion, an access outside an allocation, MySQL's decimal error, an error of the engine.\<close>

datatype conv_error = Conv_assert | Conv_fault | Conv_code int | Conv_err mysql_errno

record 'h row_api = "'h lob_api" +
  api_type_no :: "field_type \<Rightarrow> int"
  api_uint3korr :: "byte list \<Rightarrow> int"
  api_sint3korr :: "byte list \<Rightarrow> int"
  api_float_to_double :: "byte list \<Rightarrow> byte list"
  api_double_to_float :: "byte list \<Rightarrow> byte list"
  api_time_from_binary :: "byte list \<Rightarrow> nat \<Rightarrow> int"
  api_time_to_binary :: "int \<Rightarrow> nat \<Rightarrow> byte list"
  api_time_of_packed :: "int \<Rightarrow> mysql_time"
  api_packed_of_time :: "mysql_time \<Rightarrow> int"
  api_datetime_from_binary :: "byte list \<Rightarrow> nat \<Rightarrow> int"
  api_datetime_to_binary :: "int \<Rightarrow> nat \<Rightarrow> byte list"
  api_datetime_of_packed :: "int \<Rightarrow> mysql_time"
  api_packed_of_datetime :: "mysql_time \<Rightarrow> int"
  api_timestamp_from_binary :: "byte list \<Rightarrow> nat \<Rightarrow> int \<times> int"
  api_gmt_sec_to_TIME :: "int \<times> int \<Rightarrow> mysql_time"
  api_TIME_to_gmt_sec :: "mysql_time \<Rightarrow> int \<times> bool"
  api_binary2my_decimal :: "byte list \<Rightarrow> nat \<Rightarrow> nat \<Rightarrow> int + my_decimal"
  api_my_decimal2binary :: "my_decimal \<Rightarrow> nat \<Rightarrow> nat \<Rightarrow> int + byte list"
  api_decimal_max_str_length :: nat
  api_blob_data :: "'h \<Rightarrow> column \<Rightarrow> mem \<Rightarrow> byte list"
  api_buffer_addr :: "byte list \<Rightarrow> byte list"
  api_json_error :: "column \<Rightarrow> byte list option \<Rightarrow> bool"

definition ROUND_UP :: "nat \<Rightarrow> nat \<Rightarrow> nat" where
  "ROUND_UP x align = (x div align + (if x mod align \<noteq> 0 then 1 else 0)) * align"

definition ALIGN_UP :: "int \<Rightarrow> int \<Rightarrow> int" where
  "ALIGN_UP x align = x sdiv align + (if x smod align \<noteq> 0 then 1 else 0)"

definition VARCHAR_AS_BLOB :: "nat \<Rightarrow> bool" where
  "VARCHAR_AS_BLOB len \<longleftrightarrow> len > 8000"

section \<open>Numbers, MySQL to Cantian\<close>

text \<open>
  \<open>convert_numeric_datatype\<close> with source and target of \<open>k\<close> and \<open>n\<close> bytes: an integer cast, which
  extends or truncates.
\<close>

definition convert_numeric_datatype :: "nat \<Rightarrow> byte list \<Rightarrow> bool \<Rightarrow> byte list" where
  "convert_numeric_datatype n source is_unsigned =
     le_bytes n (if is_unsigned then le_val source else le_sval source)"

fun be_val :: "byte list \<Rightarrow> int" where
  "be_val [] = 0"
| "be_val (b # bs) = uint b * 256 ^ length bs + be_val bs"

definition get_rec_bits :: "mem \<Rightarrow> nat \<Rightarrow> nat \<Rightarrow> nat \<Rightarrow> int" where
  "get_rec_bits m a ofs len = (uint (m (a + 1)) * 256 + uint (m a)) div 2 ^ ofs mod 2 ^ len"

text \<open>The high bits kept in the null bytes, and the value of the whole column.\<close>

definition bit_high :: "column \<Rightarrow> mem \<Rightarrow> int" where
  "bit_high col m = (if c_bit_len col \<noteq> 0
     then get_rec_bits m (c_bit_addr col) (c_bit_ofs col) (c_bit_len col) * 2 ^ (8 * c_bytes_in_rec col) mod 2 ^ 64
     else 0)"

text \<open>The bits or-ed together are disjoint: \<open>bits\<close> is a multiple of \<open>2 ^ (8 * bytes_in_rec)\<close>.\<close>

definition bit_cnvt_mysql_cantian :: "column \<Rightarrow> mem \<Rightarrow> nat \<Rightarrow> int" where
  "bit_cnvt_mysql_cantian col m ptr =
     (let n = c_bytes_in_rec col
      in if n = 0 then bit_high col m
         else if n \<le> 7 then or (bit_high col m) (be_val (mem_read m ptr n))
         else be_val (mem_read m (ptr + n - 8) 8))"

definition decimal_bytes :: "dec4 \<Rightarrow> byte list" where
  "decimal_bytes d = le_bytes 1 (d4_sign d + 2 * d4_ncells d) @ le_bytes 1 (d4_expn d) @
     concat (map (le_bytes 2) (d4_cells d))"

definition decimal_mysql_to_cantian ::
    "('h, 'a) row_api_scheme \<Rightarrow> byte list \<Rightarrow> nat \<Rightarrow> nat \<Rightarrow> int + byte list \<times> nat" where
  "decimal_mysql_to_cantian api bs prec scale =
     (case api_binary2my_decimal api bs prec scale of
        Inl e \<Rightarrow> Inl e
      | Inr d \<Rightarrow> let d4 = convert_mydec_to_dec4 (api_decimal_max_str_length api) d
                 in Inr (decimal_bytes d4, nat (cm_dec4_stor_sz d4)))"

text \<open>The bytes stored at the current position of the Cantian row, and the new \<open>field_len\<close>.\<close>

definition convert_numeric_to_cantian ::
    "('h, 'a) row_api_scheme \<Rightarrow> column \<Rightarrow> field_type \<Rightarrow> mem \<Rightarrow> nat \<Rightarrow> nat \<Rightarrow> conv_error + byte list \<times> nat" where
  "convert_numeric_to_cantian api col t m ptr field_len = (case t of
     MYSQL_TYPE_TINY \<Rightarrow> Inr (convert_numeric_datatype 4 (mem_read m ptr 1) (c_unsigned col), field_len)
   | MYSQL_TYPE_SHORT \<Rightarrow> Inr (convert_numeric_datatype 4 (mem_read m ptr 2) (c_unsigned col), field_len)
   | MYSQL_TYPE_INT24 \<Rightarrow>
       Inr (le_bytes 4 (if c_unsigned col then api_uint3korr api (mem_read m ptr 3) else api_sint3korr api (mem_read m ptr 3)),
            field_len)
   | MYSQL_TYPE_LONG \<Rightarrow> Inr (convert_numeric_datatype 4 (mem_read m ptr 4) (c_unsigned col), field_len)
   | MYSQL_TYPE_FLOAT \<Rightarrow> Inr (api_float_to_double api (mem_read m ptr 4), field_len)
   | MYSQL_TYPE_DOUBLE \<Rightarrow> Inr (mem_read m ptr 8, field_len)
   | MYSQL_TYPE_BIT \<Rightarrow> Inr (le_bytes 8 (bit_cnvt_mysql_cantian col m ptr), field_len)
   | MYSQL_TYPE_LONGLONG \<Rightarrow> Inr (convert_numeric_datatype 8 (mem_read m ptr 8) (c_unsigned col), field_len)
   | MYSQL_TYPE_NEWDECIMAL \<Rightarrow>
       (case decimal_mysql_to_cantian api (mem_read m ptr (c_pack_length col)) (c_precision col) (c_decimals col) of
          Inl e \<Rightarrow> Inl (Conv_code e) | Inr r \<Rightarrow> Inr r)
   | _ \<Rightarrow> Inl Conv_assert)"

section \<open>Dates and times, MySQL to Cantian\<close>

definition zero_time :: mysql_time where
  "zero_time = \<lparr>mt_year = 0, mt_month = 0, mt_day = 0, mt_hour = 0, mt_minute = 0, mt_second = 0,
     mt_second_part = 0, mt_neg = False\<rparr>"

definition decode_mysql_year_type :: "byte \<Rightarrow> mysql_time" where
  "decode_mysql_year_type b =
     (let year = (if b = 0 then 0 else uint b + 1900)
      in \<lparr>mt_year = year, mt_month = (if year = 0 then 0 else 1), mt_day = (if year = 0 then 0 else 1),
          mt_hour = 0, mt_minute = 0, mt_second = 0, mt_second_part = 0, mt_neg = False\<rparr>)"

definition decode_mysql_time_type :: "('h, 'a) row_api_scheme \<Rightarrow> byte list \<Rightarrow> nat \<Rightarrow> mysql_time" where
  "decode_mysql_time_type api bs dec =
     (api_time_of_packed api (api_time_from_binary api bs dec))\<lparr>mt_year := 1900, mt_month := 1, mt_day := 1\<rparr>"

definition decode_mysql_date_type :: "mysql_time \<Rightarrow> byte list \<Rightarrow> mysql_time" where
  "decode_mysql_date_type ltime bs =
     (let tmp = uint (bs ! 0) + uint (bs ! 1) * 256 + uint (bs ! 2) * 65536
      in ltime\<lparr>mt_year := tmp sdiv 16 sdiv 32, mt_month := tmp sdiv 32 smod 16, mt_day := tmp smod 32\<rparr>)"

definition decode_mysql_datetime_type :: "('h, 'a) row_api_scheme \<Rightarrow> byte list \<Rightarrow> nat \<Rightarrow> mysql_time" where
  "decode_mysql_datetime_type api bs dec = api_datetime_of_packed api (api_datetime_from_binary api bs dec)"

definition decode_mysql_timestamp_type :: "('h, 'a) row_api_scheme \<Rightarrow> mysql_time \<Rightarrow> byte list \<Rightarrow> nat \<Rightarrow> mysql_time" where
  "decode_mysql_timestamp_type api ltime bs dec =
     (let tm = api_timestamp_from_binary api bs dec in if fst tm = 0 then ltime else api_gmt_sec_to_TIME api tm)"

definition decode_mysql_datetime ::
    "('h, 'a) row_api_scheme \<Rightarrow> column \<Rightarrow> field_type \<Rightarrow> mysql_time \<Rightarrow> mem \<Rightarrow> nat \<Rightarrow> mysql_time option" where
  "decode_mysql_datetime api col t ltime m ptr = (case t of
     MYSQL_TYPE_YEAR \<Rightarrow> Some (decode_mysql_year_type (m ptr))
   | MYSQL_TYPE_TIME \<Rightarrow> Some (decode_mysql_time_type api (mem_read m ptr (c_pack_length col)) (c_decimals col))
   | MYSQL_TYPE_DATE \<Rightarrow> Some (decode_mysql_date_type ltime (mem_read m ptr 3))
   | MYSQL_TYPE_DATETIME \<Rightarrow> Some (decode_mysql_datetime_type api (mem_read m ptr (c_pack_length col)) (c_decimals col))
   | MYSQL_TYPE_TIMESTAMP \<Rightarrow>
       Some (decode_mysql_timestamp_type api ltime (mem_read m ptr (c_pack_length col)) (c_decimals col))
   | _ \<Rightarrow> None)"

definition check_zero_time_ltime :: "mysql_time \<Rightarrow> bool" where
  "check_zero_time_ltime t \<longleftrightarrow> \<not> (mt_year t \<noteq> 0 \<or> mt_month t \<noteq> 0 \<or> mt_day t \<noteq> 0 \<or> mt_hour t \<noteq> 0 \<or>
     mt_minute t \<noteq> 0 \<or> mt_second t \<noteq> 0 \<or> mt_second_part t \<noteq> 0)"

definition assign_mysql_date_detail :: "field_type \<Rightarrow> mysql_time \<Rightarrow> date_detail" where
  "assign_mysql_date_detail t ltime =
     (let ltime = (if t = MYSQL_TYPE_TIME
            then ltime\<lparr>mt_year := (if mt_year ltime = 0 then 1900 else mt_year ltime),
                       mt_month := (if mt_month ltime = 0 then 1 else mt_month ltime),
                       mt_day := (if mt_day ltime = 0 then 1 else mt_day ltime)\<rparr>
            else ltime)
      in \<lparr>dd_year = u16 (mt_year ltime),
          dd_mon = u8 (if mt_year ltime = 0 then 0 else mt_month ltime),
          dd_day = u8 (if mt_year ltime = 0 then 0 else mt_day ltime),
          dd_hour = u8 (mt_hour ltime), dd_min = u8 (mt_minute ltime), dd_sec = u8 (mt_second ltime),
          dd_millisec = u16 (mt_second_part ltime div MICROSECS_PER_MILLISEC),
          dd_microsec = u16 (mt_second_part ltime mod MICROSECS_PER_MILLISEC),
          dd_nanosec = 0, dd_tz_offset = 0\<rparr>)"

text \<open>The temporary buffer of eight bytes is zero where MySQL's packing writes nothing.\<close>

definition pad8 :: "byte list \<Rightarrow> byte list" where
  "pad8 bs = take 8 (bs @ replicate 8 0)"

definition cnvrt_time_decimal :: "('h, 'a) row_api_scheme \<Rightarrow> byte list \<Rightarrow> nat \<Rightarrow> nat \<Rightarrow> nat \<Rightarrow> byte list" where
  "cnvrt_time_decimal api src src_dec des_dec len =
     (let ltime = (api_time_of_packed api (api_time_from_binary api src src_dec))\<lparr>mt_year := 1900, mt_month := 1, mt_day := 1\<rparr>
      in take len (pad8 (api_time_to_binary api (api_packed_of_time api ltime) des_dec)))"

definition cnvrt_datetime_decimal :: "('h, 'a) row_api_scheme \<Rightarrow> byte list \<Rightarrow> nat \<Rightarrow> nat \<Rightarrow> nat \<Rightarrow> byte list" where
  "cnvrt_datetime_decimal api src src_dec des_dec len =
     (let ltime = api_datetime_of_packed api (api_datetime_from_binary api src src_dec)
      in take len (pad8 (api_datetime_to_binary api (api_packed_of_datetime api ltime) des_dec)))"

definition DATETIME_MAX_DECIMALS :: nat where "DATETIME_MAX_DECIMALS = 6"

definition convert_datetime_to_cantian ::
    "('h, 'a) row_api_scheme \<Rightarrow> column \<Rightarrow> field_type \<Rightarrow> mem \<Rightarrow> nat \<Rightarrow> conv_error + byte list" where
  "convert_datetime_to_cantian api col t m ptr =
     (if t = MYSQL_TYPE_TIME
      then Inr (cnvrt_time_decimal api (mem_read m ptr (c_pack_length col)) (c_decimals col) DATETIME_MAX_DECIMALS 8)
      else if t = MYSQL_TYPE_DATETIME
      then Inr (cnvrt_datetime_decimal api (mem_read m ptr (c_pack_length col)) (c_decimals col) DATETIME_MAX_DECIMALS 8)
      else if t = MYSQL_TYPE_DATE
      then Inr (mem_read m ptr (c_pack_length col) @ replicate (8 - c_pack_length col) 0)
      else case decode_mysql_datetime api col t zero_time m ptr of
             None \<Rightarrow> Inl Conv_assert
           | Some ltime \<Rightarrow>
              (case cm_encode_date (assign_mysql_date_detail t ltime) of
                 None \<Rightarrow> Inl Conv_assert | Some date \<Rightarrow> Inr (le_bytes 8 date)))"

section \<open>Lengths\<close>

text \<open>\<open>while (field_len > 0 && mysql_ptr[field_len - 1] == pad_char) field_len--;\<close>\<close>

fun trim_pad :: "mem \<Rightarrow> nat \<Rightarrow> byte \<Rightarrow> nat \<Rightarrow> nat" where
  "trim_pad m ptr pad 0 = 0"
| "trim_pad m ptr pad (Suc n) = (if m (ptr + n) = pad then trim_pad m ptr pad n else Suc n)"

text \<open>The data length and the number of MySQL length bytes before the data.\<close>

definition calculate_variable_len :: "column \<Rightarrow> field_type \<Rightarrow> mem \<Rightarrow> nat \<Rightarrow> nat \<times> nat" where
  "calculate_variable_len col t m ptr = (case t of
     MYSQL_TYPE_VARCHAR \<Rightarrow>
       (if c_length_bytes col = 1 then unat (m ptr)
        else if c_length_bytes col = 2 then nat (le_val (mem_read m ptr 2)) else 0, c_length_bytes col)
   | MYSQL_TYPE_STRING \<Rightarrow>
       (if fd_real_type (c_desc col) = MYSQL_TYPE_STRING
        then trim_pad m ptr (c_pad_char col) (c_row_pack_length col) else c_row_pack_length col, 0)
   | MYSQL_TYPE_NEWDECIMAL \<Rightarrow>
       (nat ((1 + (ALIGN_UP (int (c_precision col) - int (c_decimals col)) 4 + ALIGN_UP (int (c_decimals col)) 4)) * 2), 0)
   | _ \<Rightarrow> (0, 0))"

text \<open>
  \<open>get_map_and_field_len\<close>: the field length, the MySQL position behind the length bytes, and the
  Cantian buffer and position with the two length bytes written.
\<close>

definition get_map_and_field_len ::
    "column \<Rightarrow> field_cnvrt_aux \<Rightarrow> mem \<Rightarrow> nat \<Rightarrow> mem \<Rightarrow> nat \<Rightarrow> conv_error + nat \<times> nat \<times> mem \<times> nat" where
  "get_map_and_field_len col aux m moff c coff =
     (if aux_cantian_map_type aux = CANTIAN_COL_BITS_4 then Inr (4, moff, c, coff)
      else if aux_cantian_map_type aux = CANTIAN_COL_BITS_8 then Inr (8, moff, c, coff)
      else if aux_cantian_map_type aux = CANTIAN_COL_BITS_VAR
      then (if aux_sql_data_type aux \<noteq> LOB_DATA
            then let (field_len, length_bytes) = calculate_variable_len col (aux_mysql_field_type aux) m moff;
                     moff = moff + length_bytes
                 in if \<not> (aux_sql_data_type aux = STRING_DATA \<and> VARCHAR_AS_BLOB (c_row_pack_length col))
                    then Inr (field_len, moff, mem_write coff (le_bytes 2 (int field_len)) c, coff + 2)
                    else Inr (field_len, moff, c, coff)
            else Inr (0, moff, c, coff))
      else Inl Conv_assert)"

definition store_blob ::
    "('h, 'a) row_api_scheme \<Rightarrow> 'h \<Rightarrow> column \<Rightarrow> byte list \<Rightarrow> mem \<Rightarrow> nat \<Rightarrow> 'h \<times> (conv_error + mem \<times> nat \<times> nat)" where
  "store_blob api h col data c coff =
     (case convert_blob_to_cantian api h c coff data (c_index col) of
        (h, Inl Lob_overrun) \<Rightarrow> (h, Inl Conv_fault)
      | (h, Inl (Lob_err e)) \<Rightarrow> (h, Inl (Conv_err e))
      | (h, Inr r) \<Rightarrow> (h, Inr r))"

text \<open>The buffer, the position, the field length, and \<open>serial_column_offset\<close> if it is set.\<close>

definition convert_data_from_mysql_to_cantian ::
    "('h, 'a) row_api_scheme \<Rightarrow> 'h \<Rightarrow> column \<Rightarrow> field_cnvrt_aux \<Rightarrow> mem \<Rightarrow> nat \<Rightarrow> mem \<Rightarrow> nat \<Rightarrow> nat \<Rightarrow> nat \<Rightarrow>
     'h \<times> (conv_error + mem \<times> nat \<times> nat \<times> nat)" where
  "convert_data_from_mysql_to_cantian api h col aux m moff c coff field_len serial = (case aux_sql_data_type aux of
     NUMERIC_DATA \<Rightarrow> (h,
       (case convert_numeric_to_cantian api col (aux_mysql_field_type aux) m moff field_len of
          Inl e \<Rightarrow> Inl e
        | Inr (bs, field_len) \<Rightarrow>
            let c = mem_write coff bs c;
                serial = (if c_auto_increment col then coff mod 65536 else serial);
                c = (if c_type col = MYSQL_TYPE_NEWDECIMAL
                     then mem_write (coff - 2) (le_bytes 2 (int field_len)) c else c)
            in Inr (c, coff, field_len, serial)))
   | DATETIME_DATA \<Rightarrow> (h,
       (case convert_datetime_to_cantian api col (aux_mysql_field_type aux) m moff of
          Inl e \<Rightarrow> Inl e | Inr bs \<Rightarrow> Inr (mem_write coff bs c, coff, field_len, serial)))
   | STRING_DATA \<Rightarrow>
       (if \<not> VARCHAR_AS_BLOB (c_row_pack_length col)
        then (h, Inr (mem_write coff (mem_read m moff field_len) c, coff, field_len, serial))
        else (case store_blob api h col (mem_read m moff field_len) c coff of
                (h, Inl e) \<Rightarrow> (h, Inl e) | (h, Inr (c, coff, len)) \<Rightarrow> (h, Inr (c, coff, len, serial))))
   | LOB_DATA \<Rightarrow>
       (case store_blob api h col (api_blob_data api h col m) c coff of
          (h, Inl e) \<Rightarrow> (h, Inl e) | (h, Inr (c, coff, len)) \<Rightarrow> (h, Inr (c, coff, len, serial)))
   | UNKNOW_DATA \<Rightarrow> (h, Inl Conv_assert))"

section \<open>Record, MySQL to Cantian\<close>

text \<open>
  The entry of the conversion table for a column. The lookups may change the data-definition type
  of entries; the members used here are those they never change.
\<close>

definition column_aux :: "(field_type \<Rightarrow> int) \<Rightarrow> column \<Rightarrow> field_cnvrt_aux option" where
  "column_aux num col =
     (case get_auxiliary_for_field_convert num g_field_cnvrt_aux_array (c_desc col) (c_type col) of
        (arr, Some i) \<Rightarrow> Some (arr ! i) | (_, None) \<Rightarrow> None)"

definition is_null :: "column \<Rightarrow> mem \<Rightarrow> bool" where
  "is_null col m \<longleftrightarrow> c_nullable col \<and> m (c_null_offset col) AND c_null_bit col \<noteq> 0"

text \<open>One column that is not virtual, at position \<open>bitpos\<close> of the bitmap.\<close>

definition write_column ::
    "('h, 'a) row_api_scheme \<Rightarrow> 'h \<Rightarrow> column \<Rightarrow> mem \<Rightarrow> nat \<Rightarrow> mem \<Rightarrow> nat \<Rightarrow> nat \<Rightarrow>
     'h \<times> (conv_error + mem \<times> nat \<times> nat)" where
  "write_column api h col m bitpos c coff serial =
     (if is_null col m then (h, Inr (row_set_column_bits2 c 0 bitpos, coff, serial))
      else case column_aux (api_type_no api) col of
        None \<Rightarrow> (h, Inl Conv_assert)
      | Some aux \<Rightarrow>
         (case get_map_and_field_len col aux m (c_offset col) c coff of
            Inl e \<Rightarrow> (h, Inl e)
          | Inr (field_len, moff, c, coff) \<Rightarrow>
             (case convert_data_from_mysql_to_cantian api h col aux m moff c coff field_len serial of
                (h, Inl e) \<Rightarrow> (h, Inl e)
              | (h, Inr (c, coff, field_len, serial)) \<Rightarrow>
                  (h, let c = row_set_column_bits2 c (aux_cantian_map_type aux) bitpos;
                          field_len = (if aux_cantian_map_type aux = CANTIAN_COL_BITS_VAR
                                       then ROUND_UP (field_len + 2) 4 - 2 else field_len)
                      in Inr (c, coff + field_len, serial)))))"

text \<open>\<open>cal_gcol_cnts_for_update\<close>: the virtual columns among the first \<open>n\<close> of the table.\<close>

definition cal_gcol_cnts_for_update :: "column list \<Rightarrow> nat \<Rightarrow> nat" where
  "cal_gcol_cnts_for_update cols n = length (filter c_virtual_gcol (take n cols))"

text \<open>The loop of an insert, over the columns of the table.\<close>

fun insert_columns ::
    "('h, 'a) row_api_scheme \<Rightarrow> 'h \<Rightarrow> mem \<Rightarrow> column list \<Rightarrow> nat \<Rightarrow> nat \<Rightarrow> mem \<Rightarrow> nat \<Rightarrow> nat \<Rightarrow>
     'h \<times> (conv_error + mem \<times> nat \<times> nat \<times> nat)" where
  "insert_columns api h m [] cnt virtual_gcol_cnt c coff serial = (h, Inr (c, coff, serial, virtual_gcol_cnt))"
| "insert_columns api h m (col # cols) cnt virtual_gcol_cnt c coff serial =
     (if c_virtual_gcol col then insert_columns api h m cols (cnt + 1) (virtual_gcol_cnt + 1) c coff serial
      else case write_column api h col m (cnt - virtual_gcol_cnt) c coff serial of
        (h, Inl e) \<Rightarrow> (h, Inl e)
      | (h, Inr (c, coff, serial)) \<Rightarrow> insert_columns api h m cols (cnt + 1) virtual_gcol_cnt c coff serial)"

text \<open>
  The loop of an update, over the vector \<open>fields\<close> of column numbers: a virtual column is erased from the
  vector, the number of any other is reduced by the virtual columns before it.
\<close>

fun update_columns ::
    "('h, 'a) row_api_scheme \<Rightarrow> 'h \<Rightarrow> mem \<Rightarrow> column list \<Rightarrow> bool \<Rightarrow> nat list \<Rightarrow> nat \<Rightarrow> mem \<Rightarrow> nat \<Rightarrow> nat \<Rightarrow>
     'h \<times> (conv_error + mem \<times> nat \<times> nat \<times> nat list)" where
  "update_columns api h m tbl has_gcol [] cnt c coff serial = (h, Inr (c, coff, serial, []))"
| "update_columns api h m tbl has_gcol (f # rest) cnt c coff serial =
     (if c_virtual_gcol (tbl ! f) then update_columns api h m tbl has_gcol rest cnt c coff serial
      else case write_column api h (tbl ! f) m cnt c coff serial of
        (h, Inl e) \<Rightarrow> (h, Inl e)
      | (h, Inr (c, coff, serial)) \<Rightarrow>
         (case update_columns api h m tbl has_gcol rest (cnt + 1) c coff serial of
            (h, Inl e) \<Rightarrow> (h, Inl e)
          | (h, Inr (c, coff, serial, fs)) \<Rightarrow>
              (h, Inr (c, coff, serial, (if has_gcol then f - cal_gcol_cnts_for_update tbl f else f) # fs))))"

definition finish_row :: "nat \<Rightarrow> nat \<Rightarrow> mem \<Rightarrow> mem" where
  "finish_row row_size column_count c = set_column_count column_count (set_row_size row_size c)"

text \<open>
  \<open>fields\<close> is the null pointer for an insert. The result is the buffer, its size, the offset of the
  auto-increment column and the vector of column numbers.
\<close>

definition mysql_record_to_cantian_record ::
    "('h, 'a) row_api_scheme \<Rightarrow> 'h \<Rightarrow> column list \<Rightarrow> bool \<Rightarrow> mem \<Rightarrow> mem \<Rightarrow> nat list option \<Rightarrow>
     'h \<times> (conv_error + mem \<times> nat \<times> nat \<times> nat list)" where
  "mysql_record_to_cantian_record api h tbl has_gcol m c upd_fields =
     (let n_fields = (case upd_fields of Some fs \<Rightarrow> length fs | None \<Rightarrow> length tbl);
          virtual_gcol_cnt = (if has_gcol then cal_gcol_cnts_for_update tbl n_fields else 0);
          coff = ROW_HEAD_SIZE + col_bitmap_ex_size (n_fields - virtual_gcol_cnt)
      in case upd_fields of
           None \<Rightarrow>
             (case insert_columns api h m tbl 0 0 c coff 0 of
                (h, Inl e) \<Rightarrow> (h, Inl e)
              | (h, Inr (c, coff, serial, virtual_gcol_cnt)) \<Rightarrow>
                  (h, Inr (finish_row coff (n_fields - virtual_gcol_cnt) c, coff, serial, [])))
         | Some fs \<Rightarrow>
             (case update_columns api h m tbl has_gcol fs 0 c coff 0 of
                (h, Inl e) \<Rightarrow> (h, Inl e)
              | (h, Inr (c, coff, serial, fs)) \<Rightarrow>
                  (h, Inr (finish_row coff (length fs) c, coff, serial, fs))))"

section \<open>Numbers, Cantian to MySQL\<close>

fun be_bytes :: "nat \<Rightarrow> int \<Rightarrow> byte list" where
  "be_bytes 0 v = []"
| "be_bytes (Suc n) v = be_bytes n (v div 256) @ [word_of_int (v mod 256)]"

text \<open>
  The bytes \<open>bit_cnvt_cantian_mysql\<close> stores: the Cantian bytes read with the most significant first and
  stored with the least significant first, in a machine integer of 1, 2, 4 or 8 bytes.
\<close>

definition bit_cnvt_cantian_mysql :: "column \<Rightarrow> mem \<Rightarrow> byte list \<Rightarrow> byte list" where
  "bit_cnvt_cantian_mysql col m bs =
     (let n = c_bytes_in_rec col; bits = bit_high col m; v = or bits (be_val (take n bs))
      in if n = 0 then []
         else if n = 1 then le_bytes 1 v
         else if n = 2 then le_bytes 2 v
         else if n \<le> 4 then le_bytes 4 v
         else if n \<le> 7 then le_bytes 8 v
         else le_bytes 8 (be_val (take 8 (drop (n - 8) bs))))"

definition dec4_of_bytes :: "byte list \<Rightarrow> dec4" where
  "dec4_of_bytes bs =
     (let head = uint (bs ! 0); n = head div 2
      in \<lparr>d4_sign = head mod 2, d4_ncells = n, d4_expn = le_sval [bs ! 1],
          d4_cells = map (\<lambda>i. le_val (take 2 (drop (2 + 2 * i) bs))) [0..<nat n]\<rparr>)"

definition decimal_cantian_to_mysql ::
    "('h, 'a) row_api_scheme \<Rightarrow> column \<Rightarrow> byte list \<Rightarrow> int + byte list" where
  "decimal_cantian_to_mysql api col bs =
     api_my_decimal2binary api (convert_dec4_to_mydec (api_decimal_max_str_length api) (dec4_of_bytes bs))
       (c_precision col) (c_decimals col)"

text \<open>The bytes stored at the current position of the MySQL record; \<open>c\<close> and \<open>ptr\<close> locate the Cantian data.\<close>

definition convert_numeric_to_mysql ::
    "('h, 'a) row_api_scheme \<Rightarrow> column \<Rightarrow> field_type \<Rightarrow> mem \<Rightarrow> mem \<Rightarrow> nat \<Rightarrow> conv_error + byte list" where
  "convert_numeric_to_mysql api col t m c ptr = (case t of
     MYSQL_TYPE_TINY \<Rightarrow> Inr (convert_numeric_datatype 1 (mem_read c ptr 4) (c_unsigned col))
   | MYSQL_TYPE_SHORT \<Rightarrow> Inr (convert_numeric_datatype 2 (mem_read c ptr 4) (c_unsigned col))
   | MYSQL_TYPE_INT24 \<Rightarrow> Inr (mem_read c ptr 3)
   | MYSQL_TYPE_LONG \<Rightarrow> Inr (convert_numeric_datatype 4 (mem_read c ptr 4) (c_unsigned col))
   | MYSQL_TYPE_FLOAT \<Rightarrow> Inr (api_double_to_float api (mem_read c ptr 8))
   | MYSQL_TYPE_DOUBLE \<Rightarrow> Inr (mem_read c ptr 8)
   | MYSQL_TYPE_BIT \<Rightarrow> Inr (bit_cnvt_cantian_mysql col m (mem_read c ptr (max 8 (c_bytes_in_rec col))))
   | MYSQL_TYPE_LONGLONG \<Rightarrow> Inr (convert_numeric_datatype 8 (mem_read c ptr 8) (c_unsigned col))
   | MYSQL_TYPE_NEWDECIMAL \<Rightarrow>
       (case decimal_cantian_to_mysql api col (mem_read c ptr 38) of Inl e \<Rightarrow> Inl Conv_assert | Inr bs \<Rightarrow> Inr bs)
   | _ \<Rightarrow> Inl Conv_assert)"

section \<open>Dates and times, Cantian to MySQL\<close>

definition MYSQL_TIME_WARN_TRUNCATED :: nat where "MYSQL_TIME_WARN_TRUNCATED = 1"
definition MYSQL_TIME_WARN_OUT_OF_RANGE :: nat where "MYSQL_TIME_WARN_OUT_OF_RANGE = 2"
definition MYSQL_TIME_WARN_INVALID_TIMESTAMP :: nat where "MYSQL_TIME_WARN_INVALID_TIMESTAMP = 32"

text \<open>
  The time value and the warnings; \<^const>\<open>None\<close> for the assertion on a date without month. A time
  value that is not set is \<^const>\<open>None\<close> in the inner option.
\<close>

definition ctc_datetime_with_no_zero_in_date_to_timeval ::
    "('h, 'a) row_api_scheme \<Rightarrow> mysql_time \<Rightarrow> ((int \<times> int) option \<times> nat) option" where
  "ctc_datetime_with_no_zero_in_date_to_timeval api ltime =
     (if mt_month ltime = 0
      then (if mt_year ltime \<noteq> 0 \<or> mt_day ltime \<noteq> 0 then None
            else if mt_hour ltime \<noteq> 0 \<or> mt_minute ltime \<noteq> 0 \<or> mt_second ltime \<noteq> 0 \<or> mt_second_part ltime \<noteq> 0
            then Some (None, MYSQL_TIME_WARN_TRUNCATED)
            else Some (Some (0, 0), 0))
      else let (sec, gap) = api_TIME_to_gmt_sec api ltime
           in if sec = 0 then Some (None, MYSQL_TIME_WARN_OUT_OF_RANGE)
              else Some (Some (sec, mt_second_part ltime), if gap then MYSQL_TIME_WARN_INVALID_TIMESTAMP else 0))"

definition ctc_my_timestamp_to_binary :: "int \<times> int \<Rightarrow> nat \<Rightarrow> byte list option" where
  "ctc_my_timestamp_to_binary tm dec =
     (if dec > DATETIME_MAX_DECIMALS \<or> snd tm smod 10 ^ (DATETIME_MAX_DECIMALS - dec) \<noteq> 0 then None
      else Some (be_bytes 4 (fst tm) @
        (if dec = 1 \<or> dec = 2 then le_bytes 1 (snd tm sdiv 10000)
         else if dec = 3 \<or> dec = 4 then be_bytes 2 (snd tm sdiv 100)
         else if dec = 5 \<or> dec = 6 then be_bytes 3 (snd tm) else [])))"

definition detail_time :: "date_detail \<Rightarrow> int \<Rightarrow> mysql_time" where
  "detail_time d part = \<lparr>mt_year = dd_year d, mt_month = dd_mon d, mt_day = dd_day d, mt_hour = dd_hour d,
     mt_minute = dd_min d, mt_second = dd_sec d, mt_second_part = part, mt_neg = False\<rparr>"

text \<open>\<open>blank\<close> is the content of the local \<open>date_detail\<close> before it is filled.\<close>

definition blank_detail :: date_detail where
  "blank_detail = \<lparr>dd_year = 0, dd_mon = 0, dd_day = 0, dd_hour = 0, dd_min = 0, dd_sec = 0, dd_millisec = 0,
     dd_microsec = 0, dd_nanosec = 0, dd_tz_offset = 0\<rparr>"

definition convert_datetime_to_mysql ::
    "('h, 'a) row_api_scheme \<Rightarrow> bool \<Rightarrow> column \<Rightarrow> field_type \<Rightarrow> mem \<Rightarrow> nat \<Rightarrow> conv_error + byte list" where
  "convert_datetime_to_mysql api read_only_in_ct col t c ptr =
     (if t = MYSQL_TYPE_DATE then Inr (mem_read c ptr (c_pack_length col))
      else if t = MYSQL_TYPE_TIME
      then Inr (cnvrt_time_decimal api (mem_read c ptr 8) DATETIME_MAX_DECIMALS (c_decimals col) (c_pack_length col))
      else if t = MYSQL_TYPE_DATETIME \<and> \<not> read_only_in_ct
      then Inr (cnvrt_datetime_decimal api (mem_read c ptr 8) DATETIME_MAX_DECIMALS (c_decimals col) (c_pack_length col))
      else case cm_decode_date (le_sval (mem_read c ptr 8)) blank_detail of
        None \<Rightarrow> Inl Conv_assert
      | Some d \<Rightarrow>
          if t = MYSQL_TYPE_DATETIME
          then Inr (take (c_pack_length col)
                 (pad8 (api_datetime_to_binary api (api_packed_of_datetime api (detail_time d 0)) (c_decimals col))))
          else if t = MYSQL_TYPE_YEAR
          then Inr (le_bytes 1 (if dd_year d = 0 then 0 else dd_year d - 1900))
          else if t = MYSQL_TYPE_TIMESTAMP
          then (case ctc_datetime_with_no_zero_in_date_to_timeval api
                       (detail_time d (dd_millisec d * MICROSECS_PER_MILLISEC + dd_microsec d)) of
                  Some (Some tm, 0) \<Rightarrow>
                    (case ctc_my_timestamp_to_binary tm (c_decimals col) of None \<Rightarrow> Inl Conv_assert | Some bs \<Rightarrow> Inr bs)
                | _ \<Rightarrow> Inl Conv_assert)
          else Inl Conv_assert)"

section \<open>Record, Cantian to MySQL\<close>

text \<open>The length bytes of a VARCHAR, and how many there are.\<close>

definition padding_variable_byte :: "column \<Rightarrow> field_type \<Rightarrow> nat \<Rightarrow> mem \<Rightarrow> nat \<Rightarrow> mem \<times> nat" where
  "padding_variable_byte col t field_len m ptr =
     (if t = MYSQL_TYPE_VARCHAR
      then (if c_length_bytes col = 1 then mem_write ptr (le_bytes 1 (int field_len)) m
            else mem_write ptr (le_bytes 2 (int field_len)) m, c_length_bytes col)
      else (m, 0))"

definition set_null_bit :: "column \<Rightarrow> mem \<Rightarrow> mem" where
  "set_null_bit col m = m(c_null_offset col := m (c_null_offset col) OR c_null_bit col)"

text \<open>
  What a read depends on beside the row: an index record or a whole one, Cantian's system tables, a
  temporary table, the columns the statement does not read, and in single-process mode the offsets and
  lengths of the columns the engine has already parsed.
\<close>

record read_env =
  re_index_only :: bool
  re_read_only_in_ct :: bool
  re_tmp_table :: bool
  re_skip :: "column \<Rightarrow> bool"
  re_single :: "(nat \<Rightarrow> nat \<times> nat) option"

definition ctc_field_type_is_lob :: "read_env \<Rightarrow> field_cnvrt_aux \<Rightarrow> column \<Rightarrow> bool" where
  "ctc_field_type_is_lob env aux col \<longleftrightarrow> \<not> re_index_only env \<and>
     (aux_mysql_field_type aux = MYSQL_TYPE_BLOB \<or> aux_mysql_field_type aux = MYSQL_TYPE_JSON \<or>
      (aux_mysql_field_type aux = MYSQL_TYPE_VARCHAR \<and> VARCHAR_AS_BLOB (c_row_pack_length col) \<and> \<not> re_read_only_in_ct env))"

text \<open>The length MySQL keeps before the data: of a large object the one in its locator.\<close>

definition mysql_data_len :: "read_env \<Rightarrow> field_cnvrt_aux \<Rightarrow> column \<Rightarrow> mem \<Rightarrow> nat \<Rightarrow> nat \<Rightarrow> nat" where
  "mysql_data_len env aux col c coff field_len =
     (if ctc_field_type_is_lob env aux col then lob_size (mem_read c coff 4) else field_len)"

text \<open>
  Both ways to find a column's data: \<^const>\<open>None\<close> when the column is null, otherwise the data length, the
  aligned length and the two positions.
\<close>

definition ctc_update_offset_single ::
    "read_env \<Rightarrow> nat \<times> nat \<Rightarrow> column \<Rightarrow> field_cnvrt_aux \<Rightarrow> byte \<Rightarrow> mem \<Rightarrow> mem \<Rightarrow> nat \<Rightarrow>
     conv_error + mem \<times> (nat \<times> nat \<times> nat \<times> nat) option" where
  "ctc_update_offset_single env parsed col aux cls c m moff =
     (case parsed of (coff, field_len) \<Rightarrow>
        if cls = CANTIAN_COL_BITS_NULL then Inr (set_null_bit col m, None)
        else if cls = CANTIAN_COL_BITS_4 \<or> cls = CANTIAN_COL_BITS_8 then Inr (m, Some (field_len, 0, coff, moff))
        else if cls = CANTIAN_COL_BITS_VAR
        then let (m, k) = padding_variable_byte col (aux_mysql_field_type aux) (mysql_data_len env aux col c coff field_len) m moff
             in Inr (m, Some (field_len, 0, coff, moff + k))
        else Inl Conv_assert)"

definition parse_column ::
    "read_env \<Rightarrow> column \<Rightarrow> field_cnvrt_aux \<Rightarrow> byte \<Rightarrow> mem \<Rightarrow> nat \<Rightarrow> mem \<Rightarrow> nat \<Rightarrow>
     conv_error + mem \<times> (nat \<times> nat \<times> nat \<times> nat) option" where
  "parse_column env col aux cls c coff m moff =
     (if cls = CANTIAN_COL_BITS_NULL then Inr (set_null_bit col m, None)
      else if cls = CANTIAN_COL_BITS_4 then Inr (m, Some (4, 4, coff, moff))
      else if cls = CANTIAN_COL_BITS_8 then Inr (m, Some (8, 8, coff, moff))
      else if cls = CANTIAN_COL_BITS_VAR
      then let (field_len, aligned, coff) =
                 (if \<not> re_tmp_table env \<and> re_index_only env \<and> aux_mysql_field_type aux = MYSQL_TYPE_NEWDECIMAL
                  then let n = nat (cm_dec4_stor_sz (dec4_of_bytes (mem_read c coff 38))) in (n, ROUND_UP n 4, coff)
                  else let n = nat (le_val (mem_read c coff 2)) in (n, ROUND_UP (n + 2) 4 - 2, coff + 2));
               (m, k) = padding_variable_byte col (aux_mysql_field_type aux) (mysql_data_len env aux col c coff field_len) m moff
           in Inr (m, Some (field_len, aligned, coff, moff + k))
      else Inl Conv_assert)"

text \<open>
  The pointer to the value of a large object, stored in the MySQL record; a JSON value is also
  parsed, with an assertion that this succeeds.
\<close>

definition load_blob ::
    "('h, 'a) row_api_scheme \<Rightarrow> 'h \<Rightarrow> column \<Rightarrow> mem \<Rightarrow> nat \<Rightarrow> mem \<Rightarrow> nat \<Rightarrow> conv_error + mem" where
  "load_blob api h col c coff m moff =
     (case convert_blob_to_mysql api h c coff of
        Blob_untouched \<Rightarrow> Inr m
      | Blob_data bs \<Rightarrow>
          if c_type col = MYSQL_TYPE_JSON \<and> api_json_error api col (Some bs) then Inl Conv_assert
          else Inr (mem_write moff (api_buffer_addr api bs) m)
      | Blob_null \<Rightarrow>
          if c_type col = MYSQL_TYPE_JSON \<and> api_json_error api col None then Inl Conv_assert
          else Inr (mem_write moff (replicate 8 0) m))"

text \<open>A string kept as a large object: the data replaces the pointer just stored; the length is cut to 16 bits.\<close>

definition load_long_string ::
    "('h, 'a) row_api_scheme \<Rightarrow> 'h \<Rightarrow> column \<Rightarrow> mem \<Rightarrow> nat \<Rightarrow> mem \<Rightarrow> nat \<Rightarrow> conv_error + mem" where
  "load_long_string api h col c coff m moff =
     (case load_blob api h col c coff m moff of
        Inl e \<Rightarrow> Inl e
      | Inr m \<Rightarrow>
          let src_len = lob_size (mem_read c coff 4) mod 2 ^ 16
          in if src_len = 0 then Inl Conv_assert
             else case convert_blob_to_mysql api h c coff of
                    Blob_data bs \<Rightarrow> Inr (mem_write moff (take src_len bs) m)
                  | _ \<Rightarrow> Inl Conv_fault)"

definition pad_char_column :: "column \<Rightarrow> field_cnvrt_aux \<Rightarrow> nat \<Rightarrow> mem \<Rightarrow> nat \<Rightarrow> mem" where
  "pad_char_column col aux field_len m moff =
     (if aux_mysql_field_type aux = MYSQL_TYPE_STRING \<and> fd_real_type (c_desc col) = MYSQL_TYPE_STRING
         \<and> c_row_pack_length col > field_len
      then mem_write (moff + field_len) (replicate (c_row_pack_length col - field_len) (c_pad_char col)) m
      else m)"

definition copy_column_data_to_mysql ::
    "('h, 'a) row_api_scheme \<Rightarrow> 'h \<Rightarrow> read_env \<Rightarrow> column \<Rightarrow> field_cnvrt_aux \<Rightarrow>
     mem \<Rightarrow> nat \<Rightarrow> nat \<Rightarrow> mem \<Rightarrow> nat \<Rightarrow> conv_error + mem" where
  "copy_column_data_to_mysql api h env col aux c coff field_len m moff =
     (if re_skip env col then Inr m
      else case aux_sql_data_type aux of
        NUMERIC_DATA \<Rightarrow>
          (case convert_numeric_to_mysql api col (aux_mysql_field_type aux) m c coff of
             Inl e \<Rightarrow> Inl e | Inr bs \<Rightarrow> Inr (mem_write moff bs m))
      | DATETIME_DATA \<Rightarrow>
          (case convert_datetime_to_mysql api (re_read_only_in_ct env) col (aux_mysql_field_type aux) c coff of
             Inl e \<Rightarrow> Inl e | Inr bs \<Rightarrow> Inr (mem_write moff bs m))
      | STRING_DATA \<Rightarrow>
          (case (if \<not> VARCHAR_AS_BLOB (c_row_pack_length col) \<or> re_read_only_in_ct env
                 then Inr (mem_write moff (mem_read c coff field_len) m)
                 else load_long_string api h col c coff m moff) of
             Inl e \<Rightarrow> Inl e | Inr m \<Rightarrow> Inr (pad_char_column col aux field_len m moff))
      | LOB_DATA \<Rightarrow>
          (if re_index_only env
           then Inr (if malloc_ok api field_len then mem_write moff (api_buffer_addr api (mem_read c coff field_len)) m else m)
           else load_blob api h col c coff m moff)
      | UNKNOW_DATA \<Rightarrow> Inl Conv_assert)"

definition convert_cantian_field_to_mysql_field ::
    "('h, 'a) row_api_scheme \<Rightarrow> 'h \<Rightarrow> read_env \<Rightarrow> nat \<Rightarrow> column \<Rightarrow> byte \<Rightarrow> mem \<Rightarrow> nat \<Rightarrow> mem \<Rightarrow>
     conv_error + mem \<times> nat" where
  "convert_cantian_field_to_mysql_field api h env col_id col cls c coff m =
     (case column_aux (api_type_no api) col of
        None \<Rightarrow> Inl Conv_assert
      | Some aux \<Rightarrow>
         (case (case re_single env of
                  Some parsed \<Rightarrow> ctc_update_offset_single env (parsed col_id) col aux cls c m (c_offset col)
                | None \<Rightarrow> parse_column env col aux cls c coff m (c_offset col)) of
            Inl e \<Rightarrow> Inl e
          | Inr (m, None) \<Rightarrow> Inr (m, coff)
          | Inr (m, Some (field_len, aligned, coff, moff)) \<Rightarrow>
             (case copy_column_data_to_mysql api h env col aux c coff field_len m moff of
                Inl e \<Rightarrow> Inl e | Inr m \<Rightarrow> Inr (m, coff + aligned))))"

fun read_columns ::
    "('h, 'a) row_api_scheme \<Rightarrow> 'h \<Rightarrow> read_env \<Rightarrow> nat \<Rightarrow> column list \<Rightarrow> nat \<Rightarrow> nat \<Rightarrow> mem \<Rightarrow> nat \<Rightarrow>
     mem \<Rightarrow> conv_error + mem" where
  "read_columns api h env max_col_idx [] column_id virtual_gcol_cnt c coff m = Inr m"
| "read_columns api h env max_col_idx (col # cols) column_id virtual_gcol_cnt c coff m =
     (if column_id > max_col_idx then Inr m
      else if c_virtual_gcol col
      then read_columns api h env max_col_idx cols (column_id + 1) (virtual_gcol_cnt + 1) c coff m
      else let col_id = column_id - virtual_gcol_cnt;
               cls = (if col_id \<ge> get_column_count c then CANTIAN_COL_BITS_NULL else row_get_column_bits2 c col_id)
           in case convert_cantian_field_to_mysql_field api h env col_id col cls c coff m of
                Inl e \<Rightarrow> Inl e
              | Inr (m, coff) \<Rightarrow> read_columns api h env max_col_idx cols (column_id + 1) virtual_gcol_cnt c coff m)"

text \<open>The flags \<open>is_migr\<close> and \<open>is_csf\<close> are bits 12 and 15 of the second half word of the row head.\<close>

definition row_flag :: "nat \<Rightarrow> mem \<Rightarrow> bool" where
  "row_flag i c \<longleftrightarrow> bit (le_val (mem_read c 2 2)) (10 + i)"

definition cantian_record_to_mysql_record ::
    "('h, 'a) row_api_scheme \<Rightarrow> 'h \<Rightarrow> read_env \<Rightarrow> column list \<Rightarrow> nat \<Rightarrow> nat \<Rightarrow> mem \<Rightarrow> mem \<Rightarrow> conv_error + mem" where
  "cantian_record_to_mysql_record api h env tbl null_bytes max_col_idx c m =
     (if row_flag 5 c then Inl Conv_assert
      else if get_column_count c = 0 then Inl Conv_assert
      else let coff = (if re_single env = None
                       then ROW_HEAD_SIZE + col_bitmap_ex_size (get_column_count c) + (if row_flag 2 c then 8 else 0) else 0);
               m = mem_write 0 (replicate null_bytes 0) m
           in read_columns api h (env\<lparr>re_index_only := False\<rparr>) max_col_idx tbl 0 0 c coff m)"

text \<open>
  A record of an index holds the key columns in their order, and the loop ends behind the column
  with the highest number that is asked for.
\<close>

fun read_key_parts ::
    "('h, 'a) row_api_scheme \<Rightarrow> 'h \<Rightarrow> read_env \<Rightarrow> nat \<Rightarrow> column list \<Rightarrow> nat \<Rightarrow> mem \<Rightarrow> nat \<Rightarrow> mem \<Rightarrow> conv_error + mem" where
  "read_key_parts api h env max_col_idx [] key_id c coff m = Inr m"
| "read_key_parts api h env max_col_idx (col # cols) key_id c coff m =
     (case convert_cantian_field_to_mysql_field api h env key_id col (row_get_column_bits2 c key_id) c coff m of
        Inl e \<Rightarrow> Inl e
      | Inr (m, coff) \<Rightarrow>
          if c_index col = max_col_idx then Inr m
          else read_key_parts api h env max_col_idx cols (key_id + 1) c coff m)"

definition cantian_index_record_to_mysql_record ::
    "('h, 'a) row_api_scheme \<Rightarrow> 'h \<Rightarrow> read_env \<Rightarrow> column list \<Rightarrow> nat \<Rightarrow> nat \<Rightarrow> mem \<Rightarrow> mem \<Rightarrow> conv_error + mem" where
  "cantian_index_record_to_mysql_record api h env key_parts null_bytes max_col_idx c m =
     (let coff = (if re_single env = None then ROW_HEAD_SIZE + col_bitmap_ex_size (get_column_count c) else 0)
      in read_key_parts api h (env\<lparr>re_index_only := True\<rparr>) max_col_idx key_parts 0 c coff
           (mem_write 0 (replicate null_bytes 0) m))"

section \<open>The entry of a column\<close>

definition class_of :: "field_type \<Rightarrow> byte" where
  "class_of t = (if t \<in> {MYSQL_TYPE_TINY, MYSQL_TYPE_SHORT, MYSQL_TYPE_LONG, MYSQL_TYPE_INT24} then CANTIAN_COL_BITS_4
     else if t \<in> {MYSQL_TYPE_FLOAT, MYSQL_TYPE_DOUBLE, MYSQL_TYPE_TIMESTAMP, MYSQL_TYPE_LONGLONG, MYSQL_TYPE_DATE,
                  MYSQL_TYPE_TIME, MYSQL_TYPE_DATETIME, MYSQL_TYPE_YEAR, MYSQL_TYPE_BIT} then CANTIAN_COL_BITS_8
     else if t \<in> {MYSQL_TYPE_VARCHAR, MYSQL_TYPE_JSON, MYSQL_TYPE_NEWDECIMAL, MYSQL_TYPE_TINY_BLOB,
                  MYSQL_TYPE_MEDIUM_BLOB, MYSQL_TYPE_LONG_BLOB, MYSQL_TYPE_BLOB, MYSQL_TYPE_STRING} then CANTIAN_COL_BITS_VAR
     else CANTIAN_COL_BITS_NULL)"

definition family_of :: "field_type \<Rightarrow> sql_data_type" where
  "family_of t = (if t \<in> {MYSQL_TYPE_TINY, MYSQL_TYPE_SHORT, MYSQL_TYPE_LONG, MYSQL_TYPE_INT24, MYSQL_TYPE_FLOAT,
                  MYSQL_TYPE_DOUBLE, MYSQL_TYPE_LONGLONG, MYSQL_TYPE_BIT, MYSQL_TYPE_NEWDECIMAL} then NUMERIC_DATA
     else if t \<in> {MYSQL_TYPE_TIMESTAMP, MYSQL_TYPE_DATE, MYSQL_TYPE_TIME, MYSQL_TYPE_DATETIME, MYSQL_TYPE_YEAR}
     then DATETIME_DATA
     else if t \<in> {MYSQL_TYPE_VARCHAR, MYSQL_TYPE_STRING} then STRING_DATA
     else if t \<in> {MYSQL_TYPE_JSON, MYSQL_TYPE_TINY_BLOB, MYSQL_TYPE_MEDIUM_BLOB, MYSQL_TYPE_LONG_BLOB, MYSQL_TYPE_BLOB}
     then LOB_DATA else UNKNOW_DATA)"

lemma aux_array_families:
  "list_all (\<lambda>a. aux_cantian_map_type a = class_of (aux_mysql_field_type a) \<and>
     aux_sql_data_type a = family_of (aux_mysql_field_type a)) g_field_cnvrt_aux_array"
  by (simp add: g_field_cnvrt_aux_array_def aux_entry_def class_of_def family_of_def)

lemma get_idx_range:
  assumes "mysql_enum num" "get_idx_for_field_convert num t \<noteq> -1"
  shows "nat (get_idx_for_field_convert num t) < length g_field_cnvrt_aux_array"
  using assms(2) unfolding mysql_enum_eq [OF assms(1)]
  by (cases t) (simp_all add: get_idx_for_field_convert_def mysql_type_no_def g_field_cnvrt_aux_array_def)

lemma type_no_range:
  assumes "mysql_enum num" "num t < num MYSQL_TYPE_INVALID"
  shows "nat (num t) < length g_field_cnvrt_aux_array"
  using assms(2) unfolding mysql_enum_eq [OF assms(1)]
  by (cases t) (simp_all add: mysql_type_no_def g_field_cnvrt_aux_array_def)

lemma column_aux_layout:
  assumes "mysql_enum num" "column_aux num col = Some aux"
  shows "aux_cantian_map_type aux = class_of (aux_mysql_field_type aux) \<and>
    aux_sql_data_type aux = family_of (aux_mysql_field_type aux)"
proof -
  obtain arr i where l: "get_auxiliary_for_field_convert num g_field_cnvrt_aux_array (c_desc col) (c_type col) = (arr, Some i)"
    and a: "aux = arr ! i"
    using assms(2) by (auto simp: column_aux_def split: prod.splits option.splits)
  have i: "i < length g_field_cnvrt_aux_array"
    using l get_idx_range [OF assms(1)] type_no_range [OF assms(1)]
    by (auto simp: get_auxiliary_for_field_convert_def Let_def split: if_splits)
  have "list_all2 same_layout g_field_cnvrt_aux_array arr"
    using lookup_update [OF l] same_layout_update same_layout_refl by auto
  then have "same_layout (g_field_cnvrt_aux_array ! i) aux" using i a by (simp add: list_all2_nthD)
  moreover have "aux_cantian_map_type (g_field_cnvrt_aux_array ! i) = class_of (aux_mysql_field_type (g_field_cnvrt_aux_array ! i)) \<and>
     aux_sql_data_type (g_field_cnvrt_aux_array ! i) = family_of (aux_mysql_field_type (g_field_cnvrt_aux_array ! i))"
    using aux_array_families i by (simp add: list_all_length)
  ultimately show ?thesis unfolding same_layout_def by metis
qed

section \<open>Integers and years\<close>

lemma numeric_round_trip:
  assumes "length bs = k" "k \<le> n" "0 < k"
  shows "convert_numeric_datatype k (convert_numeric_datatype n bs u) u = bs"
proof -
  let ?v = "if u then le_val bs else le_sval bs"
  let ?w = "if u then le_val (le_bytes n ?v) else le_sval (le_bytes n ?v)"
  have "?v mod 256 ^ k = le_val bs"
    using assms(1) le_val_range [of bs] le_sval_mod [of bs] by auto
  moreover have "?w mod 256 ^ n = ?v mod 256 ^ n"
    using le_sval_mod [of "le_bytes n ?v"] le_val_le_bytes [of n ?v] by auto
  ultimately show ?thesis
    unfolding convert_numeric_datatype_def by (intro widen_narrow [OF assms(1,2)])
qed

lemma length_convert_numeric [simp]: "length (convert_numeric_datatype n bs u) = n"
  by (simp add: convert_numeric_datatype_def)

text \<open>What is used of MySQL's functions.\<close>

definition api_exact :: "('h, 'a) row_api_scheme \<Rightarrow> bool" where
  "api_exact api \<longleftrightarrow> mysql_enum (api_type_no api) \<and>
     (\<forall>bs. length bs = 3 \<longrightarrow> api_uint3korr api bs = le_val bs \<and> api_sint3korr api bs = le_sval bs) \<and>
     (\<forall>bs. length bs = 4 \<longrightarrow> length (api_float_to_double api bs) = 8 \<and>
        api_double_to_float api (api_float_to_double api bs) = bs)"

lemma int24_round_trip:
  assumes "length bs = 3"
  shows "take 3 (le_bytes 4 (if u then le_val bs else le_sval bs)) = bs"
proof -
  have m: "(if u then le_val bs else le_sval bs) mod 256 ^ 3 = le_val bs"
    using assms le_val_range [of bs] le_sval_mod [of bs] by auto
  have "take 3 (le_bytes 4 (if u then le_val bs else le_sval bs)) = le_bytes 3 (if u then le_val bs else le_sval bs)"
    by (rule take_le_bytes) simp
  also have "\<dots> = le_bytes 3 (le_val bs)" using m by (intro le_bytes_cong) (metis mod_mod_trivial)
  finally show ?thesis using assms by (metis le_bytes_le_val)
qed

text \<open>A YEAR byte goes through \<open>cm_encode_date\<close> and comes back.\<close>

lemma year_detail:
  "assign_mysql_date_detail MYSQL_TYPE_YEAR (decode_mysql_year_type b) =
     (if b = 0 then blank_detail
      else blank_detail\<lparr>dd_year := uint b + 1900, dd_mon := 1, dd_day := 1\<rparr>)"
proof -
  have b: "uint b < 256" "0 \<le> uint b" using uint_bounded [of b] by simp_all
  then have "uint b + 1900 \<noteq> 0" by linarith
  with b show ?thesis
    by (cases "b = 0")
      (simp_all add: assign_mysql_date_detail_def decode_mysql_year_type_def blank_detail_def Let_def u16_id u8_id)
qed

lemma le_sval_le_bytes:
  assumes "- (256 ^ n) \<le> 2 * v" "2 * v < 256 ^ n"
  shows "le_sval (le_bytes n v) = v"
proof (cases "0 \<le> v")
  case True
  then have "v mod 256 ^ n = v" using assms(2) by simp
  then show ?thesis using assms(2) by (simp add: le_sval_def le_val_le_bytes)
next
  case False
  have "v mod 256 ^ n = v + 256 ^ n"
    using False assms(1) by (intro int_mod_pos_eq [where q = "-1"]) simp_all
  then show ?thesis using assms(1) by (simp add: le_sval_def le_val_le_bytes)
qed

lemma year_round_trip:
  "\<exists>date d. cm_encode_date (assign_mysql_date_detail MYSQL_TYPE_YEAR (decode_mysql_year_type b)) = Some date \<and>
     cm_decode_date (le_sval (le_bytes 8 date)) blank_detail = Some d \<and>
     le_bytes 1 (if dd_year d = 0 then 0 else dd_year d - 1900) = [b]"
proof (cases "b = 0")
  case True
  have "le_sval (le_bytes 8 CM_ALL_ZERO_DATETIME) = CM_ALL_ZERO_DATETIME"
    by (rule le_sval_le_bytes) simp_all
  then show ?thesis using True
    by (simp add: year_detail cm_encode_date_def cm_decode_date_def check_zero_date_def blank_detail_def
        cm_set_all_zero_detail_def del: date_consts)
next
  case False
  obtain y where y: "uint b = y" "0 \<le> y" "y < 256" using uint_bounded [of b] by simp
  let ?d = "blank_detail\<lparr>dd_year := y + 1900, dd_mon := 1, dd_day := 1\<rparr>"
  have c: "civil (dd_year ?d) (dd_mon ?d) (dd_day ?d)" "valid_time ?d"
    using y by (simp_all add: civil_def blank_detail_def valid_time_def CM_MONTH_DAYS_def g_cantian_month_days_def)
  define n where "n = dby (y + 1900) + month_offset (y + 1900) 1 + 1 - 730120"
  have n: "-730120 \<le> n" "n \<le> 4000000"
    using dby_bounds [of "y + 1900"] y by (simp_all add: n_def month_offset_def)
  have m: "day_micros ?d = 0" by (simp add: day_micros_def blank_detail_def)
  have e: "cm_encode_date ?d = Some (n * 86400000000)"
    using cm_encode_date_closed [OF c] m by (simp add: n_def blank_detail_def)
  have s: "le_sval (le_bytes 8 (n * 86400000000)) = n * 86400000000"
    by (rule le_sval_le_bytes) (use n in simp_all)
  have d: "cm_decode_date (n * 86400000000) blank_detail = Some ?d"
    using cm_decode_encoded [OF c, of blank_detail] m by (simp add: n_def blank_detail_def)
  have "word_of_int y = b" using y(1) word_of_int_uint by blast
  then have l: "le_bytes 1 (if dd_year ?d = 0 then 0 else dd_year ?d - 1900) = [b]"
    using y by simp
  have "assign_mysql_date_detail MYSQL_TYPE_YEAR (decode_mysql_year_type b) = ?d"
    using False y(1) by (simp add: year_detail)
  then show ?thesis using e d s l by auto
qed

section \<open>The cell of a column\<close>

text \<open>
  What the row holds for a column: its class, and the bytes at its position, with the length
  bytes of a variable column; and the room the column takes.
\<close>

definition column_len :: "column \<Rightarrow> field_type \<Rightarrow> mem \<Rightarrow> nat" where
  "column_len col t m = fst (calculate_variable_len col t m (c_offset col))"

definition column_data :: "('h, 'a) row_api_scheme \<Rightarrow> column \<Rightarrow> field_type \<Rightarrow> mem \<Rightarrow> byte list" where
  "column_data api col t m = (case family_of t of
     NUMERIC_DATA \<Rightarrow> (case convert_numeric_to_cantian api col t m (c_offset col) 0 of Inr (bs, _) \<Rightarrow> bs | Inl _ \<Rightarrow> [])
   | DATETIME_DATA \<Rightarrow> (case convert_datetime_to_cantian api col t m (c_offset col) of Inr bs \<Rightarrow> bs | Inl _ \<Rightarrow> [])
   | _ \<Rightarrow> mem_read m (c_offset col + snd (calculate_variable_len col t m (c_offset col))) (column_len col t m))"

definition cell :: "('h, 'a) row_api_scheme \<Rightarrow> column \<Rightarrow> field_type \<Rightarrow> mem \<Rightarrow> byte \<times> byte list" where
  "cell api col t m =
     (if is_null col m then (CANTIAN_COL_BITS_NULL, [])
      else (class_of t, (if class_of t = CANTIAN_COL_BITS_VAR then le_bytes 2 (int (column_len col t m)) else []) @
                        column_data api col t m))"

definition cell_room :: "byte \<times> byte list \<Rightarrow> nat" where
  "cell_room cl = (if fst cl = CANTIAN_COL_BITS_VAR then ROUND_UP (length (snd cl)) 4 else length (snd cl))"

text \<open>The MySQL bytes of a value.\<close>

definition value_len :: "column \<Rightarrow> field_type \<Rightarrow> mem \<Rightarrow> nat" where
  "value_len col t m = (case t of
     MYSQL_TYPE_TINY \<Rightarrow> 1 | MYSQL_TYPE_SHORT \<Rightarrow> 2 | MYSQL_TYPE_INT24 \<Rightarrow> 3 | MYSQL_TYPE_LONG \<Rightarrow> 4 | MYSQL_TYPE_FLOAT \<Rightarrow> 4
   | MYSQL_TYPE_DOUBLE \<Rightarrow> 8 | MYSQL_TYPE_LONGLONG \<Rightarrow> 8 | MYSQL_TYPE_YEAR \<Rightarrow> 1 | MYSQL_TYPE_DATE \<Rightarrow> c_pack_length col
   | MYSQL_TYPE_VARCHAR \<Rightarrow> c_length_bytes col + column_len col t m
   | MYSQL_TYPE_STRING \<Rightarrow> c_row_pack_length col | _ \<Rightarrow> 0)"

text \<open>
  The columns of which this theory shows that they are read back as they were written: integers, floats,
  dates, years and strings kept in the row. \<open>t\<close> is the type of the column's entry, which for ENUM
  and SET columns is an integer type.
\<close>

definition exact_type :: "column \<Rightarrow> field_type \<Rightarrow> bool" where
  "exact_type col t = (case t of
     MYSQL_TYPE_TINY \<Rightarrow> True | MYSQL_TYPE_SHORT \<Rightarrow> True | MYSQL_TYPE_INT24 \<Rightarrow> True | MYSQL_TYPE_LONG \<Rightarrow> True
   | MYSQL_TYPE_FLOAT \<Rightarrow> True | MYSQL_TYPE_DOUBLE \<Rightarrow> True | MYSQL_TYPE_LONGLONG \<Rightarrow> True | MYSQL_TYPE_YEAR \<Rightarrow> True
   | MYSQL_TYPE_DATE \<Rightarrow> c_pack_length col \<le> 8
   | MYSQL_TYPE_VARCHAR \<Rightarrow> c_length_bytes col \<in> {1, 2} \<and> c_row_pack_length col \<le> 8000
   | MYSQL_TYPE_STRING \<Rightarrow> fd_real_type (c_desc col) = MYSQL_TYPE_STRING \<and> c_row_pack_length col \<le> 8000
   | _ \<Rightarrow> False)"

definition exact_column :: "('h, 'a) row_api_scheme \<Rightarrow> column \<Rightarrow> field_type \<Rightarrow> bool" where
  "exact_column api col t \<longleftrightarrow> (\<exists>aux. column_aux (api_type_no api) col = Some aux \<and> aux_mysql_field_type aux = t) \<and>
     exact_type col t \<and> c_type col \<noteq> MYSQL_TYPE_NEWDECIMAL"

lemma trim_pad_le: "trim_pad m p pad n \<le> n"
  by (induction n) auto

lemma trim_pad_pad: "trim_pad m p pad n \<le> i \<Longrightarrow> i < n \<Longrightarrow> m (p + i) = pad"
proof (induction n)
  case (Suc n)
  then show ?case by (cases "i = n") (auto split: if_splits)
qed simp

lemma column_len_16: "exact_type col t \<Longrightarrow> class_of t = CANTIAN_COL_BITS_VAR \<Longrightarrow> column_len col t m < 65536"
proof -
  assume a: "exact_type col t" "class_of t = CANTIAN_COL_BITS_VAR"
  have "uint (m (c_offset col)) < 256" using uint_bounded [of "m (c_offset col)"] by simp
  then have u: "unat (m (c_offset col)) < 65536" unfolding unat_eq_nat_uint by linarith
  have l: "nat (le_val (mem_read m (c_offset col) 2)) < 65536"
    using le_val_range [of "mem_read m (c_offset col) 2"] by simp linarith
  have "t = MYSQL_TYPE_VARCHAR \<or> t = MYSQL_TYPE_STRING"
    using a by (cases t) (auto simp: exact_type_def class_of_def col_bits_defs)
  then show ?thesis
  proof
    assume t: "t = MYSQL_TYPE_STRING"
    then have "c_row_pack_length col \<le> 8000" using a by (simp add: exact_type_def)
    then show ?thesis
      using trim_pad_le [of m "c_offset col" "c_pad_char col" "c_row_pack_length col"] t
      by (simp add: column_len_def calculate_variable_len_def)
  next
    assume "t = MYSQL_TYPE_VARCHAR"
    then show ?thesis using u l by (simp add: column_len_def calculate_variable_len_def)
  qed
qed

lemma le_val_len: "x < 65536 \<Longrightarrow> nat (le_val (le_bytes 2 (int x))) = x"
  by (simp add: le_val_le_bytes)

lemma exact_family:
  assumes "exact_type col t"
  shows "family_of t = NUMERIC_DATA \<and> class_of t \<in> {CANTIAN_COL_BITS_4, CANTIAN_COL_BITS_8} \<or>
    family_of t = DATETIME_DATA \<and> class_of t = CANTIAN_COL_BITS_8 \<or>
    family_of t = STRING_DATA \<and> class_of t = CANTIAN_COL_BITS_VAR"
  using assms by (cases t) (simp_all add: exact_type_def family_of_def class_of_def)

text \<open>The numeric and the date and time conversions succeed, with data of the length of the class.\<close>

lemma numeric_data:
  assumes "api_exact api" "exact_type col t" "family_of t = NUMERIC_DATA"
  shows "convert_numeric_to_cantian api col t m (c_offset col) len = Inr (column_data api col t m, len) \<and>
    length (column_data api col t m) = (if class_of t = CANTIAN_COL_BITS_4 then 4 else 8)"
  using assms by (cases t) (simp_all add: exact_type_def column_data_def family_of_def class_of_def
      convert_numeric_to_cantian_def api_exact_def col_bits_defs)

lemma datetime_data:
  assumes "exact_type col t" "family_of t = DATETIME_DATA"
  shows "convert_datetime_to_cantian api col t m (c_offset col) = Inr (column_data api col t m) \<and>
    length (column_data api col t m) = 8"
proof -
  consider "t = MYSQL_TYPE_DATE" | "t = MYSQL_TYPE_YEAR"
    using assms by (cases t) (simp_all add: exact_type_def family_of_def)
  then show ?thesis
  proof cases
    case 1
    then show ?thesis using assms by (simp add: column_data_def family_of_def convert_datetime_to_cantian_def exact_type_def)
  next
    case 2
    obtain date where "cm_encode_date (assign_mysql_date_detail MYSQL_TYPE_YEAR (decode_mysql_year_type (m (c_offset col)))) = Some date"
      using year_round_trip by blast
    then show ?thesis using 2
      by (simp add: column_data_def family_of_def convert_datetime_to_cantian_def decode_mysql_datetime_def)
  qed
qed

lemma string_type:
  assumes "exact_type col t" "family_of t = STRING_DATA"
  shows "c_row_pack_length col \<le> 8000 \<and> (t = MYSQL_TYPE_VARCHAR \<or> t = MYSQL_TYPE_STRING)"
  using assms by (cases t) (simp_all add: exact_type_def family_of_def)

lemma class_distinct [simp]:
  "CANTIAN_COL_BITS_4 \<noteq> CANTIAN_COL_BITS_8" "CANTIAN_COL_BITS_8 \<noteq> CANTIAN_COL_BITS_4"
  "CANTIAN_COL_BITS_4 \<noteq> CANTIAN_COL_BITS_VAR" "CANTIAN_COL_BITS_VAR \<noteq> CANTIAN_COL_BITS_4"
  "CANTIAN_COL_BITS_8 \<noteq> CANTIAN_COL_BITS_VAR" "CANTIAN_COL_BITS_VAR \<noteq> CANTIAN_COL_BITS_8"
  "CANTIAN_COL_BITS_NULL \<noteq> CANTIAN_COL_BITS_4" "CANTIAN_COL_BITS_NULL \<noteq> CANTIAN_COL_BITS_8"
  "CANTIAN_COL_BITS_NULL \<noteq> CANTIAN_COL_BITS_VAR" "CANTIAN_COL_BITS_4 \<noteq> CANTIAN_COL_BITS_NULL"
  "CANTIAN_COL_BITS_8 \<noteq> CANTIAN_COL_BITS_NULL" "CANTIAN_COL_BITS_VAR \<noteq> CANTIAN_COL_BITS_NULL"
  by (simp_all add: col_bits_defs)

lemma round_up_le: "n \<le> ROUND_UP n 4"
proof -
  define q r where "q = n div 4" and "r = n mod 4"
  have "n = 4 * q + r" "r < 4" by (simp_all add: q_def r_def)
  then show ?thesis unfolding ROUND_UP_def q_def [symmetric] r_def [symmetric] by simp
qed

text \<open>A column that is not null and not virtual leaves its cell in the row.\<close>

lemma write_column_cell:
  assumes "api_exact api" "exact_column api col t"
  shows "\<exists>serial'. write_column api h col m bitpos c coff serial =
    (h, Inr (row_set_column_bits2 (mem_write coff (snd (cell api col t m)) c) (fst (cell api col t m)) bitpos,
             coff + cell_room (cell api col t m), serial'))"
proof (cases "is_null col m")
  case True
  then show ?thesis by (simp add: write_column_def cell_def cell_room_def CANTIAN_COL_BITS_NULL_def CANTIAN_COL_BITS_VAR_def)
next
  case False
  obtain aux where a: "column_aux (api_type_no api) col = Some aux" "aux_mysql_field_type aux = t"
    and ex: "exact_type col t" "c_type col \<noteq> MYSQL_TYPE_NEWDECIMAL"
    using assms(2) by (auto simp: exact_column_def)
  have l: "aux_cantian_map_type aux = class_of t" "aux_sql_data_type aux = family_of t"
    using column_aux_layout [OF _ a(1)] assms(1) a(2) by (auto simp: api_exact_def)
  note w = write_column_def get_map_and_field_len_def convert_data_from_mysql_to_cantian_def a l cell_def cell_room_def
    Let_def False ex
  from exact_family [OF ex(1)] show ?thesis
  proof (elim disjE)
    assume f: "family_of t = NUMERIC_DATA \<and> class_of t \<in> {CANTIAN_COL_BITS_4, CANTIAN_COL_BITS_8}"
    then show ?thesis
      using numeric_data [OF assms(1) ex(1)] by (auto simp: w)
  next
    assume f: "family_of t = DATETIME_DATA \<and> class_of t = CANTIAN_COL_BITS_8"
    then show ?thesis using datetime_data [OF ex(1), of api m] by (simp add: w)
  next
    assume f: "family_of t = STRING_DATA \<and> class_of t = CANTIAN_COL_BITS_VAR"
    have d: "column_data api col t m =
        mem_read m (c_offset col + snd (calculate_variable_len col t m (c_offset col))) (column_len col t m)"
      using f by (simp add: column_data_def)
    have s: "\<not> VARCHAR_AS_BLOB (c_row_pack_length col)"
      using string_type [OF ex(1)] f by (simp add: VARCHAR_AS_BLOB_def)
    have "2 \<le> ROUND_UP (column_len col t m + 2) 4" using round_up_le [of "column_len col t m + 2"] by simp
    then show ?thesis
      using f s mem_write_append [of coff "le_bytes 2 (int (column_len col t m))" "column_data api col t m" c]
      by (auto simp: w d column_len_def split: prod.splits)
  qed
qed

section \<open>Rows\<close>

definition entry_type :: "('h, 'a) row_api_scheme \<Rightarrow> column \<Rightarrow> field_type" where
  "entry_type api col = (case column_aux (api_type_no api) col of
     Some aux \<Rightarrow> aux_mysql_field_type aux | None \<Rightarrow> MYSQL_TYPE_INVALID)"

abbreviation exact :: "('h, 'a) row_api_scheme \<Rightarrow> column \<Rightarrow> bool" where
  "exact api col \<equiv> exact_column api col (entry_type api col)"

definition column_cell :: "('h, 'a) row_api_scheme \<Rightarrow> mem \<Rightarrow> column \<Rightarrow> byte \<times> byte list" where
  "column_cell api m col = cell api col (entry_type api col) m"

text \<open>The row \<open>c\<close> holds the columns, the first of them at bit position \<open>i\<close> and byte position \<open>off\<close>.\<close>

fun row_holds :: "('h, 'a) row_api_scheme \<Rightarrow> mem \<Rightarrow> mem \<Rightarrow> column list \<Rightarrow> nat \<Rightarrow> nat \<Rightarrow> bool" where
  "row_holds api m c [] i off \<longleftrightarrow> True"
| "row_holds api m c (col # cols) i off \<longleftrightarrow>
     (if c_virtual_gcol col then row_holds api m c cols i off
      else row_get_column_bits2 c i = fst (column_cell api m col) \<and>
           mem_read c off (length (snd (column_cell api m col))) = snd (column_cell api m col) \<and>
           row_holds api m c cols (i + 1) (off + cell_room (column_cell api m col)))"

definition stored_columns :: "column list \<Rightarrow> column list" where
  "stored_columns cols = filter (\<lambda>col. \<not> c_virtual_gcol col) cols"

definition columns_room :: "('h, 'a) row_api_scheme \<Rightarrow> mem \<Rightarrow> column list \<Rightarrow> nat" where
  "columns_room api m cols = sum_list (map (\<lambda>col. cell_room (column_cell api m col)) (stored_columns cols))"

lemma cell_room_le: "length (snd cl) \<le> cell_room cl"
  using round_up_le by (simp add: cell_room_def)

lemma col_class_class_of: "col_class (class_of t)"
  by (simp add: class_of_def)

lemma col_class_cell: "col_class (fst (column_cell api m col))"
  by (simp add: column_cell_def cell_def col_class_class_of)

lemma insert_columns_holds:
  assumes "api_exact api" "\<forall>col \<in> set (stored_columns cols). exact api col"
    and "v \<le> cnt" "cnt - v + length (stored_columns cols) \<le> n" "ROW_HEAD_SIZE + col_bitmap_ex_size n \<le> coff"
  shows "\<exists>c' serial'. insert_columns api h m cols cnt v c coff serial =
      (h, Inr (c', coff + columns_room api m cols, serial', v + (length cols - length (stored_columns cols)))) \<and>
    row_holds api m c' cols (cnt - v) coff \<and>
    (\<forall>j < cnt - v. row_get_column_bits2 c' j = row_get_column_bits2 c j) \<and>
    (\<forall>a. ROW_HEAD_SIZE + col_bitmap_ex_size n \<le> a \<longrightarrow> a < coff \<longrightarrow> c' a = c a)"
  using assms(2-)
proof (induction cols arbitrary: cnt v c coff serial)
  case Nil
  then show ?case by (simp add: columns_room_def stored_columns_def)
next
  case (Cons col cols)
  have le: "length (stored_columns cols) \<le> length cols" by (simp add: stored_columns_def)
  show ?case
  proof (cases "c_virtual_gcol col")
    case True
    have st: "stored_columns (col # cols) = stored_columns cols" using True by (simp add: stored_columns_def)
    have "\<exists>c' serial'. insert_columns api h m cols (cnt + 1) (v + 1) c coff serial =
        (h, Inr (c', coff + columns_room api m cols, serial', v + 1 + (length cols - length (stored_columns cols)))) \<and>
      row_holds api m c' cols (cnt + 1 - (v + 1)) coff \<and>
      (\<forall>j < cnt + 1 - (v + 1). row_get_column_bits2 c' j = row_get_column_bits2 c j) \<and>
      (\<forall>a. ROW_HEAD_SIZE + col_bitmap_ex_size n \<le> a \<longrightarrow> a < coff \<longrightarrow> c' a = c a)"
      using Cons.prems st by (intro Cons.IH) auto
    then show ?thesis using True le st by (simp add: columns_room_def Suc_diff_le)
  next
    case False
    let ?cl = "column_cell api m col" and ?i = "cnt - v"
    let ?c = "row_set_column_bits2 (mem_write coff (snd ?cl) c) (fst ?cl) ?i"
    let ?coff = "coff + cell_room ?cl"
    have st: "stored_columns (col # cols) = col # stored_columns cols" using False by (simp add: stored_columns_def)
    have ex: "exact api col" and i: "?i < n" using Cons.prems st by auto
    obtain s where w: "write_column api h col m ?i c coff serial = (h, Inr (?c, ?coff, s))"
      using write_column_cell [OF assms(1) ex] unfolding column_cell_def by blast
    have p: "\<forall>col \<in> set (stored_columns cols). exact api col" "v \<le> cnt + 1"
      "cnt + 1 - v + length (stored_columns cols) \<le> n" "ROW_HEAD_SIZE + col_bitmap_ex_size n \<le> ?coff"
      using Cons.prems st by auto
    obtain c' serial' where IH: "insert_columns api h m cols (cnt + 1) v ?c ?coff s =
        (h, Inr (c', ?coff + columns_room api m cols, serial', v + (length cols - length (stored_columns cols))))"
      "row_holds api m c' cols (cnt + 1 - v) ?coff"
      "\<forall>j < cnt + 1 - v. row_get_column_bits2 c' j = row_get_column_bits2 ?c j"
      "\<forall>a. ROW_HEAD_SIZE + col_bitmap_ex_size n \<le> a \<longrightarrow> a < ?coff \<longrightarrow> c' a = ?c a"
      using Cons.IH [OF p, of ?c s] by blast
    have suc: "cnt + 1 - v = ?i + 1" using Cons.prems by simp
    have get: "row_get_column_bits2 ?c j = (if ?i = j then fst ?cl else row_get_column_bits2 c j)" if "j < n" for j
      using that Cons.prems(4) row_bits.get_set [OF col_class_cell [of api m col]] row_get_write_above [OF that] by simp
    have at: "?c a = mem_write coff (snd ?cl) c a" if "ROW_HEAD_SIZE + col_bitmap_ex_size n \<le> a" for a
      using row_set_read_above [OF i that] .
    have "mem_read c' coff (length (snd ?cl)) = mem_read (mem_write coff (snd ?cl) c) coff (length (snd ?cl))"
    proof (rule mem_read_eqI)
      fix k assume "k < length (snd ?cl)"
      then show "c' (coff + k) = mem_write coff (snd ?cl) c (coff + k)"
        using IH(4) at Cons.prems(4) cell_room_le [of ?cl] by simp
    qed
    then have rd: "mem_read c' coff (length (snd ?cl)) = snd ?cl" by simp
    have keep: "\<forall>a. ROW_HEAD_SIZE + col_bitmap_ex_size n \<le> a \<longrightarrow> a < coff \<longrightarrow> c' a = c a"
      using IH(4) at by (simp add: mem_write_other)
    have cls: "row_get_column_bits2 c' ?i = fst ?cl" using IH(3) suc get [OF i] by simp
    have old: "\<forall>j < ?i. row_get_column_bits2 c' j = row_get_column_bits2 c j"
      using IH(3) suc get i by simp
    show ?thesis
      using False w IH(1,2) rd keep cls old suc le st by (simp add: columns_room_def)
  qed
qed

section \<open>Reading a column back\<close>

lemma numeric_read:
  assumes "api_exact api" "exact_type col t" "family_of t = NUMERIC_DATA"
    and "mem_read c off (length (column_data api col t m)) = column_data api col t m"
  shows "convert_numeric_to_mysql api col t m' c off = Inr (mem_read m (c_offset col) (value_len col t m))"
proof -
  have n: "length (column_data api col t m) = (if class_of t = CANTIAN_COL_BITS_4 then 4 else 8)"
    using numeric_data [OF assms(1-3)] by blast
  note d = column_data_def convert_numeric_to_cantian_def convert_numeric_to_mysql_def value_len_def class_of_def
    family_of_def numeric_round_trip
  show ?thesis
  proof (cases "t = MYSQL_TYPE_INT24")
    case True
    have "mem_read c off 3 = take 3 (mem_read c off 4)" by (simp add: take_mem_read)
    also have "mem_read c off 4 = le_bytes 4 (if c_unsigned col then le_val (mem_read m (c_offset col) 3)
        else le_sval (mem_read m (c_offset col) 3))"
      using assms(1,4) n True by (simp add: d api_exact_def)
    also have "take 3 \<dots> = mem_read m (c_offset col) 3" by (rule int24_round_trip) simp
    finally show ?thesis using True by (simp add: d)
  next
    case False
    then show ?thesis using assms n
      by (cases t) (simp_all add: d exact_type_def api_exact_def)
  qed
qed

lemma datetime_read:
  assumes "exact_type col t" "family_of t = DATETIME_DATA"
    and "mem_read c off (length (column_data api col t m)) = column_data api col t m"
  shows "convert_datetime_to_mysql api ro col t c off = Inr (mem_read m (c_offset col) (value_len col t m))"
proof -
  have n: "length (column_data api col t m) = 8" using datetime_data [OF assms(1,2)] by blast
  consider "t = MYSQL_TYPE_DATE" | "t = MYSQL_TYPE_YEAR"
    using assms by (cases t) (simp_all add: exact_type_def family_of_def)
  then show ?thesis
  proof cases
    case 1
    then have p: "c_pack_length col \<le> 8" using assms(1) by (simp add: exact_type_def)
    have r: "mem_read c off 8 = mem_read m (c_offset col) (c_pack_length col) @ replicate (8 - c_pack_length col) 0"
      using assms(3) n 1 by (simp add: column_data_def family_of_def convert_datetime_to_cantian_def)
    have "mem_read c off (c_pack_length col) = take (c_pack_length col) (mem_read c off 8)"
      using p by (simp add: take_mem_read)
    then show ?thesis using 1 r by (simp add: convert_datetime_to_mysql_def value_len_def)
  next
    case 2
    obtain date d where y: "cm_encode_date (assign_mysql_date_detail MYSQL_TYPE_YEAR (decode_mysql_year_type (m (c_offset col)))) = Some date"
      "cm_decode_date (le_sval (le_bytes 8 date)) blank_detail = Some d"
      "le_bytes 1 (if dd_year d = 0 then 0 else dd_year d - 1900) = [m (c_offset col)]"
      using year_round_trip by blast
    have "mem_read c off 8 = le_bytes 8 date"
      using assms(3) n 2 y(1) by (simp add: column_data_def family_of_def convert_datetime_to_cantian_def decode_mysql_datetime_def)
    then show ?thesis using 2 y(2,3) by (simp add: convert_datetime_to_mysql_def value_len_def mem_read_def)
  qed
qed

text \<open>The length bytes and the data of a VARCHAR, the data and the padding of a CHAR.\<close>

lemma varchar_value:
  assumes "exact_type col MYSQL_TYPE_VARCHAR"
  shows "mem_read m (c_offset col) (value_len col MYSQL_TYPE_VARCHAR m) =
    le_bytes (c_length_bytes col) (int (column_len col MYSQL_TYPE_VARCHAR m)) @
    mem_read m (c_offset col + c_length_bytes col) (column_len col MYSQL_TYPE_VARCHAR m)"
proof -
  have "mem_read m (c_offset col) (c_length_bytes col) =
      le_bytes (c_length_bytes col) (int (column_len col MYSQL_TYPE_VARCHAR m))"
  proof (cases "c_length_bytes col = 1")
    case True
    have "uint (m (c_offset col)) mod 256 = uint (m (c_offset col))"
      using uint_bounded [of "m (c_offset col)"] by simp
    then show ?thesis using True
      by (simp add: column_len_def calculate_variable_len_def mem_read_def uint_nat [symmetric])
  next
    case False
    then have "c_length_bytes col = 2" using assms by (simp add: exact_type_def)
    moreover have "le_bytes 2 (le_val (mem_read m (c_offset col) 2)) = mem_read m (c_offset col) 2"
      using le_bytes_le_val [of "mem_read m (c_offset col) 2"] by simp
    ultimately show ?thesis
      using le_val_range [of "mem_read m (c_offset col) 2"] by (simp add: column_len_def calculate_variable_len_def)
  qed
  then show ?thesis by (simp add: value_len_def mem_read_append)
qed

lemma char_value:
  assumes "exact_type col MYSQL_TYPE_STRING" "n = column_len col MYSQL_TYPE_STRING m"
  shows "mem_read m (c_offset col) (c_row_pack_length col) =
    mem_read m (c_offset col) n @ replicate (c_row_pack_length col - n) (c_pad_char col) \<and> n \<le> c_row_pack_length col"
proof -
  have n: "n = trim_pad m (c_offset col) (c_pad_char col) (c_row_pack_length col)"
    using assms by (simp add: column_len_def calculate_variable_len_def exact_type_def)
  have le: "n \<le> c_row_pack_length col" using trim_pad_le n by simp
  have "mem_read m (c_offset col + n) (c_row_pack_length col - n) = replicate (c_row_pack_length col - n) (c_pad_char col)"
  proof (rule nth_equalityI)
    fix i assume "i < length (mem_read m (c_offset col + n) (c_row_pack_length col - n))"
    then show "mem_read m (c_offset col + n) (c_row_pack_length col - n) ! i =
        replicate (c_row_pack_length col - n) (c_pad_char col) ! i"
      using trim_pad_pad [of m "c_offset col" "c_pad_char col" "c_row_pack_length col" "n + i"] n
      by (simp add: add.assoc)
  qed simp
  then show ?thesis using mem_read_split [OF le, of m "c_offset col"] le by simp
qed

text \<open>A read of a whole row by a statement that reads all columns.\<close>

definition plain_read :: "read_env \<Rightarrow> bool" where
  "plain_read env \<longleftrightarrow> re_single env = None \<and> \<not> re_index_only env \<and> (\<forall>col. \<not> re_skip env col)"

lemma string_not_lob:
  assumes "t = MYSQL_TYPE_VARCHAR \<or> t = MYSQL_TYPE_STRING" "aux_mysql_field_type aux = t"
    and "\<not> VARCHAR_AS_BLOB (c_row_pack_length col)"
  shows "mysql_data_len env aux col c coff n = n"
  using assms by (auto simp: mysql_data_len_def ctc_field_type_is_lob_def)

lemma read_column_cell:
  assumes "api_exact api" "exact_column api col t" "plain_read env"
    and "mem_read c off (length (snd (cell api col t m))) = snd (cell api col t m)"
  shows "convert_cantian_field_to_mysql_field api h env col_id col (fst (cell api col t m)) c off m' =
    Inr (if is_null col m then set_null_bit col m'
         else mem_write (c_offset col) (mem_read m (c_offset col) (value_len col t m)) m',
         off + cell_room (cell api col t m))"
proof -
  obtain aux where a: "column_aux (api_type_no api) col = Some aux" "aux_mysql_field_type aux = t"
    and ex: "exact_type col t" using assms(2) by (auto simp: exact_column_def)
  have l: "aux_cantian_map_type aux = class_of t" "aux_sql_data_type aux = family_of t"
    using column_aux_layout [OF _ a(1)] assms(1) a(2) by (auto simp: api_exact_def)
  have pr: "re_single env = None" "\<not> re_index_only env" "\<not> re_skip env col" using assms(3) by (auto simp: plain_read_def)
  note w = pr convert_cantian_field_to_mysql_field_def parse_column_def copy_column_data_to_mysql_def a l cell_room_def
  show ?thesis
  proof (cases "is_null col m")
    case True
    then show ?thesis by (simp add: w cell_def)
  next
    case False
    then have cl: "cell api col t m = (class_of t,
        (if class_of t = CANTIAN_COL_BITS_VAR then le_bytes 2 (int (column_len col t m)) else []) @ column_data api col t m)"
      by (simp add: cell_def)
    from exact_family [OF ex(1)] show ?thesis
    proof (elim disjE)
      assume f: "family_of t = NUMERIC_DATA \<and> class_of t \<in> {CANTIAN_COL_BITS_4, CANTIAN_COL_BITS_8}"
      then have r: "mem_read c off (length (column_data api col t m)) = column_data api col t m"
        using assms(4) cl by auto
      show ?thesis
        using f False assms(3) numeric_read [OF assms(1) ex _ r] numeric_data [OF assms(1) ex] by (auto simp: w cl)
    next
      assume f: "family_of t = DATETIME_DATA \<and> class_of t = CANTIAN_COL_BITS_8"
      then have r: "mem_read c off (length (column_data api col t m)) = column_data api col t m"
        using assms(4) cl by auto
      show ?thesis
        using f False assms(3) datetime_read [OF ex _ r] datetime_data [OF ex, of api m] by (auto simp: w cl)
    next
      assume f: "family_of t = STRING_DATA \<and> class_of t = CANTIAN_COL_BITS_VAR"
      define n where "n = column_len col t m"
      have n16: "n < 65536" using column_len_16 [OF ex] f by (simp add: n_def)
      have d: "column_data api col t m = mem_read m (c_offset col + snd (calculate_variable_len col t m (c_offset col))) n"
        using f by (simp add: column_data_def n_def)
      have "mem_read c off (2 + n) = le_bytes 2 (int n) @ column_data api col t m"
        using assms(4) cl f d by (simp add: n_def)
      then have r: "mem_read c off 2 = le_bytes 2 (int n)" "mem_read c (off + 2) n = column_data api col t m"
        unfolding mem_read_append using d by (auto dest: append_eq_append_conv [THEN iffD1, rotated])
      have s: "\<not> VARCHAR_AS_BLOB (c_row_pack_length col)" "t = MYSQL_TYPE_VARCHAR \<or> t = MYSQL_TYPE_STRING"
        using string_type [OF ex] f by (auto simp: VARCHAR_AS_BLOB_def)
      have room: "off + 2 + (ROUND_UP (n + 2) 4 - 2) = off + cell_room (cell api col t m)"
        using round_up_le [of "n + 2"] f d by (simp add: cell_room_def cl n_def add.commute)
      have cls: "fst (cell api col t m) = CANTIAN_COL_BITS_VAR" using cl f by simp
      have fam: "aux_sql_data_type aux = STRING_DATA" using l(2) f by simp
      have le: "nat (le_val (mem_read c off 2)) = n" using r(1) le_val_len [OF n16] by simp
      from s(2) show ?thesis
      proof
        assume t: "t = MYSQL_TYPE_VARCHAR"
        have lb: "c_length_bytes col = 1 \<or> c_length_bytes col = 2" using ex t by (simp add: exact_type_def)
        let ?m = "mem_write (c_offset col) (le_bytes (c_length_bytes col) (int n)) m'"
        have p: "parse_column env col aux CANTIAN_COL_BITS_VAR c off m' (c_offset col) =
            Inr (?m, Some (n, ROUND_UP (n + 2) 4 - 2, off + 2, c_offset col + c_length_bytes col))"
          using lb by (auto simp: parse_column_def padding_variable_byte_def a(2) t le Let_def string_not_lob [OF s(2) a(2) s(1)] pr)
        have q: "copy_column_data_to_mysql api h env col aux c (off + 2) n ?m (c_offset col + c_length_bytes col) =
            Inr (mem_write (c_offset col + c_length_bytes col) (column_data api col t m) ?m)"
          using pr s(1) r(2) a(2) t by (simp add: copy_column_data_to_mysql_def pad_char_column_def fam)
        have v: "mem_read m (c_offset col) (value_len col t m) =
            le_bytes (c_length_bytes col) (int n) @ column_data api col t m"
          using varchar_value [of col m] ex t d by (simp add: n_def calculate_variable_len_def)
        have "mem_write (c_offset col + c_length_bytes col) (column_data api col t m) ?m =
            mem_write (c_offset col) (le_bytes (c_length_bytes col) (int n) @ column_data api col t m) m'"
          using mem_write_append [of "c_offset col" "le_bytes (c_length_bytes col) (int n)"] by simp
        then show ?thesis
          unfolding convert_cantian_field_to_mysql_field_def cls v a(1) using False p q room pr by simp
      next
        assume t: "t = MYSQL_TYPE_STRING"
        let ?pad = "replicate (c_row_pack_length col - n) (c_pad_char col)"
        have cv: "mem_read m (c_offset col) (c_row_pack_length col) = mem_read m (c_offset col) n @ ?pad"
          "n \<le> c_row_pack_length col"
          using char_value [of col n m] ex t by (simp_all add: n_def)
        have d': "column_data api col t m = mem_read m (c_offset col) n"
          using d t by (simp add: calculate_variable_len_def)
        have rt: "fd_real_type (c_desc col) = MYSQL_TYPE_STRING" using ex t by (simp add: exact_type_def)
        have p: "parse_column env col aux CANTIAN_COL_BITS_VAR c off m' (c_offset col) =
            Inr (m', Some (n, ROUND_UP (n + 2) 4 - 2, off + 2, c_offset col))"
          by (simp add: parse_column_def padding_variable_byte_def a(2) t le Let_def string_not_lob [OF s(2) a(2) s(1)] pr)
        have "mem_write (c_offset col + n) ?pad (mem_write (c_offset col) (mem_read m (c_offset col) n) m') =
            mem_write (c_offset col) (mem_read m (c_offset col) n @ ?pad) m'"
          using mem_write_append [of "c_offset col" "mem_read m (c_offset col) n" ?pad m'] by simp
        then have q: "copy_column_data_to_mysql api h env col aux c (off + 2) n m' (c_offset col) =
            Inr (mem_write (c_offset col) (mem_read m (c_offset col) n @ ?pad) m')"
          using pr s(1) r(2) a(2) t d' rt cv(2) by (auto simp: copy_column_data_to_mysql_def pad_char_column_def fam Let_def)
        have v: "mem_read m (c_offset col) (value_len col t m) = mem_read m (c_offset col) n @ ?pad"
          using t cv(1) by (simp add: value_len_def)
        show ?thesis
          unfolding convert_cantian_field_to_mysql_field_def cls v a(1) using False p q room pr by simp
      qed
    qed
  qed
qed

end
