(* ===== verification/CTC_Record.thy ===== *)
theory CTC_Record
  imports CTC_Row
begin

text \<open>
  Whole records. A table's columns are laid out in the MySQL record as MySQL lays them out; an insert
  turns the record into a Cantian row, and reading that row gives every stored column back the value it had.
\<close>

unbundle bit_operations_syntax

section \<open>Tables\<close>

text \<open>
  The record layout MySQL gives a table: the null bits in the first \<open>nb\<close> bytes, one bit per nullable
  column, and the values behind them without overlap.
\<close>

abbreviation value_size :: "('h, 'a) row_api_scheme \<Rightarrow> mem \<Rightarrow> column \<Rightarrow> nat" where
  "value_size api m col \<equiv> value_len col (entry_type api col) m"

definition column_placed :: "nat \<Rightarrow> column \<Rightarrow> bool" where
  "column_placed nb col \<longleftrightarrow> nb \<le> c_offset col \<and> (c_nullable col \<longrightarrow> c_null_offset col < nb \<and> c_null_bit col \<noteq> 0)"

definition columns_apart :: "('h, 'a) row_api_scheme \<Rightarrow> mem \<Rightarrow> column \<Rightarrow> column \<Rightarrow> bool" where
  "columns_apart api m a b \<longleftrightarrow>
     disjoint_areas (c_offset a) (value_size api m a) (c_offset b) (value_size api m b) \<and>
     (c_nullable a \<and> c_nullable b \<and> c_null_offset a = c_null_offset b \<longrightarrow> c_null_bit a AND c_null_bit b = 0)"

definition table_wf :: "('h, 'a) row_api_scheme \<Rightarrow> mem \<Rightarrow> nat \<Rightarrow> column list \<Rightarrow> bool" where
  "table_wf api m nb tbl \<longleftrightarrow> (\<forall>col \<in> set (stored_columns tbl). exact api col \<and> column_placed nb col) \<and>
     sorted_wrt (columns_apart api m) (stored_columns tbl)"

text \<open>The column has in \<open>m'\<close> the value it has in \<open>m\<close>.\<close>

definition same_value :: "('h, 'a) row_api_scheme \<Rightarrow> mem \<Rightarrow> mem \<Rightarrow> column \<Rightarrow> bool" where
  "same_value api m m' col \<longleftrightarrow> (is_null col m' \<longleftrightarrow> is_null col m) \<and>
     (\<not> is_null col m \<longrightarrow>
        mem_read m' (c_offset col) (value_size api m col) = mem_read m (c_offset col) (value_size api m col))"

text \<open>What writing one column does to itself and to the others.\<close>

definition put_value :: "('h, 'a) row_api_scheme \<Rightarrow> mem \<Rightarrow> column \<Rightarrow> mem \<Rightarrow> mem" where
  "put_value api m col m' = (if is_null col m then set_null_bit col m'
     else mem_write (c_offset col) (mem_read m (c_offset col) (value_size api m col)) m')"

lemma columns_apart_sym: "columns_apart api m a b \<Longrightarrow> columns_apart api m b a"
  by (auto simp: columns_apart_def disjoint_areas_def and.commute)

lemma put_value_same:
  assumes "column_placed nb col" "\<not> is_null col m'"
  shows "same_value api m (put_value api m col m') col"
proof (cases "is_null col m")
  case True
  then have "c_nullable col" "c_null_bit col \<noteq> 0" using assms(1) by (auto simp: is_null_def column_placed_def)
  moreover have "(m' (c_null_offset col) OR c_null_bit col) AND c_null_bit col = c_null_bit col"
    by (simp add: bit.conj_disj_distrib2)
  ultimately show ?thesis using True by (simp add: same_value_def put_value_def set_null_bit_def is_null_def)
next
  case False
  then show ?thesis
    using assms by (auto simp: same_value_def put_value_def is_null_def column_placed_def mem_write_other)
qed

lemma put_value_null:
  assumes "column_placed nb col" "column_placed nb other" "columns_apart api m other col"
  shows "is_null other (put_value api m col m') = is_null other m'"
proof (cases "is_null col m")
  case True
  then have n: "c_nullable col" by (simp add: is_null_def)
  show ?thesis
  proof (cases "c_nullable other \<and> c_null_offset other = c_null_offset col")
    case t: True
    then have z: "c_null_bit other AND c_null_bit col = 0" using assms(3) n by (simp add: columns_apart_def)
    have "(m' (c_null_offset col) OR c_null_bit col) AND c_null_bit other = m' (c_null_offset col) AND c_null_bit other"
      unfolding bit.conj_disj_distrib2 using z by (metis and.commute or.right_neutral)
    then show ?thesis using t True by (simp add: is_null_def put_value_def set_null_bit_def)
  next
    case False
    then show ?thesis using True by (auto simp: is_null_def put_value_def set_null_bit_def)
  qed
next
  case False
  then show ?thesis using assms by (auto simp: is_null_def put_value_def column_placed_def mem_write_other)
qed

lemma put_value_read:
  assumes "column_placed nb col" "column_placed nb other" "columns_apart api m other col"
  shows "mem_read (put_value api m col m') (c_offset other) (value_size api m other) =
    mem_read m' (c_offset other) (value_size api m other)"
proof (cases "is_null col m")
  case True
  then have "c_null_offset col < c_offset other" using assms(1,2) by (auto simp: is_null_def column_placed_def)
  then show ?thesis using True by (intro mem_read_eqI) (simp add: put_value_def set_null_bit_def)
next
  case False
  then show ?thesis using assms(3)
    by (auto simp: put_value_def columns_apart_def disjoint_areas_def intro!: mem_read_write_other)
qed

lemma read_columns_restores:
  assumes "api_exact api" "plain_read env"
    and "\<forall>col \<in> set (stored_columns cols). exact api col \<and> column_placed nb col \<and> \<not> is_null col m'"
    and "sorted_wrt (columns_apart api m) (stored_columns cols)"
    and "row_holds api m c cols (column_id - v) off" "v \<le> column_id"
    and "column_id - v + length (stored_columns cols) \<le> get_column_count c"
    and "column_id + length cols \<le> max_col_idx + 1"
  shows "\<exists>r. read_columns api h env max_col_idx cols column_id v c off m' = Inr r \<and>
    (\<forall>col \<in> set (stored_columns cols). same_value api m r col) \<and>
    (\<forall>other. column_placed nb other \<longrightarrow> (\<forall>col \<in> set (stored_columns cols). columns_apart api m other col) \<longrightarrow>
       is_null other r = is_null other m' \<and>
       mem_read r (c_offset other) (value_size api m other) = mem_read m' (c_offset other) (value_size api m other))"
  using assms(3-)
proof (induction cols arbitrary: column_id v off m')
  case Nil
  then show ?case by (simp add: stored_columns_def)
next
  case (Cons col cols)
  have mx: "\<not> max_col_idx < column_id" using Cons.prems(6) by simp
  show ?case
  proof (cases "c_virtual_gcol col")
    case True
    then have st: "stored_columns (col # cols) = stored_columns cols" by (simp add: stored_columns_def)
    have p: "\<forall>col \<in> set (stored_columns cols). exact api col \<and> column_placed nb col \<and> \<not> is_null col m'"
      "sorted_wrt (columns_apart api m) (stored_columns cols)"
      "row_holds api m c cols (column_id + 1 - (v + 1)) off" "v + 1 \<le> column_id + 1"
      "column_id + 1 - (v + 1) + length (stored_columns cols) \<le> get_column_count c"
      "column_id + 1 + length cols \<le> max_col_idx + 1"
      using Cons.prems True st by auto
    show ?thesis using Cons.IH [OF p] True mx st by simp
  next
    case False
    then have st: "stored_columns (col # cols) = col # stored_columns cols" by (simp add: stored_columns_def)
    have col: "exact api col" "column_placed nb col" "\<not> is_null col m'"
      and h: "row_get_column_bits2 c (column_id - v) = fst (column_cell api m col)"
        "mem_read c off (length (snd (column_cell api m col))) = snd (column_cell api m col)"
      and cnt: "column_id - v < get_column_count c"
      and ap: "\<forall>b \<in> set (stored_columns cols). columns_apart api m col b"
      using Cons.prems False st by auto
    let ?m = "put_value api m col m'" and ?off = "off + cell_room (column_cell api m col)"
    have conv: "convert_cantian_field_to_mysql_field api h env (column_id - v) col (fst (column_cell api m col)) c off m' = Inr (?m, ?off)"
      using read_column_cell [OF assms(1) col(1) assms(2), where c = c and off = off and m = m and h = h and col_id = "column_id - v" and m' = m'] h(2)
      by (simp add: column_cell_def put_value_def)
    have nn: "\<not> is_null b ?m" if "b \<in> set (stored_columns cols)" for b
      using that Cons.prems(1) st ap columns_apart_sym [of api m col b] put_value_null [OF col(2), of b api m m'] by auto
    have p: "\<forall>b \<in> set (stored_columns cols). exact api b \<and> column_placed nb b \<and> \<not> is_null b ?m"
      "sorted_wrt (columns_apart api m) (stored_columns cols)"
      "row_holds api m c cols (column_id + 1 - v) ?off" "v \<le> column_id + 1"
      "column_id + 1 - v + length (stored_columns cols) \<le> get_column_count c"
      "column_id + 1 + length cols \<le> max_col_idx + 1"
      using Cons.prems False st nn by (auto simp: Suc_diff_le)
    obtain r where r: "read_columns api h env max_col_idx cols (column_id + 1) v c ?off ?m = Inr r"
      "\<forall>b \<in> set (stored_columns cols). same_value api m r b"
      "\<And>other. column_placed nb other \<Longrightarrow> \<forall>b \<in> set (stored_columns cols). columns_apart api m other b \<Longrightarrow>
         is_null other r = is_null other ?m \<and>
         mem_read r (c_offset other) (value_size api m other) = mem_read ?m (c_offset other) (value_size api m other)"
      using Cons.IH [OF p] by blast
    have "same_value api m ?m col" by (rule put_value_same [OF col(2,3)])
    then have "same_value api m r col" using r(3) [OF col(2) ap] by (simp add: same_value_def)
    moreover have "is_null other r = is_null other m' \<and>
        mem_read r (c_offset other) (value_size api m other) = mem_read m' (c_offset other) (value_size api m other)"
      if "column_placed nb other" "\<forall>b \<in> set (stored_columns (col # cols)). columns_apart api m other b" for other
      using r(3) [OF that(1)] that st put_value_null [OF col(2) that(1)] put_value_read [OF col(2) that(1)] by auto
    moreover have "read_columns api h env max_col_idx (col # cols) column_id v c off m' = Inr r"
      using False mx cnt h(1) conv r(1) by simp
    ultimately show ?thesis using r(2) st by auto
  qed
qed

lemma column_count_set: "n < 1024 \<Longrightarrow> get_column_count (finish_row sz n c) = n"
  by (simp add: get_column_count_def finish_row_def set_column_count_def le_val_le_bytes)

lemma row_flags_clear: "n < 1024 \<Longrightarrow> i < 6 \<Longrightarrow> \<not> row_flag i (finish_row sz n c)"
proof -
  assume n: "n < 1024" and i: "i < 6"
  have "(2::int) ^ 10 \<le> 2 ^ (10 + i)" by (intro power_increasing) simp_all
  moreover have "int n < 2 ^ 10" using n by simp
  ultimately have "int n < 2 ^ (10 + i)" by (rule order_less_le_trans [rotated])
  then show ?thesis using n
    by (simp add: row_flag_def finish_row_def set_column_count_def le_val_le_bytes bit_iff_odd)
qed

lemma finish_row_above: "4 \<le> a \<Longrightarrow> finish_row sz n c a = c a"
  by (simp add: finish_row_def set_column_count_def set_row_size_def mem_write_other)

lemma row_holds_cong:
  assumes "row_holds api m c cols i off" "\<And>j. row_get_column_bits2 c' j = row_get_column_bits2 c j"
    and "\<And>a. off \<le> a \<Longrightarrow> c' a = c a"
  shows "row_holds api m c' cols i off"
  using assms
proof (induction cols arbitrary: i off)
  case (Cons col cols)
  have "mem_read c' off k = mem_read c off k" for k using Cons.prems(3) by (intro mem_read_eqI) simp
  then show ?case using Cons by auto
qed simp

lemma is_null_cleared: "c_null_offset col < nb \<Longrightarrow> \<not> is_null col (mem_write 0 (replicate nb 0) m)"
  by (simp add: is_null_def mem_write_def)

lemma gcol_count: "cal_gcol_cnts_for_update tbl (length tbl) = length tbl - length (stored_columns tbl)"
proof -
  have "length (filter c_virtual_gcol tbl) + length (stored_columns tbl) = length tbl"
    unfolding stored_columns_def by (rule sum_length_filter_compl)
  then show ?thesis by (simp add: cal_gcol_cnts_for_update_def)
qed

text \<open>\<open>TABLE::has_gcol\<close> is true for a table with a virtual column.\<close>

definition gcol_flag_ok :: "column list \<Rightarrow> bool \<Rightarrow> bool" where
  "gcol_flag_ok tbl has_gcol \<longleftrightarrow> (\<exists>col \<in> set tbl. c_virtual_gcol col) \<longrightarrow> has_gcol"

lemma insert_column_count:
  assumes "gcol_flag_ok tbl has_gcol"
  shows "length tbl - (if has_gcol then cal_gcol_cnts_for_update tbl (length tbl) else 0) = length (stored_columns tbl)"
proof (cases has_gcol)
  case True
  have "length (stored_columns tbl) \<le> length tbl" by (simp add: stored_columns_def)
  then show ?thesis using True gcol_count by simp
next
  case False
  then have "stored_columns tbl = tbl" using assms by (auto simp: gcol_flag_ok_def stored_columns_def filter_id_conv)
  then show ?thesis using False by simp
qed

lemma finish_row_holds:
  assumes "row_holds api m c cols i (ROW_HEAD_SIZE + k)"
  shows "row_holds api m (finish_row s n c) cols i (ROW_HEAD_SIZE + k)"
  by (rule row_holds_cong [OF assms])
    (simp_all add: row_get_column_bits2_def finish_row_above BITMAP_ADDR_def ROW_HEAD_SIZE_def)

text \<open>What an insert writes, in one statement: the row holds the columns.\<close>

lemma insert_row_holds:
  assumes "api_exact api" "\<forall>col \<in> set (stored_columns tbl). exact api col" "gcol_flag_ok tbl has_gcol"
  defines "n \<equiv> length (stored_columns tbl)"
  shows "\<exists>row serial. mysql_record_to_cantian_record api h tbl has_gcol m c None =
      (h, Inr (finish_row (ROW_HEAD_SIZE + col_bitmap_ex_size n + columns_room api m tbl) n row,
               ROW_HEAD_SIZE + col_bitmap_ex_size n + columns_room api m tbl, serial, [])) \<and>
    row_holds api m (finish_row (ROW_HEAD_SIZE + col_bitmap_ex_size n + columns_room api m tbl) n row) tbl 0
      (ROW_HEAD_SIZE + col_bitmap_ex_size n)"
proof -
  let ?o = "ROW_HEAD_SIZE + col_bitmap_ex_size n"
  obtain c' serial' where i: "insert_columns api h m tbl 0 0 c ?o 0 =
      (h, Inr (c', ?o + columns_room api m tbl, serial', length tbl - n))" "row_holds api m c' tbl 0 ?o"
    using insert_columns_holds [OF assms(1,2), of 0 0 n ?o h m c 0] by (auto simp: n_def)
  have n: "length tbl - (length tbl - n) = n" unfolding n_def stored_columns_def by simp
  have e: "mysql_record_to_cantian_record api h tbl has_gcol m c None =
      (h, Inr (finish_row (?o + columns_room api m tbl) n c', ?o + columns_room api m tbl, serial', []))"
    using i(1) n insert_column_count [OF assms(3)]
    by (simp add: mysql_record_to_cantian_record_def Let_def n_def)
  show ?thesis
    by (rule exI [of _ c'], rule exI [of _ serial'], rule conjI [OF e finish_row_holds [OF i(2)]])
qed

unbundle bit_operations_syntax

section \<open>Rows are read back\<close>

lemma plain_read_env: "plain_read env \<Longrightarrow> env\<lparr>re_index_only := False\<rparr> = env \<and> re_single env = None"
  by (cases env) (simp add: plain_read_def)

lemma finished_row_read:
  assumes "api_exact api" "plain_read env" "table_wf api m nb tbl"
    and "0 < length (stored_columns tbl)" "length (stored_columns tbl) < 1024" "length tbl \<le> max_col_idx + 1"
  defines "n \<equiv> length (stored_columns tbl)"
  assumes "row_holds api m (finish_row sz n row) tbl 0 (ROW_HEAD_SIZE + col_bitmap_ex_size n)"
  shows "\<exists>r. cantian_record_to_mysql_record api h env tbl nb max_col_idx (finish_row sz n row) m0 = Inr r \<and>
    (\<forall>col \<in> set (stored_columns tbl). same_value api m r col)"
proof -
  let ?o = "ROW_HEAD_SIZE + col_bitmap_ex_size n" and ?row = "finish_row sz n row"
  let ?m0 = "mem_write 0 (replicate nb 0) m0"
  have t: "\<forall>col \<in> set (stored_columns tbl). exact api col \<and> column_placed nb col"
    and ap: "sorted_wrt (columns_apart api m) (stored_columns tbl)"
    using assms(3) by (auto simp: table_wf_def)
  have cnt: "get_column_count ?row = n" using column_count_set assms(5) by (simp add: n_def)
  have fl: "\<not> row_flag 5 ?row" "\<not> row_flag 2 ?row" using row_flags_clear assms(5) by (simp_all add: n_def)
  have nn: "\<not> is_null col ?m0" if "col \<in> set (stored_columns tbl)" for col
    using t that is_null_cleared [of col nb m0] by (auto simp: column_placed_def is_null_def)
  have "\<exists>r. read_columns api h env max_col_idx tbl 0 0 ?row ?o ?m0 = Inr r \<and>
      (\<forall>col \<in> set (stored_columns tbl). same_value api m r col)"
    using read_columns_restores [OF assms(1,2), of tbl nb ?m0 m ?row 0 0 ?o max_col_idx h]
      t ap nn assms(8) cnt assms(6) by (auto simp: n_def)
  then show ?thesis using fl cnt assms(4) plain_read_env [OF assms(2)]
    by (simp add: cantian_record_to_mysql_record_def Let_def n_def)
qed


definition basic_api :: "'h row_api" where
  "basic_api = \<lparr>knl_write_lob = (\<lambda>h locator _ _ _. (h, ERR_NOT_SUPPORT, locator)), knl_read_lob = (\<lambda>_ _ _ _. (ERR_NOT_SUPPORT, [])),
     malloc_ok = (\<lambda>_. True), api_type_no = mysql_type_no, api_uint3korr = le_val, api_sint3korr = le_sval,
     api_float_to_double = (\<lambda>bs. bs @ [0, 0, 0, 0]), api_double_to_float = take 4,
     api_time_from_binary = (\<lambda>bs _. le_val bs), api_time_to_binary = (\<lambda>v _. le_bytes 6 v),
     api_time_of_packed = (\<lambda>_. zero_time), api_packed_of_time = (\<lambda>_. 0),
     api_datetime_from_binary = (\<lambda>bs _. le_val bs), api_datetime_to_binary = (\<lambda>v _. le_bytes 8 v),
     api_datetime_of_packed = (\<lambda>_. zero_time), api_packed_of_datetime = (\<lambda>_. 0),
     api_timestamp_from_binary = (\<lambda>bs _. (le_val bs, 0)), api_gmt_sec_to_TIME = (\<lambda>_. zero_time),
     api_TIME_to_gmt_sec = (\<lambda>_. (0, False)), api_binary2my_decimal = (\<lambda>_ _ _. Inl 1),
     api_my_decimal2binary = (\<lambda>_ _ _. Inl 1), api_decimal_max_str_length = 81,
     api_blob_data = (\<lambda>_ _ _. []), api_buffer_addr = (\<lambda>bs. replicate 8 1), api_json_error = (\<lambda>_ _. False)\<rparr>"

abbreviation demo_api :: "unit row_api" where
  "demo_api \<equiv> basic_api"

lemma demo_api_exact: "api_exact demo_api"
  by (simp add: api_exact_def basic_api_def mysql_enum_def)

definition plain_column :: "field_type \<Rightarrow> nat \<Rightarrow> column" where
  "plain_column t off = \<lparr>c_type = t, c_desc = \<lparr>fd_real_type = t, fd_pack_length = 1, fd_blob_flag = False,
       fd_binary_flag = False, fd_charset_bin = False\<rparr>, c_index = 0, c_offset = off, c_nullable = False, c_null_offset = 0,
     c_null_bit = 0, c_virtual_gcol = False, c_unsigned = False, c_auto_increment = False, c_length_bytes = 1,
     c_row_pack_length = 10, c_pack_length = 1, c_decimals = 0, c_precision = 0, c_pad_char = 32,
     c_bytes_in_rec = 0, c_bit_len = 0, c_bit_ofs = 0, c_bit_addr = 0\<rparr>"

text \<open>A nullable TINYINT, a virtual column, a VARCHAR and an INT.\<close>

definition demo_table :: "column list" where
  "demo_table = [(plain_column MYSQL_TYPE_TINY 1)\<lparr>c_nullable := True, c_null_bit := 1\<rparr>,
     (plain_column MYSQL_TYPE_LONG 20)\<lparr>c_virtual_gcol := True\<rparr>,
     plain_column MYSQL_TYPE_VARCHAR 2, plain_column MYSQL_TYPE_LONG 14]"

definition demo_record :: mem where
  "demo_record = mem_write 0 [0, 200, 3, 97, 98, 99] (\<lambda>_. 0)"

lemma demo_table_wf: "table_wf demo_api demo_record 1 demo_table"
  by (simp add: table_wf_def demo_table_def basic_api_def stored_columns_def plain_column_def exact_column_def
      entry_type_def column_aux_def get_auxiliary_for_field_convert_def mysql_type_no_def g_field_cnvrt_aux_array_def
      aux_entry_def exact_type_def column_placed_def columns_apart_def disjoint_areas_def value_len_def column_len_def
      calculate_variable_len_def demo_record_def mem_write_def class_of_def)

definition plain_env :: read_env where
  "plain_env = \<lparr>re_index_only = False, re_read_only_in_ct = False, re_tmp_table = False, re_skip = (\<lambda>_. False), re_single = None\<rparr>"

lemma plain_env: "plain_read plain_env"
  by (simp add: plain_read_def plain_env_def)


unbundle bit_operations_syntax

section \<open>Updated rows\<close>

definition renumber :: "column list \<Rightarrow> bool \<Rightarrow> nat list \<Rightarrow> nat list" where
  "renumber tbl has_gcol fs = map (\<lambda>f. if has_gcol then f - cal_gcol_cnts_for_update tbl f else f)
     (filter (\<lambda>f. \<not> c_virtual_gcol (tbl ! f)) fs)"

text \<open>The loop of an update writes what the loop of an insert writes for the updated columns alone.\<close>

lemma update_as_insert:
  assumes "v \<le> cnt"
  shows "update_columns api h m tbl has_gcol fs (cnt - v) c coff serial =
    (case insert_columns api h m (map ((!) tbl) fs) cnt v c coff serial of
       (h, Inl e) \<Rightarrow> (h, Inl e)
     | (h, Inr (c, coff, serial, _)) \<Rightarrow> (h, Inr (c, coff, serial, renumber tbl has_gcol fs)))"
  using assms
proof (induction fs arbitrary: h cnt v c coff serial)
  case Nil
  then show ?case by (simp add: renumber_def)
next
  case (Cons f fs)
  show ?case
  proof (cases "c_virtual_gcol (tbl ! f)")
    case True
    have r: "renumber tbl has_gcol (f # fs) = renumber tbl has_gcol fs" using True by (simp add: renumber_def)
    show ?thesis unfolding r using True Cons.IH [of "v + 1" "cnt + 1"] Cons.prems by simp
  next
    case False
    have "cnt - v + 1 = cnt + 1 - v" using Cons.prems by simp
    then show ?thesis using False Cons.IH [of v "cnt + 1"] Cons.prems
      by (auto simp: renumber_def split: prod.splits sum.splits)
  qed
qed

text \<open>The new number of a stored column is its position among the stored columns.\<close>

lemma stored_position:
  assumes "f < length tbl" "\<not> c_virtual_gcol (tbl ! f)"
  shows "f - cal_gcol_cnts_for_update tbl f < length (stored_columns tbl) \<and>
    stored_columns tbl ! (f - cal_gcol_cnts_for_update tbl f) = tbl ! f"
proof -
  have "length (filter c_virtual_gcol (take f tbl)) + length (stored_columns (take f tbl)) = length (take f tbl)"
    unfolding stored_columns_def by (rule sum_length_filter_compl)
  then have n: "f - cal_gcol_cnts_for_update tbl f = length (stored_columns (take f tbl))"
    using assms(1) by (simp add: cal_gcol_cnts_for_update_def)
  have "tbl = take f tbl @ tbl ! f # drop (Suc f) tbl" using assms(1) by (simp add: id_take_nth_drop)
  then have "stored_columns tbl = stored_columns (take f tbl) @ tbl ! f # stored_columns (drop (Suc f) tbl)"
    using assms(2) unfolding stored_columns_def by (metis filter.simps(2) filter_append)
  then show ?thesis unfolding n by simp
qed

lemma no_gcol_position:
  assumes "\<not> has_gcol" "gcol_flag_ok tbl has_gcol"
  shows "stored_columns tbl = tbl"
  using assms by (auto simp: gcol_flag_ok_def stored_columns_def filter_id_conv)

text \<open>
  after a conversion for an update that succeeds, the vector of column numbers names exactly the
  stored columns among the updated ones, in their order, each by its position in a table without the
  virtual generated columns.
\<close>

lemma update_column_numbers:
  assumes "mysql_record_to_cantian_record api h tbl has_gcol m c (Some fs) = (h', Inr (row, sz, serial, fs'))"
    and "gcol_flag_ok tbl has_gcol" "\<forall>f \<in> set fs. f < length tbl"
  shows "(\<forall>f' \<in> set fs'. f' < length (stored_columns tbl)) \<and>
    map ((!) (stored_columns tbl)) fs' = stored_columns (map ((!) tbl) fs)"
proof -
  have fs': "fs' = renumber tbl has_gcol fs"
    using assms(1) update_as_insert [of 0 0 api h m tbl has_gcol fs]
    by (auto simp: mysql_record_to_cantian_record_def Let_def split: prod.splits sum.splits)
  define k where "k = (\<lambda>f. if has_gcol then f - cal_gcol_cnts_for_update tbl f else f)"
  have k: "k f < length (stored_columns tbl) \<and> stored_columns tbl ! k f = tbl ! f"
    if "f \<in> set fs" "\<not> c_virtual_gcol (tbl ! f)" for f
    using that assms(2,3) stored_position no_gcol_position by (auto simp: k_def)
  have "map ((!) (stored_columns tbl)) fs' = map ((!) tbl) (filter (\<lambda>f. \<not> c_virtual_gcol (tbl ! f)) fs)"
    unfolding fs' renumber_def k_def [symmetric] using k by simp
  moreover have "\<forall>f' \<in> set fs'. f' < length (stored_columns tbl)"
    unfolding fs' renumber_def k_def [symmetric] using k by auto
  ultimately show ?thesis by (simp add: stored_columns_def filter_map o_def)
qed



text \<open>A table whose first column is virtual and thirteen TINYINT columns behind it.\<close>

definition wide_table :: "column list" where
  "wide_table = (plain_column MYSQL_TYPE_TINY 0)\<lparr>c_virtual_gcol := True\<rparr> # map (plain_column MYSQL_TYPE_TINY) [0..<13]"

lemma wide_wf:
  "table_wf demo_api m 0 (map ((!) wide_table) [1, 2])"
  by (simp add: table_wf_def wide_table_def basic_api_def stored_columns_def plain_column_def exact_column_def
      entry_type_def column_aux_def get_auxiliary_for_field_convert_def mysql_type_no_def g_field_cnvrt_aux_array_def
      aux_entry_def exact_type_def column_placed_def columns_apart_def disjoint_areas_def value_len_def upt_rec)


lemma tiny_write:
  "write_column demo_api () (plain_column MYSQL_TYPE_TINY k) (\<lambda>_. 42) pos c off serial =
     ((), Inr (row_set_column_bits2 (mem_write off [42, 0, 0, 0] c) 1 pos, off + 4, serial))"
proof -
  have v: "mem_read (\<lambda>_. 42 :: byte) (c_offset (plain_column MYSQL_TYPE_TINY k)) 1 = [42]" by (simp add: mem_read_def)
  have n: "convert_numeric_datatype 4 [42] u = [42, 0, 0, 0]" for u
  proof -
    have "convert_numeric_datatype 4 [42] True = [42, 0, 0, 0]" by code_simp
    moreover have "convert_numeric_datatype 4 [42] False = [42, 0, 0, 0]" by code_simp
    ultimately show ?thesis by (cases u) simp_all
  qed
  have a: "column_aux (api_type_no demo_api) (plain_column MYSQL_TYPE_TINY k) =
      Some (aux_entry MYSQL_TYPE_TINY CANTIAN_COL_BITS_4 NUMERIC_DATA CTC_DDL_TYPE_LONG)"
    by (simp add: column_aux_def basic_api_def get_auxiliary_for_field_convert_def plain_column_def mysql_type_no_def
        g_field_cnvrt_aux_array_def)
  have c: "c_type (plain_column MYSQL_TYPE_TINY k) = MYSQL_TYPE_TINY" "\<not> is_null (plain_column MYSQL_TYPE_TINY k) m"
    "\<not> c_auto_increment (plain_column MYSQL_TYPE_TINY k)" for m
    by (simp_all add: plain_column_def is_null_def)
  show ?thesis
    unfolding write_column_def using a c n v
    by (simp add: aux_entry_def get_map_and_field_len_def convert_data_from_mysql_to_cantian_def
        convert_numeric_to_cantian_def CANTIAN_COL_BITS_4_def CANTIAN_COL_BITS_VAR_def)
qed

lemma row_set_at:
  "row_set_column_bits2 row bits i a =
     (if a = 5 + i div 4 then (row a AND NOT (push_bit (2 * (i mod 4)) 3)) OR push_bit (2 * (i mod 4)) bits else row a)"
  by (simp add: row_set_column_bits2_def BITMAP_ADDR_def Let_def)


lemma update_column_numbers_witness:
  "\<exists>row sz serial fs'. mysql_record_to_cantian_record demo_api () wide_table True (\<lambda>_. 42) (\<lambda>_. 0) (Some [0, 1, 3]) =
       ((), Inr (row, sz, serial, fs')) \<and>
     map ((!) (stored_columns wide_table)) fs' = stored_columns (map ((!) wide_table) [0, 1, 3])"
proof -
  have w: "wide_table ! 0 = (plain_column MYSQL_TYPE_TINY 0)\<lparr>c_virtual_gcol := True\<rparr>"
    "wide_table ! 1 = plain_column MYSQL_TYPE_TINY 0" "wide_table ! 3 = plain_column MYSQL_TYPE_TINY 2"
    by (simp_all add: wide_table_def upt_rec numeral_2_eq_2)
  have nv: "\<not> c_virtual_gcol (plain_column t k)" "length wide_table = 14" for t k
    by (simp_all add: plain_column_def wide_table_def)
  have "\<exists>row sz serial fs'. mysql_record_to_cantian_record demo_api () wide_table True (\<lambda>_. 42) (\<lambda>_. 0) (Some [0, 1, 3]) =
       ((), Inr (row, sz, serial, fs'))"
    using w by (simp add: mysql_record_to_cantian_record_def Let_def tiny_write nv)
  moreover have "gcol_flag_ok wide_table True" by (simp add: gcol_flag_ok_def)
  ultimately show ?thesis using nv(2)
      update_column_numbers [of demo_api "()" wide_table True "\<lambda>_. 42" "\<lambda>_. 0" "[0, 1, 3]"] by fastforce
qed

unbundle bit_operations_syntax

section \<open>Record length\<close>

text \<open>
  \<open>get_cantian_record_length\<close>: the bytes reserved for one column, kept in a 16-bit variable, and the
  length for a table; -1 for a column type that is not supported. The locator of a large object has 44 bytes.
\<close>

definition cantian_field_length :: "column \<Rightarrow> nat option" where
  "cantian_field_length col =
     (if c_type col \<in> {MYSQL_TYPE_TINY, MYSQL_TYPE_SHORT, MYSQL_TYPE_INT24, MYSQL_TYPE_LONG} then Some 4
      else if c_type col \<in> {MYSQL_TYPE_DOUBLE, MYSQL_TYPE_FLOAT, MYSQL_TYPE_BIT, MYSQL_TYPE_LONGLONG, MYSQL_TYPE_TIMESTAMP,
                MYSQL_TYPE_DATETIME, MYSQL_TYPE_DATE, MYSQL_TYPE_YEAR, MYSQL_TYPE_TIME} then Some 8
      else if c_type col \<in> {MYSQL_TYPE_VARCHAR, MYSQL_TYPE_STRING} then Some (ROUND_UP (c_row_pack_length col + 2) 4 mod 2 ^ 16)
      else if c_type col = MYSQL_TYPE_NEWDECIMAL
      then Some (let ncells = ALIGN_UP (int (c_precision col) - int (c_decimals col)) 4 + ALIGN_UP (int (c_decimals col)) 4
                 in ROUND_UP (nat ((1 + ncells) * 2 + 2)) 4 mod 2 ^ 16)
      else if c_type col \<in> {MYSQL_TYPE_BLOB, MYSQL_TYPE_JSON, MYSQL_TYPE_TINY_BLOB, MYSQL_TYPE_MEDIUM_BLOB}
      then Some (ROUND_UP (LOB_LOCATOR_SIZE + 2) 4 mod 2 ^ 16)
      else None)"

fun sum_field_lengths :: "column list \<Rightarrow> nat \<Rightarrow> int" where
  "sum_field_lengths [] acc = int acc"
| "sum_field_lengths (col # cols) acc =
     (case cantian_field_length col of None \<Rightarrow> -1 | Some n \<Rightarrow> sum_field_lengths cols (acc + n))"

definition get_cantian_record_length :: "column list \<Rightarrow> int" where
  "get_cantian_record_length tbl = sum_field_lengths tbl (ROW_HEAD_SIZE + col_bitmap_ex_size (length tbl))"

text \<open>MySQL's invariants on lengths: a string fits its column, and an ENUM or SET takes its pack length.\<close>

definition column_fits :: "mem \<Rightarrow> column \<Rightarrow> bool" where
  "column_fits m col \<longleftrightarrow> (c_type col = MYSQL_TYPE_VARCHAR \<longrightarrow> column_len col MYSQL_TYPE_VARCHAR m \<le> c_row_pack_length col) \<and>
     (fd_real_type (c_desc col) \<in> {MYSQL_TYPE_ENUM, MYSQL_TYPE_SET} \<longrightarrow> c_type col = MYSQL_TYPE_STRING) \<and>
     fd_pack_length (c_desc col) = int (c_row_pack_length col) \<and> 1 \<le> c_row_pack_length col \<and> c_row_pack_length col \<le> 8000"

lemma round_up_mono: "a \<le> b \<Longrightarrow> ROUND_UP a 4 \<le> ROUND_UP b 4"
proof -
  assume "a \<le> b"
  define q r q' r' where "q = a div 4" "r = a mod 4" "q' = b div 4" "r' = b mod 4"
  then have "a = 4 * q + r" "r < 4" "b = 4 * q' + r'" "r' < 4" by simp_all
  with \<open>a \<le> b\<close> show ?thesis unfolding ROUND_UP_def q_r_q'_r'_def [symmetric] by (simp split: if_splits) presburger+
qed

lemma round_up_bound: "ROUND_UP n 4 \<le> n + 3"
proof -
  define q r where "q = n div 4" and "r = n mod 4"
  have "n = 4 * q + r" "r < 4" by (simp_all add: q_def r_def)
  then show ?thesis unfolding ROUND_UP_def q_def [symmetric] r_def [symmetric] by simp
qed

lemma align16_mono: "a \<le> b \<Longrightarrow> CM_ALIGN16 a \<le> CM_ALIGN16 b"
proof -
  assume "a \<le> b"
  define q r q' r' where "q = a div 16" "r = a mod 16" "q' = b div 16" "r' = b mod 16"
  then have "a = 16 * q + r" "r < 16" "b = 16 * q' + r'" "r' < 16" by simp_all
  with \<open>a \<le> b\<close> show ?thesis unfolding CM_ALIGN16_def q_r_q'_r'_def [symmetric] by (simp split: if_splits) presburger+
qed

lemma ex_size_mono: "n \<le> k \<Longrightarrow> col_bitmap_ex_size n \<le> col_bitmap_ex_size k"
  unfolding col_bitmap_ex_size_def CT_SPRS_COLUMNS_def by (auto intro!: div_le_mono align16_mono)

lemma entry_of_low:
  assumes "mysql_enum (api_type_no api)" "mysql_type_no (c_type col) < 243"
  shows "entry_type api col = c_type col"
  using assms(2) unfolding entry_type_def column_aux_def mysql_enum_eq [OF assms(1)]
  by (cases "c_type col") (simp_all add: get_auxiliary_for_field_convert_def mysql_type_no_def
    g_field_cnvrt_aux_array_def aux_entry_def)

lemma entry_of_high:
  assumes "mysql_enum (api_type_no api)" "\<not> mysql_type_no (c_type col) < 243"
  shows "entry_type api col = (if fd_real_type (c_desc col) \<in> {MYSQL_TYPE_ENUM, MYSQL_TYPE_SET}
    then enum_storage_type (fd_pack_length (c_desc col))
    else if c_type col \<in> {MYSQL_TYPE_INVALID, MYSQL_TYPE_BOOL, MYSQL_TYPE_ENUM, MYSQL_TYPE_SET, MYSQL_TYPE_GEOMETRY}
    then MYSQL_TYPE_INVALID else c_type col)"
proof (cases "fd_real_type (c_desc col) \<in> {MYSQL_TYPE_ENUM, MYSQL_TYPE_SET}")
  case True
  then show ?thesis using assms(2) unfolding entry_type_def column_aux_def mysql_enum_eq [OF assms(1)]
    by (auto simp: get_auxiliary_for_field_convert_def get_idx_for_field_convert_def enum_storage_type_def mysql_type_no_def
      g_field_cnvrt_aux_array_def aux_entry_def Let_def)
next
  case False
  then show ?thesis using assms(2) unfolding entry_type_def column_aux_def mysql_enum_eq [OF assms(1)]
    by (cases "c_type col") (simp_all add: get_auxiliary_for_field_convert_def get_idx_for_field_convert_def mysql_type_no_def
      g_field_cnvrt_aux_array_def aux_entry_def Let_def)
qed

lemma cell_room_class:
  assumes "api_exact api" "exact_type col t"
  shows "cell_room (cell api col t m) \<le> (if class_of t = CANTIAN_COL_BITS_4 then 4
    else if class_of t = CANTIAN_COL_BITS_8 then 8 else ROUND_UP (2 + column_len col t m) 4)"
proof (cases "is_null col m")
  case True
  then show ?thesis by (simp add: cell_room_def cell_def)
next
  case False
  then have c: "cell_room (cell api col t m) = (if class_of t = CANTIAN_COL_BITS_VAR
      then ROUND_UP (2 + length (column_data api col t m)) 4 else length (column_data api col t m))"
    by (simp add: cell_room_def cell_def)
  consider "family_of t = NUMERIC_DATA" "class_of t \<in> {CANTIAN_COL_BITS_4, CANTIAN_COL_BITS_8}"
    | "family_of t = DATETIME_DATA" "class_of t = CANTIAN_COL_BITS_8"
    | "family_of t = STRING_DATA" "class_of t = CANTIAN_COL_BITS_VAR"
    using exact_family [OF assms(2)] by blast
  then show ?thesis
  proof cases
    case 1
    then show ?thesis unfolding c using numeric_data [OF assms 1(1), of m 0] by auto
  next
    case 2
    then show ?thesis unfolding c using datetime_data [OF assms(2) 2(1), of api m] by simp
  next
    case 3
    then show ?thesis unfolding c by (simp add: column_data_def)
  qed
qed

text \<open>The room of an exact column is within what is reserved for it.\<close>

lemma cell_room_reserved:
  assumes "api_exact api" "exact api col" "column_fits m col"
  shows "\<exists>n. cantian_field_length col = Some n \<and> cell_room (column_cell api m col) \<le> n"
proof -
  let ?t = "entry_type api col"
  have en: "mysql_enum (api_type_no api)" using assms(1) by (simp add: api_exact_def)
  have ex: "exact_type col ?t" using assms(2) by (simp add: exact_column_def)
  note room = cell_room_class [OF assms(1) ex, of m, folded column_cell_def]
  have r: "ROUND_UP (c_row_pack_length col + 2) 4 mod 2 ^ 16 = ROUND_UP (c_row_pack_length col + 2) 4"
    using assms(3) round_up_bound [of "c_row_pack_length col + 2"] by (simp add: column_fits_def)
  show ?thesis
  proof (cases "mysql_type_no (c_type col) < 243")
    case True
    then have t: "?t = c_type col" by (rule entry_of_low [OF en])
    show ?thesis
    proof (cases "c_type col = MYSQL_TYPE_VARCHAR")
      case v: True
      then have "column_len col ?t m \<le> c_row_pack_length col" using assms(3) t by (simp add: column_fits_def)
      then have "ROUND_UP (2 + column_len col ?t m) 4 \<le> ROUND_UP (c_row_pack_length col + 2) 4" by (intro round_up_mono) simp
      then show ?thesis using room t v r by (simp add: cantian_field_length_def class_of_def)
    next
      case False
      then show ?thesis using room ex True unfolding t
        by (cases "c_type col") (simp_all add: cantian_field_length_def class_of_def exact_type_def mysql_type_no_def)
    qed
  next
    case high: False
    note t = entry_of_high [OF en high]
    show ?thesis
    proof (cases "fd_real_type (c_desc col) \<in> {MYSQL_TYPE_ENUM, MYSQL_TYPE_SET}")
      case True
      then have c: "c_type col = MYSQL_TYPE_STRING" using assms(3) by (simp add: column_fits_def)
      have p: "fd_pack_length (c_desc col) = int (c_row_pack_length col)" "1 \<le> c_row_pack_length col"
        using assms(3) by (auto simp: column_fits_def)
      have "3 < c_row_pack_length col \<or> c_row_pack_length col \<in> {1, 2, 3}" using p(2) by auto
      moreover have "ROUND_UP (3 + 2) 4 = 8" "ROUND_UP (1 + 2) 4 = 4" "ROUND_UP (2 + 2) 4 = 4" by (simp_all add: ROUND_UP_def)
      moreover have "3 < c_row_pack_length col \<Longrightarrow> ROUND_UP (3 + 2) 4 \<le> ROUND_UP (c_row_pack_length col + 2) 4"
        by (intro round_up_mono) simp
      ultimately show ?thesis using room t True c r p
        by (auto simp: cantian_field_length_def class_of_def enum_storage_type_def split: if_splits)
    next
      case False
      then have c: "c_type col = MYSQL_TYPE_STRING" "?t = MYSQL_TYPE_STRING"
        using t ex high by (cases "c_type col"; simp add: exact_type_def mysql_type_no_def)+
      have "column_len col ?t m \<le> c_row_pack_length col"
        using c(2) trim_pad_le by (simp add: column_len_def calculate_variable_len_def class_of_def)
      then have "ROUND_UP (2 + column_len col ?t m) 4 \<le> ROUND_UP (c_row_pack_length col + 2) 4" by (intro round_up_mono) simp
      then show ?thesis using room c r by (simp add: cantian_field_length_def class_of_def)
    qed
  qed
qed

lemma sum_field_lengths_bound:
  assumes "api_exact api" "\<forall>col \<in> set (stored_columns cols). exact api col \<and> column_fits m col"
    and "\<forall>col \<in> set cols. cantian_field_length col \<noteq> None"
  shows "int (acc + columns_room api m cols) \<le> sum_field_lengths cols acc"
  using assms(2,3)
proof (induction cols arbitrary: acc)
  case (Cons col cols)
  obtain n where n: "cantian_field_length col = Some n" using Cons.prems(2) by auto
  have p: "\<forall>col \<in> set (stored_columns cols). exact api col \<and> column_fits m col" "\<forall>col \<in> set cols. cantian_field_length col \<noteq> None"
    using Cons.prems by (auto simp: stored_columns_def)
  show ?case
  proof (cases "c_virtual_gcol col")
    case True
    then show ?thesis using Cons.IH [OF p, of "acc + n"] n by (simp add: columns_room_def stored_columns_def)
  next
    case False
    then have "cell_room (column_cell api m col) \<le> n"
      using cell_room_reserved [OF assms(1), of col m] Cons.prems(1) n by (auto simp: stored_columns_def)
    then show ?thesis using False Cons.IH [OF p, of "acc + n"] n by (simp add: columns_room_def stored_columns_def)
  qed
qed (simp add: columns_room_def stored_columns_def)


lemma demo_fits: "\<forall>col \<in> set (stored_columns demo_table). exact demo_api col"
  using demo_table_wf by (simp add: table_wf_def)

definition narrow_table :: "column list" where
  "narrow_table = map (\<lambda>col. col\<lparr>c_desc := (c_desc col)\<lparr>fd_pack_length := 10\<rparr>\<rparr>) demo_table"


text \<open>
  the length reserved for a string column is kept in sixteen bits. It is what the column's length
  asks for up to a length of 65530; for the longest strings MySQL allows, from 65531 to 65533 bytes, it is 0.
\<close>

lemma reserved_length_wraps:
  assumes "c_type col = MYSQL_TYPE_VARCHAR" "c_row_pack_length col \<le> 65533"
  shows "cantian_field_length col =
    Some (if c_row_pack_length col \<le> 65530 then ROUND_UP (c_row_pack_length col + 2) 4 else 0)"
proof (cases "c_row_pack_length col \<le> 65530")
  case True
  have "ROUND_UP (c_row_pack_length col + 2) 4 \<le> ROUND_UP (65530 + 2) 4" using True by (intro round_up_mono) simp
  then show ?thesis using assms True by (simp add: cantian_field_length_def ROUND_UP_def)
next
  case False
  then have "c_row_pack_length col \<in> {65531, 65532, 65533}" using assms(2) by auto
  then show ?thesis using assms by (auto simp: cantian_field_length_def ROUND_UP_def)
qed

lemma reserved_length_wraps_witness:
  "cantian_field_length ((plain_column MYSQL_TYPE_VARCHAR 0)\<lparr>c_row_pack_length := 65533\<rparr>) = Some 0"
  using reserved_length_wraps [of "(plain_column MYSQL_TYPE_VARCHAR 0)\<lparr>c_row_pack_length := 65533\<rparr>"]
  by (simp add: plain_column_def)

section \<open>Strings kept as large objects\<close>

text \<open>
  C28: a VARCHAR of more than 8000 bytes is kept as a large object. Reading back what was stored for it
  restores the string, up to 65535 bytes, unless it is empty: then the read runs into an assertion that
  its length is not 0.
\<close>

theorem long_string_round_trip:
  assumes "lob_store api content" "length data < 2 ^ 16" "\<And>n. malloc_ok api n" "c_type col = MYSQL_TYPE_VARCHAR"
    and "\<And>h locator column_id piece f. fst (snd (knl_write_lob api h locator column_id piece f)) = CT_SUCCESS"
  shows "\<exists>h' c' len. store_blob api h col data c coff = (h', Inr (c', coff + 2, len)) \<and>
    (if data = [] then load_long_string api h' col c' (coff + 2) m moff = Inl Conv_assert
     else \<exists>m'. load_long_string api h' col c' (coff + 2) m moff = Inr m' \<and> mem_read m' moff (length data) = data)"
proof -
  obtain h' c' len where w: "convert_blob_to_cantian api h c coff data (c_index col) = (h', Inr (c', coff + 2, len))"
    "convert_blob_to_mysql api h' c' (coff + 2) = Blob_data data"
    using lob_written_read [OF assms(1) _ assms(3,5), of data h c coff "c_index col"] assms(2) by auto
  have sz: "lob_size (mem_read c' (coff + 2) 4) = length data"
    using blob_data_size [OF w(2)] .
  have "store_blob api h col data c coff = (h', Inr (c', coff + 2, len))" using w(1) by (simp add: store_blob_def)
  moreover have "load_blob api h' col c' (coff + 2) m moff = Inr (mem_write moff (api_buffer_addr api data) m)"
    using w(2) assms(4) by (simp add: load_blob_def)
  ultimately show ?thesis using w(2) sz assms(2) by (auto simp: load_long_string_def Let_def)
qed


lemma lob_store_cong:
  "knl_write_lob api = knl_write_lob api' \<Longrightarrow> knl_read_lob api = knl_read_lob api' \<Longrightarrow>
   lob_store api content = lob_store api' content"
  by (simp add: lob_store_def)

definition string_api :: "byte list row_api" where
  "string_api = basic_api\<lparr>knl_write_lob := knl_write_lob one_value_api, knl_read_lob := knl_read_lob one_value_api\<rparr>"

theorem long_string_round_trip_witness:
  "(\<exists>h' c' len. store_blob string_api [] (plain_column MYSQL_TYPE_VARCHAR 0) [] (\<lambda>_. 0) 8 = (h', Inr (c', 8 + 2, len)) \<and>
     load_long_string string_api h' (plain_column MYSQL_TYPE_VARCHAR 0) c' (8 + 2) (\<lambda>_. 0) 2 = Inl Conv_assert) \<and>
   (\<exists>h' c' len m'. store_blob string_api [] (plain_column MYSQL_TYPE_VARCHAR 0) (replicate 9000 65) (\<lambda>_. 0) 8 = (h', Inr (c', 8 + 2, len)) \<and>
     load_long_string string_api h' (plain_column MYSQL_TYPE_VARCHAR 0) c' (8 + 2) (\<lambda>_. 0) 2 = Inr m' \<and>
     mem_read m' 2 9000 = replicate 9000 65)"
proof -
  have st: "lob_store string_api (\<lambda>h _. h)"
    using one_value_store lob_store_cong [of string_api one_value_api] by (simp add: string_api_def)
  have ok: "malloc_ok string_api n" "c_type (plain_column MYSQL_TYPE_VARCHAR 0) = MYSQL_TYPE_VARCHAR"
    "fst (snd (knl_write_lob string_api h locator column_id piece f)) = CT_SUCCESS" for n h locator column_id piece f
    by (simp_all add: string_api_def basic_api_def plain_column_def one_value_api_def Let_def)
  have r: "(replicate 9000 65 :: byte list) \<noteq> []" "length (replicate 9000 (65 :: byte)) = 9000" by simp_all
  have e: "length ([] :: byte list) < 2 ^ 16" "length (replicate 9000 (65 :: byte)) < 2 ^ 16" by simp_all
  note t = long_string_round_trip [OF st e(1) ok, of "[]" "\<lambda>_. 0" 8 "\<lambda>_. 0" 2]
    long_string_round_trip [OF st e(2) ok, of "[]" "\<lambda>_. 0" 8 "\<lambda>_. 0" 2]
  show ?thesis using t(1) t(2) unfolding if_P [OF refl] if_not_P [OF r(1)] r(2) by blast
qed

end
