(* ===== verification/CTC_Fill.thy ===== *)
theory CTC_Fill
  imports CTC_Cond CTC_Record "HOL-Library.Multiset"
begin

text \<open>
  Serialisation of a pushed condition (ctc_util.cc, ha_ctc.cc): the tree of items becomes a tree of
  \<open>ctc_conds\<close> in buffers allocated from the engine, which the engine evaluates. The values the code reads
  from MySQL's items are a parameter, the record \<open>item_api\<close>; so is the outcome of every allocation. A
  pointer to the parent's function type is passed down, through which a date constant may widen the
  comparison it belongs to; reading through the null pointer is a fault.
\<close>

section \<open>Buffers\<close>

text \<open>Allocation number \<open>n\<close> succeeds if \<open>fh_ok n\<close>; \<open>fh_live\<close> are the buffers not freed.\<close>

record fill_heap =
  fh_next :: nat
  fh_ok :: "nat \<Rightarrow> bool"
  fh_live :: "nat list"

definition ctc_alloc_buf :: "fill_heap \<Rightarrow> fill_heap \<times> nat option" where
  "ctc_alloc_buf h =
     (let n = fh_next h; h = h\<lparr>fh_next := n + 1\<rparr>
      in if fh_ok h n then (h\<lparr>fh_live := n # fh_live h\<rparr>, Some n) else (h, None))"

definition ctc_free_buf :: "nat \<Rightarrow> fill_heap \<Rightarrow> fill_heap" where
  "ctc_free_buf n h = h\<lparr>fh_live := remove1 n (fh_live h)\<rparr>"

section \<open>The serialised condition\<close>

record cond_info =
  ci_cond_type :: ctc_cond_type
  ci_func_type :: ctc_func_type
  ci_field_no :: nat
  ci_field_type :: ddl_field_type
  ci_field_size :: nat
  ci_field_value :: "(nat \<times> byte list) option"
  ci_null_value :: bool
  ci_is_unsigned :: bool
  ci_collate_id :: int
  ci_timezone :: int
  ci_no_backslash :: bool

text \<open>The node of all zeros that \<open>memset\<close> makes.\<close>

definition zero_info :: cond_info where
  "zero_info = \<lparr>ci_cond_type = CTC_FIELD_EXPR, ci_func_type = CTC_EQ_FUNC, ci_field_no = 0,
     ci_field_type = CTC_DDL_TYPE_DECIMAL, ci_field_size = 0, ci_field_value = None, ci_null_value = False,
     ci_is_unsigned = False, ci_collate_id = 0, ci_timezone = 0, ci_no_backslash = False\<rparr>"

text \<open>The buffer of a node, its members, and the buffer and the nodes of its list if it has one.\<close>

datatype conds = Conds (cn_buf: nat) (cn_info: cond_info) (cn_list: "(nat \<times> conds list) option")

text \<open>Success, an error code, a failed assertion or an access outside a buffer, and an access through the null pointer.\<close>

datatype fill_status = Fill_ok | Fill_error | Fill_fault | Fill_null

section \<open>What is read of MySQL\<close>

record tfield =
  tf_name :: string
  tf_type :: field_type
  tf_desc :: field_desc
  tf_gcol :: bool
  tf_virtual :: bool

text \<open>
  \<open>ia_cast\<close>: the dynamic cast to the class of the item's type succeeds. \<open>ia_decimal\<close>: the binary form of a
  decimal constant with its precision and scale. \<open>ia_tz_offset\<close>: the offset of a time zone given by an
  offset, \<open>ia_tm_sess\<close>: the session's seconds for the second of January 1970.
\<close>

record item_api =
  ia_cast :: "item \<Rightarrow> bool"
  ia_null_value :: "item \<Rightarrow> bool"
  ia_has_value :: "item \<Rightarrow> bool"
  ia_val_int :: "item \<Rightarrow> int"
  ia_unsigned :: "item \<Rightarrow> bool"
  ia_val_real :: "item \<Rightarrow> byte list"
  ia_decimal :: "item \<Rightarrow> byte list \<times> nat \<times> nat"
  ia_val_str :: "item \<Rightarrow> byte list"
  ia_mbminlen :: "item \<Rightarrow> nat"
  ia_collation :: "item \<Rightarrow> int"
  ia_name :: "item \<Rightarrow> string"
  ia_get_date :: "item \<Rightarrow> mysql_time option"
  ia_same_name :: "string \<Rightarrow> string \<Rightarrow> bool"
  ia_date_binary :: "mysql_time \<Rightarrow> byte list"
  ia_tz_offset :: "int option"
  ia_tm_sess :: int
  ia_session_to_utc :: "mysql_time \<Rightarrow> mysql_time option"

section \<open>Columns\<close>

definition INVALID_MAX_COLUMN :: nat where "INVALID_MAX_COLUMN = 65535"

fun ctc_get_column_by_field :: "item_api \<Rightarrow> tfield list \<Rightarrow> string \<Rightarrow> nat \<Rightarrow> nat" where
  "ctc_get_column_by_field ia [] col_name col_id = INVALID_MAX_COLUMN"
| "ctc_get_column_by_field ia (f # fs) col_name col_id =
     (if ia_same_name ia (tf_name f) col_name then col_id else ctc_get_column_by_field ia fs col_name (col_id + 1))"

definition ctc_set_cond_field_size :: "field_cnvrt_aux \<Rightarrow> cond_info \<Rightarrow> cond_info \<times> fill_status" where
  "ctc_set_cond_field_size aux ci =
     (if aux_cantian_map_type aux = CANTIAN_COL_BITS_4 then (ci\<lparr>ci_field_size := 4\<rparr>, Fill_ok)
      else if aux_cantian_map_type aux = CANTIAN_COL_BITS_8 then (ci\<lparr>ci_field_size := 8\<rparr>, Fill_ok)
      else if aux_cantian_map_type aux = CANTIAN_COL_BITS_VAR then (ci, Fill_ok)
      else (ci, Fill_error))"

definition mysql_collate_num_to_ctc_type :: "(int \<times> int) list" where
  "mysql_collate_num_to_ctc_type = [(3, 87), (4, 28), (5, 45), (6, 46), (7, 63), (8, 255), (9, 309), (10, 48), (13, 49),
     (12, 47), (14, 65), (15, 33), (16, 83), (45, 5), (46, 6), (63, 7), (255, 8), (309, 9), (48, 10), (49, 11), (47, 12),
     (11, 13), (65, 14), (28, 4), (87, 3), (33, 15), (83, 16), (76, 17)]"

definition ctc_get_column_cs :: "int \<Rightarrow> int" where
  "ctc_get_column_cs number = (case map_of mysql_collate_num_to_ctc_type number of Some c \<Rightarrow> c | None \<Rightarrow> number)"

text \<open>The generated columns before column \<open>n\<close>.\<close>

definition gcol_count_before :: "tfield list \<Rightarrow> nat \<Rightarrow> nat" where
  "gcol_count_before tbl n = length (filter tf_gcol (take n tbl))"

text \<open>The lookup of the table of conversions may overwrite the table's data-definition types; \<open>arr\<close> is its state.\<close>

definition cond_fill_field ::
    "(field_type \<Rightarrow> int) \<Rightarrow> item_api \<Rightarrow> tfield list \<Rightarrow> field_cnvrt_aux list \<Rightarrow> bool \<Rightarrow> item \<Rightarrow> cond_info \<Rightarrow> cond_info \<times> fill_status" where
  "cond_fill_field num ia tbl arr no_backslash item ci =
     (if \<not> ia_cast ia item then (ci, Fill_error)
      else
        let n = ctc_get_column_by_field ia tbl (ia_name ia item) 0;
            ci = ci\<lparr>ci_cond_type := CTC_FIELD_EXPR, ci_field_no := n\<rparr>
        in if n = INVALID_MAX_COLUMN then (ci, Fill_error)
           else
             let ci = (if no_backslash then ci\<lparr>ci_no_backslash := True\<rparr> else ci);
                 ci = ci\<lparr>ci_collate_id := ctc_get_column_cs (ia_collation ia item)\<rparr>;
                 f = tbl ! n;
                 t = (if tf_type f = MYSQL_TYPE_FLOAT then MYSQL_TYPE_DOUBLE else tf_type f)
             in case get_auxiliary_for_field_convert num arr (tf_desc f) t of
                  (_, None) \<Rightarrow> (ci, Fill_null)
                | (arr, Some i) \<Rightarrow>
                    ctc_set_cond_field_size (arr ! i)
                      (ci\<lparr>ci_field_type := aux_ddl_field_type (arr ! i), ci_field_no := n - gcol_count_before tbl n\<rparr>))"

section \<open>Constants\<close>

definition cond_fill_null :: "item_api \<Rightarrow> item \<Rightarrow> cond_info \<Rightarrow> cond_info" where
  "cond_fill_null ia item ci = ci\<lparr>ci_cond_type := CTC_CONST_EXPR, ci_null_value := ia_null_value ia item,
     ci_field_type := CTC_DDL_TYPE_NULL, ci_field_size := 0\<rparr>"

definition ctc_cond_fill_data_int :: "fill_heap \<Rightarrow> int \<Rightarrow> bool \<Rightarrow> cond_info \<Rightarrow> fill_heap \<times> cond_info \<times> fill_status" where
  "ctc_cond_fill_data_int h val is_unsigned ci =
     (let ci = ci\<lparr>ci_field_size := 8\<rparr>
      in case ctc_alloc_buf h of
           (h, None) \<Rightarrow> (h, ci, Fill_error)
         | (h, Some b) \<Rightarrow> (h, ci\<lparr>ci_field_value := Some (b, le_bytes 8 val), ci_field_type := CTC_DDL_TYPE_LONGLONG,
                                  ci_is_unsigned := is_unsigned\<rparr>, Fill_ok))"

definition cond_fill_int :: "item_api \<Rightarrow> fill_heap \<Rightarrow> item \<Rightarrow> cond_info \<Rightarrow> fill_heap \<times> cond_info \<times> fill_status" where
  "cond_fill_int ia h item ci =
     (let ci = ci\<lparr>ci_cond_type := CTC_CONST_EXPR\<rparr>
      in if \<not> ia_cast ia item then (h, ci, Fill_error)
         else let ci = ci\<lparr>ci_null_value := ia_null_value ia item\<rparr>
              in if ci_null_value ci then (h, ci, Fill_ok)
                 else ctc_cond_fill_data_int h (ia_val_int ia item) (ia_unsigned ia item) ci)"

definition cond_fill_real :: "item_api \<Rightarrow> fill_heap \<Rightarrow> item \<Rightarrow> cond_info \<Rightarrow> fill_heap \<times> cond_info \<times> fill_status" where
  "cond_fill_real ia h item ci =
     (let ci = ci\<lparr>ci_cond_type := CTC_CONST_EXPR, ci_field_type := CTC_DDL_TYPE_DOUBLE\<rparr>
      in if \<not> ia_cast ia item then (h, ci, Fill_error)
         else let ci = ci\<lparr>ci_null_value := ia_null_value ia item\<rparr>
              in if ci_null_value ci then (h, ci, Fill_ok)
                 else let ci = ci\<lparr>ci_field_size := 8\<rparr>
                      in case ctc_alloc_buf h of
                           (h, None) \<Rightarrow> (h, ci, Fill_error)
                         | (h, Some b) \<Rightarrow> (h, ci\<lparr>ci_field_value := Some (b, ia_val_real ia item)\<rparr>, Fill_ok))"

text \<open>\<open>malloc\<close> is the outcome of the allocation of the temporary buffer.\<close>

definition cond_fill_decimal ::
    "('h, 'a) row_api_scheme \<Rightarrow> item_api \<Rightarrow> fill_heap \<Rightarrow> item \<Rightarrow> cond_info \<Rightarrow> fill_heap \<times> cond_info \<times> fill_status" where
  "cond_fill_decimal api ia h item ci =
     (let ci = ci\<lparr>ci_cond_type := CTC_CONST_EXPR, ci_field_type := CTC_DDL_TYPE_DECIMAL\<rparr>
      in if \<not> ia_cast ia item then (h, ci, Fill_error)
         else let ci = ci\<lparr>ci_null_value := ia_null_value ia item\<rparr>
              in if ci_null_value ci then (h, ci, Fill_ok)
                 else case ia_decimal ia item of (bs, prec, scale) \<Rightarrow>
                   if \<not> malloc_ok api (length bs) then (h, ci, Fill_error)
                   else case decimal_mysql_to_cantian api bs prec scale of
                          Inl e \<Rightarrow> (h, ci, Fill_error)
                        | Inr (data, len) \<Rightarrow>
                            let ci = ci\<lparr>ci_field_size := len mod 2 ^ 16\<rparr>
                            in case ctc_alloc_buf h of
                                 (h, None) \<Rightarrow> (h, ci, if ci_field_size ci > 0 then Fill_error else Fill_ok)
                               | (h, Some b) \<Rightarrow> (h, ci\<lparr>ci_field_value := Some (b, take (ci_field_size ci) data)\<rparr>, Fill_ok))"

definition cond_fill_cache :: "item_api \<Rightarrow> fill_heap \<Rightarrow> item \<Rightarrow> cond_info \<Rightarrow> fill_heap \<times> cond_info \<times> fill_status" where
  "cond_fill_cache ia h item ci =
     (let ci = ci\<lparr>ci_cond_type := CTC_CONST_EXPR\<rparr>
      in if \<not> ia_cast ia item then (h, ci, Fill_error)
         else let ci = ci\<lparr>ci_null_value := \<not> ia_has_value ia item\<rparr>
              in if ci_null_value ci then (h, ci, Fill_ok)
                 else if it_result_type (attr item) = INT_RESULT
                 then ctc_cond_fill_data_int h (ia_val_int ia item) (ia_unsigned ia item) ci
                 else (h, ci, Fill_error))"

section \<open>Dates\<close>

text \<open>The parent's function type behind the pointer; \<^const>\<open>None\<close> is the null pointer.\<close>

type_synonym functype_ptr = "ctc_func_type option"

definition refill_cond_type_date :: "mysql_time \<Rightarrow> ctc_func_type \<Rightarrow> ctc_func_type" where
  "refill_cond_type_date ltime functype =
     (if mt_hour ltime = 0 \<or> mt_minute ltime = 0 \<or> mt_second ltime = 0 \<or> mt_second_part ltime = 0
      then (if functype = CTC_LT_FUNC then CTC_LE_FUNC
            else if functype = CTC_NE_FUNC then CTC_ISNOTNULL_FUNC else functype)
      else functype)"

text \<open>A timestamp constant, of the session's time zone, as a time of UTC.\<close>

definition timestamp_to_utc :: "('h, 'a) row_api_scheme \<Rightarrow> mysql_time \<Rightarrow> mysql_time option" where
  "timestamp_to_utc api ltime =
     (if check_zero_time_ltime ltime then Some ltime
      else case ctc_datetime_with_no_zero_in_date_to_timeval api ltime of
             None \<Rightarrow> None
           | Some (tm, warnings) \<Rightarrow>
               if warnings = 0 \<or> warnings = MYSQL_TIME_WARN_TRUNCATED
               then Some (api_gmt_sec_to_TIME api (case tm of Some t \<Rightarrow> t | None \<Rightarrow> (0, 0))) else None)"

definition ctc_fill_cond_field_data_date ::
    "('h, 'a) row_api_scheme \<Rightarrow> item_api \<Rightarrow> fill_heap \<Rightarrow> field_type \<Rightarrow> functype_ptr \<Rightarrow> mysql_time \<Rightarrow> cond_info \<Rightarrow>
     fill_heap \<times> functype_ptr \<times> cond_info \<times> fill_status" where
  "ctc_fill_cond_field_data_date api ia h datatype functype ltime ci =
     (let ci = ci\<lparr>ci_cond_type := CTC_CONST_EXPR, ci_field_size := 8\<rparr>
      in case ctc_alloc_buf h of
           (h, None) \<Rightarrow> (h, functype, ci, Fill_error)
         | (h, Some b) \<Rightarrow>
            (let put = (\<lambda>t bs. ci\<lparr>ci_field_type := t, ci_field_value := Some (b, bs)\<rparr>)
             in if datatype = MYSQL_TYPE_TIME
                then (h, functype, put CTC_DDL_TYPE_TIME
                       (pad8 (api_time_to_binary api (api_packed_of_time api ltime) DATETIME_MAX_DECIMALS)), Fill_ok)
                else if datatype = MYSQL_TYPE_DATETIME
                then (h, functype, put CTC_DDL_TYPE_DATETIME
                       (pad8 (api_datetime_to_binary api (api_packed_of_datetime api ltime) DATETIME_MAX_DECIMALS)), Fill_ok)
                else if datatype = MYSQL_TYPE_DATE
                then (case functype of
                        None \<Rightarrow> (h, functype, put CTC_DDL_TYPE_DATE (pad8 (ia_date_binary ia ltime)), Fill_null)
                      | Some f \<Rightarrow> (h, Some (refill_cond_type_date ltime f),
                                   put CTC_DDL_TYPE_DATE (pad8 (ia_date_binary ia ltime)), Fill_ok))
                else
                  let t = (if datatype = MYSQL_TYPE_TIMESTAMP then CTC_DDL_TYPE_TIMESTAMP else CTC_DDL_TYPE_YEAR)
                  in case (if datatype = MYSQL_TYPE_TIMESTAMP then timestamp_to_utc api ltime else Some ltime) of
                       None \<Rightarrow> (h, functype, put t [], Fill_fault)
                     | Some ltime \<Rightarrow>
                        (case cm_encode_date (assign_mysql_date_detail datatype ltime) of
                           None \<Rightarrow> (h, functype, put t [], Fill_fault)
                         | Some date \<Rightarrow> (h, functype, put t (le_bytes 8 date), Fill_ok))))"

definition SECONDS_IN_24H :: int where "SECONDS_IN_24H = 86400"
definition SECS_PER_MIN :: int where "SECS_PER_MIN = 60"

definition ctc_get_timezone_offset :: "item_api \<Rightarrow> int" where
  "ctc_get_timezone_offset ia = s16 ((SECONDS_IN_24H - ia_tm_sess ia) sdiv SECS_PER_MIN)"

definition cond_fill_date ::
    "('h, 'a) row_api_scheme \<Rightarrow> item_api \<Rightarrow> fill_heap \<Rightarrow> item \<Rightarrow> functype_ptr \<Rightarrow> cond_info \<Rightarrow>
     fill_heap \<times> functype_ptr \<times> cond_info \<times> fill_status" where
  "cond_fill_date api ia h item functype ci =
     (let datatype = it_data_type (attr item)
      in if \<not> ia_cast ia item then (h, functype, ci, Fill_error)
         else case (if datatype = MYSQL_TYPE_YEAR
                    then Some (zero_time\<lparr>mt_year := u32 (ia_val_int ia item), mt_month := 1, mt_day := 1\<rparr>)
                    else ia_get_date ia item) of
                None \<Rightarrow> (h, functype, ci, Fill_error)
              | Some ltime \<Rightarrow>
                  ctc_fill_cond_field_data_date api ia h datatype functype ltime
                    (ci\<lparr>ci_timezone := (case ia_tz_offset ia of Some s \<Rightarrow> s16 (s sdiv SECS_PER_MIN) | None \<Rightarrow> ctc_get_timezone_offset ia)\<rparr>))"

section \<open>Strings\<close>

text \<open>
  The loop of \<open>update_value_by_charset\<close>: \<open>data\<close> is the buffer, \<open>cur\<close> a 16-bit index into it; \<^const>\<open>None\<close> when a
  byte is stored outside of it.
\<close>

fun update_value_loop :: "nat \<Rightarrow> nat \<Rightarrow> nat \<Rightarrow> byte list \<Rightarrow> nat \<Rightarrow> (byte list \<times> nat) option" where
  "update_value_loop bytes i cur data 0 = Some (data, cur)"
| "update_value_loop bytes i cur data (Suc n) =
     (let cur = (if data ! i = 0x5F \<or> data ! i = 0x25 then (cur + 65536 - bytes) mod 65536 else cur)
      in if cur \<ge> length data then None
         else update_value_loop bytes (i + 1) ((cur + 1) mod 65536) (data[cur := data ! i]) n)"

definition update_value_by_charset :: "byte list \<Rightarrow> nat \<Rightarrow> nat \<Rightarrow> (byte list \<times> nat) option" where
  "update_value_by_charset data sz bytes =
     (if bytes = 0 then Some (data, sz) else update_value_loop bytes 0 0 data sz)"

definition cond_fill_string ::
    "item_api \<Rightarrow> fill_heap \<Rightarrow> bool \<Rightarrow> item \<Rightarrow> functype_ptr \<Rightarrow> cond_info \<Rightarrow> fill_heap \<times> cond_info \<times> fill_status" where
  "cond_fill_string ia h no_backslash item functype ci =
     (let ci = ci\<lparr>ci_cond_type := CTC_CONST_EXPR, ci_field_type := CTC_DDL_TYPE_VARCHAR,
                  ci_collate_id := ctc_get_column_cs (ia_collation ia item)\<rparr>;
          ci = (if no_backslash then ci\<lparr>ci_no_backslash := True\<rparr> else ci)
      in if \<not> ia_cast ia item then (h, ci, Fill_error)
         else let ci = ci\<lparr>ci_null_value := ia_null_value ia item\<rparr>
              in if ci_null_value ci then (h, ci, Fill_ok)
                 else let ci = ci\<lparr>ci_field_size := length (ia_val_str ia item) mod 2 ^ 16\<rparr>;
                          data = take (ci_field_size ci) (ia_val_str ia item)
                      in case ctc_alloc_buf h of
                           (h, None) \<Rightarrow>
                             if ci_field_size ci > 0 then (h, ci, Fill_error)
                             else (h, ci, if functype = None then Fill_null else Fill_ok)
                         | (h, Some b) \<Rightarrow>
                             let put = (\<lambda>bs. ci\<lparr>ci_field_value := Some (b, bs)\<rparr>)
                             in if functype = None then (h, put data, Fill_null)
                                else if functype = Some CTC_LIKE_FUNC
                                then (case update_value_by_charset data (ci_field_size ci) ((ia_mbminlen ia item - 1) mod 2 ^ 16) of
                                        None \<Rightarrow> (h, put data, Fill_fault)
                                      | Some (bs, n) \<Rightarrow> (h, (put bs)\<lparr>ci_field_size := n\<rparr>, Fill_ok))
                                else (h, put data, Fill_ok))"

section \<open>Trees\<close>

text \<open>
  \<open>dfs_fill_conds\<close> fills the node \<open>Conds buf ci None\<close>, already allocated and zeroed, for an item. The result is
  the heap, the parent's function type, the node and the status. \<open>fill_args\<close> is the loop of
  \<open>cond_fill_func\<close> and \<open>cond_fill_cond\<close> over at most \<open>n\<close> operands.
\<close>

fun dfs_fill_conds ::
      "('h, 'a) row_api_scheme \<Rightarrow> item_api \<Rightarrow> tfield list \<Rightarrow> field_cnvrt_aux list \<Rightarrow> bool \<Rightarrow> item \<Rightarrow> fill_heap \<Rightarrow>
       functype_ptr \<Rightarrow> nat \<Rightarrow> cond_info \<Rightarrow> fill_heap \<times> functype_ptr \<times> conds \<times> fill_status"
  and fill_args ::
      "('h, 'a) row_api_scheme \<Rightarrow> item_api \<Rightarrow> tfield list \<Rightarrow> field_cnvrt_aux list \<Rightarrow> bool \<Rightarrow> item list \<Rightarrow> nat \<Rightarrow>
       fill_heap \<Rightarrow> functype_ptr \<Rightarrow> fill_heap \<times> functype_ptr \<times> conds list \<times> fill_status"
where
  "dfs_fill_conds api ia tbl arr no_backslash (Item a args) h functype buf ci =
     (let item = Item a args;
          leaf = (\<lambda>(h, ci, status). (h, functype, Conds buf ci None, status))
      in case it_type a of
           FUNC_ITEM \<Rightarrow>
             (case ctc_alloc_buf h of
                (h, None) \<Rightarrow> (h, functype, Conds buf ci None, Fill_error)
              | (h, Some list) \<Rightarrow>
                  if \<not> ia_cast ia item then (h, functype, Conds buf ci (Some (list, [])), Fill_error)
                  else case set_cond_types (it_functype a) of (cond_type, func_type) \<Rightarrow>
                    let ci = ci\<lparr>ci_cond_type := cond_type, ci_func_type := func_type\<rparr>
                    in if cond_type = CTC_DATE_EXPR
                       then (case cond_fill_date api ia (ctc_free_buf list h) item functype ci of
                               (h, functype, ci, status) \<Rightarrow> (h, functype, Conds buf ci None, status))
                       else (case fill_args api ia tbl arr no_backslash args (length args mod 2 ^ 16) h (Some func_type) of
                               (h, ft, cs, status) \<Rightarrow>
                                 (h, functype, Conds buf (ci\<lparr>ci_func_type := the ft\<rparr>) (Some (list, cs)), status)))
         | COND_ITEM \<Rightarrow>
             (case ctc_alloc_buf h of
                (h, None) \<Rightarrow> (h, functype, Conds buf ci None, Fill_error)
              | (h, Some list) \<Rightarrow>
                  if \<not> ia_cast ia item then (h, functype, Conds buf ci (Some (list, [])), Fill_error)
                  else case set_cond_types (it_functype a) of (cond_type, func_type) \<Rightarrow>
                    (case fill_args api ia tbl arr no_backslash args (length args mod 2 ^ 16) h None of
                       (h, _, cs, status) \<Rightarrow>
                         (h, functype, Conds buf (ci\<lparr>ci_cond_type := cond_type, ci_func_type := func_type\<rparr>) (Some (list, cs)), status)))
         | FIELD_ITEM \<Rightarrow> (case cond_fill_field (api_type_no api) ia tbl arr no_backslash item ci of
                            (ci, status) \<Rightarrow> (h, functype, Conds buf ci None, status))
         | INT_ITEM \<Rightarrow> leaf (cond_fill_int ia h item ci)
         | REAL_ITEM \<Rightarrow> leaf (cond_fill_real ia h item ci)
         | DECIMAL_ITEM \<Rightarrow> leaf (cond_fill_decimal api ia h item ci)
         | STRING_ITEM \<Rightarrow> leaf (cond_fill_string ia h no_backslash item functype ci)
         | NULL_ITEM \<Rightarrow> (h, functype, Conds buf (cond_fill_null ia item ci) None, Fill_ok)
         | CACHE_ITEM \<Rightarrow> leaf (cond_fill_cache ia h item ci)
         | OTHER_ITEM \<Rightarrow> (h, functype, Conds buf ci None, Fill_error))"
| "fill_args api ia tbl arr no_backslash [] n h functype = (h, functype, [], Fill_ok)"
| "fill_args api ia tbl arr no_backslash (x # xs) n h functype =
     (if n = 0 then (h, functype, [], Fill_ok)
      else case ctc_alloc_buf h of
        (h, None) \<Rightarrow> (h, functype, [], Fill_error)
      | (h, Some buf) \<Rightarrow>
          (case dfs_fill_conds api ia tbl arr no_backslash x h functype buf zero_info of
             (h, functype, c, status) \<Rightarrow>
               if status \<noteq> Fill_ok then (h, functype, [c], status)
               else case fill_args api ia tbl arr no_backslash xs (n - 1) h functype of
                      (h, functype, cs, status) \<Rightarrow> (h, functype, c # cs, status)))"

text \<open>\<open>free_m_cond\<close> frees the children, the list, the value and the node.\<close>

fun free_m_cond :: "conds \<Rightarrow> fill_heap \<Rightarrow> fill_heap" where
  "free_m_cond (Conds buf ci l) h =
     (let h = (case l of None \<Rightarrow> h | Some (list, cs) \<Rightarrow> ctc_free_buf list (fold (\<lambda>c h. free_m_cond c h) cs h));
          h = (case ci_field_value ci of None \<Rightarrow> h | Some (b, _) \<Rightarrow> ctc_free_buf b h)
      in ctc_free_buf buf h)"

definition ctc_fill_conds ::
    "('h, 'a) row_api_scheme \<Rightarrow> item_api \<Rightarrow> tfield list \<Rightarrow> field_cnvrt_aux list \<Rightarrow> bool \<Rightarrow> item \<Rightarrow> fill_heap \<Rightarrow> nat \<Rightarrow>
     fill_heap \<times> conds \<times> fill_status" where
  "ctc_fill_conds api ia tbl arr no_backslash cond h buf =
     (case dfs_fill_conds api ia tbl arr no_backslash cond h None buf zero_info of
        (h, _, c, status) \<Rightarrow> (h, c, status))"

section \<open>Buffers are neither lost nor freed twice\<close>

fun cond_bufs :: "conds \<Rightarrow> nat multiset" where
  "cond_bufs (Conds buf ci l) = {#buf#} +
     (case ci_field_value ci of None \<Rightarrow> {#} | Some (b, _) \<Rightarrow> {#b#}) +
     (case l of None \<Rightarrow> {#} | Some (list, cs) \<Rightarrow> {#list#} + (\<Sum>c\<in>#mset cs. cond_bufs c))"

abbreviation live :: "fill_heap \<Rightarrow> nat multiset" where
  "live h \<equiv> mset (fh_live h)"

lemma live_alloc:
  "ctc_alloc_buf h = (h', Some b) \<Longrightarrow> live h' = live h + {#b#}"
  "ctc_alloc_buf h = (h', None) \<Longrightarrow> live h' = live h"
  by (auto simp: ctc_alloc_buf_def Let_def split: if_splits)

lemma live_free: "live (ctc_free_buf b h) = live h - {#b#}"
  by (simp add: ctc_free_buf_def)

lemma live_free_m_cond: "live (free_m_cond c h) = live h - cond_bufs c"
proof (induction c h rule: free_m_cond.induct)
  case (1 buf ci l h)
  have f: "live (fold free_m_cond cs h) = live h - (\<Sum>c\<in>#mset cs. cond_bufs c)"
    if "\<And>c h. c \<in> set cs \<Longrightarrow> live (free_m_cond c h) = live h - cond_bufs c" for cs h
    using that by (induction cs arbitrary: h) auto
  show ?case
    using 1 f by (auto simp: live_free Let_def add_mset_commute split: option.splits)
qed


abbreviation value_bufs :: "cond_info \<Rightarrow> nat multiset" where
  "value_bufs ci \<equiv> (case ci_field_value ci of None \<Rightarrow> {#} | Some (b, _) \<Rightarrow> {#b#})"

text \<open>A leaf allocates at most the buffer of its value.\<close>

lemma leaf_live:
  assumes "ci_field_value ci = None"
  shows "ctc_cond_fill_data_int h v u ci = (h', ci', st) \<Longrightarrow> live h' = live h + value_bufs ci'"
    "cond_fill_int ia h item ci = (h', ci', st) \<Longrightarrow> live h' = live h + value_bufs ci'"
    "cond_fill_real ia h item ci = (h', ci', st) \<Longrightarrow> live h' = live h + value_bufs ci'"
    "cond_fill_cache ia h item ci = (h', ci', st) \<Longrightarrow> live h' = live h + value_bufs ci'"
    "cond_fill_decimal api ia h item ci = (h', ci', st) \<Longrightarrow> live h' = live h + value_bufs ci'"
    "cond_fill_string ia h nb item ft ci = (h', ci', st) \<Longrightarrow> live h' = live h + value_bufs ci'"
proof -
  have i: "live h' = live h + value_bufs ci'"
    if "ctc_cond_fill_data_int h v u c = (h', ci', st)" "ci_field_value c = None" for h v u c h' ci' st
    using that by (auto simp: ctc_cond_fill_data_int_def Let_def dest: live_alloc split: prod.splits option.splits)
  show "ctc_cond_fill_data_int h v u ci = (h', ci', st) \<Longrightarrow> live h' = live h + value_bufs ci'"
    using i assms by blast
  show "cond_fill_int ia h item ci = (h', ci', st) \<Longrightarrow> live h' = live h + value_bufs ci'"
    using assms by (auto simp: cond_fill_int_def Let_def dest!: i split: if_splits)
  show "cond_fill_cache ia h item ci = (h', ci', st) \<Longrightarrow> live h' = live h + value_bufs ci'"
    using assms by (auto simp: cond_fill_cache_def Let_def dest!: i split: if_splits)
  show "cond_fill_real ia h item ci = (h', ci', st) \<Longrightarrow> live h' = live h + value_bufs ci'"
    using assms by (auto simp: cond_fill_real_def Let_def dest: live_alloc split: if_splits prod.splits option.splits)
  show "cond_fill_decimal api ia h item ci = (h', ci', st) \<Longrightarrow> live h' = live h + value_bufs ci'"
    using assms
    by (auto simp: cond_fill_decimal_def Let_def dest: live_alloc split: if_splits prod.splits option.splits sum.splits)
  show "cond_fill_string ia h nb item ft ci = (h', ci', st) \<Longrightarrow> live h' = live h + value_bufs ci'"
    using assms
    by (auto simp: cond_fill_string_def Let_def dest: live_alloc split: if_splits prod.splits option.splits)
qed

lemma date_live:
  assumes "ci_field_value ci = None" "cond_fill_date api ia h item ft ci = (h', ft', ci', st)"
  shows "live h' = live h + value_bufs ci'"
  using assms
  by (auto simp: cond_fill_date_def ctc_fill_cond_field_data_date_def Let_def dest: live_alloc
      split: if_splits prod.splits option.splits)

lemma field_value_kept:
  assumes "ci_field_value ci = None" "cond_fill_field num ia tbl arr nb item ci = (ci', st)"
  shows "ci_field_value ci' = None"
  using assms
  by (auto simp: cond_fill_field_def ctc_set_cond_field_size_def Let_def split: if_splits prod.splits option.splits)


lemma fill_live:
  "dfs_fill_conds api ia tbl arr nb item h ft buf ci = (h', ft', c, st) \<Longrightarrow> ci_field_value ci = None \<Longrightarrow>
     live h' + {#buf#} = live h + cond_bufs c"
  "fill_args api ia tbl arr nb items n h ft = (h', ft', cs, st) \<Longrightarrow>
     live h' = live h + (\<Sum>c\<in>#mset cs. cond_bufs c)"
proof (induction api ia tbl arr nb item h ft buf ci and api ia tbl arr nb items n h ft
    arbitrary: h' ft' c st and h' ft' cs st rule: dfs_fill_conds_fill_args.induct)
  case (1 api ia tbl arr nb a args h ft buf ci)
  show ?case
  proof (cases "it_type a \<in> {FUNC_ITEM, COND_ITEM}")
    case True
    obtain h1 l where al: "ctc_alloc_buf h = (h1, l)" by (metis prod.exhaust)
    show ?thesis
    proof (cases l)
      case None
      then show ?thesis using 1(3,4) al True live_alloc(2) by auto
    next
      case (Some b)
      have lv: "live h1 = live h + {#b#}" using al Some live_alloc(1) by simp
      obtain ct ft0 where t: "set_cond_types (it_functype a) = (ct, ft0)" by (metis prod.exhaust)
      show ?thesis
      proof (cases "\<not> ia_cast ia (Item a args)")
        case c: True
        then show ?thesis using 1(3,4) al Some lv True by auto
      next
        case False
        show ?thesis
        proof (cases "it_type a = FUNC_ITEM")
          case f: True
          show ?thesis
          proof (cases "ct = CTC_DATE_EXPR")
            case d: True
            let ?ci = "ci\<lparr>ci_cond_type := ct, ci_func_type := ft0\<rparr>"
            obtain h2 ft2 ci2 st2 where fd: "cond_fill_date api ia (ctc_free_buf b h1) (Item a args) ft ?ci = (h2, ft2, ci2, st2)"
              by (metis prod_cases4)
            have "live h2 = live (ctc_free_buf b h1) + value_bufs ci2"
              using 1(4) by (intro date_live [OF _ fd]) simp
            moreover have "h' = h2" "c = Conds buf ci2 None" using 1(3) f al Some False t d fd by auto
            ultimately show ?thesis using lv by (simp add: live_free)
          next
            case d: False
            obtain h2 ft2 cs st2 where fa: "fill_args api ia tbl arr nb args (length args mod 2 ^ 16) h1 (Some ft0) = (h2, ft2, cs, st2)"
              by (metis prod_cases4)
            have "live h2 = live h1 + (\<Sum>c\<in>#mset cs. cond_bufs c)" using 1(1) f al Some False t d fa by auto
            moreover have "h' = h2" "c = Conds buf (ci\<lparr>ci_cond_type := ct, ci_func_type := the ft2\<rparr>) (Some (b, cs))"
              using 1(3) f al Some False t d fa by auto
            ultimately show ?thesis using lv 1(4) by simp
          qed
        next
          case f: False
          obtain h2 ft2 cs st2 where fa: "fill_args api ia tbl arr nb args (length args mod 2 ^ 16) h1 None = (h2, ft2, cs, st2)"
            by (metis prod_cases4)
          have "live h2 = live h1 + (\<Sum>c\<in>#mset cs. cond_bufs c)" using 1(2) f True al Some False t fa by auto
          moreover have "h' = h2" "c = Conds buf (ci\<lparr>ci_cond_type := ct, ci_func_type := ft0\<rparr>) (Some (b, cs))"
            using 1(3) f True al Some False t fa by auto
          ultimately show ?thesis using lv 1(4) by simp
        qed
      qed
    qed
  next
    case False
    then show ?thesis using 1(3,4) leaf_live [OF 1(4)] field_value_kept [OF 1(4)]
      by (cases "it_type a") (fastforce simp: cond_fill_null_def split: prod.splits)+
  qed
next
  case (3 api ia tbl arr nb x xs n h ft)
  show ?case
  proof (cases "n = 0")
    case True
    then show ?thesis using 3(3) by simp
  next
    case False
    obtain h1 l where al: "ctc_alloc_buf h = (h1, l)" by (metis prod.exhaust)
    show ?thesis
    proof (cases l)
      case None
      then show ?thesis using 3(3) al False live_alloc(2) by auto
    next
      case (Some b)
      obtain h2 ft2 c2 st2 where d: "dfs_fill_conds api ia tbl arr nb x h1 ft b zero_info = (h2, ft2, c2, st2)"
        by (metis prod_cases4)
      have lv: "live h1 = live h + {#b#}" "live h2 + {#b#} = live h1 + cond_bufs c2"
        using al Some live_alloc(1) 3(1) [OF False al [symmetric] Some d] by (auto simp: zero_info_def)
      then have l2: "live h2 = live h + cond_bufs c2" by simp
      obtain h3 ft3 cs3 st3 where e: "fill_args api ia tbl arr nb xs (n - 1) h2 ft2 = (h3, ft3, cs3, st3)"
        by (metis prod_cases4)
      show ?thesis
      proof (cases "st2 = Fill_ok")
        case True
        then show ?thesis
          using 3(2) [OF False al [symmetric] Some d [symmetric] refl refl _ e] 3(3) False al Some d e l2 by auto
      next
        case nok: False
        then show ?thesis using 3(3) False al Some d l2 by auto
      qed
    qed
  qed
qed auto

text \<open>
  C23: serialising a condition neither loses a buffer nor frees one twice: whatever allocation fails and
  whatever the outcome, \<open>free_m_cond\<close> on the tree gives back exactly the buffers that were allocated since
  the node \<open>m_cond\<close> was, so that the live buffers are those from before.
\<close>

theorem fill_no_leak:
  assumes "ctc_alloc_buf h = (h1, Some buf)" "ctc_fill_conds api ia tbl arr no_backslash cond h1 buf = (h2, c, status)"
  shows "mset (fh_live (free_m_cond c h2)) = mset (fh_live h) \<and> cond_bufs c \<subseteq># mset (fh_live h2)"
proof -
  obtain ft where "dfs_fill_conds api ia tbl arr no_backslash cond h1 None buf zero_info = (h2, ft, c, status)"
    using assms(2) by (auto simp: ctc_fill_conds_def split: prod.splits)
  then have "live h2 + {#buf#} = live h1 + cond_bufs c" by (rule fill_live(1)) (simp add: zero_info_def)
  then have "live h2 = live h + cond_bufs c" using live_alloc(1) [OF assms(1)] by simp
  then show ?thesis by (simp add: live_free_m_cond)
qed

section \<open>No access through the null pointer\<close>

definition columns_known :: "(field_type \<Rightarrow> int) \<Rightarrow> tfield list \<Rightarrow> field_cnvrt_aux list \<Rightarrow> bool" where
  "columns_known num tbl arr \<longleftrightarrow> length tbl < INVALID_MAX_COLUMN \<and> list_all (\<lambda>f.
     snd (get_auxiliary_for_field_convert num arr (tf_desc f)
       (if tf_type f = MYSQL_TYPE_FLOAT then MYSQL_TYPE_DOUBLE else tf_type f)) \<noteq> None) tbl"

lemma column_found:
  "ctc_get_column_by_field ia tbl name i = n \<Longrightarrow> n = INVALID_MAX_COLUMN \<or>
     i \<le> n \<and> n < i + length tbl \<and> ia_same_name ia (tf_name (tbl ! (n - i))) name"
proof (induction tbl arbitrary: i)
  case (Cons f fs)
  show ?case
  proof (cases "ia_same_name ia (tf_name f) name")
    case True
    then show ?thesis using Cons.prems by simp
  next
    case False
    then have "n = INVALID_MAX_COLUMN \<or> i + 1 \<le> n \<and> n < i + 1 + length fs \<and> ia_same_name ia (tf_name (fs ! (n - (i + 1)))) name"
      using Cons.IH [of "i + 1"] Cons.prems by simp
    moreover have "(f # fs) ! (n - i) = fs ! (n - (i + 1))" if "i + 1 \<le> n"
    proof -
      have "n - i = Suc (n - (i + 1))" using that by simp
      then show ?thesis by simp
    qed
    ultimately show ?thesis by auto
  qed
qed simp

lemma field_not_null:
  assumes "columns_known num tbl arr" "cond_fill_field num ia tbl arr nb item ci = (ci', st)"
  shows "st \<noteq> Fill_null"
proof -
  let ?n = "ctc_get_column_by_field ia tbl (ia_name ia item) 0"
  let ?aux = "\<lambda>f. snd (get_auxiliary_for_field_convert num arr (tf_desc f)
       (if tf_type f = MYSQL_TYPE_FLOAT then MYSQL_TYPE_DOUBLE else tf_type f))"
  have "?aux (tbl ! ?n) \<noteq> None" if "?n \<noteq> INVALID_MAX_COLUMN"
    using column_found [OF refl, of ia tbl "ia_name ia item" 0] assms(1) that
    by (auto simp: columns_known_def list_all_length)
  then show ?thesis using assms(2)
    by (auto simp: cond_fill_field_def ctc_set_cond_field_size_def Let_def split: if_splits prod.splits option.splits)
qed

lemma leaf_not_null:
  "cond_fill_int ia h item ci = (h', ci', st) \<Longrightarrow> st \<noteq> Fill_null"
  "cond_fill_real ia h item ci = (h', ci', st) \<Longrightarrow> st \<noteq> Fill_null"
  "cond_fill_cache ia h item ci = (h', ci', st) \<Longrightarrow> st \<noteq> Fill_null"
  "cond_fill_decimal api ia h item ci = (h', ci', st) \<Longrightarrow> st \<noteq> Fill_null"
  "cond_fill_string ia h nb item (Some f) ci = (h', ci', st) \<Longrightarrow> st \<noteq> Fill_null"
  by (auto simp: cond_fill_int_def cond_fill_real_def cond_fill_cache_def cond_fill_decimal_def cond_fill_string_def
      ctc_cond_fill_data_int_def Let_def split: if_splits prod.splits option.splits sum.splits)

lemma date_not_null:
  "cond_fill_date api ia h item (Some f) ci = (h', ft', ci', st) \<Longrightarrow> st \<noteq> Fill_null \<and> ft' \<noteq> None"
  by (auto simp: cond_fill_date_def ctc_fill_cond_field_data_date_def Let_def split: if_splits prod.splits option.splits)

lemma supported_leaf: "is_support mapi t P \<Longrightarrow> item_type t \<notin> {FUNC_ITEM, COND_ITEM} \<Longrightarrow> \<not> logic_parent P"
  by (auto simp: is_support_def is_supported_const_def is_supported_field_def is_supported_cache_def
      split: item_type.splits if_splits)

lemma supported_date:
  "is_support mapi t P \<Longrightarrow> item_type t = FUNC_ITEM \<Longrightarrow> set_cond_types (it_functype (attr t)) = (CTC_DATE_EXPR, f) \<Longrightarrow>
   \<not> logic_parent P"
  by (auto simp: is_support_def is_supported_funcs_def is_supported_funcs_date_def set_cond_types_def
      split: if_splits option.splits)

lemma supported_cond: "is_support mapi t P \<Longrightarrow> item_type t = COND_ITEM \<Longrightarrow> logic_parent (it_functype (attr t))"
  by (auto simp: is_support_def is_supported_conds_def logic_parent_def split: if_splits)

lemma fill_not_null:
  "dfs_fill_conds api ia tbl arr nb item h ft buf ci = (h', ft', c, st) \<Longrightarrow> columns_known (api_type_no api) tbl arr \<Longrightarrow>
     supported_tree mapi P item \<Longrightarrow> ft = None \<longrightarrow> logic_parent P \<Longrightarrow> st \<noteq> Fill_null \<and> (ft' = None \<longleftrightarrow> ft = None)"
  "fill_args api ia tbl arr nb items n h ft = (h', ft', cs, st) \<Longrightarrow> columns_known (api_type_no api) tbl arr \<Longrightarrow>
     list_all (supported_tree mapi P) items \<Longrightarrow> ft = None \<longrightarrow> logic_parent P \<Longrightarrow> st \<noteq> Fill_null \<and> (ft' = None \<longleftrightarrow> ft = None)"
proof (induction api ia tbl arr nb item h ft buf ci and api ia tbl arr nb items n h ft
    arbitrary: h' ft' c st P and h' ft' cs st P rule: dfs_fill_conds_fill_args.induct)
  case (1 api ia tbl arr nb a args h ft buf ci)
  note sup = 1(5)
  obtain h1 l where al: "ctc_alloc_buf h = (h1, l)" by (metis prod.exhaust)
  obtain ct ft0 where t: "set_cond_types (it_functype a) = (ct, ft0)" by (metis prod.exhaust)
  consider "it_type a = FUNC_ITEM" | "it_type a = COND_ITEM" | "it_type a \<notin> {FUNC_ITEM, COND_ITEM}" by blast
  then show ?case
  proof cases
    case f: 1
    show ?thesis
    proof (cases "ct = CTC_DATE_EXPR")
      case True
      have "\<not> logic_parent P" using supported_date [of mapi "Item a args" P] sup f t True by auto
      then obtain g where "ft = Some g" using 1(6) by (cases ft) auto
      then show ?thesis using 1(3) f al t True
        by (auto simp: Let_def dest: date_not_null split: option.splits if_splits prod.splits)
    next
      case False
      have ih: "\<And>h2 b h3 ft3 cs3 st3. fill_args api ia tbl arr nb args (length args mod 2 ^ 16) h2 (Some ft0) = (h3, ft3, cs3, st3) \<Longrightarrow>
          l = Some b \<Longrightarrow> h2 = h1 \<Longrightarrow> ia_cast ia (Item a args) \<Longrightarrow> st3 \<noteq> Fill_null"
        using 1(1) [OF refl _ f al [symmetric]] t False 1(4) sup f by fastforce
      then show ?thesis using 1(3) f al t False
        by (auto simp: Let_def split: option.splits if_splits prod.splits)
    qed
  next
    case f: 2
    have P: "logic_parent (it_functype a)" using supported_cond [of mapi "Item a args" P] sup f by simp
    have ih: "\<And>h2 b h3 ft3 cs3 st3. fill_args api ia tbl arr nb args (length args mod 2 ^ 16) h2 None = (h3, ft3, cs3, st3) \<Longrightarrow>
        l = Some b \<Longrightarrow> h2 = h1 \<Longrightarrow> ia_cast ia (Item a args) \<Longrightarrow> st3 \<noteq> Fill_null"
      using 1(2) [OF refl _ f al [symmetric]] t 1(4) sup f P by fastforce
    then show ?thesis using 1(3) f al t
      by (auto simp: Let_def split: option.splits if_splits prod.splits)
  next
    case f: 3
    have "\<not> logic_parent P" using supported_leaf [of mapi "Item a args" P] sup f by simp
    then obtain g where g: "ft = Some g" using 1(6) by (cases ft) auto
    show ?thesis using 1(3) f g leaf_not_null field_not_null [OF 1(4)]
      by (cases "it_type a") (fastforce split: prod.splits)+
  qed
next
  case (3 api ia tbl arr nb x xs n h ft)
  show ?case
  proof (cases "n = 0")
    case True
    then show ?thesis using 3(3) by simp
  next
    case False
    obtain h1 l where al: "ctc_alloc_buf h = (h1, l)" by (metis prod.exhaust)
    show ?thesis
    proof (cases l)
      case None
      then show ?thesis using 3(3) al False by auto
    next
      case (Some b)
      obtain h2 ft2 c2 st2 where d: "dfs_fill_conds api ia tbl arr nb x h1 ft b zero_info = (h2, ft2, c2, st2)"
        by (metis prod_cases4)
      obtain h3 ft3 cs3 st3 where e: "fill_args api ia tbl arr nb xs (n - 1) h2 ft2 = (h3, ft3, cs3, st3)"
        by (metis prod_cases4)
      have s: "st2 \<noteq> Fill_null \<and> (ft2 = None \<longleftrightarrow> ft = None)"
        using 3(1) [OF False al [symmetric] Some d 3(4) _ 3(6)] 3(5) by simp
      show ?thesis
      proof (cases "st2 = Fill_ok")
        case True
        have "st3 \<noteq> Fill_null \<and> (ft3 = None \<longleftrightarrow> ft2 = None)"
          using 3(2) [OF False al [symmetric] Some d [symmetric] refl refl _ e 3(4), of P] True 3(5,6) s by simp
        then show ?thesis using 3(3) False al Some d e True s by auto
      next
        case nok: False
        then show ?thesis using 3(3) False al Some d s by auto
      qed
    qed
  qed
qed auto

text \<open>
  the serialisation of a condition that was accepted for pushdown never reads through the null
  pointer: a constant or a date that looks at its parent's function type always has a parent
  that is a function, and every column has an entry in the conversion table.
\<close>

lemma pushed_fill_not_null:
  assumes "new_cond_ok new_cond" "item_wf cond" "prep_cond_push mapi new_cond cond = (Some p, r)"
    and "columns_known (api_type_no api) tbl arr" "ctc_fill_conds api ia tbl arr no_backslash p h buf = (h', c, status)"
  shows "status \<noteq> Fill_null"
proof -
  have s: "supported_tree mapi COND_AND_FUNC p"
    using push_supported(1) [OF _ assms(1,2), of mapi COND_AND_FUNC "Some p" r] assms(3)
    by (auto simp: prep_cond_push_def logic_parent_def)
  obtain ft where "dfs_fill_conds api ia tbl arr no_backslash p h None buf zero_info = (h', ft, c, status)"
    using assms(5) by (auto simp: ctc_fill_conds_def split: prod.splits)
  then show ?thesis using fill_not_null(1) [OF _ assms(4) s] by (simp add: logic_parent_def)
qed

section \<open>Column numbers\<close>

text \<open>The columns the engine stores, and the generated ones among them before column \<open>n\<close>.\<close>

definition cantian_columns :: "tfield list \<Rightarrow> tfield list" where
  "cantian_columns tbl = filter (\<lambda>f. \<not> tf_virtual f) tbl"

definition stored_gcols_before :: "tfield list \<Rightarrow> nat \<Rightarrow> nat" where
  "stored_gcols_before tbl n = length (filter (\<lambda>f. tf_gcol f \<and> \<not> tf_virtual f) (take n tbl))"

lemma gcol_split:
  assumes "\<forall>f \<in> set tbl. tf_virtual f \<longrightarrow> tf_gcol f"
  shows "length (cantian_columns tbl) + length (filter tf_gcol tbl) =
    length tbl + length (filter (\<lambda>f. tf_gcol f \<and> \<not> tf_virtual f) tbl)"
  using assms by (induction tbl) (auto simp: cantian_columns_def)

lemma cantian_position:
  assumes "\<forall>f \<in> set tbl. tf_virtual f \<longrightarrow> tf_gcol f" "n < length tbl" "\<not> tf_virtual (tbl ! n)"
  shows "n - gcol_count_before tbl n + stored_gcols_before tbl n < length (cantian_columns tbl) \<and>
    cantian_columns tbl ! (n - gcol_count_before tbl n + stored_gcols_before tbl n) = tbl ! n"
proof -
  have "set (take n tbl) \<subseteq> set tbl" by (rule set_take_subset)
  then have "length (cantian_columns (take n tbl)) + gcol_count_before tbl n = n + stored_gcols_before tbl n"
    using gcol_split [of "take n tbl"] assms(1,2) by (auto simp: gcol_count_before_def stored_gcols_before_def)
  moreover have "gcol_count_before tbl n \<le> n"
    unfolding gcol_count_before_def using length_filter_le [of tf_gcol "take n tbl"] by simp
  ultimately have p: "n - gcol_count_before tbl n + stored_gcols_before tbl n = length (cantian_columns (take n tbl))" by simp
  have "tbl = take n tbl @ tbl ! n # drop (Suc n) tbl" using assms(2) by (simp add: id_take_nth_drop)
  then have "cantian_columns tbl = cantian_columns (take n tbl) @ tbl ! n # cantian_columns (drop (Suc n) tbl)"
    using assms(3) unfolding cantian_columns_def by (metis filter.simps(2) filter_append)
  then show ?thesis unfolding p by simp
qed

text \<open>
  C31: the column number in a serialised condition, increased by the number of stored generated columns
  before the column, is the position of the column among those the engine stores. So it is the engine's
  number exactly when no stored generated column precedes the column; else it names another one.
\<close>

theorem pushed_column_number:
  assumes "cond_fill_field num ia tbl arr no_backslash item ci = (ci', Fill_ok)" "length tbl < INVALID_MAX_COLUMN"
    and "\<forall>f \<in> set tbl. tf_virtual f \<longrightarrow> tf_gcol f"
  defines "n \<equiv> ctc_get_column_by_field ia tbl (ia_name ia item) 0"
  assumes "\<not> tf_virtual (tbl ! n)"
  shows "n < length tbl \<and> ia_same_name ia (tf_name (tbl ! n)) (ia_name ia item) \<and>
    ci_field_no ci' + stored_gcols_before tbl n < length (cantian_columns tbl) \<and>
    cantian_columns tbl ! (ci_field_no ci' + stored_gcols_before tbl n) = tbl ! n"
proof -
  have e: "n \<noteq> INVALID_MAX_COLUMN \<and> ci_field_no ci' = n - gcol_count_before tbl n"
    using assms(1) unfolding n_def
    by (auto simp: cond_fill_field_def ctc_set_cond_field_size_def Let_def split: if_splits prod.splits option.splits)
  then have n: "n < length tbl \<and> ia_same_name ia (tf_name (tbl ! n)) (ia_name ia item)"
    using column_found [of ia tbl "ia_name ia item" 0 n] by (simp add: n_def)
  then show ?thesis using cantian_position [OF assms(3) _ assms(5)] e by simp
qed

section \<open>Patterns\<close>

definition wildcard :: "byte \<Rightarrow> bool" where
  "wildcard b \<longleftrightarrow> b = 0x5F \<or> b = 0x25"

text \<open>The loop has written \<open>out\<close> and has \<open>rest\<close> before it.\<close>

definition strip_state :: "byte list \<Rightarrow> byte list \<Rightarrow> nat \<Rightarrow> byte list \<Rightarrow> bool" where
  "strip_state out rest i data \<longleftrightarrow> length out \<le> i \<and> i + length rest = length data \<and> length data < 65536 \<and>
     take (length out) data = out \<and> drop i data = rest"

lemma strip_store:
  assumes "strip_state (out @ gap) (b # rest) i data"
  shows "data ! i = b \<and> length out < length data \<and> strip_state (out @ [b]) rest (i + 1) (data[length out := b])"
proof -
  have l: "length out + length gap \<le> i" "i + length (b # rest) = length data" "length data < 65536"
    "take (length out + length gap) data = out @ gap" "drop i data = b # rest"
    using assms by (simp_all add: strip_state_def)
  have i: "i < length data" using l(2) by simp
  have b: "data ! i = b" using l(5) i by (metis Cons_nth_drop_Suc list.inject)
  have o: "take (length out) data = out" using arg_cong [OF l(4), of "take (length out)"] by simp
  have "drop (i + 1) (data[length out := b]) = drop (i + 1) data" using l(1) by simp
  also have "\<dots> = rest" using l(5) by (metis Suc_eq_plus1 drop_Suc list.sel(3) tl_drop)
  finally have d: "drop (i + 1) (data[length out := b]) = rest" .
  have "take (length out + 1) (data[length out := b]) = out @ [b]"
    using l(1) i o by (simp add: take_Suc_conv_app_nth)
  then show ?thesis using b d l i by (simp add: strip_state_def)
qed

lemma strip_plain:
  assumes "strip_state out (bs @ rest) i data" "\<forall>b \<in> set bs. \<not> wildcard b"
  shows "\<exists>data'. update_value_loop bytes i (length out) data (length bs + n) =
      update_value_loop bytes (i + length bs) (length (out @ bs)) data' n \<and> strip_state (out @ bs) rest (i + length bs) data'"
  using assms
proof (induction bs arbitrary: out i data)
  case (Cons b bs)
  have s: "data ! i = b" "length out < length data" "strip_state (out @ [b]) (bs @ rest) (i + 1) (data[length out := b])"
    using strip_store [of out "[]" b "bs @ rest" i data] Cons.prems(1) by simp_all
  have "length out + 1 < 65536" using s(3) by (simp add: strip_state_def)
  then have "update_value_loop bytes i (length out) data (length (b # bs) + n) =
      update_value_loop bytes (i + 1) (length (out @ [b])) (data[length out := b]) (length bs + n)"
    using s(1,2) Cons.prems(2) by (simp add: wildcard_def Let_def)
  then show ?case using Cons.IH [OF s(3)] Cons.prems(2) by auto
qed auto

text \<open>One character of \<open>bytes + 1\<close> bytes, and what becomes of it.\<close>

definition plain_char :: "nat \<Rightarrow> byte list \<Rightarrow> bool" where
  "plain_char bytes ch \<longleftrightarrow> length ch = bytes + 1 \<and> list_all (\<lambda>b. \<not> wildcard b) (butlast ch)"

definition strip_char :: "byte list \<Rightarrow> byte list" where
  "strip_char ch = (if wildcard (last ch) then [last ch] else ch)"

lemma strip_one:
  assumes "strip_state out (ch @ rest) i data" "plain_char bytes ch"
  shows "\<exists>data'. update_value_loop bytes i (length out) data (length ch + n) =
      update_value_loop bytes (i + length ch) (length (out @ strip_char ch)) data' n \<and>
    strip_state (out @ strip_char ch) rest (i + length ch) data'"
proof (cases "wildcard (last ch)")
  case False
  have "ch \<noteq> []" using assms(2) by (auto simp: plain_char_def)
  then have "\<forall>b \<in> set ch. \<not> wildcard b"
    using False assms(2) by (metis append_butlast_last_id list_all_iff plain_char_def rotate1.simps(2) set_ConsD set_rotate1)
  then show ?thesis using strip_plain [OF assms(1)] False by (simp add: strip_char_def)
next
  case True
  have ch: "ch = butlast ch @ [last ch]" "length (butlast ch) = bytes" "\<forall>b \<in> set (butlast ch). \<not> wildcard b"
    using assms(2) by (auto simp: plain_char_def list_all_iff intro: append_butlast_last_id [symmetric])
  have "strip_state out (butlast ch @ last ch # rest) i data" using assms(1) ch(1) by (metis append_Cons append_assoc append_Nil)
  then obtain d1 where d1: "update_value_loop bytes i (length out) data (length (butlast ch) + Suc n) =
      update_value_loop bytes (i + bytes) (length (out @ butlast ch)) d1 (Suc n)"
    "strip_state (out @ butlast ch) (last ch # rest) (i + bytes) d1"
    using strip_plain [of out "butlast ch" "last ch # rest" i data bytes "Suc n"] ch(2,3) by auto
  note s = strip_store [OF d1(2)]
  have lt: "length out + 1 < 65536" "bytes < 65536" using s d1(2) ch(2) by (auto simp: strip_state_def)
  have "(length (out @ butlast ch) + 65536 - bytes) mod 65536 = length out" using ch(2) lt(1) by simp
  then have "update_value_loop bytes (i + bytes) (length (out @ butlast ch)) d1 (Suc n) =
      update_value_loop bytes (i + bytes + 1) (length (out @ [last ch])) (d1[length out := last ch]) n"
    using s True lt(1) by (simp add: wildcard_def Let_def)
  moreover have "length ch = bytes + 1" using assms(2) by (simp add: plain_char_def)
  ultimately show ?thesis using d1(1) ch(2) s True by (auto simp: strip_char_def)
qed

lemma strip_all:
  assumes "strip_state out (concat chs) i data" "\<forall>ch \<in> set chs. plain_char bytes ch"
  shows "\<exists>data'. update_value_loop bytes i (length out) data (length (concat chs)) =
      Some (data', length (out @ concat (map strip_char chs))) \<and>
    take (length (out @ concat (map strip_char chs))) data' = out @ concat (map strip_char chs)"
  using assms
proof (induction chs arbitrary: out i data)
  case Nil
  then show ?case by (simp add: strip_state_def)
next
  case (Cons ch chs)
  obtain d where d: "update_value_loop bytes i (length out) data (length ch + length (concat chs)) =
      update_value_loop bytes (i + length ch) (length (out @ strip_char ch)) d (length (concat chs))"
    "strip_state (out @ strip_char ch) (concat chs) (i + length ch) d"
    using strip_one [of out ch "concat chs" i data bytes "length (concat chs)"] Cons.prems by auto
  then show ?case using Cons.IH [OF d(2)] Cons.prems(2) by auto
qed

text \<open>
  a LIKE pattern in a character set of several bytes per character, in which the bytes of the wildcards
  \<open>_\<close> and \<open>%\<close> occur only as last bytes of a character, is rewritten in place so that exactly
  the wildcards become single bytes.
\<close>

lemma pattern_rewritten:
  assumes "\<forall>ch \<in> set chs. plain_char bytes ch" "0 < bytes" "length (concat chs) < 65536"
  shows "\<exists>data n. update_value_by_charset (concat chs) (length (concat chs)) bytes = Some (data, n) \<and>
    take n data = concat (map strip_char chs)"
  using strip_all [of "[]" chs 0 "concat chs" bytes] assms
  by (auto simp: update_value_by_charset_def strip_state_def)

text \<open>
  C32: a character whose first byte is that of a wildcard, as U+5F00 in UTF-16, at the start of a pattern
  makes the 16-bit index wrap around: a byte is stored outside the buffer.
\<close>

theorem pattern_overrun:
  assumes "wildcard b" "0 < bytes" "bytes < 65536" "length bs < 65536 - bytes" "b # bs \<noteq> []"
  shows "update_value_by_charset (b # bs) (length (b # bs)) bytes = None"
proof -
  have "(0 + 65536 - bytes) mod 65536 = 65536 - bytes" using assms(2,3) by simp
  then show ?thesis using assms by (simp add: update_value_by_charset_def wildcard_def Let_def)
qed

section \<open>Meaning of a serialised condition\<close>

text \<open>
  The engine evaluates AND and OR nodes over their lists and everything else by \<open>ev\<close>, in three-valued logic.
\<close>

fun eval_conds :: "(conds \<Rightarrow> truth) \<Rightarrow> conds \<Rightarrow> truth" where
  "eval_conds ev (Conds buf ci l) =
     (case l of
        None \<Rightarrow> ev (Conds buf ci l)
      | Some (list, cs) \<Rightarrow>
          if ci_func_type ci = CTC_COND_AND_FUNC then all_true (map (eval_conds ev) cs)
          else if ci_func_type ci = CTC_COND_OR_FUNC then some_true (map (eval_conds ev) cs)
          else ev (Conds buf ci l))"

text \<open>The engine's answer on every serialised function is at least as true as the item.\<close>

definition engine_complete ::
    "('h, 'a) row_api_scheme \<Rightarrow> item_api \<Rightarrow> tfield list \<Rightarrow> field_cnvrt_aux list \<Rightarrow> bool \<Rightarrow> (item \<Rightarrow> truth) \<Rightarrow> (conds \<Rightarrow> truth) \<Rightarrow> bool" where
  "engine_complete api ia tbl arr nb val ev \<longleftrightarrow>
     (\<forall>t h ft buf h' ft' c. item_type t \<noteq> COND_ITEM \<and>
        dfs_fill_conds api ia tbl arr nb t h ft buf zero_info = (h', ft', c, Fill_ok) \<longrightarrow> val t \<le> ev c)"

definition not_logic :: "functype_ptr \<Rightarrow> bool" where
  "not_logic ft \<longleftrightarrow> (case ft of None \<Rightarrow> False | Some f \<Rightarrow> f \<noteq> CTC_COND_AND_FUNC \<and> f \<noteq> CTC_COND_OR_FUNC)"

lemma date_not_logic:
  "cond_fill_date api ia h item ft ci = (h', ft', ci', st) \<Longrightarrow> not_logic ft \<Longrightarrow> not_logic ft'"
  by (auto simp: not_logic_def cond_fill_date_def ctc_fill_cond_field_data_date_def refill_cond_type_date_def Let_def
      split: if_splits prod.splits option.splits)

lemma fill_not_logic:
  "dfs_fill_conds api ia tbl arr nb item h ft buf ci = (h', ft', c, st) \<Longrightarrow> not_logic ft \<Longrightarrow> not_logic ft'"
  "fill_args api ia tbl arr nb items n h ft = (h', ft', cs, st) \<Longrightarrow> not_logic ft \<Longrightarrow> not_logic ft'"
proof (induction api ia tbl arr nb item h ft buf ci and api ia tbl arr nb items n h ft
    arbitrary: h' ft' c st and h' ft' cs st rule: dfs_fill_conds_fill_args.induct)
  case (1 api ia tbl arr nb a args h ft buf ci)
  then show ?case
    by (cases "it_type a") (auto simp: Let_def dest: date_not_logic split: option.splits if_splits prod.splits)
next
  case (3 api ia tbl arr nb x xs n h ft)
  then show ?case by (fastforce split: option.splits if_splits prod.splits)
qed auto

lemma func_node_not_logic:
  assumes "dfs_fill_conds api ia tbl arr nb (Item a args) h ft buf zero_info = (h', ft', c, st)"
    and "it_type a \<noteq> COND_ITEM" "it_type a = FUNC_ITEM \<longrightarrow> \<not> logic_parent (it_functype a)"
  shows "eval_conds ev c = ev c"
proof (cases "it_type a = FUNC_ITEM")
  case True
  obtain ct ft0 where t: "set_cond_types (it_functype a) = (ct, ft0)" by (metis prod.exhaust)
  have nl: "not_logic (Some ft0)"
    using t assms(3) True by (cases "it_functype a")
      (auto simp: not_logic_def logic_parent_def set_cond_types_def get_cond_func_type_map_def g_cond_func_type_def)
  obtain h1 l where al: "ctc_alloc_buf h = (h1, l)" by (metis prod.exhaust)
  obtain h2 ft2 cs st2 where fa: "fill_args api ia tbl arr nb args (length args mod 2 ^ 16) h1 (Some ft0) = (h2, ft2, cs, st2)"
    by (metis prod_cases4)
  have "not_logic ft2" by (rule fill_not_logic(2) [OF fa nl])
  then show ?thesis using assms(1) True t al fa
    by (cases "l"; cases "ia_cast ia (Item a args)"; cases "ct = CTC_DATE_EXPR")
      (auto simp: Let_def not_logic_def zero_info_def split: option.splits prod.splits)
next
  case False
  then show ?thesis using assms(1,2) by (cases "it_type a") (auto split: prod.splits)
qed


lemma all_true_mono: "list_all2 (\<le>) vs ws \<Longrightarrow> all_true vs \<le> all_true ws"
  by (induction vs ws rule: list_all2_induct) (auto simp: min.coboundedI1 min.coboundedI2)

lemma some_true_mono: "list_all2 (\<le>) vs ws \<Longrightarrow> some_true vs \<le> some_true ws"
  by (induction vs ws rule: list_all2_induct) (auto simp: max.coboundedI1 max.coboundedI2)

text \<open>Lists of operands short enough for the 16-bit counter; a condition item of MySQL is an AND or an OR.\<close>

fun cond_wf :: "item \<Rightarrow> bool" where
  "cond_wf (Item a args) \<longleftrightarrow> length args < 2 ^ 16 \<and> (it_type a = COND_ITEM \<longrightarrow> logic_parent (it_functype a)) \<and>
     list_all cond_wf args"

lemma fill_complete:
  "dfs_fill_conds api ia tbl arr nb item h ft buf zi = (h', ft', c, st) \<Longrightarrow> st = Fill_ok \<Longrightarrow> zi = zero_info \<Longrightarrow>
     engine_complete api ia tbl arr nb val ev \<Longrightarrow> item_wf item \<Longrightarrow> cond_wf item \<Longrightarrow> eval val item \<le> eval_conds ev c"
  "fill_args api ia tbl arr nb items n h ft = (h', ft', cs, st) \<Longrightarrow> st = Fill_ok \<Longrightarrow> length items = n \<Longrightarrow>
     engine_complete api ia tbl arr nb val ev \<Longrightarrow> list_all item_wf items \<Longrightarrow> list_all cond_wf items \<Longrightarrow>
     list_all2 (\<le>) (map (eval val) items) (map (eval_conds ev) cs)"
proof (induction api ia tbl arr nb item h ft buf zi and api ia tbl arr nb items n h ft
    arbitrary: h' ft' c st and h' ft' cs st rule: dfs_fill_conds_fill_args.induct)
  case (1 api ia tbl arr nb a args h ft buf ci)
  note p = 1(3-)
  show ?case
  proof (cases "it_type a = COND_ITEM \<and> logic_parent (it_functype a)")
    case False
    have e: "eval val (Item a args) = val (Item a args)" using False by (auto simp: logic_parent_def)
    show ?thesis
    proof (cases "it_type a = COND_ITEM")
      case True
      then show ?thesis using False p(6) by simp
    next
      case f: False
      have "val (Item a args) \<le> ev c" using p(1-4) f unfolding engine_complete_def by (metis item.sel(1))
      then show ?thesis using e func_node_not_logic [of api ia tbl arr nb a args h ft buf h' ft' c st ev] p f by auto
    qed
  next
    case True
    obtain h1 l where al: "ctc_alloc_buf h = (h1, l)" by (metis prod.exhaust)
    obtain ct ft0 where t: "set_cond_types (it_functype a) = (ct, ft0)" by (metis prod.exhaust)
    obtain h2 ft2 cs st2 where fa: "fill_args api ia tbl arr nb args (length args mod 2 ^ 16) h1 None = (h2, ft2, cs, st2)"
      by (metis prod_cases4)
    obtain b where l: "l = Some b" using p(1,2) True al by (cases l) auto
    have ca: "ia_cast ia (Item a args)" using p(1,2) True al l by (auto split: if_splits)
    have r: "c = Conds buf (ci\<lparr>ci_cond_type := ct, ci_func_type := ft0\<rparr>) (Some (b, cs))" "st2 = Fill_ok"
      using p(1,2) True al l ca t fa by auto
    have "list_all2 (\<le>) (map (eval val) args) (map (eval_conds ev) cs)"
      using 1(2) [OF refl _ _ al [symmetric] l] True ca t fa r(2) p(4-6) by auto
    moreover have "ft0 = (if it_functype a = COND_AND_FUNC then CTC_COND_AND_FUNC else CTC_COND_OR_FUNC)"
      using t True by (auto simp: logic_parent_def set_cond_types_def get_cond_func_type_map_def g_cond_func_type_def)
    ultimately show ?thesis using True r(1) all_true_mono some_true_mono by (auto simp: logic_parent_def)
  qed
next
  case (3 api ia tbl arr nb x xs n h ft)
  have n: "n \<noteq> 0" using 3(5) by auto
  obtain h1 l where al: "ctc_alloc_buf h = (h1, l)" by (metis prod.exhaust)
  obtain b where l: "l = Some b" using 3(3,4) n al by (cases l) auto
  obtain h2 ft2 c2 st2 where d: "dfs_fill_conds api ia tbl arr nb x h1 ft b zero_info = (h2, ft2, c2, st2)"
    by (metis prod_cases4)
  obtain h3 ft3 cs3 st3 where e: "fill_args api ia tbl arr nb xs (n - 1) h2 ft2 = (h3, ft3, cs3, st3)"
    by (metis prod_cases4)
  have s: "st2 = Fill_ok" using 3(3,4) n al l d by (auto split: if_splits)
  have r: "cs = c2 # cs3" "st3 = Fill_ok" using 3(3,4) n al l d e s by auto
  have "eval val x \<le> eval_conds ev c2" using 3(1) [OF n al [symmetric] l d s refl 3(6)] 3(7,8) by simp
  moreover have "list_all2 (\<le>) (map (eval val) xs) (map (eval_conds ev) cs3)"
    using 3(2) [OF n al [symmetric] l d [symmetric] refl refl _ e r(2) _ 3(6)] s 3(5,7,8) by simp
  ultimately show ?case using r(1) by simp
qed auto


section \<open>A concrete serialisation\<close>

text \<open>A table with an integer column, a stored generated column and an integer column.\<close>

definition sample_field :: "string \<Rightarrow> bool \<Rightarrow> tfield" where
  "sample_field name gcol = \<lparr>tf_name = name, tf_type = MYSQL_TYPE_LONG,
     tf_desc = \<lparr>fd_real_type = MYSQL_TYPE_LONG, fd_pack_length = 4, fd_blob_flag = False, fd_binary_flag = False,
       fd_charset_bin = False\<rparr>, tf_gcol = gcol, tf_virtual = False\<rparr>"

definition sample_table :: "tfield list" where
  "sample_table = [sample_field ''a'' False, sample_field ''b'' True, sample_field ''c'' False]"

text \<open>Every item is the column \<open>c\<close> or the constant 42.\<close>

definition sample_ia :: item_api where
  "sample_ia = \<lparr>ia_cast = (\<lambda>_. True), ia_null_value = (\<lambda>_. False), ia_has_value = (\<lambda>_. True), ia_val_int = (\<lambda>_. 42),
     ia_unsigned = (\<lambda>_. False), ia_val_real = (\<lambda>_. replicate 8 0), ia_decimal = (\<lambda>_. ([], 1, 0)), ia_val_str = (\<lambda>_. []),
     ia_mbminlen = (\<lambda>_. 1), ia_collation = (\<lambda>_. 63), ia_name = (\<lambda>_. ''c''), ia_get_date = (\<lambda>_. None),
     ia_same_name = (=), ia_date_binary = (\<lambda>_. []), ia_tz_offset = Some 0, ia_tm_sess = 86400,
     ia_session_to_utc = Some\<rparr>"

definition full_heap :: fill_heap where
  "full_heap = \<lparr>fh_next = 7, fh_ok = (\<lambda>_. True), fh_live = []\<rparr>"

definition sample_column_node :: cond_info where
  "sample_column_node = zero_info\<lparr>ci_field_no := 1, ci_collate_id := 7, ci_field_type := CTC_DDL_TYPE_LONG, ci_field_size := 4\<rparr>"

definition sample_constant_node :: cond_info where
  "sample_constant_node = zero_info\<lparr>ci_cond_type := CTC_CONST_EXPR, ci_field_type := CTC_DDL_TYPE_LONGLONG, ci_field_size := 8,
     ci_field_value := Some (11, le_bytes 8 42)\<rparr>"

definition sample_conds :: conds where
  "sample_conds = Conds 7 (zero_info\<lparr>ci_cond_type := CTC_CMP_EXPR, ci_func_type := CTC_LT_FUNC\<rparr>)
     (Some (8, [Conds 9 sample_column_node None, Conds 10 sample_constant_node None]))"

lemma sample_field_filled:
  "cond_fill_field mysql_type_no sample_ia sample_table g_field_cnvrt_aux_array False sample_column zero_info =
     (sample_column_node, Fill_ok)"
  by (simp add: cond_fill_field_def sample_ia_def sample_table_def sample_field_def sample_column_node_def zero_info_def
      INVALID_MAX_COLUMN_def ctc_get_column_cs_def mysql_collate_num_to_ctc_type_def get_auxiliary_for_field_convert_def
      mysql_type_no_def g_field_cnvrt_aux_array_def aux_entry_def ctc_set_cond_field_size_def gcol_count_before_def Let_def
      numeral_2_eq_2)

definition sample_heap :: fill_heap where
  "sample_heap = fst (ctc_fill_conds demo_api sample_ia sample_table g_field_cnvrt_aux_array False sample_less
     (fst (ctc_alloc_buf full_heap)) 7)"

lemma sample_filled:
  "ctc_fill_conds demo_api sample_ia sample_table g_field_cnvrt_aux_array False sample_less (fst (ctc_alloc_buf full_heap)) 7 =
     (sample_heap, sample_conds, Fill_ok)"
proof -
  have "snd (ctc_fill_conds demo_api sample_ia sample_table g_field_cnvrt_aux_array False sample_less
     (fst (ctc_alloc_buf full_heap)) 7) = (sample_conds, Fill_ok)"
    using sample_field_filled
    by (simp add: ctc_fill_conds_def ctc_alloc_buf_def full_heap_def sample_less_def sample_func_def sample_column_def sample_constant_def
        base_attr_def sample_conds_def set_cond_types_def get_cond_func_type_map_def g_cond_func_type_def basic_api_def
        cond_fill_int_def ctc_cond_fill_data_int_def sample_constant_node_def sample_ia_def zero_info_def Let_def)
  then show ?thesis by (metis prod.collapse sample_heap_def)
qed

theorem fill_no_leak_witness:
  "ctc_alloc_buf full_heap = (fst (ctc_alloc_buf full_heap), Some 7) \<and>
   mset (fh_live (free_m_cond sample_conds sample_heap)) = {#} \<and> cond_bufs sample_conds \<subseteq># mset (fh_live sample_heap)"
  using fill_no_leak [of full_heap "fst (ctc_alloc_buf full_heap)" 7, OF _ sample_filled]
  by (simp add: ctc_alloc_buf_def full_heap_def)

lemma sample_columns_known: "columns_known (api_type_no demo_api) sample_table g_field_cnvrt_aux_array"
  by (simp add: columns_known_def basic_api_def sample_table_def sample_field_def INVALID_MAX_COLUMN_def
      get_auxiliary_for_field_convert_def mysql_type_no_def)

lemma pushed_fill_not_null_witness:
  "item_wf sample_where \<and>
   snd (snd (ctc_fill_conds demo_api sample_ia sample_table g_field_cnvrt_aux_array False sample_less full_heap 3)) \<noteq> Fill_null"
  using pushed_fill_not_null [OF sample_new_cond_ok sample_where_wf sample_where_split sample_columns_known,
      of sample_ia False full_heap 3] sample_where_wf
  by (cases "ctc_fill_conds demo_api sample_ia sample_table g_field_cnvrt_aux_array False sample_less full_heap 3") simp

theorem pushed_column_number_witness:
  "stored_gcols_before sample_table 2 = 1 \<and> ci_field_no sample_column_node = 1 \<and>
   cantian_columns sample_table ! (ci_field_no sample_column_node + stored_gcols_before sample_table 2) = sample_table ! 2 \<and>
   cantian_columns sample_table ! ci_field_no sample_column_node \<noteq> sample_table ! 2"
proof -
  have n: "ctc_get_column_by_field sample_ia sample_table (ia_name sample_ia sample_column) 0 = 2" by code_simp
  have "cantian_columns sample_table ! (ci_field_no sample_column_node + stored_gcols_before sample_table 2) = sample_table ! 2"
    using pushed_column_number [OF sample_field_filled] unfolding n
    by (simp add: sample_table_def sample_field_def INVALID_MAX_COLUMN_def)
  then show ?thesis
    by (simp add: sample_table_def sample_field_def stored_gcols_before_def sample_column_node_def cantian_columns_def numeral_2_eq_2)
qed

lemma pattern_rewritten_witness:
  "plain_char 1 [0, 0x25] \<and>
   (\<exists>data n. update_value_by_charset [0, 0x25, 0, 0x41] (length [0, 0x25, 0, 0x41 :: byte]) 1 = Some (data, n) \<and>
      take n data = [0x25, 0, 0x41])"
  using pattern_rewritten [of "[[0, 0x25], [0, 0x41]]" 1]
  by (simp add: plain_char_def wildcard_def strip_char_def)

theorem pattern_overrun_witness:
  "update_value_by_charset [0x5F, 0] (length [0x5F, 0 :: byte]) 1 = None"
  using pattern_overrun [of "0x5F" 1 "[0]"] by (simp add: wildcard_def)

text \<open>
  A row is the value of column \<open>c\<close>; the other operand of the condition is the unsupported one, true for even rows.
  The engine compares with 42 at a less-than node and returns every row at another.
\<close>

definition sample_truth :: "bool \<Rightarrow> truth" where
  "sample_truth b = (if b then TRUE else FALSE)"

definition sample_val :: "int \<Rightarrow> item \<Rightarrow> truth" where
  "sample_val row t = (if t = sample_less then sample_truth (row < 42)
     else if t = sample_other then sample_truth (even row) else FALSE)"

definition sample_engine :: "int \<Rightarrow> conds \<Rightarrow> truth" where
  "sample_engine row c = (if ci_func_type (cn_info c) = CTC_LT_FUNC then sample_truth (row < 42) else TRUE)"

lemma sample_other_node:
  assumes "dfs_fill_conds demo_api sample_ia sample_table g_field_cnvrt_aux_array nb sample_other h ft buf zero_info = (h', ft', c, Fill_ok)"
  shows "ci_func_type (cn_info c) \<noteq> CTC_LT_FUNC"
  using assms
  by (auto simp: sample_other_def sample_func_def sample_column_def base_attr_def Let_def set_cond_types_def get_cond_func_type_map_def
      g_cond_func_type_def split: option.splits prod.splits if_splits)

lemma sample_engine_complete:
  "engine_complete demo_api sample_ia sample_table g_field_cnvrt_aux_array False (sample_val row) (sample_engine row)"
  unfolding engine_complete_def sample_val_def sample_engine_def using sample_other_node
  by (auto simp: sample_truth_def)


end
