(* ===== verification/CTC_Scan.thy ===== *)
theory CTC_Scan
  imports CTC_Error CTC_Bytes
begin

text \<open>
  Table scans (ha_ctc.cc): rows are read one by one, or in batches. A batch of records of the engine lies in
  \<open>m_prefetch_buf\<close>; a window of it is converted into MySQL's record buffer, and refilled when it has been
  handed out. The record buffer is a class of MySQL: its operations are a parameter, with their documented
  behaviour as the locale \<open>record_buffer\<close>. So are the engine's functions, the conversion the
  function pointer \<open>cnvrt_to_mysql_record\<close> points to, and the state \<open>'s\<close> of the engine's session and cursor.
\<close>

section \<open>Constants\<close>

definition CTC_BUF_LEN :: nat where "CTC_BUF_LEN = 64 * 1024"
definition MAX_RECORD_SIZE :: nat where "MAX_RECORD_SIZE = 1 * CTC_BUF_LEN"
definition MAX_RECORD_BUFFER_SIZE_CTC :: nat where "MAX_RECORD_BUFFER_SIZE_CTC = 1 * CTC_BUF_LEN"
definition MAX_PREFETCH_REC_NUM :: nat where "MAX_PREFETCH_REC_NUM = 100"
definition CT_MAX_RECORD_LENGTH :: nat where "CT_MAX_RECORD_LENGTH = 64000"
definition INVALID_MAX_UINT32 :: nat where "INVALID_MAX_UINT32 = 2 ^ 32 - 1"
definition INVALID_VALUE64 :: nat where "INVALID_VALUE64 = 2 ^ 64 - 1"

lemmas scan_consts = CTC_BUF_LEN_def MAX_RECORD_SIZE_def MAX_RECORD_BUFFER_SIZE_CTC_def MAX_PREFETCH_REC_NUM_def
  CT_MAX_RECORD_LENGTH_def INVALID_MAX_UINT32_def

text \<open>\<open>n - 1\<close> on 32 bits.\<close>

definition pred32 :: "nat \<Rightarrow> nat" where
  "pred32 n = (n + (2 ^ 32 - 1)) mod 2 ^ 32"

section \<open>MySQL's record buffer\<close>

record ('b, 'row) rec_buf_api =
  rb_new :: "nat \<Rightarrow> 'b"
  rb_records :: "'b \<Rightarrow> nat"
  rb_max_records :: "'b \<Rightarrow> nat"
  rb_add_record :: "'b \<Rightarrow> 'b"
  rb_record :: "'b \<Rightarrow> nat \<Rightarrow> 'row"
  rb_store :: "'b \<Rightarrow> nat \<Rightarrow> 'row \<Rightarrow> 'b"
  rb_clear :: "'b \<Rightarrow> 'b"
  rb_reset :: "'b \<Rightarrow> 'b"
  rb_is_out_of_range :: "'b \<Rightarrow> bool"
  rb_set_out_of_range :: "bool \<Rightarrow> 'b \<Rightarrow> 'b"

text \<open>\<open>rb_store\<close> is a write through the pointer to a record of the buffer.\<close>

locale record_buffer =
  fixes rb :: "('b, 'row) rec_buf_api"
  assumes new: "rb_records rb (rb_new rb n) = 0" "rb_max_records rb (rb_new rb n) = n"
    and add: "rb_records rb b < rb_max_records rb b \<Longrightarrow> rb_records rb (rb_add_record rb b) = Suc (rb_records rb b)"
      "rb_max_records rb (rb_add_record rb b) = rb_max_records rb b"
      "rb_record rb (rb_add_record rb b) i = rb_record rb b i"
    and store: "rb_records rb (rb_store rb b i r) = rb_records rb b" "rb_max_records rb (rb_store rb b i r) = rb_max_records rb b"
      "i < rb_records rb b \<Longrightarrow> rb_record rb (rb_store rb b i r) j = (if i = j then r else rb_record rb b j)"
    and clear: "rb_records rb (rb_clear rb b) = 0" "rb_max_records rb (rb_clear rb b) = rb_max_records rb b"
    and reset: "rb_records rb (rb_reset rb b) = 0" "rb_max_records rb (rb_reset rb b) = rb_max_records rb b"
    and range: "rb_records rb (rb_set_out_of_range rb v b) = rb_records rb b"
      "rb_max_records rb (rb_set_out_of_range rb v b) = rb_max_records rb b"
      "rb_record rb (rb_set_out_of_range rb v b) i = rb_record rb b i"
      "rb_is_out_of_range rb (rb_set_out_of_range rb v b) = v"

section \<open>State\<close>

text \<open>The session and the statement, as far as a scan looks at them, and the outcomes of its allocations.\<close>

record scan_env =
  ddl_passthru :: bool
  alter_table_copy :: bool
  create_table_check :: bool
  error_if_not_empty :: bool
  no_fk_check :: bool
  select_prefetch :: bool
  sql_select :: bool
  sql_delete :: bool
  sql_alter_table :: bool
  exclusive_lock :: bool
  recursive_query :: bool
  ror_intersect :: bool
  single_run :: bool
  blob_field :: "nat list"
  virtual_gcol :: "nat \<Rightarrow> bool"
  non_trx_tmp_table :: bool
  log_table :: bool
  rec_buff_length :: nat
  read_set :: "bool list"
  write_set :: "bool list"
  key_part_fields :: "nat \<Rightarrow> nat list"
  max_key :: nat
  alloc_rec_buf_data :: bool
  alloc_prefetch_buf :: bool
  alloc_read_buf :: bool

text \<open>The members of \<open>ha_ctc\<close> that a scan uses; \<open>m_prefetch_buf\<close> is \<^const>\<open>None\<close> before its allocation.\<close>

record 'b scan =
  m_rec_buf :: "'b option"
  m_rec_buf_data :: bool
  m_prefetch_buf :: "byte list option"
  m_record_lens :: "nat list"
  m_rowids :: "nat list"
  m_read_buf :: bool
  cur_pos_in_buf :: nat
  actual_fetched_nums :: nat
  cur_off_in_prefetch_buf :: nat
  cur_fill_buf_index :: nat
  max_col_index :: nat
  m_cantian_rec_len :: nat
  m_index_sorted :: bool
  active_index :: nat
  m_ror_intersect :: bool
  m_is_covering_index :: bool
  cursor_valid :: bool
  cursor_addr :: nat
  cursor_ref :: int
  m_blob_addrs :: "nat list"
  mark_rollback :: bool

text \<open>
  What a batch read writes: the buffer of records, their lengths, their number and their row ids. A batch
  read takes the state of the engine and what the buffers hold before.
\<close>

record batch =
  bt_records :: "byte list"
  bt_lens :: "nat list"
  bt_num :: nat
  bt_rowids :: "nat list"

type_synonym 's prefetch_fn = "'s \<Rightarrow> batch \<Rightarrow> 's \<times> ct_errno \<times> batch"

text \<open>A conversion of the record at the start of a list of bytes, up to a column, into a row of MySQL.\<close>

type_synonym 'row converter = "byte list \<Rightarrow> nat \<Rightarrow> 'row \<Rightarrow> 'row"

section \<open>Preparing a scan\<close>

definition can_prefetch_records :: "scan_env \<Rightarrow> bool" where
  "can_prefetch_records env \<longleftrightarrow> select_prefetch env \<and> sql_select env \<and> blob_field env = [] \<and> \<not> recursive_query env"

definition set_ror_intersect :: "scan_env \<Rightarrow> 'b scan \<Rightarrow> 'b scan" where
  "set_ror_intersect env st = (if ror_intersect env then st\<lparr>m_ror_intersect := True\<rparr> else st)"

definition prefetch_max_rows :: "nat \<Rightarrow> nat" where
  "prefetch_max_rows mysql_rec_length =
     (let max_rows = MAX_PREFETCH_REC_NUM;
          max_rows = (if max_rows > MAX_RECORD_BUFFER_SIZE_CTC div mysql_rec_length
                      then MAX_RECORD_BUFFER_SIZE_CTC div mysql_rec_length else max_rows)
      in if max_rows > MAX_PREFETCH_REC_NUM - 1 then MAX_PREFETCH_REC_NUM - 1 else max_rows)"

definition set_prefetch_buffer :: "('b, 'row) rec_buf_api \<Rightarrow> scan_env \<Rightarrow> 'b scan \<Rightarrow> 'b scan \<times> ct_errno" where
  "set_prefetch_buffer rb env st =
     (let st = st\<lparr>m_rec_buf := None\<rparr>
      in if \<not> can_prefetch_records env then (st, CT_SUCCESS)
         else let st = (if m_rec_buf_data st then st else st\<lparr>m_rec_buf_data := alloc_rec_buf_data env\<rparr>)
              in if \<not> m_rec_buf_data st then (st, ERR_ALLOC_MEMORY)
                 else (st\<lparr>m_rec_buf := Some (rb_new rb (prefetch_max_rows (rec_buff_length env)))\<rparr>, CT_SUCCESS))"

definition reset_rec_buf :: "('b, 'row) rec_buf_api \<Rightarrow> bool \<Rightarrow> 'b scan \<Rightarrow> 'b scan" where
  "reset_rec_buf rb is_prefetch st =
     (let st = st\<lparr>cur_pos_in_buf := INVALID_MAX_UINT32\<rparr>;
          st = (if is_prefetch then st\<lparr>cur_pos_in_buf := 0\<rparr> else st)
      in case m_rec_buf st of None \<Rightarrow> st | Some b \<Rightarrow> st\<lparr>m_rec_buf := Some (rb_reset rb b)\<rparr>)"

datatype cursor_action = EXP_CURSOR_ACTION_SELECT | EXP_CURSOR_ACTION_UPDATE | EXP_CURSOR_ACTION_DELETE

definition scan_action :: "scan_env \<Rightarrow> cursor_action" where
  "scan_action env =
     (if exclusive_lock env
      then (if sql_delete env then EXP_CURSOR_ACTION_DELETE
            else if \<not> sql_alter_table env then EXP_CURSOR_ACTION_UPDATE else EXP_CURSOR_ACTION_SELECT)
      else EXP_CURSOR_ACTION_SELECT)"

text \<open>The operations return a code of MySQL, or one of Cantian's that was not converted.\<close>

datatype ha_code = Ha mysql_errno | Raw ct_errno

definition passthru_scan :: "scan_env \<Rightarrow> bool" where
  "passthru_scan env \<longleftrightarrow> ddl_passthru env \<and> (alter_table_copy env \<or> create_table_check env \<or> error_if_not_empty env)"

definition check_code :: "scan_env \<Rightarrow> ct_errno \<Rightarrow> 'b scan \<Rightarrow> 'b scan \<times> ct_errno" where
  "check_code env ret st =
     (case check_error_code_to_mysql (no_fk_check env) ret of
        (ret, marked) \<Rightarrow> (if marked then st\<lparr>mark_rollback := True\<rparr> else st, ret))"

definition rnd_init ::
    "('b, 'row) rec_buf_api \<Rightarrow> ('s \<Rightarrow> cursor_action \<Rightarrow> 's \<times> ct_errno) \<Rightarrow> scan_env \<Rightarrow> 'b scan \<Rightarrow> 's \<Rightarrow> 'b scan \<times> 's \<times> ha_code" where
  "rnd_init rb ctc_rnd_init env st s =
     (let st = st\<lparr>m_index_sorted := False\<rparr>
      in if passthru_scan env then (st, s, Ha NO_ERROR)
         else case set_prefetch_buffer rb env (set_ror_intersect env st) of
           (st, ret) \<Rightarrow>
             if ret \<noteq> CT_SUCCESS then (st, s, Raw ret)
             else case ctc_rnd_init s (scan_action env) of
               (s, ret) \<Rightarrow>
                 (case check_code env ret (st\<lparr>cursor_valid := False\<rparr>) of
                    (st, ret) \<Rightarrow> (reset_rec_buf rb False st, s, Ha (convert_ctc_error_code_to_mysql_impl ret))))"

section \<open>The columns a scan converts\<close>

text \<open>The loop to the last column in the set; the set is not empty when it runs.\<close>

fun last_in_set :: "bool list \<Rightarrow> nat \<Rightarrow> nat" where
  "last_in_set bits n = (if bits ! n \<or> n = 0 then n else last_in_set bits (n - 1))"

declare last_in_set.simps [simp del]

definition set_max_col_index_4_reading :: "scan_env \<Rightarrow> 'b scan \<Rightarrow> 'b scan" where
  "set_max_col_index_4_reading env st =
     (let n = pred32 (length (read_set env)); st = st\<lparr>max_col_index := n\<rparr>
      in if True \<in> set (write_set env) then st
         else if True \<notin> set (read_set env) then st\<lparr>max_col_index := INVALID_MAX_UINT32\<rparr>
         else if m_is_covering_index st \<and> active_index st \<noteq> max_key env
         then (case find (\<lambda>c. read_set env ! c) (rev (key_part_fields env (active_index st))) of
                 Some c \<Rightarrow> st\<lparr>max_col_index := c\<rparr> | None \<Rightarrow> st)
         else st\<lparr>max_col_index := last_in_set (read_set env) n\<rparr>)"

section \<open>Filling the record buffer\<close>

definition convert_into ::
    "('b, 'row) rec_buf_api \<Rightarrow> 'row converter \<Rightarrow> byte list \<Rightarrow> nat \<Rightarrow> nat \<Rightarrow> 'b \<Rightarrow> 'b" where
  "convert_into rb conv buf off mci b =
     (let i = rb_records rb b; b = rb_add_record rb b
      in if mci \<noteq> INVALID_MAX_UINT32 then rb_store rb b i (conv (drop off buf) mci (rb_record rb b i)) else b)"

text \<open>\<open>n\<close> rounds of the loop: the buffer, the offset of the next record and its number.\<close>

fun fill_loop ::
    "('b, 'row) rec_buf_api \<Rightarrow> 'row converter \<Rightarrow> byte list \<Rightarrow> nat list \<Rightarrow> nat \<Rightarrow> nat \<Rightarrow> 'b \<Rightarrow> nat \<Rightarrow> nat \<Rightarrow> 'b \<times> nat \<times> nat" where
  "fill_loop rb conv buf lens mci 0 b off idx = (b, off, idx)"
| "fill_loop rb conv buf lens mci (Suc n) b off idx =
     fill_loop rb conv buf lens mci n (convert_into rb conv buf off mci b) (off + lens ! idx) (idx + 1)"

definition batch_exhausts :: "'b scan \<Rightarrow> bool" where
  "batch_exhausts st \<longleftrightarrow> cur_off_in_prefetch_buf st \<le> MAX_RECORD_SIZE - m_cantian_rec_len st \<and>
     actual_fetched_nums st < MAX_PREFETCH_REC_NUM"

definition set_filled :: "('b, 'row) rec_buf_api \<Rightarrow> 'b scan \<Rightarrow> 'b \<times> nat \<times> nat \<Rightarrow> 'b scan" where
  "set_filled rb st = (\<lambda>(b, off, idx).
     let st = st\<lparr>cur_off_in_prefetch_buf := off, cur_fill_buf_index := idx\<rparr>
     in st\<lparr>m_rec_buf := Some (rb_set_out_of_range rb (batch_exhausts st) b)\<rparr>)"

definition fill_record_to_rec_buffer :: "('b, 'row) rec_buf_api \<Rightarrow> 'row converter \<Rightarrow> 'b scan \<Rightarrow> 'b scan" where
  "fill_record_to_rec_buffer rb conv st =
     (let b = rb_clear rb (the (m_rec_buf st));
          n = min (rb_max_records rb b) (actual_fetched_nums st - cur_fill_buf_index st)
      in set_filled rb st (fill_loop rb conv (the (m_prefetch_buf st)) (m_record_lens st) (max_col_index st) n b
           (cur_off_in_prefetch_buf st) (cur_fill_buf_index st)))"

definition ensure_prefetch_buf :: "scan_env \<Rightarrow> 'b scan \<Rightarrow> 'b scan" where
  "ensure_prefetch_buf env st =
     (if m_prefetch_buf st = None \<and> alloc_prefetch_buf env then st\<lparr>m_prefetch_buf := Some []\<rparr> else st)"

definition prefetch_and_fill_record_buffer ::
    "('b, 'row) rec_buf_api \<Rightarrow> 'row converter \<Rightarrow> scan_env \<Rightarrow> 's prefetch_fn \<Rightarrow> 'b scan \<Rightarrow> 's \<Rightarrow> 'row \<Rightarrow>
     'b scan \<times> 's \<times> 'row \<times> mysql_errno" where
  "prefetch_and_fill_record_buffer rb conv env prefetch st s buf =
     (let st = ensure_prefetch_buf env (set_max_col_index_4_reading env st)
      in if m_prefetch_buf st = None then (st, s, buf, HA_ERR_OUT_OF_MEM)
         else case prefetch s \<lparr>bt_records = the (m_prefetch_buf st), bt_lens = m_record_lens st, bt_num = 0, bt_rowids = m_rowids st\<rparr> of
           (s, ret, bt) \<Rightarrow>
             (case check_code env ret st of
                (st, ret) \<Rightarrow>
                  let st = st\<lparr>m_prefetch_buf := Some (bt_records bt), m_record_lens := bt_lens bt, m_rowids := bt_rowids bt\<rparr>
                  in if ret \<noteq> CT_SUCCESS then (st, s, buf, convert_ctc_error_code_to_mysql_impl ret)
                     else if bt_num bt = 0 then (st, s, buf, HA_ERR_END_OF_FILE)
                     else
                       let st = reset_rec_buf rb True (st\<lparr>actual_fetched_nums := bt_num bt\<rparr>);
                           b = the (m_rec_buf st);
                           filled_num = (if bt_num bt \<le> rb_max_records rb b + 1 then bt_num bt else rb_max_records rb b + 1);
                           buf = (if max_col_index st \<noteq> INVALID_MAX_UINT32 then conv (bt_records bt) (max_col_index st) buf else buf)
                       in (set_filled rb st (fill_loop rb conv (bt_records bt) (bt_lens bt) (max_col_index st) (filled_num - 1) b
                             (bt_lens bt ! 0) 1), s, buf, NO_ERROR)))"

section \<open>Reading rows\<close>

definition update_blob_addrs :: "scan_env \<Rightarrow> ('row \<Rightarrow> nat \<Rightarrow> nat option) \<Rightarrow> 'row \<Rightarrow> 'b scan \<Rightarrow> 'b scan" where
  "update_blob_addrs env blob_data row st =
     st\<lparr>m_blob_addrs := m_blob_addrs st @
       List.map_filter (blob_data row) (filter (\<lambda>f. read_set env ! f \<and> \<not> virtual_gcol env f) (blob_field env))\<rparr>"

text \<open>A record of length 0 says that there is none.\<close>

definition process_cantian_record ::
    "'row converter \<Rightarrow> scan_env \<Rightarrow> ('row \<Rightarrow> nat \<Rightarrow> nat option) \<Rightarrow> 'b scan \<Rightarrow> 'row \<Rightarrow> byte list \<Rightarrow> ct_errno \<Rightarrow> mysql_errno \<Rightarrow>
     'b scan \<times> 'row \<times> mysql_errno" where
  "process_cantian_record conv env blob_data st buf rec ct_ret rc_ret =
     (case check_code env ct_ret st of
        (st, ct_ret) \<Rightarrow>
          if ct_ret \<noteq> CT_SUCCESS then (st, buf, convert_ctc_error_code_to_mysql_impl ct_ret)
          else if rec = [] then (st, buf, rc_ret)
          else let buf = conv rec INVALID_MAX_UINT32 buf in (update_blob_addrs env blob_data buf st, buf, NO_ERROR))"

definition ctc_alloc_ctc_buf_4_read :: "scan_env \<Rightarrow> 'b scan \<Rightarrow> 'b scan \<times> mysql_errno" where
  "ctc_alloc_ctc_buf_4_read env st =
     (if single_run env then (st\<lparr>m_read_buf := False\<rparr>, NO_ERROR)
      else if m_read_buf st then (st, NO_ERROR)
      else if alloc_read_buf env then (st\<lparr>m_read_buf := True\<rparr>, NO_ERROR)
      else (st, convert_ctc_error_code_to_mysql_impl ERR_ALLOC_MEMORY))"

text \<open>The part \<open>rnd_next\<close> and \<open>index_fetch\<close> share: a row without a batch, and one from the batch.\<close>

definition fetch_one ::
    "'row converter \<Rightarrow> scan_env \<Rightarrow> ('row \<Rightarrow> nat \<Rightarrow> nat option) \<Rightarrow> ('s \<Rightarrow> 's \<times> ct_errno \<times> byte list) \<Rightarrow> 'b scan \<Rightarrow> 's \<Rightarrow> 'row \<Rightarrow>
     'b scan \<times> 's \<times> 'row \<times> mysql_errno" where
  "fetch_one conv env blob_data fetch st s buf =
     (case ctc_alloc_ctc_buf_4_read env st of
        (st, e) \<Rightarrow>
          if e \<noteq> NO_ERROR then (st, s, buf, e)
          else case fetch s of
            (s, ct_ret, rec) \<Rightarrow>
              (case process_cantian_record conv env blob_data st buf rec ct_ret HA_ERR_END_OF_FILE of
                 (st, buf, e) \<Rightarrow> (st, s, buf, e)))"

definition fetch_from_batch ::
    "('b, 'row) rec_buf_api \<Rightarrow> 'row converter \<Rightarrow> scan_env \<Rightarrow> 's prefetch_fn \<Rightarrow> 'b scan \<Rightarrow> 's \<Rightarrow> 'row \<Rightarrow>
     'b scan \<times> 's \<times> 'row \<times> mysql_errno" where
  "fetch_from_batch rb conv env prefetch st s buf =
     (let b = the (m_rec_buf st)
      in if rb_records rb b \<noteq> 0 \<and> cur_pos_in_buf st < pred32 (actual_fetched_nums st)
         then
           let buf = rb_record rb b (cur_pos_in_buf st mod rb_max_records rb b);
               st = st\<lparr>cur_pos_in_buf := (cur_pos_in_buf st + 1) mod 2 ^ 32\<rparr>;
               st = (if cur_pos_in_buf st mod rb_max_records rb b = 0 then fill_record_to_rec_buffer rb conv st else st)
           in (st, s, buf, NO_ERROR)
         else
           let st = (if rb_records rb b \<noteq> 0 then st\<lparr>cur_pos_in_buf := INVALID_MAX_UINT32\<rparr> else st)
           in if rb_records rb b \<noteq> 0 \<and> rb_is_out_of_range rb b then (st, s, buf, HA_ERR_END_OF_FILE)
              else prefetch_and_fill_record_buffer rb conv env prefetch st s buf)"

definition rnd_next ::
    "('b, 'row) rec_buf_api \<Rightarrow> 'row converter \<Rightarrow> scan_env \<Rightarrow> ('row \<Rightarrow> nat \<Rightarrow> nat option) \<Rightarrow> ('s \<Rightarrow> 's \<times> ct_errno \<times> byte list) \<Rightarrow>
     's prefetch_fn \<Rightarrow> 'b scan \<Rightarrow> 's \<Rightarrow> 'row \<Rightarrow> 'b scan \<times> 's \<times> 'row \<times> mysql_errno" where
  "rnd_next rb conv env blob_data ctc_rnd_next ctc_rnd_prefetch st s buf =
     (case m_rec_buf st of
        None \<Rightarrow> if passthru_scan env then (st, s, buf, HA_ERR_END_OF_FILE) else fetch_one conv env blob_data ctc_rnd_next st s buf
      | Some b \<Rightarrow>
          if rb_records rb b = 0 \<and> passthru_scan env then (st, s, buf, HA_ERR_END_OF_FILE)
          else if rb_max_records rb b = 0 then fetch_one conv env blob_data ctc_rnd_next st s buf
          else fetch_from_batch rb conv env ctc_rnd_prefetch st s buf)"

definition index_fetch ::
    "('b, 'row) rec_buf_api \<Rightarrow> 'row converter \<Rightarrow> scan_env \<Rightarrow> ('row \<Rightarrow> nat \<Rightarrow> nat option) \<Rightarrow> ('s \<Rightarrow> 's \<times> ct_errno \<times> byte list) \<Rightarrow>
     's prefetch_fn \<Rightarrow> 'b scan \<Rightarrow> 's \<Rightarrow> 'row \<Rightarrow> 'b scan \<times> 's \<times> 'row \<times> mysql_errno" where
  "index_fetch rb conv env blob_data ctc_general_fetch ctc_general_prefetch st s buf =
     (case m_rec_buf st of
        None \<Rightarrow> fetch_one conv env blob_data ctc_general_fetch st s buf
      | Some b \<Rightarrow>
          if rb_max_records rb b = 0 then fetch_one conv env blob_data ctc_general_fetch st s buf
          else fetch_from_batch rb conv env ctc_general_prefetch st s buf)"

text \<open>The row id of the row read last; \<open>ctc_position\<close> asks the engine. \<^const>\<open>None\<close> is the failed assertion.\<close>

definition position :: "('s \<Rightarrow> nat) \<Rightarrow> 'b scan \<Rightarrow> 's \<Rightarrow> nat option" where
  "position ctc_position st s =
     (if cur_pos_in_buf st = INVALID_MAX_UINT32 then Some (ctc_position s)
      else if cur_pos_in_buf st < MAX_PREFETCH_REC_NUM then Some (m_rowids st ! cur_pos_in_buf st) else None)"

section \<open>Starting and ending\<close>

definition rnd_end :: "('s \<Rightarrow> 's \<times> ct_errno) \<Rightarrow> scan_env \<Rightarrow> 'b scan \<Rightarrow> 's \<Rightarrow> 'b scan \<times> 's \<times> mysql_errno" where
  "rnd_end ctc_rnd_end env st s =
     (if passthru_scan env then (st, s, NO_ERROR)
      else case (if non_trx_tmp_table env \<or> log_table env
                 then (case ctc_rnd_end s of
                         (s, ret) \<Rightarrow> (case check_code env ret st of (st, ret) \<Rightarrow> (st, s, convert_ctc_error_code_to_mysql_impl ret)))
                 else (st, s, NO_ERROR)) of
             (st, s, ret) \<Rightarrow> (st\<lparr>cursor_valid := False, cursor_addr := INVALID_VALUE64\<rparr>, s, ret))"

definition index_init :: "('b, 'row) rec_buf_api \<Rightarrow> scan_env \<Rightarrow> nat \<Rightarrow> bool \<Rightarrow> 'b scan \<Rightarrow> 'b scan \<times> ha_code" where
  "index_init rb env index is_sorted st =
     (case set_prefetch_buffer rb env (set_ror_intersect env st) of
        (st, ret) \<Rightarrow>
          if ret \<noteq> CT_SUCCESS then (st, Raw ret)
          else
            let st = reset_rec_buf rb False (st\<lparr>m_index_sorted := is_sorted, active_index := index\<rparr>);
                st = (if cursor_ref st \<le> 0 then st\<lparr>cursor_ref := 0, cursor_addr := INVALID_VALUE64\<rparr> else st)
            in (st\<lparr>cursor_ref := cursor_ref st + 1, cursor_valid := False\<rparr>, Ha NO_ERROR))"

text \<open>\<^const>\<open>None\<close> is the failed assertion on the result of \<open>ctc_index_end\<close>.\<close>

definition index_end :: "('s \<Rightarrow> 's \<times> ct_errno) \<Rightarrow> scan_env \<Rightarrow> 'b scan \<Rightarrow> 's \<Rightarrow> ('b scan \<times> 's \<times> mysql_errno) option" where
  "index_end ctc_index_end env st s =
     (let st = st\<lparr>active_index := max_key env\<rparr>
      in case (if non_trx_tmp_table env
               then (case ctc_index_end s of (s, ret) \<Rightarrow> if ret = CT_SUCCESS then Some s else None) else Some s) of
           None \<Rightarrow> None
         | Some s \<Rightarrow>
             let st = st\<lparr>cursor_ref := cursor_ref st - 1\<rparr>
             in Some (if cursor_ref st \<le> 0 then st\<lparr>cursor_valid := False\<rparr> else st, s, NO_ERROR))"

section \<open>Batches\<close>

text \<open>The rows of a batch, and where they lie.\<close>

type_synonym stored_row = "byte list \<times> nat"

definition batch_size :: "stored_row list \<Rightarrow> nat" where
  "batch_size bs = length (concat (map fst bs))"

lemma batch_size_simps [simp]:
  "batch_size [] = 0" "batch_size (x # bs) = length (fst x) + batch_size bs" "batch_size (bs @ cs) = batch_size bs + batch_size cs"
  by (simp_all add: batch_size_def)

lemma batch_size_Suc: "i < length bs \<Longrightarrow> batch_size (take (Suc i) bs) = batch_size (take i bs) + length (fst (bs ! i))"
  by (simp add: take_Suc_conv_app_nth)

text \<open>The buffers hold the batch \<open>bs\<close>.\<close>

definition holds_batch :: "stored_row list \<Rightarrow> byte list \<Rightarrow> nat list \<Rightarrow> nat list \<Rightarrow> bool" where
  "holds_batch bs buf lens ids \<longleftrightarrow> (\<exists>pad. buf = concat (map fst bs) @ pad) \<and>
     take (length bs) lens = map (length \<circ> fst) bs \<and> take (length bs) ids = map snd bs"

lemma holds_batch_nth:
  assumes "holds_batch bs buf lens ids" "i < length bs"
  shows "lens ! i = length (fst (bs ! i))" "ids ! i = snd (bs ! i)"
    and "\<exists>rest. drop (batch_size (take i bs)) buf = fst (bs ! i) @ rest"
proof -
  have t: "take (length bs) lens = map (length \<circ> fst) bs" "take (length bs) ids = map snd bs"
    using assms(1) by (simp_all add: holds_batch_def)
  show "lens ! i = length (fst (bs ! i))" "ids ! i = snd (bs ! i)"
    using arg_cong [OF t(1), of "\<lambda>xs. xs ! i"] arg_cong [OF t(2), of "\<lambda>xs. xs ! i"] assms(2) by simp_all
  obtain pad where b: "buf = concat (map fst bs) @ pad" using assms(1) by (auto simp: holds_batch_def)
  have "bs = take i bs @ bs ! i # drop (Suc i) bs" using assms(2) by (rule id_take_nth_drop)
  then have "concat (map fst bs) = concat (map fst (take i bs)) @ fst (bs ! i) @ concat (map fst (drop (Suc i) bs))"
    by (metis concat.simps(2) concat_append list.simps(9) map_append)
  then show "\<exists>rest. drop (batch_size (take i bs)) buf = fst (bs ! i) @ rest"
    unfolding b by (simp add: batch_size_def)
qed

text \<open>A row of MySQL shows a record: it is its conversion, over whatever the row held before.\<close>

definition shows_record :: "'row converter \<Rightarrow> nat \<Rightarrow> byte list \<Rightarrow> 'row \<Rightarrow> bool" where
  "shows_record conv mci r row \<longleftrightarrow> (mci \<noteq> INVALID_MAX_UINT32 \<longrightarrow> (\<exists>m. row = conv r mci m))"

text \<open>
  What a batch read promises: the next rows in their order, as many as fit. It stops before the last row only
  when a hundred have been read or when a record of the greatest length might not fit.
\<close>

definition batch_promise :: "'s prefetch_fn \<Rightarrow> ('s \<Rightarrow> stored_row list) \<Rightarrow> nat \<Rightarrow> bool" where
  "batch_promise prefetch rows rec_len \<longleftrightarrow> (\<forall>s old s' e bt. prefetch s old = (s', e, bt) \<longrightarrow>
     e = CT_SUCCESS \<and> bt_num bt \<le> MAX_PREFETCH_REC_NUM \<and> bt_num bt \<le> length (rows s) \<and> rows s' = drop (bt_num bt) (rows s) \<and>
     (0 < bt_num bt \<longrightarrow> holds_batch (take (bt_num bt) (rows s)) (bt_records bt) (bt_lens bt) (bt_rowids bt)) \<and>
     (rows s' = [] \<or> bt_num bt = MAX_PREFETCH_REC_NUM \<or> MAX_RECORD_SIZE - rec_len < batch_size (take (bt_num bt) (rows s))))"

text \<open>A conversion looks at the bytes of its record only.\<close>

definition conv_local :: "'row converter \<Rightarrow> ('s \<Rightarrow> stored_row list) \<Rightarrow> bool" where
  "conv_local conv rows \<longleftrightarrow> (\<forall>s r i rest mci m. (r, i) \<in> set (rows s) \<longrightarrow> conv (r @ rest) mci m = conv r mci m)"

locale batch_scan = record_buffer rb for rb :: "('b, 'row) rec_buf_api" +
  fixes conv :: "'row converter" and prefetch :: "'s prefetch_fn" and rows :: "'s \<Rightarrow> stored_row list" and rec_len :: nat
  assumes promise: "batch_promise prefetch rows rec_len"
    and conv_local: "conv_local conv rows"
begin

lemma converted:
  assumes "rb_records rb b < rb_max_records rb b" "b' = convert_into rb conv buf off mci b"
  shows "rb_records rb b' = Suc (rb_records rb b)" "rb_max_records rb b' = rb_max_records rb b"
    "i < rb_records rb b \<Longrightarrow> rb_record rb b' i = rb_record rb b i"
    "shows_record conv mci (drop off buf) (rb_record rb b' (rb_records rb b))"
  using assms by (auto simp: convert_into_def Let_def add store shows_record_def)

lemma filled:
  assumes "holds_batch bs buf lens ids" "set bs \<subseteq> set (rows s)" "rb_records rb b + n \<le> rb_max_records rb b" "idx + n \<le> length bs"
    and "fill_loop rb conv buf lens mci n b (batch_size (take idx bs)) idx = (b', off', idx')"
  shows "idx' = idx + n \<and> off' = batch_size (take (idx + n) bs) \<and> rb_records rb b' = rb_records rb b + n \<and>
    rb_max_records rb b' = rb_max_records rb b \<and>
    (\<forall>i < rb_records rb b. rb_record rb b' i = rb_record rb b i) \<and>
    (\<forall>i < n. shows_record conv mci (fst (bs ! (idx + i))) (rb_record rb b' (rb_records rb b + i)))"
  using assms(3-)
proof (induction n arbitrary: b idx)
  case (Suc n)
  let ?b = "convert_into rb conv buf (batch_size (take idx bs)) mci b"
  have lt: "rb_records rb b < rb_max_records rb b" "idx < length bs" using Suc.prems by simp_all
  note c = converted [OF lt(1), of ?b buf "batch_size (take idx bs)" mci, OF refl]
  note h = holds_batch_nth [OF assms(1) lt(2)]
  obtain rest where r: "drop (batch_size (take idx bs)) buf = fst (bs ! idx) @ rest" using h(3) by blast
  have "bs ! idx \<in> set (rows s)" using lt(2) assms(2) by auto
  then have "conv (fst (bs ! idx) @ rest) mci m = conv (fst (bs ! idx)) mci m" for m
    using conv_local unfolding conv_local_def by (metis prod.collapse)
  then have sh: "shows_record conv mci (fst (bs ! idx)) (rb_record rb ?b (rb_records rb b))"
    using c(4) unfolding r shows_record_def by simp
  have off: "batch_size (take idx bs) + lens ! idx = batch_size (take (Suc idx) bs)"
    using batch_size_Suc [OF lt(2)] h(1) by simp
  have "fill_loop rb conv buf lens mci n ?b (batch_size (take (Suc idx) bs)) (Suc idx) = (b', off', idx')"
    using Suc.prems(3) off by simp
  then have ih: "idx' = Suc idx + n" "off' = batch_size (take (Suc idx + n) bs)" "rb_records rb b' = rb_records rb ?b + n"
    "rb_max_records rb b' = rb_max_records rb ?b" "\<forall>i < rb_records rb ?b. rb_record rb b' i = rb_record rb ?b i"
    "\<forall>i < n. shows_record conv mci (fst (bs ! (Suc idx + i))) (rb_record rb b' (rb_records rb ?b + i))"
    using Suc.IH [of ?b "Suc idx"] Suc.prems(1,2) c(1,2) by auto
  have "shows_record conv mci (fst (bs ! (idx + i))) (rb_record rb b' (rb_records rb b + i))" if "i < Suc n" for i
  proof (cases i)
    case 0
    then show ?thesis using sh ih(5) c(1) by simp
  next
    case (Suc j)
    then show ?thesis using ih(6) that c(1) by simp
  qed
  then show ?case using ih c(1-3) by auto
qed auto

end

section \<open>The window\<close>

text \<open>
  \<open>cur_pos_in_buf\<close> is the number in the batch of the row handed out last. The record buffer holds the rows after
  the first one of the window, a multiple of its size; \<open>window_end\<close> is the number of rows converted.
\<close>

definition window_start :: "nat \<Rightarrow> nat \<Rightarrow> nat" where
  "window_start mx pos = pos div mx * mx"

definition window_end :: "nat \<Rightarrow> stored_row list \<Rightarrow> nat \<Rightarrow> nat" where
  "window_end mx bs pos = min (length bs) (window_start mx pos + mx + 1)"

definition window_ok ::
    "('b, 'row) rec_buf_api \<Rightarrow> 'row converter \<Rightarrow> nat \<Rightarrow> nat \<Rightarrow> stored_row list \<Rightarrow> nat \<Rightarrow> 'b \<Rightarrow> nat \<Rightarrow> nat \<Rightarrow> bool" where
  "window_ok rb conv rec_len mci bs pos b off idx \<longleftrightarrow>
     (let mx = rb_max_records rb b; w = window_start mx pos; f = window_end mx bs pos
      in idx = f \<and> off = batch_size (take f bs) \<and> rb_records rb b = f - (w + 1) \<and>
         (\<forall>i < f - (w + 1). shows_record conv mci (fst (bs ! (w + 1 + i))) (rb_record rb b i)) \<and>
         (rb_is_out_of_range rb b \<longleftrightarrow> off \<le> MAX_RECORD_SIZE - rec_len \<and> length bs < MAX_PREFETCH_REC_NUM))"

definition in_batch ::
    "('b, 'row) rec_buf_api \<Rightarrow> 'row converter \<Rightarrow> ('s \<Rightarrow> stored_row list) \<Rightarrow> nat \<Rightarrow> nat \<Rightarrow> stored_row list \<Rightarrow> 'b scan \<Rightarrow> 's \<Rightarrow> bool" where
  "in_batch rb conv rows rec_len mci bs st s \<longleftrightarrow>
     length bs \<le> MAX_PREFETCH_REC_NUM \<and> actual_fetched_nums st = length bs \<and> cur_pos_in_buf st < length bs \<and>
     holds_batch bs (the (m_prefetch_buf st)) (m_record_lens st) (m_rowids st) \<and> max_col_index st = mci \<and>
     window_ok rb conv rec_len mci bs (cur_pos_in_buf st) (the (m_rec_buf st)) (cur_off_in_prefetch_buf st) (cur_fill_buf_index st) \<and>
     (rows s = [] \<or> length bs = MAX_PREFETCH_REC_NUM \<or> MAX_RECORD_SIZE - rec_len < batch_size bs) \<and>
     (\<exists>s0. set bs \<subseteq> set (rows s0))"

definition scan_cols :: "scan_env \<Rightarrow> 'b scan \<Rightarrow> nat" where
  "scan_cols env st = max_col_index (set_max_col_index_4_reading env st)"

text \<open>The state of a scan that still has the rows \<open>pend\<close> to hand out.\<close>

definition scan_inv ::
    "('b, 'row) rec_buf_api \<Rightarrow> 'row converter \<Rightarrow> ('s \<Rightarrow> stored_row list) \<Rightarrow> nat \<Rightarrow> scan_env \<Rightarrow> nat \<Rightarrow> 'b scan \<Rightarrow> 's \<Rightarrow> stored_row list \<Rightarrow> bool" where
  "scan_inv rb conv rows rec_len env mci st s pend \<longleftrightarrow>
     m_rec_buf st \<noteq> None \<and> 0 < rb_max_records rb (the (m_rec_buf st)) \<and> (m_prefetch_buf st \<noteq> None \<or> alloc_prefetch_buf env) \<and>
     m_cantian_rec_len st = rec_len \<and> scan_cols env st = mci \<and>
     (rb_records rb (the (m_rec_buf st)) = 0 \<and> pend = rows s \<or>
      cur_pos_in_buf st = INVALID_MAX_UINT32 \<and> rows s = [] \<and> pend = [] \<or>
      (\<exists>bs. in_batch rb conv rows rec_len mci bs st s \<and> m_prefetch_buf st \<noteq> None \<and> pend = drop (Suc (cur_pos_in_buf st)) bs @ rows s))"

lemma window_start_le: "window_start mx pos \<le> pos"
  by (simp add: window_start_def)

lemma window_start_less: "0 < mx \<Longrightarrow> pos < window_start mx pos + mx"
  unfolding window_start_def using div_mult_mod_eq [of pos mx] mod_less_divisor [of mx pos] by linarith

lemma window_pos: "window_start mx pos + pos mod mx = pos"
  by (simp add: window_start_def)

lemma window_Suc: "0 < mx \<Longrightarrow> window_start mx (Suc pos) = (if Suc pos mod mx = 0 then Suc pos else window_start mx pos)"
  by (cases "Suc pos mod mx = 0") (simp add: window_start_def mod_eq_0_iff_dvd, simp add: window_start_def div_Suc)

lemma check_code_success [simp]: "check_code env CT_SUCCESS st = (st, CT_SUCCESS)"
  by (simp add: check_code_def check_error_code_to_mysql_def errno_defs)

lemma pred32_small: "0 < n \<Longrightarrow> n < 2 ^ 32 \<Longrightarrow> pred32 n = n - 1"
proof -
  assume n: "0 < n" "n < 2 ^ 32"
  then have "n + (2 ^ 32 - 1) = (n - 1) + 2 ^ 32" by simp
  then show ?thesis using n unfolding pred32_def by (metis less_imp_diff_less mod_add_self2 mod_less)
qed

lemma pred32_le: "pred32 n \<le> INVALID_MAX_UINT32"
  unfolding pred32_def INVALID_MAX_UINT32_def using mod_less_divisor [of "2 ^ 32" "n + (2 ^ 32 - 1)"] by simp

lemma max_col_frame [simp]:
  "m_rec_buf (set_max_col_index_4_reading env st) = m_rec_buf st"
  "m_prefetch_buf (set_max_col_index_4_reading env st) = m_prefetch_buf st"
  "m_record_lens (set_max_col_index_4_reading env st) = m_record_lens st"
  "m_rowids (set_max_col_index_4_reading env st) = m_rowids st"
  "cur_pos_in_buf (set_max_col_index_4_reading env st) = cur_pos_in_buf st"
  "m_cantian_rec_len (set_max_col_index_4_reading env st) = m_cantian_rec_len st"
  "m_is_covering_index (set_max_col_index_4_reading env st) = m_is_covering_index st"
  "active_index (set_max_col_index_4_reading env st) = active_index st"
  by (simp_all add: set_max_col_index_4_reading_def Let_def split: option.splits)

lemma scan_cols_frame [simp]:
  "scan_cols env (st\<lparr>m_rec_buf := b\<rparr>) = scan_cols env st" "scan_cols env (st\<lparr>m_prefetch_buf := p\<rparr>) = scan_cols env st"
  "scan_cols env (st\<lparr>m_record_lens := l\<rparr>) = scan_cols env st" "scan_cols env (st\<lparr>m_rowids := l\<rparr>) = scan_cols env st"
  "scan_cols env (st\<lparr>cur_pos_in_buf := n\<rparr>) = scan_cols env st" "scan_cols env (st\<lparr>actual_fetched_nums := n\<rparr>) = scan_cols env st"
  "scan_cols env (st\<lparr>cur_off_in_prefetch_buf := n\<rparr>) = scan_cols env st"
  "scan_cols env (st\<lparr>cur_fill_buf_index := n\<rparr>) = scan_cols env st" "scan_cols env (st\<lparr>max_col_index := n\<rparr>) = scan_cols env st"
  by (simp_all add: scan_cols_def set_max_col_index_4_reading_def Let_def split: option.splits)

context batch_scan
begin

text \<open>The next window, converted from where the last one ended.\<close>

lemma window_filled:
  assumes "holds_batch bs buf lens ids" "set bs \<subseteq> set (rows s)" "rb_records rb b = 0" "0 < rb_max_records rb b"
    and "pos mod rb_max_records rb b = 0" "pos < length bs"
    and "fill_loop rb conv buf lens mci (min (rb_max_records rb b) (length bs - Suc pos)) b (batch_size (take (Suc pos) bs)) (Suc pos)
      = (b', off, idx)"
    and "b'' = rb_set_out_of_range rb (off \<le> MAX_RECORD_SIZE - rec_len \<and> length bs < MAX_PREFETCH_REC_NUM) b'"
  shows "window_ok rb conv rec_len mci bs pos b'' off idx" "rb_max_records rb b'' = rb_max_records rb b"
proof -
  let ?n = "min (rb_max_records rb b) (length bs - Suc pos)"
  have f: "idx = Suc pos + ?n" "off = batch_size (take (Suc pos + ?n) bs)" "rb_records rb b' = ?n" "rb_max_records rb b' = rb_max_records rb b"
    "\<forall>i < ?n. shows_record conv mci (fst (bs ! (Suc pos + i))) (rb_record rb b' i)"
    using filled [OF assms(1,2) _ _ assms(7)] assms(3,6) by auto
  have w: "window_start (rb_max_records rb b) pos = pos" using assms(5) by (simp add: window_start_def mod_eq_0_iff_dvd)
  have "window_end (rb_max_records rb b) bs pos = Suc pos + ?n" using assms(6) by (auto simp: window_end_def w)
  then show "window_ok rb conv rec_len mci bs pos b'' off idx"
    using f assms(8) w by (simp add: window_ok_def Let_def range)
  show "rb_max_records rb b'' = rb_max_records rb b" using f(4) assms(8) by (simp add: range)
qed

lemma prefetched:
  assumes "prefetch_and_fill_record_buffer rb conv env prefetch st s buf = (st', s', buf', e)"
    and "m_rec_buf st = Some b" "0 < rb_max_records rb b" "m_prefetch_buf st \<noteq> None \<or> alloc_prefetch_buf env"
    and "m_cantian_rec_len st = rec_len" "scan_cols env st = mci"
  shows "m_prefetch_buf st' \<noteq> None \<and> m_cantian_rec_len st' = rec_len \<and> scan_cols env st' = mci \<and>
    (if rows s = [] then e = HA_ERR_END_OF_FILE \<and> rows s' = [] \<and> m_rec_buf st' = Some b \<and> cur_pos_in_buf st' = cur_pos_in_buf st
     else e = NO_ERROR \<and> (\<exists>bs b'. rows s = bs @ rows s' \<and> cur_pos_in_buf st' = 0 \<and> shows_record conv mci (fst (hd bs)) buf' \<and>
       m_rec_buf st' = Some b' \<and> rb_max_records rb b' = rb_max_records rb b \<and> in_batch rb conv rows rec_len mci bs st' s'))"
proof -
  define st1 where "st1 = ensure_prefetch_buf env (set_max_col_index_4_reading env st)"
  obtain s2 ret bt where p: "prefetch s \<lparr>bt_records = the (m_prefetch_buf st1), bt_lens = m_record_lens st1, bt_num = 0, bt_rowids = m_rowids st1\<rparr>
    = (s2, ret, bt)" by (metis prod_cases3)
  have pr: "ret = CT_SUCCESS" "bt_num bt \<le> MAX_PREFETCH_REC_NUM" "bt_num bt \<le> length (rows s)" "rows s2 = drop (bt_num bt) (rows s)"
    "0 < bt_num bt \<Longrightarrow> holds_batch (take (bt_num bt) (rows s)) (bt_records bt) (bt_lens bt) (bt_rowids bt)"
    "rows s2 = [] \<or> bt_num bt = MAX_PREFETCH_REC_NUM \<or> MAX_RECORD_SIZE - rec_len < batch_size (take (bt_num bt) (rows s))"
    using promise p unfolding batch_promise_def by blast+
  have f: "m_prefetch_buf st1 \<noteq> None" "m_rec_buf st1 = Some b" "m_cantian_rec_len st1 = rec_len" "scan_cols env st1 = mci"
    "max_col_index st1 = mci" "cur_pos_in_buf st1 = cur_pos_in_buf st"
    using assms(2-) by (auto simp: st1_def ensure_prefetch_buf_def Let_def scan_cols_def set_max_col_index_4_reading_def split: option.splits)
  define st2 where "st2 = st1\<lparr>m_prefetch_buf := Some (bt_records bt), m_record_lens := bt_lens bt, m_rowids := bt_rowids bt\<rparr>"
  let ?n = "bt_num bt" and ?b = "rb_reset rb b"
  define st3 where "st3 = st2\<lparr>actual_fetched_nums := ?n, cur_pos_in_buf := 0, m_rec_buf := Some ?b\<rparr>"
  have r3: "reset_rec_buf rb True (st2\<lparr>actual_fetched_nums := ?n\<rparr>) = st3"
    using f(2) by (simp add: st3_def st2_def reset_rec_buf_def Let_def)
  have un: "prefetch_and_fill_record_buffer rb conv env prefetch st s buf =
    (if ?n = 0 then (st2, s2, buf, HA_ERR_END_OF_FILE)
     else (set_filled rb st3 (fill_loop rb conv (bt_records bt) (bt_lens bt) (max_col_index st3)
              ((if ?n \<le> rb_max_records rb ?b + 1 then ?n else rb_max_records rb ?b + 1) - 1) ?b (bt_lens bt ! 0) 1),
           s2, if max_col_index st3 \<noteq> INVALID_MAX_UINT32 then conv (bt_records bt) (max_col_index st3) buf else buf, NO_ERROR))"
    using f(1) p pr(1) r3 unfolding prefetch_and_fill_record_buffer_def Let_def st1_def [symmetric]
    by (auto simp: st2_def [symmetric] st3_def)
  show ?thesis
  proof (cases "rows s = []")
    case True
    then have "?n = 0" using pr(3) by simp
    then show ?thesis using assms(1) un True pr(4) f by (auto simp: st2_def)
  next
    case False
    have n: "0 < ?n"
      using False pr(4,6) by (cases "?n = 0") (auto simp: MAX_PREFETCH_REC_NUM_def)
    let ?bs = "take ?n (rows s)"
    have l: "length ?bs = ?n" using pr(3) by simp
    obtain x xs where bs: "?bs = x # xs" using n l by (cases ?bs) auto
    have m3: "max_col_index st3 = mci" using f(5) by (simp add: st3_def st2_def)
    have fn: "(if ?n \<le> rb_max_records rb ?b + 1 then ?n else rb_max_records rb ?b + 1) - 1 = min (rb_max_records rb ?b) (length ?bs - Suc 0)"
      using n l by auto
    note hb = holds_batch_nth [OF pr(5) [OF n], of 0]
    have o: "bt_lens bt ! 0 = batch_size (take (Suc 0) ?bs)" using hb(1) n l bs by (simp del: take_eq_Nil)
    obtain b' off idx where fl: "fill_loop rb conv (bt_records bt) (bt_lens bt) mci (min (rb_max_records rb ?b) (length ?bs - Suc 0)) ?b
        (batch_size (take (Suc 0) ?bs)) (Suc 0) = (b', off, idx)" by (metis prod_cases3)
    define b'' where "b'' = rb_set_out_of_range rb (off \<le> MAX_RECORD_SIZE - rec_len \<and> length ?bs < MAX_PREFETCH_REC_NUM) b'"
    have sub: "set ?bs \<subseteq> set (rows s)" by (rule set_take_subset)
    have w: "window_ok rb conv rec_len mci ?bs 0 b'' off idx" "rb_max_records rb b'' = rb_max_records rb b"
      using window_filled [OF pr(5) [OF n] sub _ _ _ _ fl b''_def] n l assms(3) False by (auto simp: reset)
    have "e = NO_ERROR" "s' = s2" "st' = set_filled rb st3 (b', off, idx)"
      "buf' = (if mci \<noteq> INVALID_MAX_UINT32 then conv (bt_records bt) mci buf else buf)"
      using assms(1) un n fl unfolding m3 fn o by auto
    moreover have "set_filled rb st3 (b', off, idx) = st3\<lparr>cur_off_in_prefetch_buf := off, cur_fill_buf_index := idx, m_rec_buf := Some b''\<rparr>"
      using f(3) l by (simp add: set_filled_def Let_def batch_exhausts_def st3_def st2_def b''_def)
    moreover have "shows_record conv mci (fst (hd ?bs)) (if mci \<noteq> INVALID_MAX_UINT32 then conv (bt_records bt) mci buf else buf)"
    proof -
      obtain rest where "bt_records bt = fst x @ rest" using hb(3) n l bs by auto
      moreover have "x \<in> set (rows s)" using sub bs by auto
      ultimately show ?thesis using conv_local bs unfolding conv_local_def shows_record_def by (metis list.sel(1) prod.collapse)
    qed
    moreover have "in_batch rb conv rows rec_len mci ?bs (st3\<lparr>cur_off_in_prefetch_buf := off, cur_fill_buf_index := idx, m_rec_buf := Some b''\<rparr>) s2"
      using l n pr(2,4,6) pr(5) [OF n] w(1) m3 sub by (auto simp: in_batch_def st3_def st2_def)
    moreover have "rows s = ?bs @ rows s2" using pr(4) by simp
    ultimately show ?thesis using False w(2) f(3,4) by (auto simp: st3_def st2_def)
  qed
qed

lemma refilled:
  assumes "in_batch rb conv rows rec_len mci bs st s" "m_rec_buf st = Some b" "0 < rb_max_records rb b" "m_cantian_rec_len st = rec_len"
    and "Suc (cur_pos_in_buf st) < length bs"
    and "st' = (let st = st\<lparr>cur_pos_in_buf := Suc (cur_pos_in_buf st)\<rparr>
      in if cur_pos_in_buf st mod rb_max_records rb b = 0 then fill_record_to_rec_buffer rb conv st else st)"
  shows "\<exists>b'. in_batch rb conv rows rec_len mci bs st' s \<and> m_rec_buf st' = Some b' \<and> rb_max_records rb b' = rb_max_records rb b \<and>
    cur_pos_in_buf st' = Suc (cur_pos_in_buf st) \<and> m_cantian_rec_len st' = rec_len \<and> m_prefetch_buf st' = m_prefetch_buf st \<and>
    scan_cols env st' = scan_cols env st"
proof (cases "Suc (cur_pos_in_buf st) mod rb_max_records rb b = 0")
  case False
  have "window_start (rb_max_records rb b) (Suc (cur_pos_in_buf st)) = window_start (rb_max_records rb b) (cur_pos_in_buf st)"
    using window_Suc [OF assms(3)] False by simp
  then show ?thesis using assms False by (simp add: in_batch_def window_ok_def window_end_def Let_def)
next
  case True
  let ?p = "cur_pos_in_buf st" and ?m = "rb_max_records rb b"
  have i: "actual_fetched_nums st = length bs" "holds_batch bs (the (m_prefetch_buf st)) (m_record_lens st) (m_rowids st)"
    "max_col_index st = mci" "length bs \<le> MAX_PREFETCH_REC_NUM"
    using assms(1) by (simp_all add: in_batch_def)
  obtain s0 where s0: "set bs \<subseteq> set (rows s0)" using assms(1) by (auto simp: in_batch_def)
  have "window_start ?m (Suc ?p) = Suc ?p" using window_Suc [OF assms(3)] True by simp
  moreover have "window_start ?m (Suc ?p) = window_start ?m ?p + ?m"
    using True window_start_less [OF assms(3), of ?p] by (simp add: window_start_def div_Suc)
  ultimately have "window_end ?m bs ?p = Suc (Suc ?p)" using assms(5) by (simp add: window_end_def)
  then have f: "cur_fill_buf_index st = Suc (Suc ?p)" "cur_off_in_prefetch_buf st = batch_size (take (Suc (Suc ?p)) bs)"
    using assms(1,2) by (simp_all add: in_batch_def window_ok_def Let_def)
  obtain b' off idx where fl: "fill_loop rb conv (the (m_prefetch_buf st)) (m_record_lens st) mci
      (min (rb_max_records rb (rb_clear rb b)) (length bs - Suc (Suc ?p))) (rb_clear rb b) (batch_size (take (Suc (Suc ?p)) bs)) (Suc (Suc ?p))
      = (b', off, idx)" by (metis prod_cases3)
  define b'' where "b'' = rb_set_out_of_range rb (off \<le> MAX_RECORD_SIZE - rec_len \<and> length bs < MAX_PREFETCH_REC_NUM) b'"
  have w: "window_ok rb conv rec_len mci bs (Suc ?p) b'' off idx" "rb_max_records rb b'' = ?m"
    using window_filled [OF i(2) s0 _ _ _ assms(5) fl b''_def] True assms(3) by (auto simp: clear)
  have "st' = st\<lparr>cur_pos_in_buf := Suc ?p, cur_off_in_prefetch_buf := off, cur_fill_buf_index := idx, m_rec_buf := Some b''\<rparr>"
    using assms(2,4,6) True f fl i(1,3)
    by (simp add: fill_record_to_rec_buffer_def set_filled_def Let_def batch_exhausts_def b''_def)
  then show ?thesis using assms(1,4,5) w by (auto simp: in_batch_def)
qed

lemma in_batch_position:
  assumes "in_batch rb conv rows rec_len mci bs st s"
  shows "position ctc_position st s = Some (snd (bs ! cur_pos_in_buf st))"
proof -
  have h: "holds_batch bs (the (m_prefetch_buf st)) (m_record_lens st) (m_rowids st)" "cur_pos_in_buf st < length bs"
    "length bs \<le> MAX_PREFETCH_REC_NUM" using assms by (simp_all add: in_batch_def)
  show ?thesis using holds_batch_nth(2) [OF h(1,2)] h(2,3) by (simp add: position_def MAX_PREFETCH_REC_NUM_def INVALID_MAX_UINT32_def)
qed

lemma prefetch_step:
  assumes "prefetch_and_fill_record_buffer rb conv env prefetch st s buf = (st', s', buf', e)"
    and "m_rec_buf st = Some b" "0 < rb_max_records rb b" "m_prefetch_buf st \<noteq> None \<or> alloc_prefetch_buf env"
    and "m_cantian_rec_len st = rec_len" "scan_cols env st = mci" "rb_records rb b = 0 \<or> cur_pos_in_buf st = INVALID_MAX_UINT32"
  shows "case rows s of
      [] \<Rightarrow> e = HA_ERR_END_OF_FILE \<and> scan_inv rb conv rows rec_len env mci st' s' []
    | x # rest \<Rightarrow> e = NO_ERROR \<and> shows_record conv mci (fst x) buf' \<and> position ctc_position st' s' = Some (snd x) \<and>
        scan_inv rb conv rows rec_len env mci st' s' rest"
proof (cases "rows s")
  case Nil
  then show ?thesis using prefetched [OF assms(1-6)] assms(3,7) by (auto simp: scan_inv_def)
next
  case (Cons x rest)
  obtain bs b' where b: "e = NO_ERROR" "m_prefetch_buf st' \<noteq> None" "m_cantian_rec_len st' = rec_len" "scan_cols env st' = mci"
    "x # rest = bs @ rows s'" "cur_pos_in_buf st' = 0" "shows_record conv mci (fst (hd bs)) buf'"
    "m_rec_buf st' = Some b'" "rb_max_records rb b' = rb_max_records rb b" "in_batch rb conv rows rec_len mci bs st' s'"
    using prefetched [OF assms(1-6)] Cons by auto
  obtain xs where bs: "bs = x # xs" using b(5,6,10) by (cases bs) (auto simp: in_batch_def)
  then have "position ctc_position st' s' = Some (snd x)" using in_batch_position [OF b(10)] b(6) by simp
  moreover have "scan_inv rb conv rows rec_len env mci st' s' rest"
    using b bs assms(3) unfolding scan_inv_def by auto
  ultimately show ?thesis using b(1,7) bs Cons by simp
qed

lemma batch_next:
  assumes "in_batch rb conv rows rec_len mci bs st s" "m_rec_buf st = Some b" "0 < rb_max_records rb b"
  shows "rb_records rb b = 0 \<Longrightarrow> drop (Suc (cur_pos_in_buf st)) bs = []"
    "rb_is_out_of_range rb b \<Longrightarrow> length bs \<le> Suc (cur_pos_in_buf st) \<Longrightarrow> rows s = []"
    "Suc (cur_pos_in_buf st) < length bs \<Longrightarrow>
      shows_record conv mci (fst (bs ! Suc (cur_pos_in_buf st))) (rb_record rb b (cur_pos_in_buf st mod rb_max_records rb b))"
proof -
  let ?p = "cur_pos_in_buf st" and ?m = "rb_max_records rb b"
  let ?w = "window_start ?m ?p" and ?f = "window_end ?m bs ?p"
  have w: "rb_records rb b = ?f - (?w + 1)"
    "\<forall>i < ?f - (?w + 1). shows_record conv mci (fst (bs ! (?w + 1 + i))) (rb_record rb b i)"
    "rb_is_out_of_range rb b \<longleftrightarrow> batch_size (take ?f bs) \<le> MAX_RECORD_SIZE - rec_len \<and> length bs < MAX_PREFETCH_REC_NUM"
    and st: "rows s = [] \<or> length bs = MAX_PREFETCH_REC_NUM \<or> MAX_RECORD_SIZE - rec_len < batch_size bs"
    using assms(1,2) by (auto simp: in_batch_def window_ok_def Let_def)
  note le = window_start_le [of ?m ?p] window_start_less [OF assms(3), of ?p] window_pos [of ?m ?p]
  show "rb_records rb b = 0 \<Longrightarrow> drop (Suc ?p) bs = []" using w(1) le assms(3) by (auto simp: window_end_def)
  show "rows s = []" if "rb_is_out_of_range rb b" "length bs \<le> Suc ?p"
  proof -
    have "?f = length bs" using that(2) le by (simp add: window_end_def)
    then show ?thesis using w(3) st that(1) by auto
  qed
  show "shows_record conv mci (fst (bs ! Suc ?p)) (rb_record rb b (?p mod ?m))" if "Suc ?p < length bs"
  proof -
    have "?p mod ?m < ?f - (?w + 1)" using that le by (simp add: window_end_def)
    moreover have "?w + 1 + ?p mod ?m = Suc ?p" using le(3) by simp
    ultimately show ?thesis using w(2) by metis
  qed
qed

lemma batch_step:
  assumes "scan_inv rb conv rows rec_len env mci st s pend"
    and "fetch_from_batch rb conv env prefetch st s buf = (st', s', buf', e)"
  shows "case pend of
      [] \<Rightarrow> e = HA_ERR_END_OF_FILE \<and> scan_inv rb conv rows rec_len env mci st' s' []
    | x # rest \<Rightarrow> e = NO_ERROR \<and> shows_record conv mci (fst x) buf' \<and> position ctc_position st' s' = Some (snd x) \<and>
        scan_inv rb conv rows rec_len env mci st' s' rest"
proof -
  obtain b where b: "m_rec_buf st = Some b" "0 < rb_max_records rb b" "m_prefetch_buf st \<noteq> None \<or> alloc_prefetch_buf env"
    "m_cantian_rec_len st = rec_len" "scan_cols env st = mci"
    using assms(1) by (auto simp: scan_inv_def)
  let ?st = "st\<lparr>cur_pos_in_buf := INVALID_MAX_UINT32\<rparr>"
  have reload: ?thesis if "rb_records rb b = 0" "pend = rows s"
    using prefetch_step [OF _ b] assms(2) b(1) that by (simp add: fetch_from_batch_def Let_def)
  have again: ?thesis if "rb_records rb b \<noteq> 0" "pend = rows s" "\<not> cur_pos_in_buf st < pred32 (actual_fetched_nums st)"
    "rb_is_out_of_range rb b \<Longrightarrow> rows s = []"
  proof (cases "rb_is_out_of_range rb b")
    case True
    then show ?thesis using assms(2) b that by (auto simp: fetch_from_batch_def Let_def scan_inv_def)
  next
    case False
    then show ?thesis using prefetch_step [of env ?st s buf st' s' buf' e b mci] assms(2) b that
      by (simp add: fetch_from_batch_def Let_def)
  qed
  consider (empty) "rb_records rb b = 0" "pend = rows s" | (over) "cur_pos_in_buf st = INVALID_MAX_UINT32" "rows s = []" "pend = []"
    | (batch) bs where "in_batch rb conv rows rec_len mci bs st s" "pend = drop (Suc (cur_pos_in_buf st)) bs @ rows s" "m_prefetch_buf st \<noteq> None"
    using assms(1) b(1) by (auto simp: scan_inv_def)
  then show ?thesis
  proof cases
    case empty
    then show ?thesis by (rule reload)
  next
    case over
    then show ?thesis using reload again pred32_le [of "actual_fetched_nums st"] by (cases "rb_records rb b = 0") auto
  next
    case (batch bs)
    note nx = batch_next [OF batch(1) b(1,2)]
    have i: "actual_fetched_nums st = length bs" "cur_pos_in_buf st < length bs" "length bs \<le> MAX_PREFETCH_REC_NUM"
      using batch(1) by (simp_all add: in_batch_def)
    have p: "pred32 (actual_fetched_nums st) = length bs - 1" using i pred32_small [of "length bs"] by (cases bs) (auto simp: MAX_PREFETCH_REC_NUM_def)
    show ?thesis
    proof (cases "rb_records rb b = 0")
      case True
      then show ?thesis using reload nx(1) batch(2) by simp
    next
      case rec: False
      show ?thesis
      proof (cases "Suc (cur_pos_in_buf st) < length bs")
        case False
        then show ?thesis using again rec nx(2) batch(2) p i by simp
      next
        case True
        then have lt: "cur_pos_in_buf st < pred32 (actual_fetched_nums st)" using p by simp
        have "(cur_pos_in_buf st + 1) mod 2 ^ 32 = Suc (cur_pos_in_buf st)" using True i by (simp add: MAX_PREFETCH_REC_NUM_def)
        then have r: "st' = (let st = st\<lparr>cur_pos_in_buf := Suc (cur_pos_in_buf st)\<rparr>
            in if cur_pos_in_buf st mod rb_max_records rb b = 0 then fill_record_to_rec_buffer rb conv st else st)"
          "s' = s" "buf' = rb_record rb b (cur_pos_in_buf st mod rb_max_records rb b)" "e = NO_ERROR"
          using assms(2) b(1) rec lt by (simp_all add: fetch_from_batch_def Let_def)
        obtain b' where b': "in_batch rb conv rows rec_len mci bs st' s" "m_rec_buf st' = Some b'"
          "rb_max_records rb b' = rb_max_records rb b" "cur_pos_in_buf st' = Suc (cur_pos_in_buf st)"
          "m_cantian_rec_len st' = rec_len" "m_prefetch_buf st' = m_prefetch_buf st" "scan_cols env st' = scan_cols env st"
          using refilled [OF batch(1) b(1,2,4) True r(1)] by blast
        have "pend = bs ! Suc (cur_pos_in_buf st) # drop (Suc (cur_pos_in_buf st')) bs @ rows s"
          using batch(2) True b'(4) by (simp add: Cons_nth_drop_Suc)
        moreover have "position ctc_position st' s = Some (snd (bs ! Suc (cur_pos_in_buf st)))"
          using in_batch_position [OF b'(1)] b'(4) by simp
        moreover have "scan_inv rb conv rows rec_len env mci st' s (drop (Suc (cur_pos_in_buf st')) bs @ rows s)"
          using b' b batch(3) by (auto simp: scan_inv_def)
        ultimately show ?thesis using r nx(3) [OF True] by simp
      qed
    qed
  qed
qed

end

section \<open>A scan is a walk along a cursor\<close>

text \<open>\<open>k\<close> reads of a cursor: the rows in their order, and nothing after the last.\<close>

fun cursor_scan :: "nat \<Rightarrow> 'r list \<Rightarrow> 'r option list" where
  "cursor_scan 0 rs = []"
| "cursor_scan (Suc k) [] = None # cursor_scan k []"
| "cursor_scan (Suc k) (r # rs) = Some r # cursor_scan k rs"

text \<open>\<open>k\<close> calls of a function that reads a row: the row, its row id and the code.\<close>

fun scan_calls ::
    "('st \<Rightarrow> 's \<Rightarrow> 'row \<Rightarrow> 'st \<times> 's \<times> 'row \<times> mysql_errno) \<Rightarrow> ('st \<Rightarrow> 's \<Rightarrow> nat option) \<Rightarrow> nat \<Rightarrow> 'st \<Rightarrow> 's \<Rightarrow> 'row \<Rightarrow>
     ('row \<times> nat option \<times> mysql_errno) list" where
  "scan_calls read pos 0 st s buf = []"
| "scan_calls read pos (Suc k) st s buf =
     (case read st s buf of (st, s, buf, e) \<Rightarrow> (buf, pos st s, e) # scan_calls read pos k st s buf)"

definition handed_out :: "(byte list \<Rightarrow> 'row \<Rightarrow> bool) \<Rightarrow> stored_row option \<Rightarrow> 'row \<times> nat option \<times> mysql_errno \<Rightarrow> bool" where
  "handed_out P r out \<longleftrightarrow> (case (r, out) of
     (None, (_, _, e)) \<Rightarrow> e = HA_ERR_END_OF_FILE
   | (Some (rec, i), (row, pos, e)) \<Rightarrow> e = NO_ERROR \<and> P rec row \<and> pos = Some i)"

text \<open>A simulation of the cursor by an invariant gives the whole walk.\<close>

lemma scan_simulation:
  assumes "I st s pend"
    and "\<And>st s pend buf st' s' buf' e. I st s pend \<Longrightarrow> read st s buf = (st', s', buf', e) \<Longrightarrow>
      (case pend of [] \<Rightarrow> e = HA_ERR_END_OF_FILE \<and> I st' s' []
       | x # rest \<Rightarrow> e = NO_ERROR \<and> P (fst x) buf' \<and> pos st' s' = Some (snd x) \<and> I st' s' rest)"
  shows "list_all2 (handed_out P) (cursor_scan k pend) (scan_calls read pos k st s buf)"
  using assms(1)
proof (induction k arbitrary: st s pend buf)
  case (Suc k)
  obtain st' s' buf' e where r: "read st s buf = (st', s', buf', e)" by (metis prod_cases4)
  show ?case using assms(2) [OF Suc.prems r] Suc.IH r
    by (cases pend) (auto simp: handed_out_def split: prod.splits)
qed simp

lemma max_rows_pos: "0 < l \<Longrightarrow> l \<le> MAX_RECORD_BUFFER_SIZE_CTC \<Longrightarrow> 0 < prefetch_max_rows l"
  by (simp add: prefetch_max_rows_def Let_def scan_consts div_greater_zero_iff)

lemma rnd_init_state:
  assumes "rnd_init rb ctc_rnd_init env st s0 = (st', s, Ha NO_ERROR)" "\<not> passthru_scan env"
  shows "cur_pos_in_buf st' = INVALID_MAX_UINT32 \<and> m_cantian_rec_len st' = m_cantian_rec_len st \<and>
    m_rec_buf st' = (if can_prefetch_records env then Some (rb_reset rb (rb_new rb (prefetch_max_rows (rec_buff_length env)))) else None)"
  using assms
  by (auto simp: rnd_init_def set_prefetch_buffer_def reset_rec_buf_def check_code_def set_ror_intersect_def Let_def
      CT_SUCCESS_def ERR_ALLOC_MEMORY_def split: prod.splits if_splits option.splits)

text \<open>
  C2: a table scan in batches is a walk along the engine's cursor. After \<open>rnd_init\<close>, any number of calls of
  \<open>rnd_next\<close> hands out the rows of the cursor, each once and in order, converted from its own record, with
  \<open>position\<close> giving its row id, then HA_ERR_END_OF_FILE for good. The batches, the window of converted
  rows that is refilled in between, and the test that ends the scan without asking the engine
  again are not seen.
\<close>

theorem batch_scan_refines_cursor:
  assumes "record_buffer rb" "batch_promise ctc_rnd_prefetch rows (m_cantian_rec_len st)" "conv_local conv rows"
    and "can_prefetch_records env" "\<not> passthru_scan env" "0 < rec_buff_length env" "rec_buff_length env \<le> MAX_RECORD_BUFFER_SIZE_CTC"
    and "alloc_prefetch_buf env" "rnd_init rb ctc_rnd_init env st s0 = (st', s, Ha NO_ERROR)"
  shows "list_all2 (handed_out (shows_record conv (scan_cols env st'))) (cursor_scan k (rows s))
    (scan_calls (rnd_next rb conv env blob_data ctc_rnd_next ctc_rnd_prefetch) (position ctc_position) k st' s buf)"
proof -
  let ?l = "m_cantian_rec_len st" and ?m = "scan_cols env st'"
  have bs: "batch_scan rb conv ctc_rnd_prefetch rows ?l"
    using assms(1-3) by (simp add: batch_scan_def batch_scan_axioms_def)
  note new = record_buffer.new [OF assms(1)] record_buffer.reset [OF assms(1)]
  have i: "scan_inv rb conv rows ?l env ?m st' s (rows s)"
    using rnd_init_state [OF assms(9,5)] assms(4,8) max_rows_pos [OF assms(6,7)] by (simp add: scan_inv_def new)
  show ?thesis
  proof (rule scan_simulation [of "scan_inv rb conv rows ?l env ?m", OF i])
    fix st s pend buf st' s' buf' e
    assume inv: "scan_inv rb conv rows ?l env ?m st s pend"
      and "rnd_next rb conv env blob_data ctc_rnd_next ctc_rnd_prefetch st s buf = (st', s', buf', e)"
    then have "fetch_from_batch rb conv env ctc_rnd_prefetch st s buf = (st', s', buf', e)"
      using assms(5) by (auto simp: rnd_next_def scan_inv_def)
    then show "case pend of [] \<Rightarrow> e = HA_ERR_END_OF_FILE \<and> scan_inv rb conv rows ?l env ?m st' s' []
       | x # rest \<Rightarrow> e = NO_ERROR \<and> shows_record conv ?m (fst x) buf' \<and> position ctc_position st' s' = Some (snd x) \<and>
           scan_inv rb conv rows ?l env ?m st' s' rest"
      by (rule batch_scan.batch_step [OF bs inv])
  qed
qed

text \<open>What a read of a single row promises.\<close>

definition fetch_promise :: "('s \<Rightarrow> 's \<times> ct_errno \<times> byte list) \<Rightarrow> ('s \<Rightarrow> nat) \<Rightarrow> ('s \<Rightarrow> stored_row list) \<Rightarrow> bool" where
  "fetch_promise fetch ctc_position rows \<longleftrightarrow> (\<forall>s s' e rec. fetch s = (s', e, rec) \<longrightarrow> e = CT_SUCCESS \<and>
     (case rows s of [] \<Rightarrow> rec = [] \<and> rows s' = []
      | x # rest \<Rightarrow> rec = fst x \<and> rec \<noteq> [] \<and> rows s' = rest \<and> ctc_position s' = snd x))"

definition single_inv :: "scan_env \<Rightarrow> ('s \<Rightarrow> stored_row list) \<Rightarrow> 'b scan \<Rightarrow> 's \<Rightarrow> stored_row list \<Rightarrow> bool" where
  "single_inv env rows st s pend \<longleftrightarrow> m_rec_buf st = None \<and> cur_pos_in_buf st = INVALID_MAX_UINT32 \<and> pend = rows s \<and>
     (single_run env \<or> m_read_buf st \<or> alloc_read_buf env)"

lemma single_step:
  assumes "fetch_promise fetch ctc_position rows" "single_inv env rows st s pend"
    and "fetch_one conv env blob_data fetch st s buf = (st', s', buf', e)"
  shows "case pend of [] \<Rightarrow> e = HA_ERR_END_OF_FILE \<and> single_inv env rows st' s' []
       | x # rest \<Rightarrow> e = NO_ERROR \<and> (\<exists>m. buf' = conv (fst x) INVALID_MAX_UINT32 m) \<and> position ctc_position st' s' = Some (snd x) \<and>
           single_inv env rows st' s' rest"
proof -
  obtain s2 e2 rec where f: "fetch s = (s2, e2, rec)" by (metis prod_cases3)
  have p: "e2 = CT_SUCCESS" "case rows s of [] \<Rightarrow> rec = [] \<and> rows s2 = []
      | x # rest \<Rightarrow> rec = fst x \<and> rec \<noteq> [] \<and> rows s2 = rest \<and> ctc_position s2 = snd x"
    using assms(1) f unfolding fetch_promise_def by blast+
  show ?thesis
    using assms(2,3) f p
    by (cases "rows s") (auto simp: single_inv_def fetch_one_def ctc_alloc_ctc_buf_4_read_def process_cantian_record_def
        update_blob_addrs_def position_def Let_def split: if_splits)
qed

text \<open>
  C20: a table scan that may not use batches, as one with large objects or for an update, is the same walk: each
  call of \<open>rnd_next\<close> hands out the next row of the engine's cursor with all its columns, and \<open>position\<close> gives
  its row id.
\<close>

theorem single_scan_refines_cursor:
  assumes "fetch_promise ctc_rnd_next ctc_position rows" "\<not> can_prefetch_records env" "\<not> passthru_scan env"
    and "single_run env \<or> alloc_read_buf env" "rnd_init rb ctc_rnd_init env st s0 = (st', s, Ha NO_ERROR)"
  shows "list_all2 (handed_out (\<lambda>rec row. \<exists>m. row = conv rec INVALID_MAX_UINT32 m)) (cursor_scan k (rows s))
    (scan_calls (rnd_next rb conv env blob_data ctc_rnd_next ctc_rnd_prefetch) (position ctc_position) k st' s buf)"
proof -
  have i: "single_inv env rows st' s (rows s)" using rnd_init_state [OF assms(5,3)] assms(2,4) by (auto simp: single_inv_def)
  show ?thesis
  proof (rule scan_simulation [of "single_inv env rows", OF i])
    fix st s pend buf st' s' buf' e
    assume inv: "single_inv env rows st s pend"
      and "rnd_next rb conv env blob_data ctc_rnd_next ctc_rnd_prefetch st s buf = (st', s', buf', e)"
    then have "fetch_one conv env blob_data ctc_rnd_next st s buf = (st', s', buf', e)"
      using assms(3) by (simp add: rnd_next_def single_inv_def)
    then show "case pend of [] \<Rightarrow> e = HA_ERR_END_OF_FILE \<and> single_inv env rows st' s' []
       | x # rest \<Rightarrow> e = NO_ERROR \<and> (\<exists>m. buf' = conv (fst x) INVALID_MAX_UINT32 m) \<and> position ctc_position st' s' = Some (snd x) \<and>
           single_inv env rows st' s' rest"
      by (rule single_step [OF assms(1) inv])
  qed
qed

section \<open>No column is left out\<close>

lemma last_in_set_ge: "c \<le> n \<Longrightarrow> bits ! c \<Longrightarrow> c \<le> last_in_set bits n"
proof (induction bits n rule: last_in_set.induct)
  case (1 bits n)
  then show ?case by (subst last_in_set.simps) (cases "c = n"; auto)
qed

text \<open>
  the column at which a batch's conversion stops leaves out no column that is asked for: in a table scan no
  column of the read set has a higher number, and in an index-only scan every key part of the read
  set comes up to the first key part that is this column.
\<close>

lemma read_columns_converted:
  assumes "True \<notin> set (write_set env)" "length (read_set env) < 2 ^ 32" "c < length (read_set env)" "read_set env ! c"
  shows "if m_is_covering_index st \<and> active_index st \<noteq> max_key env
    then c \<in> set (key_part_fields env (active_index st)) \<longrightarrow>
      (\<exists>pre suf. key_part_fields env (active_index st) = pre @ scan_cols env st # suf \<and> c \<in> set (pre @ [scan_cols env st]))
    else c \<le> scan_cols env st"
proof -
  have "True \<in> set (read_set env)" using assms(3,4) by (metis (full_types) nth_mem)
  moreover have "pred32 (length (read_set env)) = length (read_set env) - 1" using pred32_small [of "length (read_set env)"] assms(2,3) by linarith
  moreover have "\<exists>pre suf. ks = pre @ x # suf \<and> c \<in> set (pre @ [x])"
    if "find (\<lambda>c. read_set env ! c) (rev ks) = Some x" "c \<in> set ks" for ks x
    using that assms(4)
    by (induction ks rule: rev_induct) (auto split: if_splits, metis append_Cons append_assoc, metis append_Cons append_assoc)
  moreover have "find (\<lambda>c. read_set env ! c) (rev ks) \<noteq> None" if "c \<in> set ks" for ks
    using that assms(4) by (auto simp: find_None_iff)
  ultimately show ?thesis using assms(1,3,4) last_in_set_ge [of c "length (read_set env) - 1" "read_set env"]
    by (auto simp: scan_cols_def set_max_col_index_4_reading_def Let_def split: option.splits)
qed

section \<open>A record buffer and a cursor\<close>

text \<open>A record buffer with its slots as a function, and a cursor over a list whose batches are as long as possible.\<close>

record 'row slot_buffer =
  sb_max :: nat
  sb_count :: nat
  sb_slots :: "nat \<Rightarrow> 'row"
  sb_out_of_range :: bool

definition slot_rb :: "'row \<Rightarrow> ('row slot_buffer, 'row) rec_buf_api" where
  "slot_rb r = \<lparr>rb_new = (\<lambda>n. \<lparr>sb_max = n, sb_count = 0, sb_slots = (\<lambda>_. r), sb_out_of_range = False\<rparr>),
     rb_records = sb_count, rb_max_records = sb_max, rb_add_record = (\<lambda>b. b\<lparr>sb_count := sb_count b + 1\<rparr>),
     rb_record = sb_slots, rb_store = (\<lambda>b i r. b\<lparr>sb_slots := (sb_slots b)(i := r)\<rparr>),
     rb_clear = sb_count_update (\<lambda>_. 0), rb_reset = (\<lambda>b. b\<lparr>sb_count := 0, sb_out_of_range := False\<rparr>),
     rb_is_out_of_range = sb_out_of_range, rb_set_out_of_range = (\<lambda>v b. b\<lparr>sb_out_of_range := v\<rparr>)\<rparr>"

interpretation slot: record_buffer "slot_rb r"
  by unfold_locales (auto simp: slot_rb_def)

fun batch_count :: "nat \<Rightarrow> nat \<Rightarrow> nat \<Rightarrow> stored_row list \<Rightarrow> nat" where
  "batch_count rec_len n off [] = 0"
| "batch_count rec_len n off (x # xs) =
     (if n = 0 \<or> MAX_RECORD_SIZE - rec_len < off then 0 else Suc (batch_count rec_len (n - 1) (off + length (fst x)) xs))"

text \<open>Records that begin with their length.\<close>

definition sized :: "stored_row \<Rightarrow> bool" where
  "sized x \<longleftrightarrow> fst x \<noteq> [] \<and> length (fst x) = unat (hd (fst x))"

definition sized_rows :: "stored_row list \<Rightarrow> stored_row list" where
  "sized_rows s = filter sized s"

definition list_prefetch :: "nat \<Rightarrow> stored_row list prefetch_fn" where
  "list_prefetch rec_len s old =
     (let rs = sized_rows s; n = batch_count rec_len MAX_PREFETCH_REC_NUM 0 rs; bs = take n rs
      in (drop n rs, CT_SUCCESS,
          if n = 0 then old\<lparr>bt_num := 0\<rparr> else \<lparr>bt_records = concat (map fst bs), bt_lens = map (length \<circ> fst) bs, bt_num = n, bt_rowids = map snd bs\<rparr>))"

definition sized_conv :: "byte list converter" where
  "sized_conv bs mci m = take (unat (hd bs)) bs"

lemma batch_count_bounds: "batch_count rec_len n off xs \<le> n" "batch_count rec_len n off xs \<le> length xs"
  by (induction rec_len n off xs rule: batch_count.induct) auto

lemma batch_count_max:
  "drop (batch_count rec_len n off xs) xs = [] \<or> batch_count rec_len n off xs = n \<or>
   MAX_RECORD_SIZE - rec_len < off + batch_size (take (batch_count rec_len n off xs) xs)"
  by (induction rec_len n off xs rule: batch_count.induct) (auto simp: add.assoc)

lemma batch_count_0: "batch_count rec_len n 0 xs = 0 \<Longrightarrow> 0 < n \<Longrightarrow> xs = []"
  by (cases xs) (auto split: if_splits)

lemma sized_rows_drop: "sized_rows (drop n (sized_rows s)) = drop n (sized_rows s)"
  by (auto simp: sized_rows_def filter_id_conv dest: in_set_dropD)

interpretation listed: batch_scan "slot_rb []" sized_conv "list_prefetch rec_len" sized_rows rec_len
proof unfold_locales
  show "conv_local sized_conv sized_rows"
    by (auto simp: conv_local_def sized_conv_def sized_rows_def sized_def)
  show "batch_promise (list_prefetch rec_len) sized_rows rec_len"
    unfolding batch_promise_def list_prefetch_def Let_def
    using batch_count_bounds [of rec_len MAX_PREFETCH_REC_NUM 0] batch_count_max [of rec_len MAX_PREFETCH_REC_NUM 0]
    by (auto simp: sized_rows_drop holds_batch_def dest: batch_count_0)
qed

definition scan_env0 :: scan_env where
  "scan_env0 = \<lparr>ddl_passthru = False, alter_table_copy = False, create_table_check = False, error_if_not_empty = False,
     no_fk_check = False, select_prefetch = True, sql_select = True, sql_delete = False, sql_alter_table = False,
     exclusive_lock = False, recursive_query = False, ror_intersect = False, single_run = False, blob_field = [],
     virtual_gcol = (\<lambda>_. False), non_trx_tmp_table = False, log_table = False, rec_buff_length = 32768, read_set = [True, True],
     write_set = [False, False], key_part_fields = (\<lambda>_. [1, 0]), max_key = 64, alloc_rec_buf_data = True,
     alloc_prefetch_buf = True, alloc_read_buf = True\<rparr>"

definition scan0 :: "'b scan" where
  "scan0 = \<lparr>m_rec_buf = None, m_rec_buf_data = False, m_prefetch_buf = None, m_record_lens = [], m_rowids = [], m_read_buf = False,
     cur_pos_in_buf = INVALID_MAX_UINT32, actual_fetched_nums = INVALID_MAX_UINT32, cur_off_in_prefetch_buf = 0,
     cur_fill_buf_index = 0, max_col_index = 0, m_cantian_rec_len = 3, m_index_sorted = False, active_index = 64,
     m_ror_intersect = False, m_is_covering_index = False, cursor_valid = False, cursor_addr = INVALID_VALUE64, cursor_ref = 0,
     m_blob_addrs = [], mark_rollback = False\<rparr>"

definition three_rows :: "stored_row list" where
  "three_rows = [([2, 7], 1), ([3, 8, 9], 2), ([2, 5], 4), ([1], 9)]"

text \<open>A record buffer of two rows: the window is refilled once.\<close>

theorem batch_scan_refines_cursor_witness:
  "list_all2 (handed_out (shows_record sized_conv 1)) [Some ([2, 7], 1), Some ([3, 8, 9], 2), Some ([2, 5], 4), Some ([1], 9), None]
     (scan_calls (rnd_next (slot_rb []) sized_conv scan_env0 (\<lambda>_ _. None) (\<lambda>s. (s, CT_SUCCESS, [])) (list_prefetch 3)) (position (\<lambda>_. 0)) 5
        (fst (rnd_init (slot_rb []) (\<lambda>s _. (s, CT_SUCCESS)) scan_env0 scan0 three_rows)) three_rows [])"
proof -
  let ?st = "fst (rnd_init (slot_rb []) (\<lambda>s _. (s, CT_SUCCESS)) scan_env0 scan0 three_rows)"
  have init: "rnd_init (slot_rb []) (\<lambda>s _. (s, CT_SUCCESS)) scan_env0 scan0 three_rows = (?st, three_rows, Ha NO_ERROR)"
    by (simp add: rnd_init_def set_prefetch_buffer_def set_ror_intersect_def can_prefetch_records_def passthru_scan_def scan_env0_def
        Let_def converted_no_error)
  have c: "scan_cols scan_env0 ?st = 1"
    by (simp add: rnd_init_def set_prefetch_buffer_def set_ror_intersect_def can_prefetch_records_def passthru_scan_def scan_env0_def
        reset_rec_buf_def scan_cols_def set_max_col_index_4_reading_def scan0_def Let_def pred32_def last_in_set.simps)
  have rows: "cursor_scan 5 (sized_rows three_rows) = [Some ([2, 7], 1), Some ([3, 8, 9], 2), Some ([2, 5], 4), Some ([1], 9), None]"
  proof -
    have "sized_rows three_rows = three_rows" by (simp add: three_rows_def sized_rows_def sized_def)
    then show ?thesis by (simp add: three_rows_def eval_nat_numeral)
  qed
  have env: "can_prefetch_records scan_env0" "\<not> passthru_scan scan_env0" "0 < rec_buff_length scan_env0"
    "rec_buff_length scan_env0 \<le> MAX_RECORD_BUFFER_SIZE_CTC" "alloc_prefetch_buf scan_env0"
    by (simp_all add: scan_env0_def can_prefetch_records_def passthru_scan_def scan_consts)
  have "batch_promise (list_prefetch 3) sized_rows (m_cantian_rec_len (scan0 :: byte list slot_buffer scan))"
    using listed.promise [of 3] by (simp add: scan0_def)
  from batch_scan_refines_cursor [OF slot.record_buffer_axioms this listed.conv_local env init, of 5] show ?thesis
    unfolding c rows .
qed

definition list_fetch :: "stored_row list \<times> nat \<Rightarrow> (stored_row list \<times> nat) \<times> ct_errno \<times> byte list" where
  "list_fetch s = (case sized_rows (fst s) of [] \<Rightarrow> (([], 0), CT_SUCCESS, []) | x # xs \<Rightarrow> ((xs, snd x), CT_SUCCESS, fst x))"

lemma list_fetch_promise: "fetch_promise list_fetch snd (\<lambda>s. sized_rows (fst s))"
proof -
  have "sized_rows xs = xs \<and> fst x \<noteq> []" if "sized_rows s = x # xs" for s x xs
    using sized_rows_drop [of 1 s] that filter_eq_ConsD [of sized s x xs] by (auto simp: sized_rows_def sized_def)
  then show ?thesis by (auto simp: fetch_promise_def list_fetch_def sized_rows_def split: list.splits)
qed

definition one_row :: "stored_row list \<times> nat" where
  "one_row = ([([2, 7], 1)], 0)"

theorem single_scan_refines_cursor_witness:
  "list_all2 (handed_out (\<lambda>rec row. \<exists>m. row = sized_conv rec INVALID_MAX_UINT32 m)) [Some ([2, 7], 1), None]
     (scan_calls (rnd_next (slot_rb []) sized_conv (scan_env0\<lparr>sql_select := False\<rparr>) (\<lambda>_ _. None) list_fetch
          (\<lambda>s old. (s, CT_SUCCESS, old))) (position snd) 2
        (fst (rnd_init (slot_rb []) (\<lambda>s _. (s, CT_SUCCESS)) (scan_env0\<lparr>sql_select := False\<rparr>) scan0 one_row)) one_row [])"
proof -
  let ?env = "scan_env0\<lparr>sql_select := False\<rparr>" and ?s = one_row
  let ?st = "fst (rnd_init (slot_rb []) (\<lambda>s _. (s, CT_SUCCESS)) ?env scan0 ?s)"
  have init: "rnd_init (slot_rb []) (\<lambda>s _. (s, CT_SUCCESS)) ?env scan0 ?s = (?st, ?s, Ha NO_ERROR)"
    by (simp add: rnd_init_def set_prefetch_buffer_def set_ror_intersect_def can_prefetch_records_def passthru_scan_def scan_env0_def
        Let_def converted_no_error)
  have env: "\<not> can_prefetch_records ?env" "\<not> passthru_scan ?env" "single_run ?env \<or> alloc_read_buf ?env"
    by (simp_all add: scan_env0_def can_prefetch_records_def passthru_scan_def)
  have r: "cursor_scan 2 (sized_rows (fst ?s)) = [Some ([2, 7], 1), None]"
  proof -
    have "sized_rows (fst ?s) = fst ?s" by (simp add: sized_rows_def sized_def one_row_def)
    then show ?thesis by (simp add: eval_nat_numeral one_row_def)
  qed
  from single_scan_refines_cursor [OF list_fetch_promise env init, of sized_conv 2] show ?thesis unfolding r .
qed

lemma read_columns_converted_witness:
  "scan_cols scan_env0 (scan0 :: unit scan) = 1 \<and> list_all (\<lambda>c. c \<le> scan_cols scan_env0 (scan0 :: unit scan)) [0, 1]"
proof -
  have "c \<le> scan_cols scan_env0 (scan0 :: unit scan)" if "c < 2" for c
    using read_columns_converted [of scan_env0 c "scan0 :: unit scan"] that by (auto simp: scan_env0_def scan0_def less_2_cases_iff)
  moreover have "scan_cols scan_env0 (scan0 :: unit scan) = 1"
    by (simp add: scan_cols_def set_max_col_index_4_reading_def scan_env0_def scan0_def Let_def pred32_def last_in_set.simps)
  ultimately show ?thesis by simp
qed

end
