(* ===== verification/CTC_Write.thy ===== *)
theory CTC_Write
  imports CTC_Scan
begin

text \<open>
  Changes of rows (ha_ctc.cc): an insert goes to the engine at once or, in a bulk insert, into a record
  buffer that is sent when it is full and at the end; updates and deletes go to the engine. The engine's
  functions, the conversion of a row into a record (which may write large objects to the engine) and
  what MySQL knows of the statement are parameters.
\<close>

section \<open>Flags\<close>

text \<open>The bit \<open>write_through\<close>, which only \<open>write_row\<close> sets, is left out.\<close>

record dml_flag =
  fl_ignore :: bool
  fl_no_foreign_key_check :: bool
  fl_no_cascade_check :: bool
  fl_dd_update :: bool
  fl_is_replace :: bool
  fl_no_logging :: bool
  fl_auto_inc_used :: bool
  fl_has_explicit_autoinc :: bool
  fl_autoinc_lock_mode :: nat
  fl_dup_update :: bool
  fl_auto_inc_step :: nat
  fl_auto_inc_offset :: nat
  fl_auto_increase :: bool
  fl_is_create_select :: bool

datatype fk_rule = RULE_NO_ACTION | RULE_RESTRICT | RULE_CASCADE | RULE_SET_NULL | RULE_SET_DEFAULT

text \<open>
  The session, the statement and the table. \<open>fk_parents\<close> are the update and the delete rules of the foreign keys
  that refer to the table, \<open>key_differs\<close> compares the old and the new row on a key part, \<open>insert_id_forced\<close> the
  values set by SET INSERT_ID.
\<close>

record 'row write_env =
  we_passthru :: bool
  we_create_check :: bool
  we_alter_copy :: bool
  we_ignore :: bool
  we_no_foreign_key_checks :: bool
  we_dd_update :: bool
  we_in_trigger :: bool
  we_replace_command :: bool
  we_autoinc_lock_mode :: nat
  we_auto_increment_increment :: nat
  we_auto_increment_offset :: nat
  we_next_number_field :: bool
  we_is_record_0 :: bool
  we_autoinc_val :: "'row \<Rightarrow> int"
  we_store_autoinc :: "nat \<Rightarrow> 'row \<Rightarrow> 'row"
  we_explicit_non_null :: bool
  we_no_auto_value_on_zero :: bool
  we_truncated_wrong_value :: bool
  we_insert_id_forced :: "nat option"
  we_blob_fields :: nat
  we_fk_parents :: "(fk_rule \<times> fk_rule) list"
  we_errkey :: nat
  we_max_key :: nat
  we_key_differs :: "nat \<Rightarrow> 'row \<Rightarrow> 'row \<Rightarrow> bool list"
  we_write_set :: "bool list"
  we_primary_key_fields :: "nat list option"
  we_change_data_capture :: bool
  we_alloc_rec_buf_data :: bool
  we_alloc_ctc_buf :: bool

record 'b writer =
  m_rec_buf_4_writing :: "'b option"
  w_rec_buf_data :: bool
  m_ctc_buf :: bool
  w_cantian_rec_len :: nat
  m_max_batch_num :: nat
  m_is_insert_dup :: bool
  m_is_replace :: bool
  m_ignore_dup :: bool
  insert_id_for_cur_row :: nat
  w_mark_rollback :: bool

text \<open>The functions of the engine and the conversions; \<open>'s\<close> is the state of the engine.\<close>

record ('s, 'row) write_api =
  wa_to_record :: "'s \<Rightarrow> 'row \<Rightarrow> 's \<times> (mysql_errno + byte list)"
  wa_to_update :: "'s \<Rightarrow> 'row \<Rightarrow> nat list \<Rightarrow> 's \<times> (mysql_errno + byte list \<times> nat list)"
  wa_to_row :: "byte list \<Rightarrow> 'row \<Rightarrow> 'row"
  wa_write_row :: "'s \<Rightarrow> byte list \<Rightarrow> dml_flag \<Rightarrow> 's \<times> ct_errno \<times> nat"
  wa_bulk_write :: "'s \<Rightarrow> byte list list \<Rightarrow> dml_flag \<Rightarrow> 's \<times> ct_errno \<times> nat"
  wa_update_row :: "'s \<Rightarrow> byte list \<Rightarrow> nat list \<Rightarrow> dml_flag \<Rightarrow> 's \<times> ct_errno"
  wa_delete_row :: "'s \<Rightarrow> dml_flag \<Rightarrow> 's \<times> ct_errno"
  wa_delete_all_rows :: "'s \<Rightarrow> dml_flag \<Rightarrow> 's \<times> ct_errno"

definition ctc_get_dml_flag :: "'row write_env \<Rightarrow> bool \<Rightarrow> bool \<Rightarrow> bool \<Rightarrow> bool \<Rightarrow> dml_flag" where
  "ctc_get_dml_flag env is_replace auto_inc_used has_explicit_autoinc dup_update =
     \<lparr>fl_ignore = we_ignore env, fl_no_foreign_key_check = we_no_foreign_key_checks env, fl_no_cascade_check = False,
      fl_dd_update = we_dd_update env, fl_is_replace = is_replace, fl_no_logging = we_in_trigger env,
      fl_auto_inc_used = auto_inc_used, fl_has_explicit_autoinc = has_explicit_autoinc,
      fl_autoinc_lock_mode = we_autoinc_lock_mode env mod 2 ^ 2, fl_dup_update = dup_update,
      fl_auto_inc_step = we_auto_increment_increment env mod 2 ^ 16, fl_auto_inc_offset = we_auto_increment_offset env mod 2 ^ 16,
      fl_auto_increase = False, fl_is_create_select = we_create_check env\<rparr>"

fun pre_check_for_cascade :: "(fk_rule \<times> fk_rule) list \<Rightarrow> bool \<Rightarrow> bool" where
  "pre_check_for_cascade [] is_update = True"
| "pre_check_for_cascade ((update_rule, delete_rule) # fks) is_update =
     (if is_update
      then (if RULE_CASCADE \<noteq> update_rule \<and> RULE_SET_NULL \<noteq> update_rule then False else pre_check_for_cascade fks is_update)
      else (if RULE_CASCADE \<noteq> delete_rule \<and> RULE_SET_NULL \<noteq> delete_rule then False else pre_check_for_cascade fks is_update))"

definition check_write_code :: "'row write_env \<Rightarrow> ct_errno \<Rightarrow> 'b writer \<Rightarrow> 'b writer \<times> ct_errno" where
  "check_write_code env ret w =
     (case check_error_code_to_mysql (we_no_foreign_key_checks env) ret of
        (ret, marked) \<Rightarrow> (if marked then w\<lparr>w_mark_rollback := True\<rparr> else w, ret))"

section \<open>Inserts\<close>

text \<open>The code, whether the row has an explicit value, the row, the writer and the forced values left.\<close>

definition handle_auto_increment :: "'row write_env \<Rightarrow> 'b writer \<Rightarrow> 'row \<Rightarrow> mysql_errno \<times> bool \<times> 'row \<times> 'b writer \<times> nat option" where
  "handle_auto_increment env w row =
     (let w = w\<lparr>insert_id_for_cur_row := 0\<rparr>
      in if we_autoinc_val env row \<noteq> 0 \<or> we_explicit_non_null env \<and> we_no_auto_value_on_zero env
         then (if we_truncated_wrong_value env then (HA_ERR_AUTOINC_ERANGE, False, row, w, we_insert_id_forced env)
               else (NO_ERROR, True, row, w, we_insert_id_forced env))
         else case we_insert_id_forced env of
                Some forced_val \<Rightarrow> (NO_ERROR, True, we_store_autoinc env forced_val row, w\<lparr>insert_id_for_cur_row := forced_val\<rparr>, None)
              | None \<Rightarrow> (NO_ERROR, False, row, w, None))"

definition ensure_ctc_buf :: "'row write_env \<Rightarrow> 'b writer \<Rightarrow> 'b writer" where
  "ensure_ctc_buf env w = (if m_ctc_buf w then w else w\<lparr>m_ctc_buf := we_alloc_ctc_buf env\<rparr>)"

definition convert_mysql_record_and_write_to_cantian ::
    "('s, 'row) write_api \<Rightarrow> 'row write_env \<Rightarrow> dml_flag \<Rightarrow> 'b writer \<Rightarrow> 's \<Rightarrow> 'row \<Rightarrow> 'b writer \<times> 's \<times> 'row \<times> mysql_errno" where
  "convert_mysql_record_and_write_to_cantian api env flag w s row =
     (let w = ensure_ctc_buf env w
      in if \<not> m_ctc_buf w then (w, s, row, convert_ctc_error_code_to_mysql_impl ERR_ALLOC_MEMORY)
         else case wa_to_record api s row of
           (s, Inl e) \<Rightarrow> (w, s, row, e)
         | (s, Inr rec) \<Rightarrow>
             (case wa_write_row api s rec flag of
                (s, ret, last_insert_id) \<Rightarrow>
                  (case check_write_code env ret w of
                     (w, ret) \<Rightarrow>
                       if we_next_number_field env \<and> we_is_record_0 env \<and> \<not> fl_has_explicit_autoinc flag
                       then (w\<lparr>insert_id_for_cur_row := last_insert_id\<rparr>, s, we_store_autoinc env last_insert_id row,
                             convert_ctc_error_code_to_mysql_impl ret)
                       else (w, s, row, convert_ctc_error_code_to_mysql_impl ret))))"

text \<open>The records of the buffer, which lie one after the other in \<open>m_rec_buf_data\<close>.\<close>

definition buffered :: "('b, byte list) rec_buf_api \<Rightarrow> 'b \<Rightarrow> byte list list" where
  "buffered rb b = map (rb_record rb b) [0..<rb_records rb b]"

definition bulk_insert_low ::
    "('b, byte list) rec_buf_api \<Rightarrow> ('s, 'row) write_api \<Rightarrow> dml_flag \<Rightarrow> 'b \<Rightarrow> 's \<Rightarrow> 's \<times> ct_errno \<times> nat" where
  "bulk_insert_low rb api flag b s = wa_bulk_write api s (buffered rb b) flag"

text \<open>A duplicate key brings the record that has it back into the row MySQL reports.\<close>

definition bulk_insert ::
    "('b, byte list) rec_buf_api \<Rightarrow> ('s, 'row) write_api \<Rightarrow> 'row write_env \<Rightarrow> 'b writer \<Rightarrow> 's \<Rightarrow> 'row \<Rightarrow>
     'b writer \<times> 's \<times> 'row \<times> mysql_errno" where
  "bulk_insert rb api env w s row =
     (let b = the (m_rec_buf_4_writing w)
      in case bulk_insert_low rb api (ctc_get_dml_flag env False False False False) b s of
           (s, ret, dup_offset) \<Rightarrow>
             (case check_write_code env ret w of
                (w, ret) \<Rightarrow>
                  if ret \<noteq> CT_SUCCESS
                  then (w, s, if ret = ERR_DUPLICATE_KEY then wa_to_row api (rb_record rb b dup_offset) row else row,
                        convert_ctc_error_code_to_mysql_impl ret)
                  else (w, s, row, NO_ERROR)))"

text \<open>The part of \<open>write_row\<close> that puts a row into the buffer; \<^const>\<open>None\<close> is the failed assertion on the record's length.\<close>

definition add_to_buffer ::
    "('b, byte list) rec_buf_api \<Rightarrow> ('s, 'row) write_api \<Rightarrow> 'b writer \<Rightarrow> 's \<Rightarrow> 'row \<Rightarrow> ('b writer \<times> 's \<times> 'row \<times> mysql_errno) option" where
  "add_to_buffer rb api w s row =
     (let b = the (m_rec_buf_4_writing w); i = rb_records rb b; b = rb_add_record rb b
      in case wa_to_record api s row of
           (s, Inl e) \<Rightarrow> Some (w\<lparr>m_rec_buf_4_writing := Some (rb_reset rb b)\<rparr>, s, row, e)
         | (s, Inr rec) \<Rightarrow>
             if length rec \<le> w_cantian_rec_len w
             then Some (w\<lparr>m_rec_buf_4_writing := Some (rb_store rb b i rec)\<rparr>, s, row, NO_ERROR) else None)"

definition write_row ::
    "('b, byte list) rec_buf_api \<Rightarrow> ('s, 'row) write_api \<Rightarrow> 'row write_env \<Rightarrow> 'b writer \<Rightarrow> 's \<Rightarrow> 'row \<Rightarrow>
     ('b writer \<times> 's \<times> 'row \<times> mysql_errno) option" where
  "write_row rb api env w s row =
     (if we_passthru env \<and> we_create_check env then Some (w, s, row, NO_ERROR)
      else
        case (if we_next_number_field env \<and> we_is_record_0 env then handle_auto_increment env w row
              else (NO_ERROR, False, row, w, we_insert_id_forced env)) of
          (e, has_explicit, row, w, _) \<Rightarrow>
            if e \<noteq> NO_ERROR then Some (w, s, row, e)
            else case m_rec_buf_4_writing w of
              None \<Rightarrow>
                Some (convert_mysql_record_and_write_to_cantian api env
                  (ctc_get_dml_flag env False (we_next_number_field env \<and> we_is_record_0 env) has_explicit False) w s row)
            | Some b \<Rightarrow>
                if rb_records rb b = rb_max_records rb b
                then (case bulk_insert rb api env w s row of
                        (w, s, row, e) \<Rightarrow>
                          if e \<noteq> NO_ERROR then Some (w\<lparr>m_rec_buf_4_writing := None\<rparr>, s, row, e)
                          else add_to_buffer rb api (w\<lparr>m_rec_buf_4_writing := Some (rb_reset rb b)\<rparr>) s row)
                else add_to_buffer rb api w s row)"

definition start_bulk_insert :: "('b, byte list) rec_buf_api \<Rightarrow> 'row write_env \<Rightarrow> nat \<Rightarrow> 'b writer \<Rightarrow> 'b writer" where
  "start_bulk_insert rb env rows w =
     (if we_passthru env \<and> (we_alter_copy env \<or> we_create_check env) then w
      else
        let w = (if w_rec_buf_data w then w else w\<lparr>w_rec_buf_data := we_alloc_rec_buf_data env\<rparr>)
        in if rows = 1 \<or> m_is_insert_dup w \<or> m_is_replace w \<or> m_ignore_dup w \<or> we_blob_fields env > 0 \<or> we_next_number_field env \<or>
              \<not> w_rec_buf_data w
           then w\<lparr>m_rec_buf_4_writing := None\<rparr>
           else w\<lparr>m_rec_buf_4_writing := Some (rb_new rb (m_max_batch_num w))\<rparr>)"

definition end_bulk_insert ::
    "('b, byte list) rec_buf_api \<Rightarrow> ('s, 'row) write_api \<Rightarrow> 'row write_env \<Rightarrow> 'b writer \<Rightarrow> 's \<Rightarrow> 'row \<Rightarrow> 'b writer \<times> 's \<times> 'row \<times> mysql_errno" where
  "end_bulk_insert rb api env w s row =
     (if we_passthru env \<and> we_create_check env then (w, s, row, NO_ERROR)
      else case m_rec_buf_4_writing w of
        None \<Rightarrow> (w, s, row, NO_ERROR)
      | Some b \<Rightarrow>
          (case (if rb_records rb b \<noteq> 0 then bulk_insert rb api env w s row else (w, s, row, NO_ERROR)) of
             (w, s, row, e) \<Rightarrow> (w\<lparr>m_rec_buf_4_writing := None\<rparr>, s, row, e)))"

text \<open>What \<open>ha_ctc::open\<close> computes of the record length.\<close>

definition max_batch_num :: "nat \<Rightarrow> nat" where
  "max_batch_num rec_len = (let n = MAX_RECORD_SIZE div rec_len in if n > 2 ^ 32 - 1 then 2 ^ 32 - 1 else n)"

section \<open>Updates and deletes\<close>

definition check_if_update_primary_key :: "'row write_env \<Rightarrow> bool" where
  "check_if_update_primary_key env =
     (case we_primary_key_fields env of None \<Rightarrow> False | Some fs \<Rightarrow> list_ex (\<lambda>f. we_write_set env ! f) fs)"

definition ctc_cmp_key_values :: "'row write_env \<Rightarrow> 'row \<Rightarrow> 'row \<Rightarrow> nat \<Rightarrow> nat" where
  "ctc_cmp_key_values env old_data new_data key_nr =
     (if key_nr = we_max_key env then 0 else if list_ex id (we_key_differs env key_nr old_data new_data) then 1 else 0)"

definition updated_fields :: "'row write_env \<Rightarrow> nat list" where
  "updated_fields env =
     (let update_primary_key = we_change_data_capture env \<and> check_if_update_primary_key env
      in filter (\<lambda>i. update_primary_key \<or> we_write_set env ! i) [0..<length (we_write_set env)])"

definition cascade_flag :: "'row write_env \<Rightarrow> bool \<Rightarrow> dml_flag \<Rightarrow> dml_flag" where
  "cascade_flag env is_update flag =
     (if \<not> fl_no_foreign_key_check flag
      then flag\<lparr>fl_no_cascade_check := fl_dd_update flag \<or> pre_check_for_cascade (we_fk_parents env) is_update\<rparr> else flag)"

definition update_row ::
    "('s, 'row) write_api \<Rightarrow> 'row write_env \<Rightarrow> 'b writer \<Rightarrow> 's \<Rightarrow> 'row \<Rightarrow> 'row \<Rightarrow> 'b writer \<times> 's \<times> mysql_errno" where
  "update_row api env w s old_data new_data =
     (let w = (if we_replace_command env then w\<lparr>m_is_replace := True\<rparr> else w)
      in if we_replace_command env \<and> we_errkey env < we_max_key env \<and> ctc_cmp_key_values env old_data new_data (we_errkey env) \<noteq> 0
         then (w, s, HA_ERR_KEY_NOT_FOUND)
         else if updated_fields env = [] then (w, s, HA_ERR_RECORD_IS_THE_SAME)
         else
           let w = ensure_ctc_buf env w
           in if \<not> m_ctc_buf w then (w, s, convert_ctc_error_code_to_mysql_impl ERR_ALLOC_MEMORY)
              else case wa_to_update api s new_data (updated_fields env) of
                (s, Inl e) \<Rightarrow> (w, s, e)
              | (s, Inr (rec, upd_fields)) \<Rightarrow>
                  if upd_fields = [] then (w, s, NO_ERROR)
                  else
                    let flag = ctc_get_dml_flag env (m_is_replace w) False False (m_is_insert_dup w \<or> m_ignore_dup w \<and> m_is_replace w)
                    in case wa_update_row api s rec upd_fields (cascade_flag env True flag) of
                         (s, ret) \<Rightarrow> (case check_write_code env ret w of (w, ret) \<Rightarrow> (w, s, convert_ctc_error_code_to_mysql_impl ret)))"

definition delete_row :: "('s, 'row) write_api \<Rightarrow> 'row write_env \<Rightarrow> 'b writer \<Rightarrow> 's \<Rightarrow> 'b writer \<times> 's \<times> mysql_errno" where
  "delete_row api env w s =
     (let w = (if we_replace_command env then w\<lparr>m_is_replace := True\<rparr> else w);
          flag = ctc_get_dml_flag env (m_is_replace w \<or> m_is_insert_dup w) False False False
      in case wa_delete_row api s (cascade_flag env False flag) of
           (s, ret) \<Rightarrow> (case check_write_code env ret w of (w, ret) \<Rightarrow> (w, s, convert_ctc_error_code_to_mysql_impl ret)))"

definition delete_all_rows :: "('s, 'row) write_api \<Rightarrow> 'row write_env \<Rightarrow> 'b writer \<Rightarrow> 's \<Rightarrow> 'b writer \<times> 's \<times> mysql_errno" where
  "delete_all_rows api env w s =
     (let flag = ctc_get_dml_flag env False False False False;
          flag = (if \<not> fl_no_foreign_key_check flag
                  then flag\<lparr>fl_no_cascade_check := pre_check_for_cascade (we_fk_parents env) False\<rparr> else flag)
      in case wa_delete_all_rows api s flag of
           (s, ret) \<Rightarrow>
             (case check_write_code env ret w of
                (w, ret) \<Rightarrow> (w, s, if we_ignore env \<and> ret = ERR_ROW_IS_REFERENCED then NO_ERROR
                                  else convert_ctc_error_code_to_mysql_impl ret)))"

section \<open>Hints\<close>

datatype extra_function = HA_EXTRA_WRITE_CAN_REPLACE | HA_EXTRA_WRITE_CANNOT_REPLACE | HA_EXTRA_IGNORE_DUP_KEY
  | HA_EXTRA_NO_IGNORE_DUP_KEY | HA_EXTRA_INSERT_WITH_UPDATE | HA_EXTRA_KEYREAD | HA_EXTRA_NO_KEYREAD | HA_EXTRA_OTHER

text \<open>The writer and \<open>m_is_covering_index\<close>.\<close>

definition extra :: "extra_function \<Rightarrow> 'b writer \<times> bool \<Rightarrow> 'b writer \<times> bool" where
  "extra operation = (\<lambda>(w, covering). case operation of
      HA_EXTRA_WRITE_CAN_REPLACE \<Rightarrow> (w\<lparr>m_is_replace := True\<rparr>, covering)
    | HA_EXTRA_WRITE_CANNOT_REPLACE \<Rightarrow> (w\<lparr>m_is_replace := False\<rparr>, covering)
    | HA_EXTRA_IGNORE_DUP_KEY \<Rightarrow> (w\<lparr>m_ignore_dup := True\<rparr>, covering)
    | HA_EXTRA_NO_IGNORE_DUP_KEY \<Rightarrow> (w\<lparr>m_ignore_dup := False, m_is_insert_dup := False\<rparr>, covering)
    | HA_EXTRA_INSERT_WITH_UPDATE \<Rightarrow> (w\<lparr>m_is_insert_dup := True\<rparr>, covering)
    | HA_EXTRA_KEYREAD \<Rightarrow> (w, True)
    | HA_EXTRA_NO_KEYREAD \<Rightarrow> (w, False)
    | HA_EXTRA_OTHER \<Rightarrow> (w, False))"

section \<open>A bulk insert inserts the rows\<close>

text \<open>The rows of an INSERT, one after the other, up to the first error.\<close>

fun write_rows ::
    "('b, byte list) rec_buf_api \<Rightarrow> ('s, 'row) write_api \<Rightarrow> 'row write_env \<Rightarrow> 'b writer \<Rightarrow> 's \<Rightarrow> 'row list \<Rightarrow>
     ('b writer \<times> 's \<times> mysql_errno) option" where
  "write_rows rb api env w s [] = Some (w, s, NO_ERROR)"
| "write_rows rb api env w s (row # rows) =
     (case write_row rb api env w s row of
        None \<Rightarrow> None
      | Some (w, s, _, e) \<Rightarrow> if e \<noteq> NO_ERROR then Some (w, s, e) else write_rows rb api env w s rows)"

text \<open>
  An engine that takes every record: \<open>table\<close> are the records it holds. A row's record is \<open>enc row\<close>, and fits the
  length reserved for a record.
\<close>

definition writer_promise :: "('s, 'row) write_api \<Rightarrow> ('s \<Rightarrow> byte list list) \<Rightarrow> ('row \<Rightarrow> byte list) \<Rightarrow> nat \<Rightarrow> bool" where
  "writer_promise api table enc rec_len \<longleftrightarrow>
     (\<forall>s row s' r. wa_to_record api s row = (s', r) \<longrightarrow> r = Inr (enc row) \<and> table s' = table s) \<and>
     (\<forall>row. length (enc row) \<le> rec_len) \<and>
     (\<forall>s rec flag s' e i. wa_write_row api s rec flag = (s', e, i) \<longrightarrow> e = CT_SUCCESS \<and> table s' = table s @ [rec]) \<and>
     (\<forall>s recs flag s' e i. wa_bulk_write api s recs flag = (s', e, i) \<longrightarrow> e = CT_SUCCESS \<and> table s' = table s @ recs)"

locale bulk_writer = record_buffer rb for rb :: "('b, byte list) rec_buf_api" +
  fixes api :: "('s, 'row) write_api" and table :: "'s \<Rightarrow> byte list list" and enc :: "'row \<Rightarrow> byte list" and rec_len :: nat
  assumes promise: "writer_promise api table enc rec_len"
begin

lemma engine:
  "wa_to_record api s row = (s', r) \<Longrightarrow> r = Inr (enc row) \<and> table s' = table s" "length (enc row) \<le> rec_len"
  "wa_write_row api s rec flag = (s', e, i) \<Longrightarrow> e = CT_SUCCESS \<and> table s' = table s @ [rec]"
  "wa_bulk_write api s recs flag = (s', e, i) \<Longrightarrow> e = CT_SUCCESS \<and> table s' = table s @ recs"
  using promise unfolding writer_promise_def by blast+

lemma buffered_simps:
  "buffered rb (rb_reset rb b) = []" "buffered rb (rb_new rb n) = []"
  "rb_records rb b < rb_max_records rb b \<Longrightarrow> buffered rb (rb_store rb (rb_add_record rb b) (rb_records rb b) r) = buffered rb b @ [r]"
  by (auto simp: buffered_def new reset add store)

text \<open>\<open>recs\<close> are the records handed to the writer since the table held none.\<close>

definition writer_inv :: "'row write_env \<Rightarrow> 'b writer \<Rightarrow> 's \<Rightarrow> byte list list \<Rightarrow> bool" where
  "writer_inv env w s recs \<longleftrightarrow> w_cantian_rec_len w = rec_len \<and> (m_ctc_buf w \<or> we_alloc_ctc_buf env) \<and>
     (case m_rec_buf_4_writing w of
        None \<Rightarrow> table s = recs
      | Some b \<Rightarrow> 0 < rb_max_records rb b \<and> rb_records rb b \<le> rb_max_records rb b \<and> table s @ buffered rb b = recs)"

lemma check_write_success: "check_write_code env CT_SUCCESS w = (w, CT_SUCCESS)"
  by (simp add: check_write_code_def check_error_code_to_mysql_def errno_defs)

lemma flush:
  "bulk_insert rb api env w s row = (w', s', row', e) \<Longrightarrow>
     w' = w \<and> row' = row \<and> e = NO_ERROR \<and> table s' = table s @ buffered rb (the (m_rec_buf_4_writing w))"
  by (auto simp: bulk_insert_def bulk_insert_low_def check_write_success Let_def dest!: engine(4) split: prod.splits)

lemma added:
  assumes "m_rec_buf_4_writing w = Some b" "rb_records rb b < rb_max_records rb b" "w_cantian_rec_len w = rec_len"
  shows "\<exists>s'. add_to_buffer rb api w s row =
      Some (w\<lparr>m_rec_buf_4_writing := Some (rb_store rb (rb_add_record rb b) (rb_records rb b) (enc row))\<rparr>, s', row, NO_ERROR) \<and>
    table s' = table s"
proof -
  obtain s' r where "wa_to_record api s row = (s', r)" by fastforce
  then show ?thesis using engine(1,2) assms by (fastforce simp: add_to_buffer_def Let_def)
qed

lemma write_step:
  assumes "writer_inv env w s recs" "\<not> we_next_number_field env" "\<not> (we_passthru env \<and> we_create_check env)"
  shows "\<exists>w' s' row'. write_row rb api env w s row = Some (w', s', row', NO_ERROR) \<and> writer_inv env w' s' (recs @ [enc row])"
proof (cases "m_rec_buf_4_writing w")
  case None
  obtain s1 r where r: "wa_to_record api s row = (s1, r)" by fastforce
  obtain s2 e i where i: "wa_write_row api s1 (enc row) (ctc_get_dml_flag env False False False False) = (s2, e, i)" by (metis prod_cases3)
  show ?thesis using assms None r i engine(1) [OF r] engine(3) [OF i]
    by (auto simp: writer_inv_def write_row_def convert_mysql_record_and_write_to_cantian_def ensure_ctc_buf_def check_write_success
        Let_def converted_no_error)
next
  case (Some b)
  have inv: "0 < rb_max_records rb b" "rb_records rb b \<le> rb_max_records rb b" "table s @ buffered rb b = recs" "w_cantian_rec_len w = rec_len"
    "m_ctc_buf w \<or> we_alloc_ctc_buf env"
    using assms(1) Some by (simp_all add: writer_inv_def)
  show ?thesis
  proof (cases "rb_records rb b = rb_max_records rb b")
    case False
    then have lt: "rb_records rb b < rb_max_records rb b" using inv(2) by simp
    then obtain s' where "add_to_buffer rb api w s row =
      Some (w\<lparr>m_rec_buf_4_writing := Some (rb_store rb (rb_add_record rb b) (rb_records rb b) (enc row))\<rparr>, s', row, NO_ERROR)"
      "table s' = table s" using added [OF Some _ inv(4)] by blast
    then show ?thesis using assms(2,3) Some False inv lt
      by (simp add: write_row_def writer_inv_def buffered_simps store add flip: append_assoc)
  next
    case True
    obtain w1 s1 row1 e where f: "bulk_insert rb api env w s row = (w1, s1, row1, e)" by (metis prod_cases4)
    note fl = flush [OF f]
    let ?b = "rb_reset rb b" and ?w = "w\<lparr>m_rec_buf_4_writing := Some (rb_reset rb b)\<rparr>"
    have m: "m_rec_buf_4_writing ?w = Some ?b" by simp
    have lt: "rb_records rb ?b < rb_max_records rb ?b" using inv(1) by (simp add: reset)
    obtain s' where "add_to_buffer rb api ?w s1 row =
      Some (?w\<lparr>m_rec_buf_4_writing := Some (rb_store rb (rb_add_record rb ?b) (rb_records rb ?b) (enc row))\<rparr>, s', row, NO_ERROR)"
      "table s' = table s1" using added [OF m lt] inv(4) by auto
    moreover have "buffered rb (rb_store rb (rb_add_record rb ?b) 0 (enc row)) = [enc row]"
      using buffered_simps(3) [OF lt, of "enc row"] by (simp add: reset buffered_simps(1))
    ultimately show ?thesis using assms(2,3) Some True inv lt f fl
      by (simp add: write_row_def writer_inv_def buffered_simps store add reset)
  qed
qed

lemma write_all:
  assumes "writer_inv env w s recs" "\<not> we_next_number_field env" "\<not> (we_passthru env \<and> we_create_check env)"
  shows "\<exists>w' s'. write_rows rb api env w s rows = Some (w', s', NO_ERROR) \<and> writer_inv env w' s' (recs @ map enc rows)"
  using assms(1)
proof (induction rows arbitrary: w s recs)
  case (Cons row rows)
  show ?case using write_step [OF Cons.prems assms(2,3), of row] Cons.IH by fastforce
qed simp

end


text \<open>
  a full buffer that the engine does not accept is reported: the insert of the next row returns the engine's
  error, never success, the collected rows are given up so that they are not sent again, and for a
  duplicate key the row with it is brought back for the error message.
\<close>

lemma bulk_error_reported:
  assumes "m_rec_buf_4_writing w = Some b" "rb_records rb b = rb_max_records rb b" "\<not> we_passthru env" "\<not> we_next_number_field env"
    and "wa_bulk_write api s (buffered rb b) (ctc_get_dml_flag env False False False False) = (s', ret, dup_offset)"
    and "fst (check_error_code_to_mysql (we_no_foreign_key_checks env) ret) \<noteq> CT_SUCCESS"
  shows "\<exists>w' row' e. write_row rb api env w s row = Some (w', s', row', e) \<and> e \<noteq> NO_ERROR \<and>
    e = convert_ctc_error_code_to_mysql_impl ret \<and> m_rec_buf_4_writing w' = None \<and>
    (ret = ERR_DUPLICATE_KEY \<longrightarrow> row' = wa_to_row api (rb_record rb b dup_offset) row)"
proof -
  have r: "fst (check_error_code_to_mysql (we_no_foreign_key_checks env) ret) = ret"
    using assms(6) by (auto simp: check_error_code_to_mysql_def split: if_splits)
  then have "ret \<noteq> CT_SUCCESS" using assms(6) by simp
  then have "convert_ctc_error_code_to_mysql_impl ret \<noteq> NO_ERROR" using converted_no_error by simp
  then show ?thesis using assms(1-5) r \<open>ret \<noteq> CT_SUCCESS\<close>
    by (auto simp: write_row_def bulk_insert_def bulk_insert_low_def check_write_code_def Let_def split: prod.splits)
qed

text \<open>
  the buffers are large enough: as many records as a bulk insert collects, of the table's greatest length,
  and as many rows as a scan converts ahead fit into the memory allocated for them; at least one record
  is collected, and the row ids of a batch fit their array.
\<close>

lemma record_buffers_fit:
  assumes "0 < rec_len" "rec_len \<le> CT_MAX_RECORD_LENGTH"
  shows "0 < max_batch_num rec_len \<and> max_batch_num rec_len * rec_len \<le> MAX_RECORD_BUFFER_SIZE_CTC \<and>
    prefetch_max_rows mysql_rec_length * mysql_rec_length \<le> MAX_RECORD_BUFFER_SIZE_CTC \<and>
    prefetch_max_rows mysql_rec_length + 1 \<le> MAX_PREFETCH_REC_NUM"
proof -
  have "65536 div rec_len \<le> 65536" by (rule div_le_dividend)
  then have "\<not> 4294967295 < 65536 div rec_len" by linarith
  then have "max_batch_num rec_len = 65536 div rec_len" by (simp add: max_batch_num_def scan_consts Let_def)
  moreover have "prefetch_max_rows mysql_rec_length \<le> 65536 div mysql_rec_length" "prefetch_max_rows mysql_rec_length \<le> 99"
    by (simp_all add: prefetch_max_rows_def scan_consts Let_def)
  moreover have "65536 div mysql_rec_length * mysql_rec_length \<le> 65536" by simp
  then have "n * mysql_rec_length \<le> 65536" if "n \<le> 65536 div mysql_rec_length" for n
    using mult_le_mono1 [OF that] le_trans by blast
  ultimately show ?thesis using assms by (simp add: scan_consts div_greater_zero_iff)
qed

section \<open>A concrete writer\<close>

definition write_env0 :: "byte list write_env" where
  "write_env0 = \<lparr>we_passthru = False, we_create_check = False, we_alter_copy = False, we_ignore = False,
     we_no_foreign_key_checks = False, we_dd_update = False, we_in_trigger = False, we_replace_command = False,
     we_autoinc_lock_mode = 1, we_auto_increment_increment = 1, we_auto_increment_offset = 1, we_next_number_field = False,
     we_is_record_0 = True, we_autoinc_val = (\<lambda>_. 0), we_store_autoinc = (\<lambda>_ row. row), we_explicit_non_null = False,
     we_no_auto_value_on_zero = False, we_truncated_wrong_value = False, we_insert_id_forced = None, we_blob_fields = 0,
     we_fk_parents = [], we_errkey = 64, we_max_key = 64, we_key_differs = (\<lambda>_ _ _. []), we_write_set = [True],
     we_primary_key_fields = None, we_change_data_capture = False, we_alloc_rec_buf_data = True, we_alloc_ctc_buf = True\<rparr>"

definition writer0 :: "byte list slot_buffer writer" where
  "writer0 = \<lparr>m_rec_buf_4_writing = None, w_rec_buf_data = False, m_ctc_buf = False, w_cantian_rec_len = 30000,
     m_max_batch_num = max_batch_num 30000, m_is_insert_dup = False, m_is_replace = False, m_ignore_dup = False,
     insert_id_for_cur_row = 0, w_mark_rollback = False\<rparr>"

text \<open>An engine that appends, and one that has found the second record of a batch to be a duplicate.\<close>

definition append_api :: "(byte list list, byte list) write_api" where
  "append_api = \<lparr>wa_to_record = (\<lambda>s row. (s, Inr (take 30000 row))), wa_to_update = (\<lambda>s row fs. (s, Inr (row, fs))),
     wa_to_row = (\<lambda>rec _. rec), wa_write_row = (\<lambda>s rec _. (s @ [rec], CT_SUCCESS, 0)),
     wa_bulk_write = (\<lambda>s recs _. (s @ recs, CT_SUCCESS, 0)), wa_update_row = (\<lambda>s _ _ _. (s, CT_SUCCESS)),
     wa_delete_row = (\<lambda>s _. (s, CT_SUCCESS)), wa_delete_all_rows = (\<lambda>_ _. ([], CT_SUCCESS))\<rparr>"

definition duplicate_api :: "(byte list list, byte list) write_api" where
  "duplicate_api = append_api\<lparr>wa_bulk_write := (\<lambda>s recs _. (s, ERR_DUPLICATE_KEY, 1))\<rparr>"

interpretation append: bulk_writer "slot_rb []" append_api "\<lambda>s. s" "take 30000" 30000
  by unfold_locales (auto simp: writer_promise_def append_api_def)


definition full_buffer :: "byte list slot_buffer" where
  "full_buffer = \<lparr>sb_max = 2, sb_count = 2, sb_slots = (\<lambda>i. [of_nat i]), sb_out_of_range = False\<rparr>"

lemma bulk_error_reported_witness:
  "\<exists>w' row'. write_row (slot_rb []) duplicate_api write_env0 (writer0\<lparr>m_rec_buf_4_writing := Some full_buffer\<rparr>) [] [7] =
     Some (w', [], row', HA_ERR_FOUND_DUPP_KEY) \<and> m_rec_buf_4_writing w' = None \<and> row' = [1]"
proof -
  have c: "convert_ctc_error_code_to_mysql_impl ERR_DUPLICATE_KEY = HA_ERR_FOUND_DUPP_KEY"
    by (simp add: convert_ctc_error_code_to_mysql_impl_def convert_cantian_err_to_mysql_def Let_def err_code_lookup_map_def errno_defs)
  let ?rb = "slot_rb []" and ?w = "writer0\<lparr>m_rec_buf_4_writing := Some full_buffer\<rparr>"
  have b: "m_rec_buf_4_writing ?w = Some full_buffer" "rb_records ?rb full_buffer = rb_max_records ?rb full_buffer"
    "rb_record ?rb full_buffer 1 = [1]" by (simp_all add: full_buffer_def slot_rb_def)
  have e: "\<not> we_passthru write_env0" "\<not> we_next_number_field write_env0"
    "fst (check_error_code_to_mysql (we_no_foreign_key_checks write_env0) ERR_DUPLICATE_KEY) \<noteq> CT_SUCCESS"
    by (simp_all add: write_env0_def check_error_code_to_mysql_def errno_defs)
  have w: "wa_bulk_write duplicate_api [] (buffered ?rb full_buffer) fl = ([], ERR_DUPLICATE_KEY, 1)" "wa_to_row duplicate_api r r' = r"
    for fl r r' by (simp_all add: duplicate_api_def append_api_def)
  show ?thesis using bulk_error_reported [OF b(1,2) e(1,2) w(1) e(3), of "[7]"] b(3) w(2) c by auto
qed

lemma record_buffers_fit_witness:
  "max_batch_num 30000 * 30000 \<le> MAX_RECORD_BUFFER_SIZE_CTC \<and> prefetch_max_rows 700 * 700 \<le> MAX_RECORD_BUFFER_SIZE_CTC"
  using record_buffers_fit [of 30000 700] by (simp add: CT_MAX_RECORD_LENGTH_def)

end
