(* ===== verification/CTC_Mq.thy ===== *)
theory CTC_Mq
  imports CTC_Error CTC_Bytes
begin

text \<open>
  Messages to the Cantian process (ctc_srv_mq_module.cc). A message is a block of shared memory that points to
  segments of shared memory; the other process answers by changing the segments and posting the
  message's semaphore. Shared memory has an allocator outside of these sources: every allocation has a
  number, the outcome is a parameter, and a block that is freed while it is not allocated is recorded.
  The outcomes of the calls to the message queue and the semaphore are parameters, and so is what the
  other process does to the segments.
\<close>

section \<open>Shared memory\<close>

record shm =
  sh_next :: nat
  sh_ok :: "nat \<Rightarrow> bool"
  sh_live :: "nat list"
  sh_data :: "nat \<Rightarrow> byte list"
  sh_bad_frees :: "nat list"

definition shm_alloc :: "'x shm_scheme \<Rightarrow> nat \<Rightarrow> 'x shm_scheme \<times> nat option" where
  "shm_alloc h len =
     (let n = sh_next h; h = h\<lparr>sh_next := n + 1\<rparr>
      in if sh_ok h n
         then (h\<lparr>sh_live := n # sh_live h, sh_data := (sh_data h)(n := take len (sh_data h n @ replicate len 0))\<rparr>, Some n)
         else (h, None))"

definition shm_free :: "nat \<Rightarrow> 'x shm_scheme \<Rightarrow> 'x shm_scheme" where
  "shm_free n h = (if n \<in> set (sh_live h) then h\<lparr>sh_live := remove1 n (sh_live h)\<rparr> else h\<lparr>sh_bad_frees := n # sh_bad_frees h\<rparr>)"

text \<open>\<open>memcpy\<close> to the start of a block.\<close>

definition shm_write :: "nat \<Rightarrow> byte list \<Rightarrow> 'x shm_scheme \<Rightarrow> 'x shm_scheme" where
  "shm_write n bs h = h\<lparr>sh_data := (sh_data h)(n := bs @ drop (length bs) (sh_data h n))\<rparr>"

section \<open>Messages\<close>

definition CTC_MQ_MESSAGE_SLICE_LEN :: nat where "CTC_MQ_MESSAGE_SLICE_LEN = 102400"
definition DSW_MESSAGE_SEGMENT_NUM_MAX :: nat where "DSW_MESSAGE_SEGMENT_NUM_MAX = 512"

type_synonym func_type = nat

record message =
  cmd_type :: func_type
  seg_num :: nat
  seg_len :: "nat \<Rightarrow> nat"
  seg_buf :: "nat \<Rightarrow> nat option"

text \<open>The outcomes of the calls, and what the other process makes of the memory before it posts the semaphore: it changes contents only.\<close>

record 'x mq_env =
  sem_init_ok :: bool
  send_ok :: bool
  sem_wait_ok :: bool
  serve :: "message \<Rightarrow> 'x shm_scheme \<Rightarrow> 'x shm_scheme"

definition answered :: "'x mq_env \<Rightarrow> message \<Rightarrow> 'x shm_scheme \<Rightarrow> 'x shm_scheme" where
  "answered env m h =
     (serve env m h)\<lparr>sh_next := sh_next h, sh_ok := sh_ok h, sh_live := sh_live h, sh_bad_frees := sh_bad_frees h\<rparr>"

text \<open>
  A request in one segment: \<open>msg_buf\<close> is the message block of the session, or none. The result is the
  shared memory, with the request changed if it was answered, and the code.
\<close>

definition ctc_mq_deal_func :: "'x mq_env \<Rightarrow> nat \<Rightarrow> func_type \<Rightarrow> nat \<Rightarrow> nat option \<Rightarrow> nat \<Rightarrow> 'x shm_scheme \<Rightarrow> 'x shm_scheme \<times> ct_errno" where
  "ctc_mq_deal_func env msg_size func_type request_size msg_buf request h =
     (case (case msg_buf of Some m \<Rightarrow> (h, Some m) | None \<Rightarrow> shm_alloc h msg_size) of
        (h, None) \<Rightarrow> (h, ERR_ALLOC_MEMORY)
      | (h, Some m) \<Rightarrow>
          let is_alloc = (msg_buf = None); release = (\<lambda>h. if is_alloc then shm_free m h else h)
          in if is_alloc \<and> \<not> sem_init_ok env then (release h, ERR_SEM_FAULT)
             else
               let msg = \<lparr>cmd_type = func_type, seg_num = 1, seg_len = (\<lambda>_. 0)(0 := request_size), seg_buf = (\<lambda>_. None)(0 := Some request)\<rparr>
               in if \<not> send_ok env then (release h, ERR_SHM_SEND_MSG_FAILED)
                  else let h = answered env msg h
                       in (release h, if sem_wait_ok env then CT_SUCCESS else ERR_SEM_FAULT))"

section \<open>Requests of several segments\<close>

text \<open>The loop frees what the segments up to \<open>seg_num\<close> point to; an empty one is logged.\<close>

fun batch_free_from :: "nat \<Rightarrow> nat \<Rightarrow> message \<Rightarrow> 'x shm_scheme \<Rightarrow> 'x shm_scheme" where
  "batch_free_from 0 i m h = h"
| "batch_free_from (Suc n) i m h = batch_free_from n (i + 1) m (case seg_buf m i of Some b \<Rightarrow> shm_free b h | None \<Rightarrow> h)"

definition batch_free_shm_buf :: "message \<Rightarrow> 'x shm_scheme \<Rightarrow> 'x shm_scheme" where
  "batch_free_shm_buf m h = batch_free_from (seg_num m) 0 m h"

text \<open>The loop with \<open>tmp_len\<close> bytes left to allocate and \<open>data\<close> left to copy.\<close>

function fill_segments :: "nat \<Rightarrow> byte list \<Rightarrow> message \<Rightarrow> 'x shm_scheme \<Rightarrow> message \<times> 'x shm_scheme \<times> ct_errno" where
  "fill_segments tmp_len data m h =
     (if tmp_len = 0 then (m, h, CT_SUCCESS)
      else
        let i = seg_num m; len = min tmp_len CTC_MQ_MESSAGE_SLICE_LEN; m = m\<lparr>seg_len := (seg_len m)(i := len)\<rparr>
        in case shm_alloc h len of
             (h, None) \<Rightarrow> let m = m\<lparr>seg_buf := (seg_buf m)(i := None)\<rparr> in (m, batch_free_shm_buf m h, ERR_ALLOC_MEMORY)
           | (h, Some b) \<Rightarrow>
               let copy_len = min (length data) CTC_MQ_MESSAGE_SLICE_LEN
               in fill_segments (tmp_len - len) (drop copy_len data)
                    (m\<lparr>seg_buf := (seg_buf m)(i := Some b), seg_num := i + 1\<rparr>) (shm_write b (take copy_len data) h))"
  by auto
termination by (relation "measure fst") (auto simp: CTC_MQ_MESSAGE_SLICE_LEN_def)

declare fill_segments.simps [simp del]

text \<open>\<^const>\<open>None\<close> is the failed assertion.\<close>

definition ctc_mq_fill_batch_data :: "message \<Rightarrow> byte list \<Rightarrow> nat \<Rightarrow> 'x shm_scheme \<Rightarrow> (message \<times> 'x shm_scheme \<times> ct_errno) option" where
  "ctc_mq_fill_batch_data m data buf_size h =
     (if length data \<le> buf_size then Some (fill_segments buf_size data (m\<lparr>seg_num := 0\<rparr>) h) else None)"

text \<open>The loop that copies the segments back: \<open>out\<close> is what has been copied.\<close>

fun get_segments :: "nat \<Rightarrow> nat \<Rightarrow> message \<Rightarrow> 'x shm_scheme \<Rightarrow> nat \<Rightarrow> byte list \<Rightarrow> byte list \<times> ct_errno" where
  "get_segments 0 i m h buf_len out = (out, CT_SUCCESS)"
| "get_segments (Suc n) i m h buf_len out =
     (if seg_len m i > CTC_MQ_MESSAGE_SLICE_LEN \<or> length out + seg_len m i > buf_len then (out, ERR_GENERIC_INTERNAL_ERROR)
      else case seg_buf m i of
             None \<Rightarrow> (out, ERR_GENERIC_INTERNAL_ERROR)
           | Some b \<Rightarrow> get_segments n (i + 1) m h buf_len (out @ take (seg_len m i) (sh_data h b)))"

definition ctc_mq_get_batch_data :: "message \<Rightarrow> 'x shm_scheme \<Rightarrow> nat \<Rightarrow> byte list \<times> ct_errno" where
  "ctc_mq_get_batch_data m h buf_len = get_segments (seg_num m) 0 m h buf_len []"

text \<open>The shared memory, the bytes of the answer and the code.\<close>

definition ctc_mq_batch_send_message ::
    "'x mq_env \<Rightarrow> nat \<Rightarrow> func_type \<Rightarrow> message \<Rightarrow> byte list \<Rightarrow> nat \<Rightarrow> 'x shm_scheme \<Rightarrow> ('x shm_scheme \<times> byte list \<times> ct_errno) option" where
  "ctc_mq_batch_send_message env msg_size func_type m0 data buf_size h =
     (if buf_size > CTC_MQ_MESSAGE_SLICE_LEN * DSW_MESSAGE_SEGMENT_NUM_MAX then Some (h, [], ERR_GENERIC_INTERNAL_ERROR)
      else case shm_alloc h msg_size of
        (h, None) \<Rightarrow> Some (h, [], ERR_ALLOC_MEMORY)
      | (h, Some msg) \<Rightarrow>
          if \<not> sem_init_ok env then Some (shm_free msg h, [], ERR_SEM_FAULT)
          else case ctc_mq_fill_batch_data m0 data buf_size h of
            None \<Rightarrow> None
          | Some (m, h, ret) \<Rightarrow>
              let finish = (\<lambda>h out result. Some (shm_free msg (batch_free_shm_buf m h), out, result))
              in if ret \<noteq> CT_SUCCESS then finish h [] ERR_BATCH_DATA_HANDLE_FAILED
                 else if \<not> send_ok env then finish h [] ERR_SHM_SEND_MSG_FAILED
                 else
                   let h = answered env (m\<lparr>cmd_type := func_type\<rparr>) h
                   in if \<not> sem_wait_ok env then finish h [] ERR_SEM_FAULT
                      else case ctc_mq_get_batch_data m h buf_size of
                             (out, ret) \<Rightarrow> finish h out (if ret \<noteq> CT_SUCCESS then ERR_BATCH_DATA_HANDLE_FAILED else CT_SUCCESS))"

section \<open>Threads for incoming messages\<close>

definition MAX_DDL_THD_NUM :: int where "MAX_DDL_THD_NUM = 1024"

text \<open>
  One thread receives messages and starts a thread for each (\<open>mq_recv_msg\<close>); a started thread handles its message,
  posts the semaphore, decrements \<open>g_ddl_thd_num\<close> and ends (\<open>mq_msg_handler\<close>). \<open>receiving\<close> says that the
  receiver is between the start of a thread and its increment, \<open>failed\<close> counts the starts that failed.
\<close>

record mq_state =
  g_ddl_thd_num :: int
  receiving :: bool
  running :: nat
  failed :: nat
  aborted :: bool

definition mq_init :: mq_state where
  "mq_init = \<lparr>g_ddl_thd_num = 0, receiving = False, running = 0, failed = 0, aborted = False\<rparr>"

inductive mq_step :: "mq_state \<Rightarrow> mq_state \<Rightarrow> bool" where
  limit: "\<not> aborted q \<Longrightarrow> \<not> receiving q \<Longrightarrow> g_ddl_thd_num q > MAX_DDL_THD_NUM \<Longrightarrow> mq_step q (q\<lparr>aborted := True\<rparr>)"
| created: "\<not> aborted q \<Longrightarrow> \<not> receiving q \<Longrightarrow> g_ddl_thd_num q \<le> MAX_DDL_THD_NUM \<Longrightarrow>
    mq_step q (q\<lparr>receiving := True, running := running q + 1\<rparr>)"
| not_created: "\<not> aborted q \<Longrightarrow> \<not> receiving q \<Longrightarrow> g_ddl_thd_num q \<le> MAX_DDL_THD_NUM \<Longrightarrow>
    mq_step q (q\<lparr>receiving := True, failed := failed q + 1\<rparr>)"
| counted: "\<not> aborted q \<Longrightarrow> receiving q \<Longrightarrow> mq_step q (q\<lparr>receiving := False, g_ddl_thd_num := g_ddl_thd_num q + 1\<rparr>)"
| handled: "\<not> aborted q \<Longrightarrow> 0 < running q \<Longrightarrow> mq_step q (q\<lparr>running := running q - 1, g_ddl_thd_num := g_ddl_thd_num q - 1\<rparr>)"

inductive_cases mq_stepE: "mq_step q q'"

section \<open>Blocks\<close>

definition shm_wf :: "'x shm_scheme \<Rightarrow> bool" where
  "shm_wf h \<longleftrightarrow> distinct (sh_live h) \<and> (\<forall>b \<in> set (sh_live h). b < sh_next h)"

lemma alloc_some:
  "shm_alloc h len = (h', Some b) \<Longrightarrow> b = sh_next h \<and> sh_next h' = sh_next h + 1 \<and> sh_live h' = b # sh_live h \<and>
     sh_bad_frees h' = sh_bad_frees h \<and> length (sh_data h' b) = len \<and> (\<forall>c. c \<noteq> b \<longrightarrow> sh_data h' c = sh_data h c)"
  by (auto simp: shm_alloc_def Let_def split: if_splits)

lemma alloc_none:
  "shm_alloc h len = (h', None) \<Longrightarrow> sh_next h' = sh_next h + 1 \<and> sh_live h' = sh_live h \<and> sh_bad_frees h' = sh_bad_frees h \<and>
     sh_data h' = sh_data h"
  by (auto simp: shm_alloc_def Let_def split: if_splits)

lemma shm_frame [simp]:
  "sh_live (answered env m h) = sh_live h" "sh_bad_frees (answered env m h) = sh_bad_frees h" "sh_next (answered env m h) = sh_next h"
  "sh_live (shm_write b bs h) = sh_live h" "sh_bad_frees (shm_write b bs h) = sh_bad_frees h" "sh_next (shm_write b bs h) = sh_next h"
  by (simp_all add: answered_def shm_write_def)

text \<open>The segments of a message point to the blocks \<open>bs\<close>.\<close>

definition segments :: "message \<Rightarrow> nat list \<Rightarrow> bool" where
  "segments m bs \<longleftrightarrow> seg_num m = length bs \<and> (\<forall>i < length bs. seg_buf m i = Some (bs ! i))"

lemma segments_snoc:
  "segments m bs \<Longrightarrow> segments (m\<lparr>seg_len := l, seg_buf := (seg_buf m)(seg_num m := Some b), seg_num := seg_num m + 1\<rparr>) (bs @ [b])"
  by (auto simp: segments_def nth_append less_Suc_eq)

lemma free_from:
  "drop i bs = cs \<Longrightarrow> i + n = length bs \<Longrightarrow> \<forall>j < length bs. seg_buf m j = Some (bs ! j) \<Longrightarrow>
     batch_free_from n i m h = fold shm_free cs h"
proof (induction n arbitrary: i cs h)
  case (Suc n)
  then have i: "i < length bs" by simp
  then have "cs = bs ! i # drop (Suc i) bs" using Suc.prems(1) by (metis Cons_nth_drop_Suc)
  then show ?case using Suc i by simp
qed simp

lemma free_segments: "segments m bs \<Longrightarrow> batch_free_shm_buf m h = fold shm_free bs h"
  by (auto simp: batch_free_shm_buf_def segments_def intro!: free_from)

lemma fold_free_live:
  "set bs \<subseteq> set (sh_live h) \<Longrightarrow> distinct bs \<Longrightarrow> distinct (sh_live h) \<Longrightarrow>
     set (sh_live (fold shm_free bs h)) = set (sh_live h) - set bs \<and> distinct (sh_live (fold shm_free bs h)) \<and>
     sh_bad_frees (fold shm_free bs h) = sh_bad_frees h \<and> sh_next (fold shm_free bs h) = sh_next h"
proof (induction bs arbitrary: h)
  case (Cons b bs)
  let ?h = "shm_free b h"
  have f: "set (sh_live ?h) = set (sh_live h) - {b}" "distinct (sh_live ?h)" "sh_bad_frees ?h = sh_bad_frees h" "sh_next ?h = sh_next h"
    using Cons.prems by (auto simp: shm_free_def)
  have "set bs \<subseteq> set (sh_live ?h)" using f(1) Cons.prems by auto
  then show ?case using Cons.IH [of ?h] f Cons.prems by auto
qed simp

lemma fold_free_bad:
  "set bs \<inter> set (sh_live h) = {} \<Longrightarrow>
     sh_live (fold shm_free bs h) = sh_live h \<and> sh_bad_frees (fold shm_free bs h) = rev bs @ sh_bad_frees h"
  by (induction bs arbitrary: h) (auto simp: shm_free_def)

section \<open>Filling\<close>

text \<open>
  What the loop leaves: the blocks \<open>bs\<close> it has added, with \<open>data\<close> and then anything in them, \<open>n\<close> bytes in all; or
  an error, with every block of the message freed.
\<close>

definition filled_ok :: "nat list \<Rightarrow> nat \<Rightarrow> byte list \<Rightarrow> message \<Rightarrow> 'x shm_scheme \<Rightarrow> message \<Rightarrow> 'x shm_scheme \<Rightarrow> bool" where
  "filled_ok pre n data m h m' h' \<longleftrightarrow> (\<exists>bs pad.
     segments m' (pre @ bs) \<and> (\<forall>b \<in> set bs. sh_next h \<le> b \<and> b < sh_next h') \<and> distinct bs \<and> sh_live h' = rev bs @ sh_live h \<and>
     sh_bad_frees h' = sh_bad_frees h \<and> sh_next h' = sh_next h + length bs \<and> (\<forall>b < sh_next h. sh_data h' b = sh_data h b) \<and>
     (\<forall>i < length pre. seg_len m' i = seg_len m i) \<and>
     (\<forall>i < length bs. seg_len m' (length pre + i) = length (sh_data h' (bs ! i)) \<and> length (sh_data h' (bs ! i)) \<le> CTC_MQ_MESSAGE_SLICE_LEN) \<and>
     concat (map (sh_data h') bs) = data @ pad \<and> length (data @ pad) = n \<and>
     length bs * CTC_MQ_MESSAGE_SLICE_LEN < n + CTC_MQ_MESSAGE_SLICE_LEN)"

lemma slice_pos: "0 < CTC_MQ_MESSAGE_SLICE_LEN"
  by (simp add: CTC_MQ_MESSAGE_SLICE_LEN_def)

lemma fill_ok:
  assumes "segments m pre" "length data \<le> n" "fill_segments n data m h = (m', h', CT_SUCCESS)"
  shows "filled_ok pre n data m h m' h'"
  using assms
proof (induction n data m h arbitrary: pre rule: fill_segments.induct)
  case (1 n data m h)
  show ?case
  proof (cases "n = 0")
    case True
    then show ?thesis using 1(2-) slice_pos by (auto simp: filled_ok_def fill_segments.simps intro: exI [of _ "[]"])
  next
    case False
    let ?S = CTC_MQ_MESSAGE_SLICE_LEN
    let ?len = "min n ?S" and ?c = "min (length data) ?S" and ?m1 = "m\<lparr>seg_len := (seg_len m)(seg_num m := min n ?S)\<rparr>"
    obtain h1 b where al: "shm_alloc h ?len = (h1, Some b)"
      using 1(4) False by (cases "shm_alloc h ?len"; cases "snd (shm_alloc h ?len)")
        (auto simp: fill_segments.simps [of n] Let_def errno_defs)
    let ?m2 = "?m1\<lparr>seg_buf := (seg_buf ?m1)(seg_num m := Some b), seg_num := seg_num m + 1\<rparr>" and ?h2 = "shm_write b (take ?c data) h1"
    have r: "fill_segments (n - ?len) (drop ?c data) ?m2 ?h2 = (m', h', CT_SUCCESS)"
      using 1(4) False al by (simp add: fill_segments.simps [of n] Let_def)
    have s: "segments ?m2 (pre @ [b])" using segments_snoc [OF 1(2)] by simp
    have l: "length (drop ?c data) \<le> n - ?len" using 1(3) by auto
    note a = alloc_some [OF al]
    have "filled_ok (pre @ [b]) (n - ?len) (drop ?c data) ?m2 ?h2 m' h'"
      using 1(1) [OF False refl refl refl al [symmetric] refl refl s l r] by simp
    then obtain bs pad where f: "segments m' ((pre @ [b]) @ bs)" "\<forall>b \<in> set bs. sh_next ?h2 \<le> b \<and> b < sh_next h'" "distinct bs"
      "sh_live h' = rev bs @ sh_live ?h2" "sh_bad_frees h' = sh_bad_frees ?h2" "\<forall>b < sh_next ?h2. sh_data h' b = sh_data ?h2 b"
      "\<forall>i < length (pre @ [b]). seg_len m' i = seg_len ?m2 i"
      "\<forall>i < length bs. seg_len m' (length (pre @ [b]) + i) = length (sh_data h' (bs ! i)) \<and> length (sh_data h' (bs ! i)) \<le> ?S"
      "concat (map (sh_data h') bs) = drop ?c data @ pad" "length (drop ?c data @ pad) = n - ?len"
      "length bs * ?S < (n - ?len) + ?S" "sh_next h' = sh_next ?h2 + length bs"
      unfolding filled_ok_def by blast
    have d: "sh_data h' b = take ?c data @ drop ?c (sh_data h1 b)" using f(6) a by (simp add: shm_write_def)
    then have ld: "length (sh_data h' b) = ?len" using a 1(3) by auto
    have "\<exists>pad'. concat (map (sh_data h') (b # bs)) = data @ pad'"
    proof (cases "length data \<le> ?S")
      case True
      then show ?thesis using d f(9) by (simp add: min_def)
    next
      case False
      then have "drop ?c (sh_data h1 b) = []" using a by auto
      then show ?thesis using d f(9) by (metis append_assoc append_Nil2 append_take_drop_id concat.simps(2) list.simps(9))
    qed
    then obtain pad' where c: "concat (map (sh_data h') (b # bs)) = data @ pad'" by blast
    have "length (concat (map (sh_data h') (b # bs))) = n" using ld f(9,10) by simp
    then have n: "length (data @ pad') = n" unfolding c .
    have len: "\<forall>i < length (b # bs). seg_len m' (length pre + i) = length (sh_data h' ((b # bs) ! i)) \<and>
        length (sh_data h' ((b # bs) ! i)) \<le> ?S"
    proof (intro allI impI)
      fix i assume i: "i < length (b # bs)"
      have "seg_len m' (length pre) = ?len" using f(7) 1(2) by (simp add: segments_def)
      then show "seg_len m' (length pre + i) = length (sh_data h' ((b # bs) ! i)) \<and> length (sh_data h' ((b # bs) ! i)) \<le> ?S"
        using f(8) ld i by (cases i) auto
    qed
    have cnt: "length (b # bs) * ?S < n + ?S" using f(11) False by (cases "n \<le> ?S") (auto simp: min_def)
    have "segments m' (pre @ b # bs)" using f(1) by simp
    moreover have "\<forall>b' \<in> set (b # bs). sh_next h \<le> b' \<and> b' < sh_next h'" "distinct (b # bs)"
    proof -
      have "sh_next h' > b" using f(12) a by simp
      then show "\<forall>b' \<in> set (b # bs). sh_next h \<le> b' \<and> b' < sh_next h'" "distinct (b # bs)" using f(2,3) a by auto
    qed
    moreover have "sh_live h' = rev (b # bs) @ sh_live h" "sh_bad_frees h' = sh_bad_frees h" using f(4,5) a by simp_all
    moreover have "sh_next h' = sh_next h + length (b # bs)" using f(12) a by simp
    moreover have "\<forall>b' < sh_next h. sh_data h' b' = sh_data h b'" using f(6) a by (simp add: shm_write_def)
    moreover have "\<forall>i < length pre. seg_len m' i = seg_len m i" using f(7) 1(2) by (simp add: segments_def)
    ultimately show ?thesis unfolding filled_ok_def using c n len cnt by (intro exI [of _ "b # bs"] exI [of _ pad'] conjI)
  qed
qed

lemma fill_fail:
  assumes "segments m pre" "distinct pre" "set pre \<subseteq> set (sh_live h)" "shm_wf h" "fill_segments n data m h = (m', h', e)" "e \<noteq> CT_SUCCESS"
  shows "e = ERR_ALLOC_MEMORY \<and> (\<exists>bs. segments m' (pre @ bs) \<and> distinct bs \<and> (\<forall>b \<in> set bs. sh_next h \<le> b) \<and>
    set (sh_live h') = set (sh_live h) - set pre \<and> distinct (sh_live h') \<and> sh_bad_frees h' = sh_bad_frees h \<and> shm_wf h' \<and>
    sh_next h + length bs < sh_next h')"
  using assms
proof (induction n data m h arbitrary: pre rule: fill_segments.induct)
  case (1 n data m h)
  let ?S = CTC_MQ_MESSAGE_SLICE_LEN
  let ?len = "min n ?S" and ?c = "min (length data) ?S" and ?m1 = "m\<lparr>seg_len := (seg_len m)(seg_num m := min n ?S)\<rparr>"
  have n: "n \<noteq> 0" using 1(6,7) by (cases "n = 0") (simp_all add: fill_segments.simps [of 0])
  obtain h1 r where al: "shm_alloc h ?len = (h1, r)" by fastforce
  show ?case
  proof (cases r)
    case None
    let ?m = "?m1\<lparr>seg_buf := (seg_buf m)(seg_num m := None)\<rparr>"
    note a = alloc_none [OF al [unfolded None]]
    have res: "m' = ?m" "h' = batch_free_shm_buf ?m h1" "e = ERR_ALLOC_MEMORY"
      using 1(6) n al None by (auto simp: fill_segments.simps [of n] Let_def)
    have s: "segments ?m pre" using 1(2) by (simp add: segments_def)
    have "set (sh_live h') = set (sh_live h) - set pre \<and> distinct (sh_live h') \<and> sh_bad_frees h' = sh_bad_frees h \<and> sh_next h' = sh_next h + 1"
      unfolding res free_segments [OF s] using fold_free_live [of pre h1] a 1(3-5) by (simp add: shm_wf_def)
    then show ?thesis using res s 1(5) by (intro conjI exI [of _ "[]"]) (auto simp: shm_wf_def)
  next
    case (Some b)
    note al = al [unfolded Some]
    let ?m2 = "?m1\<lparr>seg_buf := (seg_buf ?m1)(seg_num m := Some b), seg_num := seg_num m + 1\<rparr>" and ?h2 = "shm_write b (take ?c data) h1"
    have r: "fill_segments (n - ?len) (drop ?c data) ?m2 ?h2 = (m', h', e)"
      using 1(6) n al by (simp add: fill_segments.simps [of n] Let_def)
    note a = alloc_some [OF al]
    have s: "segments ?m2 (pre @ [b])" using segments_snoc [OF 1(2)] by simp
    have p: "distinct (pre @ [b])" "set (pre @ [b]) \<subseteq> set (sh_live ?h2)" "shm_wf ?h2"
      using a 1(3-5) by (auto simp: shm_wf_def)
    obtain bs where b: "e = ERR_ALLOC_MEMORY" "segments m' ((pre @ [b]) @ bs)" "distinct bs" "\<forall>b \<in> set bs. sh_next ?h2 \<le> b"
      "set (sh_live h') = set (sh_live ?h2) - set (pre @ [b])" "distinct (sh_live h')" "sh_bad_frees h' = sh_bad_frees ?h2" "shm_wf h'"
      "sh_next ?h2 + length bs < sh_next h'"
      using 1(1) [OF n refl refl refl al [symmetric] refl refl s p r 1(7)] by blast
    have "b \<notin> set (sh_live h)" using a 1(5) by (auto simp: shm_wf_def)
    then have "segments m' (pre @ b # bs) \<and> distinct (b # bs) \<and> (\<forall>x \<in> set (b # bs). sh_next h \<le> x) \<and>
        set (sh_live h') = set (sh_live h) - set pre \<and> distinct (sh_live h') \<and> sh_bad_frees h' = sh_bad_frees h \<and> shm_wf h' \<and>
        sh_next h + length (b # bs) < sh_next h'"
      using b a by auto
    then show ?thesis using b(1) by blast
  qed
qed

lemma get_ok:
  assumes "\<forall>i < length bs. seg_buf m i = Some (bs ! i) \<and> seg_len m i = length (sh_data h (bs ! i)) \<and> seg_len m i \<le> CTC_MQ_MESSAGE_SLICE_LEN"
    and "length (concat (map (sh_data h) bs)) \<le> buf_len"
  shows "i + n = length bs \<Longrightarrow> get_segments n i m h buf_len (concat (map (sh_data h) (take i bs))) = (concat (map (sh_data h) bs), CT_SUCCESS)"
proof (induction n arbitrary: i)
  case (Suc n)
  then have i: "i < length bs" by simp
  have t: "take (Suc i) bs = take i bs @ [bs ! i]" using i by (simp add: take_Suc_conv_app_nth)
  have "length (concat (map (sh_data h) (take (Suc i) bs))) \<le> length (concat (map (sh_data h) bs))"
    by (metis append_take_drop_id concat_append le_add1 length_append map_append)
  then have le: "length (concat (map (sh_data h) (take i bs))) + length (sh_data h (bs ! i)) \<le> buf_len" using assms(2) t by simp
  have "get_segments n (i + 1) m h buf_len (concat (map (sh_data h) (take (i + 1) bs))) = (concat (map (sh_data h) bs), CT_SUCCESS)"
    using Suc by simp
  then show ?case using assms(1) i le t by (auto simp: not_less)
qed simp

section \<open>Properties\<close>

text \<open>
  C26: a request of several segments keeps its bytes: cut into slices, copied into shared memory and copied back
  when the other process has not changed them, the bytes are those that were sent, followed by what the
  rest of the buffer held; the segments never outnumber the array of a message.
\<close>

theorem batch_round_trip:
  assumes "ctc_mq_fill_batch_data m0 data buf_size h = Some (m, h', CT_SUCCESS)"
    and "buf_size \<le> CTC_MQ_MESSAGE_SLICE_LEN * DSW_MESSAGE_SEGMENT_NUM_MAX"
  shows "\<exists>pad. ctc_mq_get_batch_data m h' buf_size = (data @ pad, CT_SUCCESS) \<and> length (data @ pad) = buf_size \<and>
    seg_num m \<le> DSW_MESSAGE_SEGMENT_NUM_MAX"
proof -
  let ?S = CTC_MQ_MESSAGE_SLICE_LEN and ?m = "m0\<lparr>seg_num := 0\<rparr>"
  have f: "length data \<le> buf_size" "fill_segments buf_size data ?m h = (m, h', CT_SUCCESS)"
    using assms(1) by (auto simp: ctc_mq_fill_batch_data_def split: if_splits)
  have "segments ?m []" by (simp add: segments_def)
  from fill_ok [OF this f] obtain bs pad where b: "segments m bs"
    "\<forall>i < length bs. seg_len m i = length (sh_data h' (bs ! i)) \<and> length (sh_data h' (bs ! i)) \<le> ?S"
    "concat (map (sh_data h') bs) = data @ pad" "length (data @ pad) = buf_size" "length bs * ?S < buf_size + ?S"
    unfolding filled_ok_def by auto
  have "get_segments (length bs) 0 m h' buf_size (concat (map (sh_data h') (take 0 bs))) = (concat (map (sh_data h') bs), CT_SUCCESS)"
    by (rule get_ok) (use b in \<open>auto simp: segments_def\<close>)
  then have "ctc_mq_get_batch_data m h' buf_size = (data @ pad, CT_SUCCESS)"
    using b(1,3) by (simp add: ctc_mq_get_batch_data_def segments_def)
  moreover have "length bs * ?S < (DSW_MESSAGE_SEGMENT_NUM_MAX + 1) * ?S" using b(5) assms(2) by (simp add: algebra_simps)
  then have "length bs \<le> DSW_MESSAGE_SEGMENT_NUM_MAX" by (metis Suc_eq_plus1 less_Suc_eq_le mult_less_cancel2)
  ultimately show ?thesis using b(1,4) by (auto simp: segments_def)
qed

lemma deal_memory:
  "sh_live (fst (ctc_mq_deal_func env msg_size func_type request_size msg_buf request h)) = sh_live h \<and>
   sh_bad_frees (fst (ctc_mq_deal_func env msg_size func_type request_size msg_buf request h)) = sh_bad_frees h \<and>
   (snd (ctc_mq_deal_func env msg_size func_type request_size msg_buf request h) = CT_SUCCESS \<longrightarrow> send_ok env \<and> sem_wait_ok env)"
proof (cases msg_buf)
  case None
  obtain h1 r where al: "shm_alloc h msg_size = (h1, r)" by fastforce
  show ?thesis
  proof (cases r)
    case None
    then show ?thesis using \<open>msg_buf = None\<close> al alloc_none [of h msg_size h1] by (simp add: ctc_mq_deal_func_def errno_defs)
  next
    case (Some b)
    then show ?thesis using \<open>msg_buf = None\<close> al alloc_some [of h msg_size h1 b]
      by (simp add: ctc_mq_deal_func_def Let_def shm_free_def errno_defs)
  qed
next
  case (Some m)
  then show ?thesis by (simp add: ctc_mq_deal_func_def Let_def errno_defs)
qed

text \<open>
  a request to the other process leaves the shared memory allocated as it was: whichever call fails, the message
  block is freed exactly when it was allocated for the request, and the code is success only if the request was
  sent and its semaphore posted.
\<close>

lemma deal_keeps_memory:
  "sh_live (fst (ctc_mq_deal_func env msg_size func_type request_size msg_buf request h)) = sh_live h \<and>
   sh_bad_frees (fst (ctc_mq_deal_func env msg_size func_type request_size msg_buf request h)) = sh_bad_frees h \<and>
   (snd (ctc_mq_deal_func env msg_size func_type request_size msg_buf request h) = CT_SUCCESS \<longrightarrow> send_ok env \<and> sem_wait_ok env)"
  using deal_memory .

lemma shm_free_simps [simp]: "sh_next (shm_free b h) = sh_next h"
  by (simp add: shm_free_def)

lemma freed_after_alloc:
  fixes h h1 h2 :: "'x shm_scheme"
  assumes "shm_wf h" "shm_alloc h n = (h1, Some b)" "set (sh_live h2) = set (sh_live h1)" "distinct (sh_live h2)"
  shows "set (sh_live (shm_free b h2)) = set (sh_live h)" "sh_bad_frees (shm_free b h2) = sh_bad_frees h2"
  using assms alloc_some [OF assms(2)] by (auto simp: shm_free_def shm_wf_def)

text \<open>The blocks of the segments are freed once after a filled message, and a second time after a failed one.\<close>

lemma free_filled:
  fixes h h1 h2 :: "'x shm_scheme"
  assumes "shm_wf h" "length data \<le> n" "fill_segments n data m h = (m', h1, CT_SUCCESS)" "seg_num m = 0"
    and "sh_live h2 = sh_live h1" "sh_bad_frees h2 = sh_bad_frees h1"
  shows "set (sh_live (batch_free_shm_buf m' h2)) = set (sh_live h) \<and> distinct (sh_live (batch_free_shm_buf m' h2)) \<and>
    sh_bad_frees (batch_free_shm_buf m' h2) = sh_bad_frees h"
proof -
  have "segments m []" using assms(4) by (simp add: segments_def)
  from fill_ok [OF this assms(2,3)] obtain bs where b: "segments m' bs" "distinct bs" "\<forall>b \<in> set bs. sh_next h \<le> b"
    "sh_live h1 = rev bs @ sh_live h" "sh_bad_frees h1 = sh_bad_frees h" unfolding filled_ok_def by auto
  have "set bs \<inter> set (sh_live h) = {}" using b(3) assms(1) by (fastforce simp: shm_wf_def)
  then show ?thesis using fold_free_live [of bs h2] b assms(1,5,6) by (auto simp: free_segments [OF b(1)] shm_wf_def)
qed

lemma free_failed:
  assumes "shm_wf h" "fill_segments n data m h = (m', h1, e)" "e \<noteq> CT_SUCCESS" "seg_num m = 0"
  shows "set (sh_live (batch_free_shm_buf m' h1)) = set (sh_live h) \<and> distinct (sh_live (batch_free_shm_buf m' h1)) \<and>
    (\<exists>bs. segments m' bs \<and> sh_bad_frees (batch_free_shm_buf m' h1) = rev bs @ sh_bad_frees h)"
proof -
  have "segments m []" using assms(4) by (simp add: segments_def)
  then obtain bs where b: "segments m' bs" "\<forall>b \<in> set bs. sh_next h \<le> b" "set (sh_live h1) = set (sh_live h)" "distinct (sh_live h1)"
    "sh_bad_frees h1 = sh_bad_frees h"
    using fill_fail [of m "[]" h n data m' h1 e] assms(1-3) by auto
  have "set bs \<inter> set (sh_live h1) = {}" using b(2,3) assms(1) by (fastforce simp: shm_wf_def)
  then show ?thesis using fold_free_bad [of bs h1] b by (auto simp: free_segments [OF b(1)])
qed

text \<open>
  a request of several segments leaves the shared memory allocated as it was, whichever call fails; and no block
  is freed twice unless the allocation of a segment failed, which the code ERR_BATCH_DATA_HANDLE_FAILED reports.
\<close>

lemma batch_send_memory:
  assumes "shm_wf h" "ctc_mq_batch_send_message env msg_size func_type m0 data buf_size h = Some (h', out, code)"
  shows "set (sh_live h') = set (sh_live h) \<and> (code \<noteq> ERR_BATCH_DATA_HANDLE_FAILED \<longrightarrow> sh_bad_frees h' = sh_bad_frees h)"
proof (cases "buf_size > CTC_MQ_MESSAGE_SLICE_LEN * DSW_MESSAGE_SEGMENT_NUM_MAX")
  case True
  then show ?thesis using assms(2) by (simp add: ctc_mq_batch_send_message_def)
next
  case guard: False
  obtain h1 r where al: "shm_alloc h msg_size = (h1, r)" by fastforce
  show ?thesis
  proof (cases r)
    case None
    then show ?thesis using assms(2) guard al alloc_none [of h msg_size h1] by (simp add: ctc_mq_batch_send_message_def)
  next
    case (Some msg)
    note al = al [unfolded Some]
    have wf: "shm_wf h1" "sh_bad_frees h1 = sh_bad_frees h" using assms(1) alloc_some [OF al] by (auto simp: shm_wf_def)
    note fr = freed_after_alloc [OF assms(1) al]
    show ?thesis
    proof (cases "sem_init_ok env")
      case False
      then show ?thesis using assms(2) guard al fr [of h1] wf by (auto simp: ctc_mq_batch_send_message_def shm_wf_def)
    next
      case init: True
      obtain m h2 ret where f: "fill_segments buf_size data (m0\<lparr>seg_num := 0\<rparr>) h1 = (m, h2, ret)" by (metis prod_cases3)
      have len: "length data \<le> buf_size"
        using assms(2) guard al init by (auto simp: ctc_mq_batch_send_message_def ctc_mq_fill_batch_data_def split: if_splits)
      have s0: "seg_num (m0\<lparr>seg_num := 0\<rparr>) = 0" by simp
      have "\<exists>h3. h' = shm_free msg (batch_free_shm_buf m h3) \<and> sh_live h3 = sh_live h2 \<and> sh_bad_frees h3 = sh_bad_frees h2 \<and>
          (ret \<noteq> CT_SUCCESS \<longrightarrow> h3 = h2 \<and> code = ERR_BATCH_DATA_HANDLE_FAILED)"
        using assms(2) guard al init f len
        by (auto simp: ctc_mq_batch_send_message_def ctc_mq_fill_batch_data_def Let_def split: if_splits prod.splits)
      then obtain h3 where h3: "h' = shm_free msg (batch_free_shm_buf m h3)" "sh_live h3 = sh_live h2" "sh_bad_frees h3 = sh_bad_frees h2"
        "ret \<noteq> CT_SUCCESS \<Longrightarrow> h3 = h2 \<and> code = ERR_BATCH_DATA_HANDLE_FAILED" by blast
      show ?thesis
      proof (cases "ret = CT_SUCCESS")
        case True
        show ?thesis using free_filled [OF wf(1) len f [unfolded True] s0 h3(2,3)] fr wf(2) h3(1) by simp
      next
        case False
        show ?thesis using free_failed [OF wf(1) f False s0] fr h3(1) h3(4) [OF False] by auto
      qed
    qed
  qed
qed

text \<open>
  when a later segment of a request cannot be allocated, the segments before it are freed twice: by
  \<open>ctc_mq_fill_batch_data\<close> and, since they are still in the message, by \<open>ctc_mq_batch_send_message\<close>.
\<close>

lemma batch_send_double_free:
  assumes "shm_wf h" "CTC_MQ_MESSAGE_SLICE_LEN < buf_size" "buf_size \<le> CTC_MQ_MESSAGE_SLICE_LEN * DSW_MESSAGE_SEGMENT_NUM_MAX"
    and "length data \<le> buf_size" "sem_init_ok env"
    and "sh_ok h (sh_next h)" "sh_ok h (sh_next h + 1)" "\<not> sh_ok h (sh_next h + 2)"
  shows "\<exists>h'. ctc_mq_batch_send_message env msg_size func_type m0 data buf_size h = Some (h', [], ERR_BATCH_DATA_HANDLE_FAILED) \<and>
    sh_bad_frees h' = (sh_next h + 1) # sh_bad_frees h"
proof -
  let ?S = CTC_MQ_MESSAGE_SLICE_LEN and ?b = "sh_next h + 1"
  obtain h1 where al: "shm_alloc h msg_size = (h1, Some (sh_next h))" using assms(6) by (auto simp: shm_alloc_def Let_def)
  note a = alloc_some [OF al]
  have ok: "sh_ok h1 = sh_ok h" using al by (auto simp: shm_alloc_def Let_def split: if_splits)
  have wf: "shm_wf h1" using assms(1) a by (auto simp: shm_wf_def)
  obtain m h2 e where f: "fill_segments buf_size data (m0\<lparr>seg_num := 0\<rparr>) h1 = (m, h2, e)" by (metis prod_cases3)
  have n: "buf_size \<noteq> 0" "min buf_size ?S = ?S" "buf_size - ?S \<noteq> 0" using assms(2) by auto
  have "segments m [?b]" "e \<noteq> CT_SUCCESS"
    using f assms(7,8) a ok n
    by (auto simp: fill_segments.simps [of buf_size] fill_segments.simps [of "buf_size - ?S"] shm_alloc_def Let_def segments_def errno_defs
        shm_write_def)
  moreover obtain bs where "segments m bs" "sh_bad_frees (batch_free_shm_buf m h2) = rev bs @ sh_bad_frees h1"
    "set (sh_live (batch_free_shm_buf m h2)) = set (sh_live h1)" "distinct (sh_live (batch_free_shm_buf m h2))"
    using free_failed [OF wf f] calculation(2) by auto
  moreover have "bs = [?b]" if "segments m bs" "segments m [?b]" for bs
    using that by (auto simp: segments_def length_Suc_conv)
  ultimately have "sh_bad_frees (shm_free (sh_next h) (batch_free_shm_buf m h2)) = ?b # sh_bad_frees h"
    using freed_after_alloc(2) [OF assms(1) al] a by auto
  then show ?thesis using al assms(3-5) f \<open>e \<noteq> CT_SUCCESS\<close>
    by (auto simp: ctc_mq_batch_send_message_def ctc_mq_fill_batch_data_def Let_def)
qed

section \<open>The number of threads\<close>

definition mq_inv :: "mq_state \<Rightarrow> bool" where
  "mq_inv q \<longleftrightarrow> g_ddl_thd_num q = int (running q) + int (failed q) - (if receiving q then 1 else 0) \<and>
     g_ddl_thd_num q \<le> MAX_DDL_THD_NUM + 1 \<and> (receiving q \<longrightarrow> g_ddl_thd_num q \<le> MAX_DDL_THD_NUM)"

lemma mq_inv_step: "mq_step q q' \<Longrightarrow> mq_inv q \<Longrightarrow> mq_inv q'"
  by (erule mq_stepE) (auto simp: mq_inv_def)

lemma mq_inv_reachable: "mq_step\<^sup>*\<^sup>* mq_init q \<Longrightarrow> mq_inv q"
proof (induction rule: rtranclp_induct)
  case base
  show ?case by (simp add: mq_inv_def mq_init_def MAX_DDL_THD_NUM_def)
next
  case (step q q')
  then show ?case using mq_inv_step by blast
qed

text \<open>
  C27: in every reachable state the counter of the threads for incoming messages is the number of threads that run plus
  the number of those that could not be started, less one while the receiver has not counted the last one;
  it never passes the limit by more than one. So the counter is right as long as every start succeeds,
  and a failed start is counted for ever.
\<close>

theorem thread_counter:
  assumes "mq_step\<^sup>*\<^sup>* mq_init q"
  shows "g_ddl_thd_num q = int (running q) + int (failed q) - (if receiving q then 1 else 0) \<and>
    g_ddl_thd_num q \<le> MAX_DDL_THD_NUM + 1"
  using mq_inv_reachable [OF assms] by (simp add: mq_inv_def)

text \<open>A number of failed starts, each counted.\<close>

lemma failed_starts:
  assumes "int n \<le> MAX_DDL_THD_NUM + 1"
  shows "mq_step\<^sup>*\<^sup>* mq_init (mq_init\<lparr>failed := n, g_ddl_thd_num := int n\<rparr>)"
  using assms
proof (induction n)
  case 0
  then show ?case by (simp add: mq_init_def)
next
  case (Suc n)
  let ?q = "mq_init\<lparr>failed := n, g_ddl_thd_num := int n\<rparr>"
  let ?r = "?q\<lparr>receiving := True, failed := n + 1\<rparr>"
  have "mq_step ?q ?r" using mq_step.not_created [of ?q] Suc.prems by (simp add: mq_init_def)
  moreover have "mq_step ?r (?r\<lparr>receiving := False, g_ddl_thd_num := int n + 1\<rparr>)"
    using mq_step.counted [of ?r] by (simp add: mq_init_def)
  moreover have "?r\<lparr>receiving := False, g_ddl_thd_num := int n + 1\<rparr> = mq_init\<lparr>failed := Suc n, g_ddl_thd_num := int (Suc n)\<rparr>"
    by (simp add: mq_init_def)
  moreover have "mq_step\<^sup>*\<^sup>* mq_init ?q" using Suc by simp
  ultimately show ?case by (metis rtranclp.rtrancl_into_rtrancl)
qed

theorem thread_counter_witness:
  "g_ddl_thd_num (mq_init\<lparr>failed := 1025, g_ddl_thd_num := int 1025\<rparr>) = 1025 \<and>
   mq_step\<^sup>*\<^sup>* mq_init (mq_init\<lparr>failed := 1025, g_ddl_thd_num := int 1025\<rparr>) \<and>
   mq_step (mq_init\<lparr>failed := 1025, g_ddl_thd_num := int 1025\<rparr>) (mq_init\<lparr>failed := 1025, g_ddl_thd_num := int 1025, aborted := True\<rparr>)"
proof -
  let ?q = "mq_init\<lparr>failed := 1025, g_ddl_thd_num := int 1025\<rparr>"
  have r: "mq_step\<^sup>*\<^sup>* mq_init ?q" using failed_starts [of 1025] by (simp add: MAX_DDL_THD_NUM_def)
  then have "g_ddl_thd_num ?q = 1025" using thread_counter [OF r] by (simp add: mq_init_def)
  moreover have "mq_step ?q (?q\<lparr>aborted := True\<rparr>)" by (rule mq_step.limit) (simp_all add: mq_init_def MAX_DDL_THD_NUM_def)
  ultimately show ?thesis using r by simp
qed

section \<open>Concrete messages\<close>

definition shm0 :: "(nat \<Rightarrow> bool) \<Rightarrow> shm" where
  "shm0 ok = \<lparr>sh_next = 5, sh_ok = ok, sh_live = [3], sh_data = (\<lambda>_. []), sh_bad_frees = []\<rparr>"

definition message0 :: message where
  "message0 = \<lparr>cmd_type = 0, seg_num = 0, seg_len = (\<lambda>_. 0), seg_buf = (\<lambda>_. None)\<rparr>"

definition mq_env0 :: "unit mq_env" where
  "mq_env0 = \<lparr>sem_init_ok = True, send_ok = True, sem_wait_ok = True, serve = (\<lambda>_ d. d)\<rparr>"

lemma shm0_wf: "shm_wf (shm0 ok)"
  by (simp add: shm_wf_def shm0_def)

theorem batch_round_trip_witness:
  "\<exists>m h' pad. ctc_mq_fill_batch_data message0 [1, 2] 3 (shm0 (\<lambda>_. True)) = Some (m, h', CT_SUCCESS) \<and>
     ctc_mq_get_batch_data m h' 3 = ([1, 2] @ pad, CT_SUCCESS)"
proof -
  have "\<exists>m h'. ctc_mq_fill_batch_data message0 [1, 2] 3 (shm0 (\<lambda>_. True)) = Some (m, h', CT_SUCCESS)"
    by (simp add: ctc_mq_fill_batch_data_def fill_segments.simps [of 3] fill_segments.simps [of 0] shm_alloc_def shm0_def
        CTC_MQ_MESSAGE_SLICE_LEN_def Let_def)
  then obtain m h' where f: "ctc_mq_fill_batch_data message0 [1, 2] 3 (shm0 (\<lambda>_. True)) = Some (m, h', CT_SUCCESS)" by blast
  show ?thesis using batch_round_trip [OF f] f by (auto simp: CTC_MQ_MESSAGE_SLICE_LEN_def DSW_MESSAGE_SEGMENT_NUM_MAX_def)
qed

lemma deal_keeps_memory_witness:
  "sh_live (fst (ctc_mq_deal_func mq_env0 100 0 10 None 3 (shm0 (\<lambda>_. True)))) = [3] \<and> send_ok mq_env0"
  using deal_keeps_memory [of mq_env0 100 0 10 None 3 "shm0 (\<lambda>_. True)"]
  by (simp add: shm0_def mq_env0_def)

lemma batch_send_memory_witness:
  "\<exists>h' out code. ctc_mq_batch_send_message mq_env0 100 0 message0 [] 0 (shm0 (\<lambda>_. True)) = Some (h', out, code) \<and> set (sh_live h') = {3}"
proof -
  have "\<exists>h' out code. ctc_mq_batch_send_message mq_env0 100 0 message0 [] 0 (shm0 (\<lambda>_. True)) = Some (h', out, code)"
    by (simp add: ctc_mq_batch_send_message_def ctc_mq_fill_batch_data_def fill_segments.simps [of 0] shm_alloc_def shm0_def mq_env0_def
        ctc_mq_get_batch_data_def Let_def)
  then obtain h' out code where r: "ctc_mq_batch_send_message mq_env0 100 0 message0 [] 0 (shm0 (\<lambda>_. True)) = Some (h', out, code)" by blast
  show ?thesis using batch_send_memory [OF shm0_wf r] r by (auto simp: shm0_def)
qed

lemma batch_send_double_free_witness:
  "\<exists>h'. ctc_mq_batch_send_message mq_env0 100 0 message0 [1] 102401 (shm0 (\<lambda>n. n < 7)) = Some (h', [], ERR_BATCH_DATA_HANDLE_FAILED) \<and>
     sh_bad_frees h' = [6]"
  using batch_send_double_free [OF shm0_wf, of 102401 "[1]" mq_env0 "\<lambda>n. n < 7" 100 0 message0]
  by (simp add: CTC_MQ_MESSAGE_SLICE_LEN_def DSW_MESSAGE_SEGMENT_NUM_MAX_def mq_env0_def shm0_def)

end
