(* ===== verification/CTC_Stub.thy ===== *)
theory CTC_Stub
  imports CTC_Mq CTC_Write
begin

text \<open>
  The requests to the Cantian process (ctc_srv_mq_stub.cc, srv_mq_msg.h): each function allocates its request in
  shared memory, fills it, sends it, reads the answer from it and frees it. A request structure is a record;
  \<open>sh_req\<close> is the content of the blocks as such structures, which for a new block is anything. Character
  arrays are lists of bytes of the length of the array, C strings lists of the bytes before the terminating 0.
\<close>

section \<open>Request types\<close>

definition CTC_FUNC_TYPE_OPEN_TABLE :: func_type where "CTC_FUNC_TYPE_OPEN_TABLE = 0"
definition CTC_FUNC_TYPE_CLOSE_TABLE :: func_type where "CTC_FUNC_TYPE_CLOSE_TABLE = 1"
definition CTC_FUNC_TYPE_CLOSE_SESSION :: func_type where "CTC_FUNC_TYPE_CLOSE_SESSION = 2"
definition CTC_FUNC_TYPE_WRITE_ROW :: func_type where "CTC_FUNC_TYPE_WRITE_ROW = 3"
definition CTC_FUNC_TYPE_UPDATE_JOB :: func_type where "CTC_FUNC_TYPE_UPDATE_JOB = 4"
definition CTC_FUNC_TYPE_UPDATE_ROW :: func_type where "CTC_FUNC_TYPE_UPDATE_ROW = 5"
definition CTC_FUNC_TYPE_DELETE_ROW :: func_type where "CTC_FUNC_TYPE_DELETE_ROW = 6"
definition CTC_FUNC_TYPE_UPDATE_SAMPLE_SIZE :: func_type where "CTC_FUNC_TYPE_UPDATE_SAMPLE_SIZE = 7"
definition CTC_FUNC_TYPE_GET_SAMPLE_SIZE :: func_type where "CTC_FUNC_TYPE_GET_SAMPLE_SIZE = 8"
definition CTC_FUNC_TYPE_RND_INIT :: func_type where "CTC_FUNC_TYPE_RND_INIT = 9"
definition CTC_FUNC_TYPE_RND_END :: func_type where "CTC_FUNC_TYPE_RND_END = 10"
definition CTC_FUNC_TYPE_RND_NEXT :: func_type where "CTC_FUNC_TYPE_RND_NEXT = 11"
definition CTC_FUNC_TYPE_RND_PREFETCH :: func_type where "CTC_FUNC_TYPE_RND_PREFETCH = 12"
definition CTC_FUNC_TYPE_SCAN_RECORDS :: func_type where "CTC_FUNC_TYPE_SCAN_RECORDS = 13"
definition CTC_FUNC_TYPE_TRX_COMMIT :: func_type where "CTC_FUNC_TYPE_TRX_COMMIT = 14"
definition CTC_FUNC_TYPE_TRX_ROLLBACK :: func_type where "CTC_FUNC_TYPE_TRX_ROLLBACK = 15"
definition CTC_FUNC_TYPE_STATISTIC_BEGIN :: func_type where "CTC_FUNC_TYPE_STATISTIC_BEGIN = 16"
definition CTC_FUNC_TYPE_STATISTIC_COMMIT :: func_type where "CTC_FUNC_TYPE_STATISTIC_COMMIT = 17"
definition CTC_FUNC_TYPE_TRX_BEGIN :: func_type where "CTC_FUNC_TYPE_TRX_BEGIN = 18"
definition CTC_FUNC_TYPE_LOCK_TABLE :: func_type where "CTC_FUNC_TYPE_LOCK_TABLE = 19"
definition CTC_FUNC_TYPE_UNLOCK_TABLE :: func_type where "CTC_FUNC_TYPE_UNLOCK_TABLE = 20"
definition CTC_FUNC_TYPE_INDEX_END :: func_type where "CTC_FUNC_TYPE_INDEX_END = 21"
definition CTC_FUNC_TYPE_SRV_SET_SAVEPOINT :: func_type where "CTC_FUNC_TYPE_SRV_SET_SAVEPOINT = 22"
definition CTC_FUNC_TYPE_SRV_ROLLBACK_SAVEPOINT :: func_type where "CTC_FUNC_TYPE_SRV_ROLLBACK_SAVEPOINT = 23"
definition CTC_FUNC_TYPE_SRV_RELEASE_SAVEPOINT :: func_type where "CTC_FUNC_TYPE_SRV_RELEASE_SAVEPOINT = 24"
definition CTC_FUNC_TYPE_GENERAL_FETCH :: func_type where "CTC_FUNC_TYPE_GENERAL_FETCH = 25"
definition CTC_FUNC_TYPE_GENERAL_PREFETCH :: func_type where "CTC_FUNC_TYPE_GENERAL_PREFETCH = 26"
definition CTC_FUNC_TYPE_FREE_CURSORS :: func_type where "CTC_FUNC_TYPE_FREE_CURSORS = 27"
definition CTC_FUNC_TYPE_GET_INDEX_NAME :: func_type where "CTC_FUNC_TYPE_GET_INDEX_NAME = 28"
definition CTC_FUNC_TYPE_INDEX_READ :: func_type where "CTC_FUNC_TYPE_INDEX_READ = 29"
definition CTC_FUNC_TYPE_RND_POS :: func_type where "CTC_FUNC_TYPE_RND_POS = 30"
definition CTC_FUNC_TYPE_POSITION :: func_type where "CTC_FUNC_TYPE_POSITION = 31"
definition CTC_FUNC_TYPE_DELETE_ALL_ROWS :: func_type where "CTC_FUNC_TYPE_DELETE_ALL_ROWS = 32"
definition CTC_FUNC_TYPE_GET_CBO_STATS :: func_type where "CTC_FUNC_TYPE_GET_CBO_STATS = 33"
definition CTC_FUNC_TYPE_WRITE_LOB :: func_type where "CTC_FUNC_TYPE_WRITE_LOB = 34"
definition CTC_FUNC_TYPE_READ_LOB :: func_type where "CTC_FUNC_TYPE_READ_LOB = 35"
definition CTC_FUNC_TYPE_CREATE_TABLE :: func_type where "CTC_FUNC_TYPE_CREATE_TABLE = 36"
definition CTC_FUNC_TYPE_TRUNCATE_TABLE :: func_type where "CTC_FUNC_TYPE_TRUNCATE_TABLE = 37"
definition CTC_FUNC_TYPE_TRUNCATE_PARTITION :: func_type where "CTC_FUNC_TYPE_TRUNCATE_PARTITION = 38"
definition CTC_FUNC_TYPE_RENAME_TABLE :: func_type where "CTC_FUNC_TYPE_RENAME_TABLE = 39"
definition CTC_FUNC_TYPE_ALTER_TABLE :: func_type where "CTC_FUNC_TYPE_ALTER_TABLE = 40"
definition CTC_FUNC_TYPE_GET_SERIAL_VALUE :: func_type where "CTC_FUNC_TYPE_GET_SERIAL_VALUE = 41"
definition CTC_FUNC_TYPE_DROP_TABLE :: func_type where "CTC_FUNC_TYPE_DROP_TABLE = 42"
definition CTC_FUNC_TYPE_EXCUTE_MYSQL_DDL_SQL :: func_type where "CTC_FUNC_TYPE_EXCUTE_MYSQL_DDL_SQL = 43"
definition CTC_FUNC_TYPE_SET_OPT :: func_type where "CTC_FUNC_TYPE_SET_OPT = 44"
definition CTC_FUNC_TYPE_BROADCAST_REWRITE_SQL :: func_type where "CTC_FUNC_TYPE_BROADCAST_REWRITE_SQL = 45"
definition CTC_FUNC_TYPE_CREATE_TABLESPACE :: func_type where "CTC_FUNC_TYPE_CREATE_TABLESPACE = 46"
definition CTC_FUNC_TYPE_ALTER_TABLESPACE :: func_type where "CTC_FUNC_TYPE_ALTER_TABLESPACE = 47"
definition CTC_FUNC_TYPE_DROP_TABLESPACE :: func_type where "CTC_FUNC_TYPE_DROP_TABLESPACE = 48"
definition CTC_FUNC_TYPE_BULK_INSERT :: func_type where "CTC_FUNC_TYPE_BULK_INSERT = 49"
definition CTC_FUNC_TYPE_ANALYZE :: func_type where "CTC_FUNC_TYPE_ANALYZE = 50"
definition CTC_FUNC_TYPE_GET_MAX_SESSIONS :: func_type where "CTC_FUNC_TYPE_GET_MAX_SESSIONS = 51"
definition CTC_FUNC_LOCK_INSTANCE :: func_type where "CTC_FUNC_LOCK_INSTANCE = 52"
definition CTC_FUNC_UNLOCK_INSTANCE :: func_type where "CTC_FUNC_UNLOCK_INSTANCE = 53"
definition CTC_FUNC_CHECK_TABLE_EXIST :: func_type where "CTC_FUNC_CHECK_TABLE_EXIST = 54"
definition CTC_FUNC_SEARCH_METADATA_SWITCH :: func_type where "CTC_FUNC_SEARCH_METADATA_SWITCH = 55"
definition CTC_FUNC_QUERY_SHM_USAGE :: func_type where "CTC_FUNC_QUERY_SHM_USAGE = 56"
definition CTC_FUNC_QUERY_CLUSTER_ROLE :: func_type where "CTC_FUNC_QUERY_CLUSTER_ROLE = 57"
definition CTC_FUNC_SET_CLUSTER_ROLE_BY_CANTIAN :: func_type where "CTC_FUNC_SET_CLUSTER_ROLE_BY_CANTIAN = 58"
definition CTC_FUNC_PRE_CREATE_DB :: func_type where "CTC_FUNC_PRE_CREATE_DB = 59"
definition CTC_FUNC_TYPE_DROP_TABLESPACE_AND_USER :: func_type where "CTC_FUNC_TYPE_DROP_TABLESPACE_AND_USER = 60"
definition CTC_FUNC_DROP_DB_PRE_CHECK :: func_type where "CTC_FUNC_DROP_DB_PRE_CHECK = 61"
definition CTC_FUNC_KILL_CONNECTION :: func_type where "CTC_FUNC_KILL_CONNECTION = 62"
definition CTC_FUNC_TYPE_INVALIDATE_OBJECT :: func_type where "CTC_FUNC_TYPE_INVALIDATE_OBJECT = 63"
definition CTC_FUNC_TYPE_RECORD_SQL :: func_type where "CTC_FUNC_TYPE_RECORD_SQL = 64"
definition CTC_FUNC_TYPE_GET_PARAL_SCHEDULE :: func_type where "CTC_FUNC_TYPE_GET_PARAL_SCHEDULE = 65"
definition CTC_FUNC_TYPE_GET_INDEX_PARAL_SCHEDULE :: func_type where "CTC_FUNC_TYPE_GET_INDEX_PARAL_SCHEDULE = 66"
definition CTC_FUNC_TYPE_PQ_INDEX_READ :: func_type where "CTC_FUNC_TYPE_PQ_INDEX_READ = 67"
definition CTC_FUNC_TYPE_PQ_SET_CURSOR_RANGE :: func_type where "CTC_FUNC_TYPE_PQ_SET_CURSOR_RANGE = 68"
definition CTC_FUNC_QUERY_SQL_STATISTIC_STAT :: func_type where "CTC_FUNC_QUERY_SQL_STATISTIC_STAT = 69"
definition CTC_FUNC_TYPE_REGISTER_INSTANCE :: func_type where "CTC_FUNC_TYPE_REGISTER_INSTANCE = 70"
definition CTC_FUNC_QUERY_SHM_FILE_NUM :: func_type where "CTC_FUNC_QUERY_SHM_FILE_NUM = 71"
definition CTC_FUNC_TYPE_WAIT_CONNETOR_STARTUPED :: func_type where "CTC_FUNC_TYPE_WAIT_CONNETOR_STARTUPED = 72"
definition CTC_FUNC_TYPE_MYSQL_EXECUTE_UPDATE :: func_type where "CTC_FUNC_TYPE_MYSQL_EXECUTE_UPDATE = 73"
definition CTC_FUNC_TYPE_MYSQL_EXECUTE_SET_OPT :: func_type where "CTC_FUNC_TYPE_MYSQL_EXECUTE_SET_OPT = 74"
definition CTC_FUNC_TYPE_CLOSE_MYSQL_CONNECTION :: func_type where "CTC_FUNC_TYPE_CLOSE_MYSQL_CONNECTION = 75"
definition CTC_FUNC_TYPE_LOCK_TABLES :: func_type where "CTC_FUNC_TYPE_LOCK_TABLES = 76"
definition CTC_FUNC_TYPE_UNLOCK_TABLES :: func_type where "CTC_FUNC_TYPE_UNLOCK_TABLES = 77"
definition CTC_FUNC_TYPE_EXECUTE_REWRITE_OPEN_CONN :: func_type where "CTC_FUNC_TYPE_EXECUTE_REWRITE_OPEN_CONN = 78"
definition CTC_FUNC_TYPE_INVALIDATE_OBJECTS :: func_type where "CTC_FUNC_TYPE_INVALIDATE_OBJECTS = 79"
definition CTC_FUNC_TYPE_INVALIDATE_ALL_OBJECTS :: func_type where "CTC_FUNC_TYPE_INVALIDATE_ALL_OBJECTS = 80"
definition CTC_FUNC_TYPE_UPDATE_DDCACHE :: func_type where "CTC_FUNC_TYPE_UPDATE_DDCACHE = 81"
definition CTC_FUNC_TYPE_UPDATE_SQL_STATISTIC_STAT :: func_type where "CTC_FUNC_TYPE_UPDATE_SQL_STATISTIC_STAT = 82"
definition CTC_FUNC_TYPE_NUMBER :: func_type where "CTC_FUNC_TYPE_NUMBER = 83"

section \<open>Shared structures\<close>

definition SMALL_RECORD_SIZE :: nat where "SMALL_RECORD_SIZE = 128"
definition ERROR_MESSAGE_LEN :: nat where "ERROR_MESSAGE_LEN = 512"
definition MAX_DDL_SQL_LEN :: nat where "MAX_DDL_SQL_LEN = 63488 + 30"
definition MAX_WSR_DML_SQL_LEN :: nat where "MAX_WSR_DML_SQL_LEN = 8192 + 30"
definition CTC_MAX_KEY_NAME_LENGTH :: nat where "CTC_MAX_KEY_NAME_LENGTH = 64"
definition BIG_RECORD_SIZE :: nat where "BIG_RECORD_SIZE = CTC_BUF_LEN"
definition CTC_MAX_COLUMNS :: nat where "CTC_MAX_COLUMNS = 4096"
definition INDEX_KEY_SIZE :: nat where "INDEX_KEY_SIZE = 4096"
definition MAX_KEY_COLUMNS :: nat where "MAX_KEY_COLUMNS = 16"
definition MAX_LOB_LOCATOR_SIZE :: nat where "MAX_LOB_LOCATOR_SIZE = 4000"
definition REQUEST_SIZE :: nat where "REQUEST_SIZE = MAX_RECORD_SIZE + 2 * MAX_PREFETCH_REC_NUM + 24"

lemmas stub_consts = SMALL_RECORD_SIZE_def ERROR_MESSAGE_LEN_def MAX_DDL_SQL_LEN_def MAX_WSR_DML_SQL_LEN_def
  CTC_MAX_KEY_NAME_LENGTH_def BIG_RECORD_SIZE_def CTC_MAX_COLUMNS_def INDEX_KEY_SIZE_def MAX_KEY_COLUMNS_def
  MAX_LOB_LOCATOR_SIZE_def REQUEST_SIZE_def

text \<open>\<open>ctc_handler_t\<close>; \<open>tch_msg_buf\<close> is the message block of the session or none.\<close>

record ctc_handler =
  tch_inst_id :: nat
  tch_thd_id :: nat
  tch_part_id :: nat
  tch_subpart_id :: nat
  tch_query_id :: int
  tch_sess_addr :: nat
  tch_ctx_addr :: nat
  tch_cursor_addr :: nat
  tch_pre_sess_addr :: nat
  tch_cursor_ref :: int
  tch_bind_core :: nat
  tch_sql_command :: nat
  tch_sql_stat_start :: nat
  tch_change_data_capture :: nat
  tch_cursor_valid :: bool
  tch_is_broadcast :: bool
  tch_read_only_in_ct :: bool
  tch_msg_buf :: "nat option"

text \<open>\<open>record_info_t\<close>: the record is a buffer the other process writes to, the pointer travels.\<close>

record record_info =
  ri_record :: nat
  ri_record_len :: nat

text \<open>\<open>strncpy\<close> of a C string into an array.\<close>

definition zeros :: "nat \<Rightarrow> byte list" where
  "zeros n = replicate n 0"

definition strncpy :: "byte list \<Rightarrow> byte list \<Rightarrow> nat \<Rightarrow> byte list" where
  "strncpy dst src n = take n src @ zeros (n - length src) @ drop n dst"

definition c_string :: "byte list \<Rightarrow> byte list" where
  "c_string arr = takeWhile (\<lambda>b. b \<noteq> 0) arr"

section \<open>One request\<close>

record 'r req_shm = shm +
  sh_req :: "nat \<Rightarrow> 'r"

text \<open>The environment of a request: the message queue, the sizes of the blocks, and \<open>g_group_num\<close>.\<close>

record 'r stub_env =
  se_mq :: "('r, unit) req_shm_ext mq_env"
  se_msg_size :: nat
  se_req_size :: nat
  se_group_num :: nat

definition set_req :: "nat \<Rightarrow> ('r \<Rightarrow> 'r) \<Rightarrow> 'r req_shm \<Rightarrow> 'r req_shm" where
  "set_req b f h = h\<lparr>sh_req := (sh_req h)(b := f (sh_req h b))\<rparr>"

text \<open>
  \<open>get_one_shm_inst\<close> chooses a segment by the thread number, all segments being one memory here, and binds the
  thread to a core once.
\<close>

definition get_one_shm_inst :: "'r stub_env \<Rightarrow> ctc_handler \<Rightarrow> ctc_handler" where
  "get_one_shm_inst env tch =
     (if se_group_num env \<noteq> 0 \<and> tch_bind_core tch \<noteq> 1 then tch\<lparr>tch_bind_core := 1\<rparr> else tch)"

text \<open>
  What most of the functions share: the request is allocated and filled; \<open>reply\<close> gives the outputs and the code
  from the request and the code of the message queue; the request is freed. \<open>out\<close> are the outputs as they
  were, which is what they are when the allocation fails.
\<close>

definition call_stub ::
    "'r stub_env \<Rightarrow> func_type \<Rightarrow> nat option \<Rightarrow> ('r \<Rightarrow> 'r) \<Rightarrow> ('r \<Rightarrow> ct_errno \<Rightarrow> 'o \<times> ct_errno) \<Rightarrow> 'o \<Rightarrow> 'r req_shm \<Rightarrow>
     'r req_shm \<times> 'o \<times> ct_errno" where
  "call_stub env func_type msg_buf fill reply out h =
     (case shm_alloc h (se_req_size env) of
        (h, None) \<Rightarrow> (h, out, ERR_ALLOC_MEMORY)
      | (h, Some req) \<Rightarrow>
          (case ctc_mq_deal_func (se_mq env) (se_msg_size env) func_type REQUEST_SIZE msg_buf req (set_req req fill h) of
             (h, ret) \<Rightarrow> (case reply (sh_req h req) ret of (out, result) \<Rightarrow> (shm_free req h, out, result))))"

text \<open>
  The usual reply: the outputs, and the result of the request if it was answered.
\<close>

definition answer :: "('r \<Rightarrow> ct_errno) \<Rightarrow> ('r \<Rightarrow> ct_errno \<Rightarrow> 'o) \<Rightarrow> 'r \<Rightarrow> ct_errno \<Rightarrow> 'o \<times> ct_errno" where
  "answer res f req ret = (f req ret, if ret = CT_SUCCESS then res req else ERR_CONNECTION_FAILED)"

section \<open>Sessions and tables\<close>

record close_session_request =
  cs_tch :: ctc_handler
  cs_result :: ct_errno

record open_table_request =
  ot_table_name :: "byte list"
  ot_user_name :: "byte list"
  ot_tch :: ctc_handler
  ot_result :: ct_errno

record close_table_request =
  ct_tch :: ctc_handler
  ct_result :: ct_errno

definition ctc_open_table :: "open_table_request stub_env \<Rightarrow> ctc_handler \<Rightarrow> byte list \<Rightarrow> byte list \<Rightarrow> open_table_request req_shm \<Rightarrow>
    open_table_request req_shm \<times> ctc_handler \<times> ct_errno" where
  "ctc_open_table env tch table_name user_name =
     (let tch = get_one_shm_inst env tch
      in call_stub env CTC_FUNC_TYPE_OPEN_TABLE (tch_msg_buf tch)
           (\<lambda>_. \<lparr>ot_table_name = strncpy (zeros SMALL_RECORD_SIZE) table_name (SMALL_RECORD_SIZE - 1),
                 ot_user_name = strncpy (zeros SMALL_RECORD_SIZE) user_name (SMALL_RECORD_SIZE - 1), ot_tch = tch, ot_result = 0\<rparr>)
           (answer ot_result (\<lambda>req ret. ot_tch req)) tch)"

definition ctc_close_session :: "close_session_request stub_env \<Rightarrow> ctc_handler \<Rightarrow> close_session_request req_shm \<Rightarrow>
    close_session_request req_shm \<times> ctc_handler \<times> ct_errno" where
  "ctc_close_session env tch =
     (let tch = get_one_shm_inst env tch
      in call_stub env CTC_FUNC_TYPE_CLOSE_SESSION (tch_msg_buf tch) (\<lambda>req. req\<lparr>cs_tch := tch\<rparr>)
           (answer cs_result (\<lambda>req ret. cs_tch req)) tch)"

text \<open>No result: the code is only logged.\<close>

definition ctc_kill_session :: "close_session_request stub_env \<Rightarrow> ctc_handler \<Rightarrow> close_session_request req_shm \<Rightarrow>
    close_session_request req_shm \<times> ctc_handler" where
  "ctc_kill_session env tch h =
     (let tch = get_one_shm_inst env tch
      in case call_stub env CTC_FUNC_KILL_CONNECTION (tch_msg_buf tch) (\<lambda>req. req\<lparr>cs_tch := tch\<rparr>) (\<lambda>req ret. (tch, ret)) tch h of
           (h, tch, _) \<Rightarrow> (h, tch))"

definition ctc_close_table :: "close_table_request stub_env \<Rightarrow> ctc_handler \<Rightarrow> close_table_request req_shm \<Rightarrow>
    close_table_request req_shm \<times> ctc_handler \<times> ct_errno" where
  "ctc_close_table env tch =
     (let tch = get_one_shm_inst env tch
      in call_stub env CTC_FUNC_TYPE_CLOSE_TABLE (tch_msg_buf tch) (\<lambda>req. req\<lparr>ct_tch := tch\<rparr>)
           (answer ct_result (\<lambda>req ret. ct_tch req)) tch)"

section \<open>Row changes\<close>

record write_row_request =
  wr_record_len :: nat
  wr_record :: nat
  wr_result :: ct_errno
  wr_tch :: ctc_handler
  wr_serial_column_offset :: nat
  wr_last_insert_id :: nat
  wr_flag :: dml_flag

text \<open>\<open>part_id\<close> and \<open>subpart_id\<close> of a \<open>ctc_part_t\<close>.\<close>

type_synonym ctc_part = "nat \<times> nat"

definition MAX_BULK_INSERT_PART_ROWS :: nat where "MAX_BULK_INSERT_PART_ROWS = 128"

record bulk_write_request =
  bw_result :: ct_errno
  bw_tch :: ctc_handler
  bw_record_len :: nat
  bw_record_num :: nat
  bw_err_pos :: nat
  bw_record :: "byte list"
  bw_flag :: dml_flag
  bw_part_ids :: "ctc_part list"

record update_row_request =
  ur_tch :: ctc_handler
  ur_new_record_len :: nat
  ur_new_record :: nat
  ur_upd_cols :: "nat list"
  ur_col_num :: nat
  ur_result :: ct_errno
  ur_flag :: dml_flag

record delete_row_request =
  dr_tch :: ctc_handler
  dr_record_len :: nat
  dr_result :: ct_errno
  dr_flag :: dml_flag

record scan_records_request =
  sr_tch :: ctc_handler
  sr_num_rows :: nat
  sr_index_name :: "byte list"
  sr_result :: ct_errno

record delete_all_rows_request =
  da_tch :: ctc_handler
  da_result :: ct_errno
  da_flag :: dml_flag

definition ctc_write_row :: "write_row_request stub_env \<Rightarrow> ctc_handler \<Rightarrow> record_info \<Rightarrow> nat \<Rightarrow> nat \<Rightarrow> dml_flag \<Rightarrow> write_row_request req_shm \<Rightarrow>
    write_row_request req_shm \<times> (ctc_handler \<times> nat) \<times> ct_errno" where
  "ctc_write_row env tch record_info serial_column_offset last_insert_id flag =
     (let tch = get_one_shm_inst env tch
      in call_stub env CTC_FUNC_TYPE_WRITE_ROW (tch_msg_buf tch)
           (\<lambda>req. req\<lparr>wr_tch := tch, wr_record_len := ri_record_len record_info, wr_record := ri_record record_info,
                      wr_serial_column_offset := serial_column_offset, wr_flag := flag\<rparr>)
           (answer wr_result (\<lambda>req ret. (wr_tch req, if ret = CT_SUCCESS then wr_last_insert_id req else last_insert_id)))
           (tch, last_insert_id))"

text \<open>
  \<open>memcpy\<close> into the start of an array. A bulk write copies the records and, for a partitioned table, the
  partitions of the records; \<^const>\<open>None\<close> is a failed assertion or a copy beyond the array.
\<close>

definition overwrite :: "'e list \<Rightarrow> 'e list \<Rightarrow> 'e list" where
  "overwrite src dst = src @ drop (length src) dst"

definition ctc_bulk_write :: "bulk_write_request stub_env \<Rightarrow> ctc_handler \<Rightarrow> nat \<Rightarrow> byte list \<Rightarrow> nat \<Rightarrow> nat \<Rightarrow> dml_flag \<Rightarrow> ctc_part list option \<Rightarrow>
    bulk_write_request req_shm \<Rightarrow> (bulk_write_request req_shm \<times> (ctc_handler \<times> nat) \<times> ct_errno) option" where
  "ctc_bulk_write env tch record_len records record_num err_pos flag part_ids h =
     (let tch = get_one_shm_inst env tch
      in if \<not> record_len * record_num \<le> MAX_RECORD_SIZE then None
         else if part_ids \<noteq> None \<and> record_num > MAX_BULK_INSERT_PART_ROWS then None
         else Some (call_stub env CTC_FUNC_TYPE_BULK_INSERT (tch_msg_buf tch)
           (\<lambda>req. req\<lparr>bw_tch := tch, bw_record_len := record_len, bw_record_num := record_num, bw_flag := flag,
                      bw_record := overwrite (take (record_len * record_num) records) (bw_record req),
                      bw_part_ids := (case part_ids of None \<Rightarrow> bw_part_ids req | Some ps \<Rightarrow> overwrite (take record_num ps) (bw_part_ids req))\<rparr>)
           (answer bw_result (\<lambda>req ret.
              (bw_tch req, if ret = CT_SUCCESS \<and> bw_result req = ERR_DUPLICATE_KEY then bw_err_pos req else err_pos)))
           (tch, err_pos) h))"

definition ctc_update_row :: "update_row_request stub_env \<Rightarrow> ctc_handler \<Rightarrow> nat \<Rightarrow> nat \<Rightarrow> nat list \<Rightarrow> nat \<Rightarrow> dml_flag \<Rightarrow>
    update_row_request req_shm \<Rightarrow> (update_row_request req_shm \<times> ctc_handler \<times> ct_errno) option" where
  "ctc_update_row env tch new_record_len new_record upd_cols col_num flag h =
     (if \<not> new_record_len < BIG_RECORD_SIZE then None
      else if \<not> col_num \<le> CTC_MAX_COLUMNS then None
      else let tch = get_one_shm_inst env tch
           in Some (call_stub env CTC_FUNC_TYPE_UPDATE_ROW (tch_msg_buf tch)
             (\<lambda>req. req\<lparr>ur_tch := tch, ur_new_record_len := new_record_len, ur_col_num := col_num, ur_new_record := new_record,
                        ur_flag := flag, ur_upd_cols := overwrite (take col_num upd_cols) (ur_upd_cols req)\<rparr>)
             (answer ur_result (\<lambda>req ret. ur_tch req)) tch h))"

definition ctc_delete_row :: "delete_row_request stub_env \<Rightarrow> ctc_handler \<Rightarrow> nat \<Rightarrow> dml_flag \<Rightarrow> delete_row_request req_shm \<Rightarrow>
    (delete_row_request req_shm \<times> ctc_handler \<times> ct_errno) option" where
  "ctc_delete_row env tch record_len flag h =
     (if \<not> record_len < BIG_RECORD_SIZE then None
      else let tch = get_one_shm_inst env tch
           in Some (call_stub env CTC_FUNC_TYPE_DELETE_ROW (tch_msg_buf tch)
             (\<lambda>req. req\<lparr>dr_tch := tch, dr_record_len := record_len, dr_flag := flag\<rparr>) (answer dr_result (\<lambda>req ret. dr_tch req)) tch h))"

text \<open>
  The name of the index is copied with its terminating 0, whatever its length: an array longer than
  \<open>CTC_MAX_KEY_NAME_LENGTH\<close> is a write beyond it.
\<close>

definition ctc_scan_records :: "scan_records_request stub_env \<Rightarrow> ctc_handler \<Rightarrow> nat \<Rightarrow> byte list option \<Rightarrow> scan_records_request req_shm \<Rightarrow>
    scan_records_request req_shm \<times> (ctc_handler \<times> nat) \<times> ct_errno" where
  "ctc_scan_records env tch num_rows index_name =
     (let tch = get_one_shm_inst env tch; name = (case index_name of None \<Rightarrow> [] | Some n \<Rightarrow> n)
      in call_stub env CTC_FUNC_TYPE_SCAN_RECORDS (tch_msg_buf tch)
           (\<lambda>_. \<lparr>sr_tch = tch, sr_num_rows = 0,
                 sr_index_name = (if length name > 0 then strncpy (zeros CTC_MAX_KEY_NAME_LENGTH) name (length name + 1)
                                  else zeros CTC_MAX_KEY_NAME_LENGTH), sr_result = 0\<rparr>)
           (answer sr_result (\<lambda>req ret. (sr_tch req, if ret = CT_SUCCESS \<and> sr_result req = CT_SUCCESS then sr_num_rows req else num_rows)))
           (tch, num_rows))"

definition ctc_delete_all_rows :: "delete_all_rows_request stub_env \<Rightarrow> ctc_handler \<Rightarrow> dml_flag \<Rightarrow> delete_all_rows_request req_shm \<Rightarrow>
    delete_all_rows_request req_shm \<times> ctc_handler \<times> ct_errno" where
  "ctc_delete_all_rows env tch flag =
     (let tch = get_one_shm_inst env tch
      in call_stub env CTC_FUNC_TYPE_DELETE_ALL_ROWS (tch_msg_buf tch) (\<lambda>req. req\<lparr>da_tch := tch, da_flag := flag\<rparr>)
           (answer da_result (\<lambda>req ret. da_tch req)) tch)"

section \<open>Scans\<close>

datatype ctc_select_mode = SELECT_ORDINARY | SELECT_SKIP_LOCKED | SELECT_NOWAIT

text \<open>\<open>EXP_CURSOR_ACTION_INDEX_ONLY\<close> is the action beside those of a table scan.\<close>

datatype expected_cursor_action = Scan_action cursor_action | EXP_CURSOR_ACTION_INDEX_ONLY

record rnd_init_request =
  rn_tch :: ctc_handler
  rn_result :: ct_errno
  rn_action :: expected_cursor_action
  rn_mode :: ctc_select_mode
  rn_cond :: "nat option"

record rnd_end_request =
  re_tch :: ctc_handler
  re_result :: ct_errno

record rnd_next_request =
  rx_tch :: ctc_handler
  rx_record_len :: nat
  rx_record :: nat
  rx_result :: ct_errno

record prefetch_request =
  pf_tch :: ctc_handler
  pf_result :: ct_errno
  pf_max_row_size :: nat
  pf_records :: "byte list"
  pf_record_lens :: "nat list"
  pf_recNum :: nat
  pf_rowids :: "nat list"

record position_request =
  po_tch :: ctc_handler
  po_pos_length :: nat
  po_position :: "byte list"
  po_result :: ct_errno

record rnd_pos_request =
  rp_tch :: ctc_handler
  rp_record_len :: nat
  rp_record :: nat
  rp_pos_length :: nat
  rp_position :: "byte list"
  rp_result :: ct_errno

record index_end_request =
  ie_tch :: ctc_handler
  ie_result :: ct_errno

record free_session_cursors_request =
  fc_tch :: ctc_handler
  fc_result :: ct_errno
  fc_csize :: int
  fc_cursors :: nat

record get_index_slot_request =
  gs_tch :: ctc_handler
  gs_result :: ct_errno
  gs_index_name :: "byte list"

definition ctc_rnd_init :: "rnd_init_request stub_env \<Rightarrow> ctc_handler \<Rightarrow> expected_cursor_action \<Rightarrow> ctc_select_mode \<Rightarrow> nat option \<Rightarrow>
    rnd_init_request req_shm \<Rightarrow> rnd_init_request req_shm \<times> ctc_handler \<times> ct_errno" where
  "ctc_rnd_init env tch action mode cond =
     (let tch = get_one_shm_inst env tch
      in call_stub env CTC_FUNC_TYPE_RND_INIT (tch_msg_buf tch) (\<lambda>req. req\<lparr>rn_tch := tch, rn_action := action, rn_mode := mode, rn_cond := cond\<rparr>)
           (answer rn_result (\<lambda>req ret. rn_tch req)) tch)"

text \<open>
  The length of a record is an output of a successful request; the assertion that it is below
  \<open>BIG_RECORD_SIZE\<close> is part of the outputs, \<^const>\<open>False\<close> when it fails.
\<close>

definition fetched :: "('r \<Rightarrow> ct_errno) \<Rightarrow> ('r \<Rightarrow> nat) \<Rightarrow> record_info \<Rightarrow> 'r \<Rightarrow> ct_errno \<Rightarrow> record_info \<times> bool" where
  "fetched res len ri req ret =
     (if ret = CT_SUCCESS \<and> res req = CT_SUCCESS then (ri\<lparr>ri_record_len := len req\<rparr>, len req < BIG_RECORD_SIZE) else (ri, True))"

definition ctc_rnd_next :: "rnd_next_request stub_env \<Rightarrow> ctc_handler \<Rightarrow> record_info \<Rightarrow> rnd_next_request req_shm \<Rightarrow>
    rnd_next_request req_shm \<times> (ctc_handler \<times> record_info \<times> bool) \<times> ct_errno" where
  "ctc_rnd_next env tch record_info =
     (let tch = get_one_shm_inst env tch
      in call_stub env CTC_FUNC_TYPE_RND_NEXT (tch_msg_buf tch) (\<lambda>req. req\<lparr>rx_tch := tch, rx_record := ri_record record_info\<rparr>)
           (answer rx_result (\<lambda>req ret. (rx_tch req, fetched rx_result rx_record_len record_info req ret))) (tch, record_info, True))"

definition ctc_general_fetch :: "rnd_next_request stub_env \<Rightarrow> ctc_handler \<Rightarrow> record_info \<Rightarrow> rnd_next_request req_shm \<Rightarrow>
    rnd_next_request req_shm \<times> (ctc_handler \<times> record_info \<times> bool) \<times> ct_errno" where
  "ctc_general_fetch env tch record_info =
     (let tch = get_one_shm_inst env tch
      in call_stub env CTC_FUNC_TYPE_GENERAL_FETCH (tch_msg_buf tch) (\<lambda>req. req\<lparr>rx_tch := tch, rx_record := ri_record record_info\<rparr>)
           (answer rx_result (\<lambda>req ret. (rx_tch req, fetched rx_result rx_record_len record_info req ret))) (tch, record_info, True))"

text \<open>
  The sum of the record lengths of a batch: the counter has eight bits, the array 100 elements. \<^const>\<open>None\<close> is a
  read beyond the array or a loop without end.
\<close>

partial_function (option) sum_record_lens :: "nat \<Rightarrow> nat \<Rightarrow> nat list \<Rightarrow> nat \<Rightarrow> nat option" where
  "sum_record_lens i recNum record_lens record_len =
     (if i < recNum
      then if i < length record_lens
           then sum_record_lens ((i + 1) mod 2 ^ 8) recNum record_lens ((record_len + record_lens ! i) mod 2 ^ 32)
           else None
      else Some record_len)"

text \<open>The records, lengths and row ids copied out of the request; a copy beyond an array of the request is \<^const>\<open>None\<close>.\<close>

definition copy_batch :: "prefetch_request \<Rightarrow> batch \<Rightarrow> batch option" where
  "copy_batch req b =
     (let b = b\<lparr>bt_num := pf_recNum req\<rparr>
      in if pf_recNum req = 0 then Some b
         else case sum_record_lens 0 (pf_recNum req) (pf_record_lens req) 0 of
                None \<Rightarrow> None
              | Some record_len \<Rightarrow>
                  if record_len > length (pf_records req) \<or> pf_recNum req > length (pf_rowids req) then None
                  else Some (b\<lparr>bt_records := overwrite (take record_len (pf_records req)) (bt_records b),
                               bt_lens := overwrite (take (pf_recNum req) (pf_record_lens req)) (bt_lens b),
                               bt_rowids := overwrite (take (pf_recNum req) (pf_rowids req)) (bt_rowids b)\<rparr>))"

definition ctc_rnd_prefetch :: "prefetch_request stub_env \<Rightarrow> ctc_handler \<Rightarrow> batch \<Rightarrow> nat \<Rightarrow> prefetch_request req_shm \<Rightarrow>
    prefetch_request req_shm \<times> (ctc_handler \<times> batch option) \<times> ct_errno" where
  "ctc_rnd_prefetch env tch b max_row_size =
     (let tch = get_one_shm_inst env tch
      in call_stub env CTC_FUNC_TYPE_RND_PREFETCH (tch_msg_buf tch) (\<lambda>req. req\<lparr>pf_tch := tch, pf_max_row_size := max_row_size\<rparr>)
           (answer pf_result (\<lambda>req ret.
              (pf_tch req, if ret = CT_SUCCESS \<and> pf_result req = CT_SUCCESS then copy_batch req b else Some b))) (tch, Some b))"

text \<open>Here the batch is copied whatever the result, and the code of the message queue is handed on.\<close>

definition ctc_general_prefetch :: "prefetch_request stub_env \<Rightarrow> ctc_handler \<Rightarrow> batch \<Rightarrow> nat \<Rightarrow> prefetch_request req_shm \<Rightarrow>
    prefetch_request req_shm \<times> (ctc_handler \<times> batch option) \<times> ct_errno" where
  "ctc_general_prefetch env tch b max_row_size =
     (let tch = get_one_shm_inst env tch
      in call_stub env CTC_FUNC_TYPE_GENERAL_PREFETCH (tch_msg_buf tch) (\<lambda>req. req\<lparr>pf_tch := tch, pf_max_row_size := max_row_size\<rparr>)
           (\<lambda>req ret. ((pf_tch req, if ret = CT_SUCCESS then copy_batch req b else Some b), if ret = CT_SUCCESS then pf_result req else ret))
           (tch, Some b))"

definition ctc_rnd_end :: "rnd_end_request stub_env \<Rightarrow> ctc_handler \<Rightarrow> rnd_end_request req_shm \<Rightarrow> rnd_end_request req_shm \<times> ctc_handler \<times> ct_errno" where
  "ctc_rnd_end env tch =
     (let tch = get_one_shm_inst env tch
      in call_stub env CTC_FUNC_TYPE_RND_END (tch_msg_buf tch) (\<lambda>req. req\<lparr>re_tch := tch\<rparr>) (answer re_result (\<lambda>req ret. re_tch req)) tch)"

text \<open>The result is read from the request even if it was not answered; the handler is not copied back.\<close>

definition ctc_position :: "position_request stub_env \<Rightarrow> ctc_handler \<Rightarrow> byte list \<Rightarrow> nat \<Rightarrow> position_request req_shm \<Rightarrow>
    (position_request req_shm \<times> (ctc_handler \<times> byte list) \<times> ct_errno) option" where
  "ctc_position env tch pos pos_length h =
     (if \<not> pos_length < SMALL_RECORD_SIZE then None
      else let tch = get_one_shm_inst env tch
           in Some (call_stub env CTC_FUNC_TYPE_POSITION (tch_msg_buf tch)
             (\<lambda>req. req\<lparr>po_tch := tch, po_pos_length := pos_length, po_position := overwrite (take pos_length pos) (po_position req)\<rparr>)
             (\<lambda>req ret. ((tch, if ret = CT_SUCCESS then overwrite (take pos_length (po_position req)) pos else pos), po_result req))
             (tch, pos) h))"

definition ctc_rnd_pos :: "rnd_pos_request stub_env \<Rightarrow> ctc_handler \<Rightarrow> nat \<Rightarrow> byte list \<Rightarrow> record_info \<Rightarrow> rnd_pos_request req_shm \<Rightarrow>
    (rnd_pos_request req_shm \<times> (ctc_handler \<times> record_info \<times> bool) \<times> ct_errno) option" where
  "ctc_rnd_pos env tch pos_length pos record_info h =
     (if \<not> pos_length < SMALL_RECORD_SIZE then None
      else let tch = get_one_shm_inst env tch
           in Some (call_stub env CTC_FUNC_TYPE_RND_POS (tch_msg_buf tch)
             (\<lambda>req. req\<lparr>rp_tch := tch, rp_record := ri_record record_info, rp_pos_length := pos_length,
                        rp_position := overwrite (take pos_length pos) (zeros SMALL_RECORD_SIZE)\<rparr>)
             (answer rp_result (\<lambda>req ret. (tch, fetched rp_result rp_record_len record_info req ret))) (tch, record_info, True) h))"

definition ctc_index_end :: "index_end_request stub_env \<Rightarrow> ctc_handler \<Rightarrow> index_end_request req_shm \<Rightarrow>
    index_end_request req_shm \<times> ctc_handler \<times> ct_errno" where
  "ctc_index_end env tch =
     (let tch = get_one_shm_inst env tch
      in call_stub env CTC_FUNC_TYPE_INDEX_END (tch_msg_buf tch) (\<lambda>req. req\<lparr>ie_tch := tch\<rparr>) (answer ie_result (\<lambda>req ret. ie_tch req)) tch)"

definition ctc_free_session_cursors :: "free_session_cursors_request stub_env \<Rightarrow> ctc_handler \<Rightarrow> nat \<Rightarrow> int \<Rightarrow>
    free_session_cursors_request req_shm \<Rightarrow> free_session_cursors_request req_shm \<times> ctc_handler \<times> ct_errno" where
  "ctc_free_session_cursors env tch cursors csize =
     (let tch = get_one_shm_inst env tch
      in call_stub env CTC_FUNC_TYPE_FREE_CURSORS (tch_msg_buf tch) (\<lambda>req. req\<lparr>fc_tch := tch, fc_csize := csize, fc_cursors := cursors\<rparr>)
           (answer fc_result (\<lambda>req ret. fc_tch req)) tch)"

definition ctc_get_index_name :: "get_index_slot_request stub_env \<Rightarrow> ctc_handler \<Rightarrow> byte list \<Rightarrow> get_index_slot_request req_shm \<Rightarrow>
    get_index_slot_request req_shm \<times> (ctc_handler \<times> byte list) \<times> ct_errno" where
  "ctc_get_index_name env tch index_name =
     (let tch = get_one_shm_inst env tch
      in call_stub env CTC_FUNC_TYPE_GET_INDEX_NAME (tch_msg_buf tch)
           (\<lambda>_. \<lparr>gs_tch = tch, gs_result = 0, gs_index_name = zeros (CTC_MAX_KEY_NAME_LENGTH + 1)\<rparr>)
           (\<lambda>req ret. if ret = CT_SUCCESS
                      then ((tch, strncpy index_name (c_string (gs_index_name req)) (length (c_string (gs_index_name req)) + 1)), gs_result req)
                      else ((tch, index_name), ret)) (tch, index_name))"

section \<open>Index scans\<close>

text \<open>The bounds of a key part: a bound that is not null is the list of its bytes.\<close>

record key_info =
  ki_is_key_null :: bool
  ki_left_key :: "byte list option"
  ki_right_key :: "byte list option"

record index_key_info =
  ii_sorted :: bool
  ii_need_init :: bool
  ii_action :: expected_cursor_action
  ii_find_flag :: nat
  ii_active_index :: nat
  ii_index_name :: "byte list"
  ii_key_num :: nat
  ii_key_info :: "key_info list"
  ii_index_skip_scan :: bool

text \<open>One side of the keys of a request: the bytes of the bounds one after the other, their lengths and offsets.\<close>

record key_area =
  ka_record :: "byte list"
  ka_lens :: "nat list"
  ka_offsets :: "nat list"

record index_read_request =
  ir_sorted :: bool
  ir_need_init :: bool
  ir_record :: nat
  ir_record_len :: nat
  ir_find_flag :: nat
  ir_index_name :: "byte list"
  ir_key_num :: nat
  ir_action :: expected_cursor_action
  ir_result :: ct_errno
  ir_is_key_null :: "bool list"
  ir_left :: key_area
  ir_right :: key_area
  ir_tch :: ctc_handler
  ir_mode :: ctc_select_mode
  ir_cond :: "nat option"
  ir_is_replace :: bool
  ir_index_skip_scan :: bool

text \<open>
  The part of the loop for one side: \<open>off\<close> is \<open>left_offset\<close> or \<open>right_offset\<close>, where \<open>pLeft\<close> or \<open>pRight\<close>
  points. \<^const>\<open>None\<close> is the failed assertion.
\<close>

definition put_key :: "nat \<Rightarrow> byte list option \<Rightarrow> nat \<Rightarrow> key_area \<Rightarrow> (nat \<times> key_area) option" where
  "put_key i key off ka =
     (case key of
        Some k \<Rightarrow>
          if \<not> off + length k \<le> INDEX_KEY_SIZE then None
          else Some (off + length k,
                     ka\<lparr>ka_record := take off (ka_record ka) @ k @ drop (off + length k) (ka_record ka),
                        ka_offsets := (ka_offsets ka)[i := off], ka_lens := (ka_lens ka)[i := length k]\<rparr>)
      | None \<Rightarrow> Some (off, ka\<lparr>ka_lens := (ka_lens ka)[i := 0], ka_offsets := (ka_offsets ka)[i := 0]\<rparr>))"

fun put_keys :: "key_info list \<Rightarrow> nat \<Rightarrow> nat \<Rightarrow> nat \<Rightarrow> index_read_request \<Rightarrow> index_read_request option" where
  "put_keys [] i left_offset right_offset req = Some req"
| "put_keys (k # ks) i left_offset right_offset req =
     (let req = req\<lparr>ir_is_key_null := (ir_is_key_null req)[i := ki_is_key_null k]\<rparr>
      in case put_key i (ki_left_key k) left_offset (ir_left req) of
           None \<Rightarrow> None
         | Some (left_offset, l) \<Rightarrow>
             (case put_key i (ki_right_key k) right_offset (ir_right req) of
                None \<Rightarrow> None
              | Some (right_offset, r) \<Rightarrow> put_keys ks (i + 1) left_offset right_offset (req\<lparr>ir_left := l, ir_right := r\<rparr>)))"

text \<open>The name is copied with its terminating 0.\<close>

definition copy_index_info_to_req :: "index_key_info \<Rightarrow> index_read_request \<Rightarrow> index_read_request option" where
  "copy_index_info_to_req ii req =
     (let req = req\<lparr>ir_is_key_null := replicate MAX_KEY_COLUMNS True\<rparr>
      in case put_keys (take (ii_key_num ii) (ii_key_info ii)) 0 0 0 req of
           None \<Rightarrow> None
         | Some req \<Rightarrow>
             Some (req\<lparr>ir_need_init := ii_need_init ii, ir_find_flag := ii_find_flag ii, ir_action := ii_action ii,
                       ir_sorted := ii_sorted ii, ir_key_num := ii_key_num ii, ir_index_skip_scan := ii_index_skip_scan ii,
                       ir_index_name := overwrite (ii_index_name ii @ [0]) (ir_index_name req)\<rparr>))"

text \<open>
  \<open>ctc_index_read\<close> fails at once without index information. The request block is allocated before the keys are
  copied; a failed assertion ends the process and is \<^const>\<open>None\<close>.
\<close>

definition ctc_index_read :: "index_read_request stub_env \<Rightarrow> ctc_handler \<Rightarrow> record_info \<Rightarrow> index_key_info option \<Rightarrow> ctc_select_mode \<Rightarrow> nat option \<Rightarrow> bool \<Rightarrow>
    index_read_request req_shm \<Rightarrow> (index_read_request req_shm \<times> (ctc_handler \<times> (record_info \<times> bool) \<times> index_key_info option) \<times> ct_errno) option" where
  "ctc_index_read env tch record_info index_info mode cond is_replace h =
     (case index_info of
        None \<Rightarrow> Some (h, (tch, (record_info, True), None), ERR_GENERIC_INTERNAL_ERROR)
      | Some ii \<Rightarrow>
          let tch = get_one_shm_inst env tch
          in case shm_alloc h (se_req_size env) of
               (h, None) \<Rightarrow> Some (h, (tch, (record_info, True), Some ii), ERR_ALLOC_MEMORY)
             | (h, Some b) \<Rightarrow>
                 (case copy_index_info_to_req ii (sh_req h b) of
                    None \<Rightarrow> None
                  | Some req \<Rightarrow>
                      let req = req\<lparr>ir_tch := tch, ir_record := ri_record record_info, ir_record_len := 0, ir_mode := mode,
                                     ir_cond := cond, ir_is_replace := is_replace, ir_result := 0\<rparr>
                      in case ctc_mq_deal_func (se_mq env) (se_msg_size env) CTC_FUNC_TYPE_INDEX_READ REQUEST_SIZE (tch_msg_buf tch) b
                                (set_req b (\<lambda>_. req) h) of
                           (h, ret) \<Rightarrow>
                             let req = sh_req h b
                             in Some (shm_free b h,
                                      (ir_tch req, fetched ir_result ir_record_len record_info req ret,
                                       Some (if ret = CT_SUCCESS then ii\<lparr>ii_need_init := ir_need_init req\<rparr> else ii)),
                                      if ret = CT_SUCCESS then ir_result req else ERR_CONNECTION_FAILED)))"

text \<open>Parallel scans: a range of the index is given by Cantian as a structure.\<close>

record 'range pq_index_read_request =
  pi_need_init :: bool
  pi_record :: nat
  pi_record_len :: nat
  pi_index_name :: "byte list"
  pi_action :: expected_cursor_action
  pi_result :: ct_errno
  pi_tch :: ctc_handler
  pi_mode :: ctc_select_mode
  pi_cond :: "nat option"
  pi_is_replace :: bool
  pi_scan_range :: 'range
  pi_query_scn :: nat

record get_index_paral_schedule_request =
  gi_tch :: ctc_handler
  gi_worker_count :: int
  gi_index_name :: "byte list"
  gi_scan_range :: nat
  gi_index_paral_range :: nat
  gi_query_scn :: nat
  gi_reverse :: bool
  gi_is_index_full :: bool
  gi_result :: ct_errno

record get_paral_schedule_request =
  gp_tch :: ctc_handler
  gp_worker_count :: int
  gp_paral_range :: nat
  gp_query_scn :: nat
  gp_ssn :: nat
  gp_result :: ct_errno

record set_cursor_range_request =
  cr_tch :: ctc_handler
  cr_l_page :: nat
  cr_r_page :: nat
  cr_query_scn :: nat
  cr_ssn :: nat
  cr_result :: ct_errno

definition ctc_pq_index_read :: "'range pq_index_read_request stub_env \<Rightarrow> ctc_handler \<Rightarrow> record_info \<Rightarrow> index_key_info option \<Rightarrow> 'range \<Rightarrow>
    ctc_select_mode \<Rightarrow> nat option \<Rightarrow> bool \<Rightarrow> nat \<Rightarrow> 'range pq_index_read_request req_shm \<Rightarrow>
    'range pq_index_read_request req_shm \<times> (ctc_handler \<times> (record_info \<times> bool) \<times> index_key_info option) \<times> ct_errno" where
  "ctc_pq_index_read env tch record_info index_info scan_range mode cond is_replace query_scn h =
     (case index_info of
        None \<Rightarrow> (h, (tch, (record_info, True), None), ERR_GENERIC_INTERNAL_ERROR)
      | Some ii \<Rightarrow>
          let tch = get_one_shm_inst env tch
          in call_stub env CTC_FUNC_TYPE_PQ_INDEX_READ (tch_msg_buf tch)
               (\<lambda>_. \<lparr>pi_need_init = ii_need_init ii, pi_record = ri_record record_info, pi_record_len = 0,
                     pi_index_name = take (CTC_MAX_KEY_NAME_LENGTH + 1) (ii_index_name ii @ zeros (CTC_MAX_KEY_NAME_LENGTH + 1)),
                     pi_action = ii_action ii, pi_result = 0, pi_tch = tch, pi_mode = mode, pi_cond = cond, pi_is_replace = is_replace,
                     pi_scan_range = scan_range, pi_query_scn = query_scn\<rparr>)
               (answer pi_result (\<lambda>req ret.
                  (pi_tch req, fetched pi_result pi_record_len record_info req ret,
                   Some (if ret = CT_SUCCESS then ii\<lparr>ii_need_init := pi_need_init req\<rparr> else ii)))) (tch, (record_info, True), Some ii) h)"

text \<open>A request that is read after it was freed: \<^const>\<open>None\<close> if the block is not allocated.\<close>

definition read_req :: "nat \<Rightarrow> 'r req_shm \<Rightarrow> 'r option" where
  "read_req b h = (if b \<in> set (sh_live h) then Some (sh_req h b) else None)"

text \<open>
  Some functions free the request before they read its result: \<open>outs\<close> are the outputs, taken before the
  request is freed, \<open>res\<close> is its result, read after it, \<open>unanswered\<close> the code for a request that was not answered.
\<close>

definition call_stub_late ::
    "'r stub_env \<Rightarrow> func_type \<Rightarrow> nat option \<Rightarrow> ('r \<Rightarrow> 'r) \<Rightarrow> ('r \<Rightarrow> ct_errno \<Rightarrow> 'o) \<Rightarrow> ('r \<Rightarrow> ct_errno) \<Rightarrow> (ct_errno \<Rightarrow> ct_errno) \<Rightarrow> 'o \<Rightarrow> 'r req_shm \<Rightarrow>
     ('r req_shm \<times> 'o \<times> ct_errno) option" where
  "call_stub_late env func_type msg_buf fill outs res unanswered out h =
     (case shm_alloc h (se_req_size env) of
        (h, None) \<Rightarrow> Some (h, out, ERR_ALLOC_MEMORY)
      | (h, Some req) \<Rightarrow>
          (case ctc_mq_deal_func (se_mq env) (se_msg_size env) func_type REQUEST_SIZE msg_buf req (set_req req fill h) of
             (h, ret) \<Rightarrow>
               let out = outs (sh_req h req) ret; h = shm_free req h
               in if ret = CT_SUCCESS
                  then (case read_req req h of None \<Rightarrow> None | Some r \<Rightarrow> Some (h, out, res r))
                  else Some (h, out, unanswered ret)))"

definition ctc_get_index_paral_schedule :: "get_index_paral_schedule_request stub_env \<Rightarrow> ctc_handler \<Rightarrow> nat \<Rightarrow> int \<Rightarrow> byte list \<Rightarrow> bool \<Rightarrow> bool \<Rightarrow> nat \<Rightarrow> nat \<Rightarrow>
    get_index_paral_schedule_request req_shm \<Rightarrow> (get_index_paral_schedule_request req_shm \<times> (ctc_handler \<times> nat \<times> int) \<times> ct_errno) option" where
  "ctc_get_index_paral_schedule env tch query_scn worker_count index_name rev_order is_index_full origin_scan_range index_paral_range =
     (let tch = get_one_shm_inst env tch
      in call_stub_late env CTC_FUNC_TYPE_GET_INDEX_PARAL_SCHEDULE (tch_msg_buf tch)
           (\<lambda>_. \<lparr>gi_tch = tch, gi_worker_count = worker_count, gi_index_name = take (CTC_MAX_KEY_NAME_LENGTH + 1) index_name,
                 gi_scan_range = origin_scan_range, gi_index_paral_range = index_paral_range, gi_query_scn = query_scn,
                 gi_reverse = rev_order, gi_is_index_full = is_index_full, gi_result = 0\<rparr>)
           (\<lambda>req ret. (gi_tch req, gi_query_scn req, gi_worker_count req)) gi_result (\<lambda>ret. ret) (tch, query_scn, worker_count))"

definition ctc_pq_set_cursor_range :: "set_cursor_range_request stub_env \<Rightarrow> ctc_handler \<Rightarrow> nat \<Rightarrow> nat \<Rightarrow> nat \<Rightarrow> nat \<Rightarrow> set_cursor_range_request req_shm \<Rightarrow>
    (set_cursor_range_request req_shm \<times> ctc_handler \<times> ct_errno) option" where
  "ctc_pq_set_cursor_range env tch l_page r_page query_scn ssn =
     (let tch = get_one_shm_inst env tch
      in call_stub_late env CTC_FUNC_TYPE_PQ_SET_CURSOR_RANGE (tch_msg_buf tch)
           (\<lambda>req. req\<lparr>cr_tch := tch, cr_l_page := l_page, cr_r_page := r_page, cr_query_scn := query_scn, cr_ssn := ssn\<rparr>)
           (\<lambda>req ret. cr_tch req) cr_result (\<lambda>ret. ret) tch)"

definition ctc_get_paral_schedule :: "get_paral_schedule_request stub_env \<Rightarrow> ctc_handler \<Rightarrow> nat \<Rightarrow> nat \<Rightarrow> int \<Rightarrow> nat \<Rightarrow>
    get_paral_schedule_request req_shm \<Rightarrow> get_paral_schedule_request req_shm \<times> (ctc_handler \<times> nat \<times> nat \<times> int) \<times> ct_errno" where
  "ctc_get_paral_schedule env tch query_scn ssn worker paral_range =
     (let tch = get_one_shm_inst env tch
      in call_stub env CTC_FUNC_TYPE_GET_PARAL_SCHEDULE (tch_msg_buf tch)
           (\<lambda>_. \<lparr>gp_tch = tch, gp_worker_count = worker, gp_paral_range = paral_range, gp_query_scn = query_scn, gp_ssn = ssn, gp_result = 0\<rparr>)
           (answer gp_result (\<lambda>req ret. (gp_tch req, gp_query_scn req, gp_ssn req, gp_worker_count req))) (tch, query_scn, ssn, worker))"

section \<open>Transactions\<close>

record ctc_trx_context =
  tc_isolation_level :: int
  tc_autocommit :: nat
  tc_lock_wait_timeout :: nat
  tc_use_exclusive_lock :: bool

record trx_begin_request =
  tb_tch :: ctc_handler
  tb_result :: ct_errno
  tb_trx_context :: ctc_trx_context
  tb_is_mysql_local :: bool
  tb_begin_time :: "int \<times> int"
  tb_enable_stat :: bool

record trx_commit_request =
  tm_tch :: ctc_handler
  tm_result :: ct_errno
  tm_is_ddl_commit :: bool
  tm_csize :: int
  tm_cursors :: "nat option"
  tm_sql :: "byte list"
  tm_enable_stat :: bool

record trx_rollback_request =
  tr_tch :: ctc_handler
  tr_result :: ct_errno
  tr_csize :: int
  tr_cursors :: nat

text \<open>\<open>srv_set_savepoint_request\<close>, \<open>srv_rollback_savepoint_request\<close> and \<open>srv_release_savepoint_request\<close>.\<close>

record savepoint_request =
  sp_name :: "byte list"
  sp_tch :: ctc_handler
  sp_result :: ct_errno
  sp_csize :: int
  sp_cursors :: nat

definition ctc_trx_begin :: "trx_begin_request stub_env \<Rightarrow> ctc_handler \<Rightarrow> ctc_trx_context \<Rightarrow> bool \<Rightarrow> int \<times> int \<Rightarrow> bool \<Rightarrow> trx_begin_request req_shm \<Rightarrow>
    trx_begin_request req_shm \<times> ctc_handler \<times> ct_errno" where
  "ctc_trx_begin env tch trx_context is_mysql_local begin_time enable_stat =
     (let tch = get_one_shm_inst env tch
      in call_stub env CTC_FUNC_TYPE_TRX_BEGIN (tch_msg_buf tch)
           (\<lambda>req. req\<lparr>tb_tch := tch, tb_trx_context := trx_context, tb_is_mysql_local := is_mysql_local, tb_begin_time := begin_time,
                      tb_enable_stat := enable_stat\<rparr>)
           (answer tb_result (\<lambda>req ret. tb_tch req)) tch)"

definition ctc_statistic_begin :: "trx_begin_request stub_env \<Rightarrow> ctc_handler \<Rightarrow> int \<times> int \<Rightarrow> bool \<Rightarrow> trx_begin_request req_shm \<Rightarrow>
    trx_begin_request req_shm \<times> ctc_handler \<times> ct_errno" where
  "ctc_statistic_begin env tch begin_time enable_stat =
     (let tch = get_one_shm_inst env tch
      in call_stub env CTC_FUNC_TYPE_STATISTIC_BEGIN (tch_msg_buf tch)
           (\<lambda>req. req\<lparr>tb_tch := tch, tb_begin_time := begin_time, tb_enable_stat := enable_stat\<rparr>) (answer tb_result (\<lambda>req ret. tb_tch req)) tch)"

definition sql_array :: "byte list option \<Rightarrow> byte list" where
  "sql_array sql_str =
     (case sql_str of None \<Rightarrow> zeros MAX_WSR_DML_SQL_LEN | Some s \<Rightarrow> strncpy (zeros MAX_WSR_DML_SQL_LEN) s (MAX_WSR_DML_SQL_LEN - 1))"

text \<open>\<open>is_ddl_commit\<close> is copied from the request even if it was not answered.\<close>

definition ctc_trx_commit :: "trx_commit_request stub_env \<Rightarrow> ctc_handler \<Rightarrow> nat \<Rightarrow> int \<Rightarrow> bool \<Rightarrow> byte list option \<Rightarrow> bool \<Rightarrow> trx_commit_request req_shm \<Rightarrow>
    trx_commit_request req_shm \<times> (ctc_handler \<times> bool) \<times> ct_errno" where
  "ctc_trx_commit env tch cursors csize is_ddl_commit sql_str enable_stat =
     (let tch = get_one_shm_inst env tch
      in call_stub env CTC_FUNC_TYPE_TRX_COMMIT (tch_msg_buf tch)
           (\<lambda>_. \<lparr>tm_tch = tch, tm_result = 0, tm_is_ddl_commit = False, tm_csize = csize, tm_cursors = Some cursors,
                 tm_sql = sql_array sql_str, tm_enable_stat = enable_stat\<rparr>)
           (answer tm_result (\<lambda>req ret. (tch, tm_is_ddl_commit req))) (tch, is_ddl_commit))"

definition ctc_statistic_commit :: "trx_commit_request stub_env \<Rightarrow> ctc_handler \<Rightarrow> byte list option \<Rightarrow> bool \<Rightarrow> trx_commit_request req_shm \<Rightarrow>
    trx_commit_request req_shm \<times> ctc_handler \<times> ct_errno" where
  "ctc_statistic_commit env tch sql_str enable_stat =
     (let tch = get_one_shm_inst env tch
      in call_stub env CTC_FUNC_TYPE_STATISTIC_COMMIT (tch_msg_buf tch)
           (\<lambda>_. \<lparr>tm_tch = tch, tm_result = 0, tm_is_ddl_commit = False, tm_csize = 0, tm_cursors = None, tm_sql = sql_array sql_str,
                 tm_enable_stat = enable_stat\<rparr>)
           (answer tm_result (\<lambda>req ret. tch)) tch)"

definition ctc_trx_rollback :: "trx_rollback_request stub_env \<Rightarrow> ctc_handler \<Rightarrow> nat \<Rightarrow> int \<Rightarrow> trx_rollback_request req_shm \<Rightarrow>
    trx_rollback_request req_shm \<times> ctc_handler \<times> ct_errno" where
  "ctc_trx_rollback env tch cursors csize =
     (let tch = get_one_shm_inst env tch
      in call_stub env CTC_FUNC_TYPE_TRX_ROLLBACK (tch_msg_buf tch) (\<lambda>req. req\<lparr>tr_tch := tch, tr_csize := csize, tr_cursors := cursors\<rparr>)
           (answer tr_result (\<lambda>req ret. tch)) tch)"

definition name_array :: "byte list \<Rightarrow> byte list" where
  "name_array name = strncpy (zeros SMALL_RECORD_SIZE) name (SMALL_RECORD_SIZE - 1)"

definition ctc_srv_set_savepoint :: "savepoint_request stub_env \<Rightarrow> ctc_handler \<Rightarrow> byte list \<Rightarrow> savepoint_request req_shm \<Rightarrow>
    savepoint_request req_shm \<times> ctc_handler \<times> ct_errno" where
  "ctc_srv_set_savepoint env tch name =
     (let tch = get_one_shm_inst env tch
      in call_stub env CTC_FUNC_TYPE_SRV_SET_SAVEPOINT (tch_msg_buf tch)
           (\<lambda>req. req\<lparr>sp_name := name_array name, sp_tch := tch, sp_result := 0\<rparr>) (answer sp_result (\<lambda>req ret. tch)) tch)"

definition ctc_srv_rollback_savepoint :: "savepoint_request stub_env \<Rightarrow> ctc_handler \<Rightarrow> nat \<Rightarrow> int \<Rightarrow> byte list \<Rightarrow> savepoint_request req_shm \<Rightarrow>
    savepoint_request req_shm \<times> ctc_handler \<times> ct_errno" where
  "ctc_srv_rollback_savepoint env tch cursors csize name =
     (let tch = get_one_shm_inst env tch
      in call_stub env CTC_FUNC_TYPE_SRV_ROLLBACK_SAVEPOINT (tch_msg_buf tch)
           (\<lambda>req. req\<lparr>sp_name := name_array name, sp_tch := tch, sp_csize := csize, sp_cursors := cursors\<rparr>) (answer sp_result (\<lambda>req ret. tch)) tch)"

definition ctc_srv_release_savepoint :: "savepoint_request stub_env \<Rightarrow> ctc_handler \<Rightarrow> byte list \<Rightarrow> savepoint_request req_shm \<Rightarrow>
    savepoint_request req_shm \<times> ctc_handler \<times> ct_errno" where
  "ctc_srv_release_savepoint env tch name =
     (let tch = get_one_shm_inst env tch
      in call_stub env CTC_FUNC_TYPE_SRV_RELEASE_SAVEPOINT (tch_msg_buf tch)
           (\<lambda>req. req\<lparr>sp_name := name_array name, sp_tch := tch, sp_result := 0\<rparr>) (answer sp_result (\<lambda>req ret. tch)) tch)"

section \<open>Memory of a request\<close>

text \<open>The blocks that are allocated, and those freed while they were not, are the same.\<close>

definition keeps_memory :: "'x shm_scheme \<Rightarrow> 'x shm_scheme \<Rightarrow> bool" where
  "keeps_memory h h' \<longleftrightarrow> sh_live h' = sh_live h \<and> sh_bad_frees h' = sh_bad_frees h"

lemma keeps_memory_refl [simp]: "keeps_memory h h"
  by (simp add: keeps_memory_def)

lemma set_req_frame [simp]:
  "sh_live (set_req b f h) = sh_live h" "sh_bad_frees (set_req b f h) = sh_bad_frees h" "sh_next (set_req b f h) = sh_next h"
  "sh_ok (set_req b f h) = sh_ok h" "sh_data (set_req b f h) = sh_data h"
  "sh_req (set_req b f h) b = f (sh_req h b)"
  by (simp_all add: set_req_def)

lemma deal_frame:
  assumes "ctc_mq_deal_func env msg_size ft rs mb b h = (h', ret)"
  shows "sh_live h' = sh_live h" "sh_bad_frees h' = sh_bad_frees h" "ret = CT_SUCCESS \<Longrightarrow> send_ok env \<and> sem_wait_ok env"
  using deal_memory [of env msg_size ft rs mb b h] assms by simp_all

lemma free_head:
  "sh_live h = b # l \<Longrightarrow> sh_live (shm_free b h) = l \<and> sh_bad_frees (shm_free b h) = sh_bad_frees h"
  by (simp add: shm_free_def)

lemma alloc_fails: "shm_alloc h n = (h', None) \<Longrightarrow> keeps_memory h h'"
  by (auto dest: alloc_none simp: keeps_memory_def)

text \<open>A block that was allocated for a request and is freed behind it.\<close>

lemma alloc_deal_free:
  assumes "shm_alloc h n = (h1, Some b)" "ctc_mq_deal_func env msg_size ft rs mb b (set_req b f h1) = (h2, ret)"
  shows "keeps_memory h (shm_free b h2)" "b \<notin> set (sh_live h) \<Longrightarrow> b \<notin> set (sh_live (shm_free b h2))"
proof -
  have "sh_live h2 = b # sh_live h" "sh_bad_frees h2 = sh_bad_frees h" using deal_frame [OF assms(2)] alloc_some [OF assms(1)] by simp_all
  from free_head [OF this(1)] this(2) show "keeps_memory h (shm_free b h2)" by (simp add: keeps_memory_def)
  then show "b \<notin> set (sh_live h) \<Longrightarrow> b \<notin> set (sh_live (shm_free b h2))" by (simp add: keeps_memory_def)
qed

lemma call_stub_memory: "keeps_memory h (fst (call_stub env ft mb fill reply out h))"
  by (auto simp: call_stub_def alloc_fails alloc_deal_free split: prod.split option.split)

lemma call_stub_late_memory:
  "call_stub_late env ft mb fill outs res un out h = Some r \<Longrightarrow> keeps_memory h (fst r)"
  by (auto simp: call_stub_late_def Let_def alloc_fails alloc_deal_free split: prod.splits option.splits if_splits)

text \<open>A request that is answered and read after it was freed: the read is outside of allocated memory.\<close>

lemma fresh_block: "shm_wf h \<Longrightarrow> shm_alloc h n = (h1, Some b) \<Longrightarrow> b \<notin> set (sh_live h)"
  using alloc_some [of h n h1 b] by (auto simp: shm_wf_def)

lemma late_read_fails:
  assumes "shm_wf h" "call_stub_late env ft mb fill outs res un out h = Some (h', out', code)"
  shows "code = ERR_ALLOC_MEMORY \<or> (\<exists>ret. ret \<noteq> CT_SUCCESS \<and> code = un ret)"
proof (cases "shm_alloc h (se_req_size env)")
  case (Pair h1 r)
  show ?thesis
  proof (cases r)
    case None
    then show ?thesis using assms(2) Pair by (simp add: call_stub_late_def)
  next
    case (Some b)
    obtain h2 ret where d: "ctc_mq_deal_func (se_mq env) (se_msg_size env) ft REQUEST_SIZE mb b (set_req b fill h1) = (h2, ret)" by fastforce
    have "b \<notin> set (sh_live (shm_free b h2))"
      using alloc_deal_free(2) [OF _ d] Pair Some fresh_block [OF assms(1)] by blast
    then show ?thesis using assms(2) Pair Some d
      by (auto simp: call_stub_late_def Let_def read_req_def split: if_splits)
  qed
qed

section \<open>Answers\<close>

text \<open>
  What the callers rely on: a request that was not answered is not reported as a success. Under this law a
  success is the success of the engine on the request that was filled in.
\<close>

locale remote_reply =
  fixes reply :: "'r \<Rightarrow> ct_errno \<Rightarrow> 'o \<times> ct_errno"
  assumes unanswered: "ret \<noteq> CT_SUCCESS \<Longrightarrow> snd (reply req ret) \<noteq> CT_SUCCESS"
begin

lemma success_answered:
  assumes "call_stub env ft mb fill reply out h = (h', out', CT_SUCCESS)"
  shows "send_ok (se_mq env) \<and> sem_wait_ok (se_mq env) \<and> (\<exists>req. reply req CT_SUCCESS = (out', CT_SUCCESS))"
proof -
  obtain h1 r where al: "shm_alloc h (se_req_size env) = (h1, r)" by fastforce
  obtain b where r: "r = Some b" using assms al by (cases r) (auto simp: call_stub_def errno_defs)
  obtain h2 ret where d: "ctc_mq_deal_func (se_mq env) (se_msg_size env) ft REQUEST_SIZE mb b (set_req b fill h1) = (h2, ret)" by fastforce
  have "reply (sh_req h2 b) ret = (out', CT_SUCCESS)" using assms al r d by (auto simp: call_stub_def split: prod.splits)
  then show ?thesis using deal_frame(3) [OF d] unanswered [of ret "sh_req h2 b"] by auto
qed

end

text \<open>The engine, seen from a request type: what it makes of the request structure of a message.\<close>

definition serves :: "'r stub_env \<Rightarrow> func_type \<Rightarrow> ('r \<Rightarrow> 'r) \<Rightarrow> bool" where
  "serves env ft engine \<longleftrightarrow>
     (\<forall>m h b. cmd_type m = ft \<and> seg_buf m 0 = Some b \<longrightarrow> sh_req (answered (se_mq env) m h) b = engine (sh_req h b))"

text \<open>The message queue and the allocations of a request work.\<close>

definition connected :: "'r stub_env \<Rightarrow> 'r req_shm \<Rightarrow> bool" where
  "connected env h \<longleftrightarrow> send_ok (se_mq env) \<and> sem_wait_ok (se_mq env) \<and> sem_init_ok (se_mq env) \<and> sh_ok h (sh_next h) \<and> sh_ok h (sh_next h + 1)"

lemma sh_req_frame [simp]:
  "sh_req (shm_free c h) b = sh_req h b"
  by (simp add: shm_free_def)

lemma deal_answers:
  assumes "serves env ft engine" "send_ok (se_mq env)" "sem_wait_ok (se_mq env)" "sem_init_ok (se_mq env)" "sh_ok h (sh_next h)"
  shows "\<exists>h'. ctc_mq_deal_func (se_mq env) n ft rs mb b h = (h', CT_SUCCESS) \<and> sh_req h' b = engine (sh_req h b)"
  using assms by (cases mb) (auto simp: ctc_mq_deal_func_def Let_def serves_def shm_alloc_def)

lemma call_stub_answered:
  assumes "serves env ft engine" "connected env h"
  shows "snd (call_stub env ft mb fill reply out h) = reply (engine (fill (sh_req h (sh_next h)))) CT_SUCCESS"
proof -
  let ?b = "sh_next h"
  obtain h1 where al: "shm_alloc h (se_req_size env) = (h1, Some ?b)" "sh_next h1 = ?b + 1" "sh_ok h1 = sh_ok h" "sh_req h1 = sh_req h"
    using assms(2) by (auto simp: shm_alloc_def Let_def connected_def)
  have "\<exists>h2. ctc_mq_deal_func (se_mq env) (se_msg_size env) ft REQUEST_SIZE mb ?b (set_req ?b fill h1) = (h2, CT_SUCCESS) \<and>
      sh_req h2 ?b = engine (sh_req (set_req ?b fill h1) ?b)"
    by (rule deal_answers [OF assms(1)]) (use assms(2) al in \<open>simp_all add: connected_def\<close>)
  then show ?thesis using al by (auto simp: call_stub_def split: prod.splits)
qed


text \<open>The usual reply reports an unanswered request.\<close>

interpretation plain: remote_reply "answer res f" for res :: "'r \<Rightarrow> ct_errno" and f :: "'r \<Rightarrow> ct_errno \<Rightarrow> 'o"
  by unfold_locales (simp add: answer_def errno_defs)

interpretation handed_on: remote_reply "\<lambda>req ret. (f req ret, if ret = CT_SUCCESS then res req else ret)"
  for res :: "'r \<Rightarrow> ct_errno" and f :: "'r \<Rightarrow> ct_errno \<Rightarrow> 'o"
  by unfold_locales simp

lemma answered_result:
  "call_stub env ft mb fill (answer res f) out h = (h', out', CT_SUCCESS) \<Longrightarrow>
     send_ok (se_mq env) \<and> sem_wait_ok (se_mq env) \<and> (\<exists>req. res req = CT_SUCCESS \<and> out' = f req CT_SUCCESS)"
  using plain.success_answered [of env ft mb fill res f out h h' out'] by (auto simp: answer_def)

section \<open>Keys of an index scan\<close>

text \<open>The bytes of a bound as the engine finds them in the request.\<close>

definition key_at :: "key_area \<Rightarrow> nat \<Rightarrow> byte list" where
  "key_at ka i = take (ka_lens ka ! i) (drop (ka_offsets ka ! i) (ka_record ka))"

definition key_bytes :: "byte list option \<Rightarrow> byte list" where
  "key_bytes k = (case k of None \<Rightarrow> [] | Some b \<Rightarrow> b)"

definition area_ok :: "key_area \<Rightarrow> bool" where
  "area_ok ka \<longleftrightarrow> length (ka_record ka) = INDEX_KEY_SIZE \<and> length (ka_lens ka) = MAX_KEY_COLUMNS \<and> length (ka_offsets ka) = MAX_KEY_COLUMNS"

text \<open>One side of the loop.\<close>

fun put_side :: "byte list option list \<Rightarrow> nat \<Rightarrow> nat \<Rightarrow> key_area \<Rightarrow> key_area option" where
  "put_side [] i off ka = Some ka"
| "put_side (k # ks) i off ka = (case put_key i k off ka of None \<Rightarrow> None | Some (off, ka) \<Rightarrow> put_side ks (i + 1) off ka)"

lemma put_keys_sides:
  "put_keys ks i lo ro req = Some req' \<Longrightarrow>
     put_side (map ki_left_key ks) i lo (ir_left req) = Some (ir_left req') \<and>
     put_side (map ki_right_key ks) i ro (ir_right req) = Some (ir_right req')"
proof (induction ks arbitrary: i lo ro req)
  case (Cons k ks)
  then show ?case by (fastforce simp: Let_def split: option.splits)
qed simp

lemma put_keys_nulls:
  "put_keys ks i lo ro req = Some req' \<Longrightarrow> length (ir_is_key_null req') = length (ir_is_key_null req) \<and>
     (\<forall>j. j < i \<or> i + length ks \<le> j \<longrightarrow> ir_is_key_null req' ! j = ir_is_key_null req ! j) \<and>
     (\<forall>j < length ks. i + j < length (ir_is_key_null req) \<longrightarrow> ir_is_key_null req' ! (i + j) = ki_is_key_null (ks ! j))"
proof (induction ks arbitrary: i lo ro req)
  case (Cons k ks)
  let ?r = "req\<lparr>ir_is_key_null := (ir_is_key_null req)[i := ki_is_key_null k]\<rparr>"
  obtain l r lo' ro' where p: "put_keys ks (i + 1) lo' ro' (?r\<lparr>ir_left := l, ir_right := r\<rparr>) = Some req'"
    using Cons.prems by (auto simp: Let_def split: option.splits)
  note ih = Cons.IH [OF p]
  have "ir_is_key_null req' ! (i + j) = ki_is_key_null ((k # ks) ! j)" if "j < length (k # ks)" "i + j < length (ir_is_key_null req)" for j
  proof (cases j)
    case 0
    then show ?thesis using ih that(2) by simp
  next
    case (Suc m)
    then have "i + j = i + 1 + m" "m < length ks" using that by simp_all
    then show ?thesis using ih that(2) Suc by simp
  qed
  then show ?case using ih by auto
qed simp

lemma put_key_total: "put_key i k off ka \<noteq> None \<longleftrightarrow> off + length (key_bytes k) \<le> INDEX_KEY_SIZE \<or> k = None"
  by (auto simp: put_key_def key_bytes_def split: option.splits)

text \<open>What one step leaves: the bound at its place, everything before it as it was.\<close>

lemma put_key_step:
  assumes "put_key i k off ka = Some (off', ka')" "area_ok ka" "i < MAX_KEY_COLUMNS" "off \<le> INDEX_KEY_SIZE"
  shows "area_ok ka'" "off' = off + length (key_bytes k)" "off' \<le> INDEX_KEY_SIZE" "take off (ka_record ka') = take off (ka_record ka)"
    "\<forall>j. j \<noteq> i \<longrightarrow> ka_lens ka' ! j = ka_lens ka ! j \<and> ka_offsets ka' ! j = ka_offsets ka ! j"
    "ka_lens ka' ! i = length (key_bytes k)" "ka_offsets ka' ! i + ka_lens ka' ! i \<le> off'" "key_at ka' i = key_bytes k"
  using assms by (auto simp: put_key_def key_bytes_def area_ok_def key_at_def split: option.splits if_splits)

lemma slice_prefix:
  assumes "take off xs = take off ys" "m + n \<le> off"
  shows "take n (drop m xs) = take n (drop m ys)"
proof -
  have "take n (drop m xs) = drop m (take (m + n) xs)" "take n (drop m ys) = drop m (take (m + n) ys)" by (simp_all add: take_drop add.commute)
  moreover have "take (m + n) (take off xs) = take (m + n) (take off ys)" using assms(1) by simp
  then have "take (m + n) xs = take (m + n) ys" using assms(2) by (simp add: min_absorb1)
  ultimately show ?thesis by simp
qed

lemma key_at_prefix:
  assumes "take off (ka_record ka') = take off (ka_record ka)" "ka_lens ka' ! j = ka_lens ka ! j" "ka_offsets ka' ! j = ka_offsets ka ! j"
    "ka_offsets ka ! j + ka_lens ka ! j \<le> off"
  shows "key_at ka' j = key_at ka j"
  unfolding key_at_def assms(2,3) by (rule slice_prefix [OF assms(1,4)])

lemma put_side_keys:
  assumes "put_side ks i off ka = Some ka'" "area_ok ka" "i + length ks \<le> MAX_KEY_COLUMNS" "off \<le> INDEX_KEY_SIZE"
  shows "area_ok ka' \<and> take off (ka_record ka') = take off (ka_record ka) \<and>
    (\<forall>j < i. ka_lens ka' ! j = ka_lens ka ! j \<and> ka_offsets ka' ! j = ka_offsets ka ! j) \<and>
    (\<forall>j < length ks. key_at ka' (i + j) = key_bytes (ks ! j))"
  using assms
proof (induction ks arbitrary: i off ka)
  case (Cons k ks)
  obtain off1 ka1 where p: "put_key i k off ka = Some (off1, ka1)" and r: "put_side ks (i + 1) off1 ka1 = Some ka'"
    using Cons.prems(1) by (auto split: option.splits)
  have i: "i < MAX_KEY_COLUMNS" using Cons.prems(3) by simp
  note st = put_key_step [OF p Cons.prems(2) i Cons.prems(4)]
  have ih: "area_ok ka'" "take off1 (ka_record ka') = take off1 (ka_record ka1)"
    "\<forall>j < i + 1. ka_lens ka' ! j = ka_lens ka1 ! j \<and> ka_offsets ka' ! j = ka_offsets ka1 ! j"
    "\<forall>j < length ks. key_at ka' (i + 1 + j) = key_bytes (ks ! j)"
    using Cons.IH [OF r st(1) _ st(3)] Cons.prems(3) by simp_all
  have "key_at ka' i = key_at ka1 i" using key_at_prefix [OF ih(2)] ih(3) st(7) by simp
  then have "key_at ka' (i + j) = key_bytes ((k # ks) ! j)" if "j < length (k # ks)" for j
    using that ih(4) st(8) by (cases j) simp_all
  moreover have "take off (ka_record ka') = take off (ka_record ka)"
  proof -
    have "take off (take off1 (ka_record ka')) = take off (take off1 (ka_record ka1))" using ih(2) by simp
    then show ?thesis using st(2,4) by (simp add: min_absorb1)
  qed
  moreover have "ka_lens ka' ! j = ka_lens ka ! j \<and> ka_offsets ka' ! j = ka_offsets ka ! j" if "j < i" for j
    using that ih(3) st(5) by simp
  ultimately show ?case using ih(1) by blast
qed simp

lemma put_side_total:
  assumes "area_ok ka" "off \<le> INDEX_KEY_SIZE" "i + length ks \<le> MAX_KEY_COLUMNS"
  shows "put_side ks i off ka \<noteq> None \<longleftrightarrow> off + sum_list (map (length \<circ> key_bytes) ks) \<le> INDEX_KEY_SIZE"
  using assms
proof (induction ks arbitrary: i off ka)
  case (Cons k ks)
  show ?case
  proof (cases "put_key i k off ka")
    case None
    then show ?thesis by (auto simp: put_key_def key_bytes_def split: option.splits if_splits)
  next
    case (Some r)
    obtain off1 ka1 where r: "r = (off1, ka1)" by fastforce
    have i: "i < MAX_KEY_COLUMNS" using Cons.prems(3) by simp
    note st = put_key_step [OF Some [unfolded r] Cons.prems(1) i Cons.prems(2)]
    show ?thesis using Cons.IH [OF st(1,3)] Cons.prems(3) st(2) Some r by (simp add: add.assoc)
  qed
qed simp

lemma put_keys_total:
  "put_side (map ki_left_key ks) i lo (ir_left req) \<noteq> None \<Longrightarrow> put_side (map ki_right_key ks) i ro (ir_right req) \<noteq> None \<Longrightarrow>
     put_keys ks i lo ro req \<noteq> None"
  by (induction ks arbitrary: i lo ro req) (auto simp: Let_def split: option.splits)

text \<open>
  C33: the bounds of an index scan are packed into the request such that the engine finds each of them: for every key
  part the bytes at its offset and of its length are the bytes of the bound, on the left and on the right, and the
  null flags are those of the parts, true behind the last. The packing succeeds exactly when the bounds
  of either side have 4096 bytes at most.
\<close>

theorem index_keys_packed:
  assumes "area_ok (ir_left req)" "area_ok (ir_right req)" "ii_key_num ii \<le> length (ii_key_info ii)" "ii_key_num ii \<le> MAX_KEY_COLUMNS"
  defines "ks \<equiv> take (ii_key_num ii) (ii_key_info ii)"
  shows "(copy_index_info_to_req ii req \<noteq> None \<longleftrightarrow>
      sum_list (map (length \<circ> key_bytes \<circ> ki_left_key) ks) \<le> INDEX_KEY_SIZE \<and> sum_list (map (length \<circ> key_bytes \<circ> ki_right_key) ks) \<le> INDEX_KEY_SIZE) \<and>
    (\<forall>req'. copy_index_info_to_req ii req = Some req' \<longrightarrow>
      (\<forall>j < ii_key_num ii. key_at (ir_left req') j = key_bytes (ki_left_key (ii_key_info ii ! j)) \<and>
         key_at (ir_right req') j = key_bytes (ki_right_key (ii_key_info ii ! j)) \<and>
         ir_is_key_null req' ! j = ki_is_key_null (ii_key_info ii ! j)) \<and>
      (\<forall>j < MAX_KEY_COLUMNS. ii_key_num ii \<le> j \<longrightarrow> ir_is_key_null req' ! j))"
proof -
  let ?r = "req\<lparr>ir_is_key_null := replicate MAX_KEY_COLUMNS True\<rparr>"
  have len: "length ks = ii_key_num ii" using assms(3) by (simp add: ks_def)
  have tot: "copy_index_info_to_req ii req \<noteq> None \<longleftrightarrow> put_keys ks 0 0 0 ?r \<noteq> None"
    by (simp add: copy_index_info_to_req_def ks_def split: option.splits)
  have sides: "put_side (map ki_left_key ks) 0 0 (ir_left req) \<noteq> None \<longleftrightarrow> sum_list (map (length \<circ> key_bytes \<circ> ki_left_key) ks) \<le> INDEX_KEY_SIZE"
    "put_side (map ki_right_key ks) 0 0 (ir_right req) \<noteq> None \<longleftrightarrow> sum_list (map (length \<circ> key_bytes \<circ> ki_right_key) ks) \<le> INDEX_KEY_SIZE"
    using put_side_total [of "ir_left req" 0 0 "map ki_left_key ks"] put_side_total [of "ir_right req" 0 0 "map ki_right_key ks"] assms(1,2,4) len
    by (simp_all add: comp_assoc)
  have "put_keys ks 0 0 0 ?r \<noteq> None \<longleftrightarrow> put_side (map ki_left_key ks) 0 0 (ir_left req) \<noteq> None \<and> put_side (map ki_right_key ks) 0 0 (ir_right req) \<noteq> None"
    using put_keys_sides [of ks 0 0 0 ?r] put_keys_total [of ks 0 0 ?r 0] by fastforce
  moreover have "(\<forall>j < ii_key_num ii. key_at (ir_left req') j = key_bytes (ki_left_key (ii_key_info ii ! j)) \<and>
         key_at (ir_right req') j = key_bytes (ki_right_key (ii_key_info ii ! j)) \<and>
         ir_is_key_null req' ! j = ki_is_key_null (ii_key_info ii ! j)) \<and>
      (\<forall>j < MAX_KEY_COLUMNS. ii_key_num ii \<le> j \<longrightarrow> ir_is_key_null req' ! j)" if c: "copy_index_info_to_req ii req = Some req'" for req'
  proof -
    obtain r1 where p: "put_keys ks 0 0 0 ?r = Some r1" and e: "ir_left req' = ir_left r1" "ir_right req' = ir_right r1" "ir_is_key_null req' = ir_is_key_null r1"
      using c by (auto simp: copy_index_info_to_req_def ks_def split: option.splits)
    note s = put_keys_sides [OF p]
    have l: "\<forall>j < length ks. key_at (ir_left r1) j = key_bytes (ki_left_key (ks ! j))"
      using put_side_keys [of "map ki_left_key ks" 0 0 "ir_left req" "ir_left r1"] s assms(1,4) len by simp
    have r: "\<forall>j < length ks. key_at (ir_right r1) j = key_bytes (ki_right_key (ks ! j))"
      using put_side_keys [of "map ki_right_key ks" 0 0 "ir_right req" "ir_right r1"] s assms(2,4) len by simp
    have n: "(\<forall>j. length ks \<le> j \<longrightarrow> ir_is_key_null r1 ! j = replicate MAX_KEY_COLUMNS True ! j) \<and>
        (\<forall>j < length ks. j < MAX_KEY_COLUMNS \<longrightarrow> ir_is_key_null r1 ! j = ki_is_key_null (ks ! j))"
      using put_keys_nulls [OF p] by simp
    have nth: "\<forall>j < ii_key_num ii. ks ! j = ii_key_info ii ! j" by (simp add: ks_def)
    show ?thesis using l r n e len nth assms(4) by auto
  qed
  ultimately show ?thesis using tot sides by blast
qed

section \<open>Batches\<close>

lemma sum_record_lens_total:
  assumes "recNum \<le> length lens" "length lens < 256" "i \<le> recNum"
  shows "sum_record_lens i recNum lens acc = Some (if i = recNum then acc else (acc + sum_list (take (recNum - i) (drop i lens))) mod 2 ^ 32)"
  using assms(3)
proof (induction "recNum - i" arbitrary: i acc)
  case 0
  then show ?case by (simp add: sum_record_lens.simps [of i])
next
  case (Suc n)
  then have i: "i < recNum" "i + 1 \<le> recNum" "i < length lens" "(i + 1) mod 2 ^ 8 = i + 1" using assms by simp_all
  have s: "sum_list (take (recNum - i) (drop i lens)) = lens ! i + sum_list (take (recNum - (i + 1)) (drop (i + 1) lens))"
    using i by (simp add: Cons_nth_drop_Suc [symmetric] Suc_diff_Suc [symmetric])
  have "sum_record_lens i recNum lens acc = sum_record_lens (i + 1) recNum lens ((acc + lens ! i) mod 2 ^ 32)"
    using i by (simp add: sum_record_lens.simps [of i])
  also have "\<dots> = Some ((acc + sum_list (take (recNum - i) (drop i lens))) mod 2 ^ 32)"
    using Suc.hyps(1) [of "i + 1" "(acc + lens ! i) mod 2 ^ 32"] Suc.hyps(2) i s by (auto simp: mod_add_left_eq add.assoc)
  finally show ?case using i by simp
qed


text \<open>The arrays of a prefetch request.\<close>

definition prefetch_arrays :: "prefetch_request \<Rightarrow> bool" where
  "prefetch_arrays r \<longleftrightarrow> length (pf_records r) = MAX_RECORD_SIZE \<and> length (pf_record_lens r) = MAX_PREFETCH_REC_NUM \<and>
     length (pf_rowids r) = MAX_PREFETCH_REC_NUM"

lemma holds_batch_sum: "holds_batch rows buf lens ids \<Longrightarrow> sum_list (take (length rows) lens) = batch_size rows"
  by (simp add: holds_batch_def batch_size_def length_concat comp_def)

lemma copy_batch_holds:
  assumes "prefetch_arrays r" "holds_batch rows (pf_records r) (pf_record_lens r) (pf_rowids r)" "pf_recNum r = length rows" "rows \<noteq> []"
    "length rows \<le> MAX_PREFETCH_REC_NUM"
  shows "\<exists>b'. copy_batch r b = Some b' \<and> bt_num b' = length rows \<and> holds_batch rows (bt_records b') (bt_lens b') (bt_rowids b')"
proof -
  let ?n = "length rows"
  have sz: "batch_size rows \<le> MAX_RECORD_SIZE"
    using assms(1,2) by (auto simp: holds_batch_def prefetch_arrays_def batch_size_def)
  then have m: "batch_size rows mod 2 ^ 32 = batch_size rows" by (simp add: scan_consts)
  have s: "sum_record_lens 0 ?n (pf_record_lens r) 0 = Some (batch_size rows)"
    using sum_record_lens_total [of ?n "pf_record_lens r" 0 0] assms(1,4,5) holds_batch_sum [OF assms(2)] m
    by (simp add: prefetch_arrays_def scan_consts)
  obtain pad where pad: "pf_records r = concat (map fst rows) @ pad" using assms(2) by (auto simp: holds_batch_def)
  have "take (batch_size rows) (pf_records r) = concat (map fst rows)" by (simp add: pad batch_size_def)
  moreover have "length (take ?n (pf_record_lens r)) = ?n" "length (take ?n (pf_rowids r)) = ?n" using assms(1,5) by (simp_all add: prefetch_arrays_def)
  ultimately show ?thesis using s assms sz by (auto simp: copy_batch_def prefetch_arrays_def Let_def holds_batch_def overwrite_def)
qed


section \<open>Names\<close>

lemma strncpy_length: "length dst = n + 1 \<Longrightarrow> length (strncpy dst src n) = n + 1"
  by (simp add: strncpy_def zeros_def)

lemma takeWhile_take: "(\<forall>b \<in> set xs. P b) \<Longrightarrow> takeWhile P (take n xs @ ys) = take n xs @ takeWhile P ys"
  by (rule takeWhile_append2) (meson in_set_takeD)

lemma c_string_strncpy:
  assumes "0 \<notin> set src" "n < m"
  shows "c_string (strncpy (zeros m) src n) = take n src"
proof -
  have z: "takeWhile (\<lambda>b. b \<noteq> 0) (zeros i @ zeros j) = []" for i j :: nat
    by (cases i; cases j) (simp_all add: zeros_def)
  have "drop n (zeros m) = zeros (m - n)" by (simp add: zeros_def)
  then show ?thesis using assms(1) z unfolding c_string_def strncpy_def
    by (subst takeWhile_take) auto
qed

text \<open>
  the names of a request are C strings of 127 bytes at most: a shorter name arrives as it is, a longer one is cut.
  The name of an index to count is the exception: it is copied with its terminating 0 into 64 bytes, and a name
  of 64 bytes or more is written beyond the array.
\<close>

lemma names_terminated:
  assumes "0 \<notin> set name"
  shows "length (name_array name) = SMALL_RECORD_SIZE \<and> c_string (name_array name) = take (SMALL_RECORD_SIZE - 1) name \<and>
    (name \<noteq> [] \<longrightarrow> (length (strncpy (zeros CTC_MAX_KEY_NAME_LENGTH) name (length name + 1)) = CTC_MAX_KEY_NAME_LENGTH \<longleftrightarrow>
       length name < CTC_MAX_KEY_NAME_LENGTH))"
  using c_string_strncpy [OF assms, of "SMALL_RECORD_SIZE - 1" SMALL_RECORD_SIZE]
  by (auto simp: name_array_def strncpy_def zeros_def stub_consts)

section \<open>Concrete requests\<close>

definition shm1 :: "'r \<Rightarrow> 'r req_shm" where
  "shm1 r = \<lparr>sh_next = 5, sh_ok = (\<lambda>_. True), sh_live = [3], sh_data = (\<lambda>_. []), sh_bad_frees = [], sh_req = (\<lambda>_. r)\<rparr>"

text \<open>A process that answers requests of one type by a function on the request.\<close>

definition engine_env :: "func_type \<Rightarrow> ('r \<Rightarrow> 'r) \<Rightarrow> 'r stub_env" where
  "engine_env ft engine =
     \<lparr>se_mq = \<lparr>sem_init_ok = True, send_ok = True, sem_wait_ok = True,
        serve = (\<lambda>m h. case seg_buf m 0 of Some b \<Rightarrow> if cmd_type m = ft then set_req b engine h else h | None \<Rightarrow> h)\<rparr>,
      se_msg_size = 100, se_req_size = 100, se_group_num = 0\<rparr>"

lemma engine_serves: "serves (engine_env ft engine) ft engine" "connected (engine_env ft engine) (shm1 r)"
  by (simp_all add: serves_def connected_def engine_env_def answered_def shm1_def)

lemma shm1_wf: "shm_wf (shm1 r)"
  by (simp add: shm_wf_def shm1_def)

definition index_info0 :: index_key_info where
  "index_info0 = \<lparr>ii_sorted = True, ii_need_init = True, ii_action = EXP_CURSOR_ACTION_INDEX_ONLY, ii_find_flag = 0, ii_active_index = 0,
     ii_index_name = [65], ii_key_num = 3,
     ii_key_info = [\<lparr>ki_is_key_null = False, ki_left_key = Some [1, 2], ki_right_key = Some [1, 2]\<rparr>,
                    \<lparr>ki_is_key_null = True, ki_left_key = None, ki_right_key = None\<rparr>,
                    \<lparr>ki_is_key_null = False, ki_left_key = Some [7, 8, 9], ki_right_key = None\<rparr>], ii_index_skip_scan = False\<rparr>"

definition area0 :: key_area where
  "area0 = \<lparr>ka_record = replicate INDEX_KEY_SIZE 0, ka_lens = replicate MAX_KEY_COLUMNS 0, ka_offsets = replicate MAX_KEY_COLUMNS 0\<rparr>"

theorem index_keys_packed_witness:
  "\<exists>req req'. copy_index_info_to_req index_info0 req = Some req' \<and> key_at (ir_left req') 2 = [7, 8, 9] \<and> ir_is_key_null req' ! 1 \<and>
     ir_is_key_null req' ! 15"
proof -
  let ?req = "(undefined :: index_read_request)\<lparr>ir_left := area0, ir_right := area0\<rparr>"
  have a: "area_ok area0" by (simp add: area_ok_def area0_def)
  have n: "ii_key_num index_info0 \<le> length (ii_key_info index_info0)" "ii_key_num index_info0 \<le> MAX_KEY_COLUMNS"
    by (simp_all add: index_info0_def stub_consts)
  note k = index_keys_packed [of ?req index_info0, simplified, OF a n]
  have "copy_index_info_to_req index_info0 ?req \<noteq> None"
    using k by (simp add: index_info0_def key_bytes_def stub_consts numeral_3_eq_3)
  then obtain req' where r: "copy_index_info_to_req index_info0 ?req = Some req'" by blast
  then have "(\<forall>j < ii_key_num index_info0. key_at (ir_left req') j = key_bytes (ki_left_key (ii_key_info index_info0 ! j)) \<and>
         ir_is_key_null req' ! j = ki_is_key_null (ii_key_info index_info0 ! j)) \<and>
      (\<forall>j < MAX_KEY_COLUMNS. ii_key_num index_info0 \<le> j \<longrightarrow> ir_is_key_null req' ! j)" using k by simp
  then have "key_at (ir_left req') 2 = [7, 8, 9]" "ir_is_key_null req' ! 1" "ir_is_key_null req' ! 15"
    by (simp_all add: index_info0_def key_bytes_def stub_consts)
  then show ?thesis using r by blast
qed


definition tch0 :: ctc_handler where
  "tch0 = \<lparr>tch_inst_id = 1, tch_thd_id = 7, tch_part_id = 0, tch_subpart_id = 0, tch_query_id = 0, tch_sess_addr = 0, tch_ctx_addr = 0,
     tch_cursor_addr = 0, tch_pre_sess_addr = 0, tch_cursor_ref = 0, tch_bind_core = 0, tch_sql_command = 0, tch_sql_stat_start = 0,
     tch_change_data_capture = 0, tch_cursor_valid = True, tch_is_broadcast = False, tch_read_only_in_ct = False, tch_msg_buf = None\<rparr>"

definition batch0 :: batch where
  "batch0 = \<lparr>bt_records = [], bt_lens = [], bt_num = 0, bt_rowids = []\<rparr>"

definition prefetch0 :: prefetch_request where
  "prefetch0 = \<lparr>pf_tch = tch0, pf_result = 0, pf_max_row_size = 0, pf_records = replicate MAX_RECORD_SIZE 0,
     pf_record_lens = replicate MAX_PREFETCH_REC_NUM 0, pf_recNum = 0, pf_rowids = replicate MAX_PREFETCH_REC_NUM 0\<rparr>"

definition two_rows :: "prefetch_request \<Rightarrow> prefetch_request" where
  "two_rows r = r\<lparr>pf_recNum := 2, pf_records := overwrite [1, 2, 3] (pf_records r), pf_record_lens := overwrite [1, 2] (pf_record_lens r),
     pf_rowids := overwrite [10, 20] (pf_rowids r)\<rparr>"


lemma names_terminated_witness:
  "c_string (name_array [65, 66]) = [65, 66] \<and> length (name_array [65, 66]) = 128 \<and>
   length (strncpy (zeros CTC_MAX_KEY_NAME_LENGTH) (replicate 64 65) (64 + 1)) \<noteq> CTC_MAX_KEY_NAME_LENGTH"
  using names_terminated [of "[65, 66]"] names_terminated [of "replicate 64 65"] by (simp add: stub_consts)

end
