(* ===== verification/CTC_Command.thy ===== *)
theory CTC_Command
  imports CTC_Stub
begin

text \<open>
  The statements of the server as the connector tells them apart (ctc_ddl_rewriter_plugin.cc, \<open>ddl_cmds\<close>,
  \<open>is_ddl_sql_cmd\<close>, \<open>is_dcl_sql_cmd\<close>). A command of MySQL's enumeration \<open>enum_sql_command\<close> is its name; its
  number belongs to MySQL and is a parameter where it is used. A row of the table says whether the statement needs a current
  database and which function looks at it before it is broadcast.
\<close>

type_synonym sql_command = string

datatype pre_func =
    ctc_check_dcl | ctc_check_alter_user | ctc_check_set_password | ctc_check_ddl | ctc_read_only_ddl | ctc_check_set_opt
  | ctc_lock_tables_ddl | ctc_unlock_tables_ddl | ctc_check_flush | ctc_check_ddl_engine | ctc_check_unspport_ddl

type_synonym ddl_broadcast_cmd = "bool \<times> pre_func option"

definition ddl_cmds :: "(sql_command \<times> ddl_broadcast_cmd) list" where
  "ddl_cmds = [
     (''SQLCOM_GRANT'', (True, Some ctc_check_dcl)),
     (''SQLCOM_REVOKE'', (False, Some ctc_check_dcl)),
     (''SQLCOM_CREATE_USER'', (False, Some ctc_check_dcl)),
     (''SQLCOM_DROP_USER'', (False, Some ctc_check_dcl)),
     (''SQLCOM_RENAME_USER'', (False, Some ctc_check_dcl)),
     (''SQLCOM_REVOKE_ALL'', (False, Some ctc_check_dcl)),
     (''SQLCOM_ALTER_USER'', (False, Some ctc_check_alter_user)),
     (''SQLCOM_ALTER_USER_DEFAULT_ROLE'', (False, Some ctc_check_dcl)),
     (''SQLCOM_CREATE_ROLE'', (False, Some ctc_check_dcl)),
     (''SQLCOM_DROP_ROLE'', (False, Some ctc_check_dcl)),
     (''SQLCOM_SET_ROLE'', (False, Some ctc_check_dcl)),
     (''SQLCOM_GRANT_ROLE'', (False, Some ctc_check_dcl)),
     (''SQLCOM_REVOKE_ROLE'', (False, Some ctc_check_dcl)),
     (''SQLCOM_SET_PASSWORD'', (False, Some ctc_check_set_password)),
     (''SQLCOM_PREPARE'', (False, Some ctc_check_ddl)),
     (''SQLCOM_EXECUTE'', (False, Some ctc_check_ddl)),
     (''SQLCOM_CREATE_PROCEDURE'', (True, Some ctc_read_only_ddl)),
     (''SQLCOM_DROP_PROCEDURE'', (True, Some ctc_read_only_ddl)),
     (''SQLCOM_ALTER_PROCEDURE'', (True, Some ctc_read_only_ddl)),
     (''SQLCOM_ALTER_FUNCTION'', (True, Some ctc_read_only_ddl)),
     (''SQLCOM_CREATE_SPFUNCTION'', (True, Some ctc_read_only_ddl)),
     (''SQLCOM_DROP_FUNCTION'', (True, Some ctc_read_only_ddl)),
     (''SQLCOM_CREATE_VIEW'', (True, Some ctc_read_only_ddl)),
     (''SQLCOM_DROP_VIEW'', (True, Some ctc_read_only_ddl)),
     (''SQLCOM_CREATE_TRIGGER'', (True, Some ctc_read_only_ddl)),
     (''SQLCOM_DROP_TRIGGER'', (True, Some ctc_read_only_ddl)),
     (''SQLCOM_SET_OPTION'', (True, Some ctc_check_set_opt)),
     (''SQLCOM_LOCK_TABLES'', (True, Some ctc_lock_tables_ddl)),
     (''SQLCOM_UNLOCK_TABLES'', (True, Some ctc_unlock_tables_ddl)),
     (''SQLCOM_LOCK_INSTANCE'', (False, None)),
     (''SQLCOM_UNLOCK_INSTANCE'', (False, None)),
     (''SQLCOM_ANALYZE'', (True, None)),
     (''SQLCOM_FLUSH'', (False, Some ctc_check_flush)),
     (''SQLCOM_CREATE_TABLE'', (False, Some ctc_check_ddl_engine)),
     (''SQLCOM_ALTER_TABLE'', (False, Some ctc_check_ddl_engine)),
     (''SQLCOM_CREATE_INDEX'', (False, Some ctc_check_ddl)),
     (''SQLCOM_DROP_INDEX'', (False, Some ctc_check_ddl)),
     (''SQLCOM_REPAIR'', (False, Some ctc_check_ddl)),
     (''SQLCOM_OPTIMIZE'', (False, Some ctc_check_ddl)),
     (''SQLCOM_CHECK'', (False, Some ctc_check_ddl)),
     (''SQLCOM_RENAME_TABLE'', (False, Some ctc_check_ddl)),
     (''SQLCOM_ALTER_TABLESPACE'', (False, Some ctc_check_ddl_engine)),
     (''SQLCOM_DROP_TABLE'', (False, Some ctc_check_ddl_engine)),
     (''SQLCOM_CHANGE_DB'', (False, Some ctc_check_ddl)),
     (''SQLCOM_CREATE_DB'', (False, Some ctc_check_ddl)),
     (''SQLCOM_DROP_DB'', (False, Some ctc_check_ddl_engine)),
     (''SQLCOM_ALTER_DB'', (False, None)),
     (''SQLCOM_CREATE_EVENT'', (False, Some ctc_check_unspport_ddl)),
     (''SQLCOM_ALTER_EVENT'', (False, Some ctc_check_unspport_ddl)),
     (''SQLCOM_DROP_EVENT'', (False, Some ctc_check_unspport_ddl)),
     (''SQLCOM_CREATE_SERVER'', (False, Some ctc_check_unspport_ddl)),
     (''SQLCOM_DROP_SERVER'', (False, Some ctc_check_unspport_ddl)),
     (''SQLCOM_ALTER_SERVER'', (False, Some ctc_check_unspport_ddl)),
     (''SQLCOM_ALTER_INSTANCE'', (False, Some ctc_check_unspport_ddl)),
     (''SQLCOM_IMPORT'', (False, Some ctc_check_unspport_ddl)),
     (''SQLCOM_CREATE_SRS'', (False, Some ctc_check_unspport_ddl)),
     (''SQLCOM_DROP_SRS'', (False, Some ctc_check_unspport_ddl)),
     (''SQLCOM_CREATE_RESOURCE_GROUP'', (False, Some ctc_check_unspport_ddl)),
     (''SQLCOM_ALTER_RESOURCE_GROUP'', (False, Some ctc_check_unspport_ddl)),
     (''SQLCOM_DROP_RESOURCE_GROUP'', (False, Some ctc_check_unspport_ddl)),
     (''SQLCOM_SET_RESOURCE_GROUP'', (False, Some ctc_check_unspport_ddl)),
     (''SQLCOM_XA_START'', (False, Some ctc_check_unspport_ddl)),
     (''SQLCOM_XA_END'', (False, Some ctc_check_unspport_ddl)),
     (''SQLCOM_XA_PREPARE'', (False, Some ctc_check_unspport_ddl)),
     (''SQLCOM_XA_COMMIT'', (False, Some ctc_check_unspport_ddl)),
     (''SQLCOM_XA_ROLLBACK'', (False, Some ctc_check_unspport_ddl)),
     (''SQLCOM_XA_RECOVER'', (False, Some ctc_check_unspport_ddl)),
     (''SQLCOM_HA_OPEN'', (False, Some ctc_check_ddl)),
     (''SQLCOM_HA_CLOSE'', (False, Some ctc_check_ddl)),
     (''SQLCOM_HA_READ'', (False, Some ctc_check_ddl))]"

definition is_ddl_sql_cmd :: "sql_command \<Rightarrow> bool" where
  "is_ddl_sql_cmd sql_cmd \<longleftrightarrow> sql_cmd \<in> set (map fst ddl_cmds)"

definition is_dcl_sql_cmd :: "sql_command \<Rightarrow> bool" where
  "is_dcl_sql_cmd sql_cmd \<longleftrightarrow> sql_cmd \<in> {''SQLCOM_GRANT'', ''SQLCOM_REVOKE'', ''SQLCOM_CREATE_USER'', ''SQLCOM_DROP_USER'', ''SQLCOM_RENAME_USER'',
     ''SQLCOM_REVOKE_ALL'', ''SQLCOM_ALTER_USER'', ''SQLCOM_ALTER_USER_DEFAULT_ROLE'', ''SQLCOM_CREATE_ROLE'', ''SQLCOM_DROP_ROLE'',
     ''SQLCOM_SET_ROLE'', ''SQLCOM_GRANT_ROLE'', ''SQLCOM_REVOKE_ROLE''}"

lemma dcl_is_ddl: "is_dcl_sql_cmd c \<Longrightarrow> is_ddl_sql_cmd c"
  by (auto simp: is_dcl_sql_cmd_def is_ddl_sql_cmd_def ddl_cmds_def)

end
