(* ===== verification/CTC_Ddl_Stub.thy ===== *)
theory CTC_Ddl_Stub
  imports CTC_Stub
begin

text \<open>
  Requests of the data definition and of the administration (ctc_srv_mq_stub.cc, srv_mq_msg.h), and those that are
  sent in several segments. A structure that is sent as bytes has a layout in memory, which is the compiler's:
  \<open>layout\<close> is its size, its bytes and how they are read.
\<close>

section \<open>Data definition\<close>

record lock_table_info =
  li_db_name :: "byte list"
  li_table_name :: "byte list"
  li_user_name :: "byte list"
  li_user_ip :: "byte list"
  li_sql_type :: int
  li_mdl_namespace :: int

record lock_table_request =
  lt_db_name :: "byte list"
  lt_lock_info :: lock_table_info
  lt_tch :: ctc_handler
  lt_result :: ct_errno
  lt_mysql_inst_id :: nat
  lt_error_code :: int
  lt_error_message :: "byte list"

record unlock_tables_request =
  ut_tch :: ctc_handler
  ut_result :: ct_errno
  ut_mysql_inst_id :: nat
  ut_lock_info :: lock_table_info

record db_infos =
  di_name :: "byte list"
  di_datafile_size :: nat
  di_datafile_autoextend :: bool
  di_datafile_extend_size :: nat

record pre_create_db_request =
  pc_tch :: ctc_handler
  pc_sql_str :: "byte list"
  pc_db_name :: "byte list"
  pc_datafile_size :: nat
  pc_datafile_autoextend :: bool
  pc_datafile_extend_size :: nat
  pc_error_code :: int
  pc_error_message :: "byte list"
  pc_result :: ct_errno

record drop_tablespace_and_user_request =
  dt_tch :: ctc_handler
  dt_db_name :: "byte list"
  dt_sql_str :: "byte list"
  dt_user_name :: "byte list"
  dt_user_ip :: "byte list"
  dt_error_code :: int
  dt_error_message :: "byte list"
  dt_result :: ct_errno

record drop_db_pre_check_request =
  dp_tch :: ctc_handler
  dp_db_name :: "byte list"
  dp_result :: ct_errno
  dp_error_code :: int
  dp_error_message :: "byte list"

text \<open>The code and the message are copied if there is a message.\<close>

definition copy_error :: "int \<Rightarrow> byte list \<Rightarrow> int \<times> byte list \<Rightarrow> int \<times> byte list" where
  "copy_error code msg out =
     (if length (c_string msg) > 0 then (code, strncpy (snd out) (c_string msg) ERROR_MESSAGE_LEN) else out)"

definition ddl_sql_array :: "byte list \<Rightarrow> byte list" where
  "ddl_sql_array s = strncpy (zeros MAX_DDL_SQL_LEN) s (MAX_DDL_SQL_LEN - 1)"

definition ctc_drop_tablespace_and_user :: "drop_tablespace_and_user_request stub_env \<Rightarrow> ctc_handler \<Rightarrow> byte list \<Rightarrow> byte list \<Rightarrow> byte list \<Rightarrow> byte list \<Rightarrow>
    int \<times> byte list \<Rightarrow> drop_tablespace_and_user_request req_shm \<Rightarrow>
    (drop_tablespace_and_user_request req_shm \<times> (ctc_handler \<times> int \<times> byte list) \<times> ct_errno) option" where
  "ctc_drop_tablespace_and_user env tch db_name sql_str user_name user_ip err =
     (let tch = get_one_shm_inst env tch
      in call_stub_late env CTC_FUNC_TYPE_DROP_TABLESPACE_AND_USER (tch_msg_buf tch)
           (\<lambda>_. \<lparr>dt_tch = tch, dt_db_name = name_array db_name, dt_sql_str = ddl_sql_array sql_str, dt_user_name = name_array user_name,
                 dt_user_ip = name_array user_ip, dt_error_code = 0, dt_error_message = zeros ERROR_MESSAGE_LEN, dt_result = 0\<rparr>)
           (\<lambda>req ret. (dt_tch req, copy_error (dt_error_code req) (dt_error_message req) err)) dt_result (\<lambda>_. ERR_CONNECTION_FAILED) (tch, err))"

definition ctc_drop_db_pre_check :: "drop_db_pre_check_request stub_env \<Rightarrow> ctc_handler \<Rightarrow> byte list \<Rightarrow> int \<times> byte list \<Rightarrow> drop_db_pre_check_request req_shm \<Rightarrow>
    drop_db_pre_check_request req_shm \<times> (ctc_handler \<times> int \<times> byte list) \<times> ct_errno" where
  "ctc_drop_db_pre_check env tch db_name err =
     (let tch = get_one_shm_inst env tch
      in call_stub env CTC_FUNC_DROP_DB_PRE_CHECK (tch_msg_buf tch)
           (\<lambda>_. \<lparr>dp_tch = tch, dp_db_name = name_array db_name, dp_result = 0, dp_error_code = 0, dp_error_message = zeros ERROR_MESSAGE_LEN\<rparr>)
           (answer dp_result (\<lambda>req ret. (dp_tch req, dp_error_code req, strncpy (snd err) (c_string (dp_error_message req)) ERROR_MESSAGE_LEN)))
           (tch, err))"

definition ctc_lock_table :: "lock_table_request stub_env \<Rightarrow> ctc_handler \<Rightarrow> byte list option \<Rightarrow> lock_table_info \<Rightarrow> int \<Rightarrow> lock_table_request req_shm \<Rightarrow>
    lock_table_request req_shm \<times> (ctc_handler \<times> int) \<times> ct_errno" where
  "ctc_lock_table env tch db_name lock_info error_code =
     (let tch = get_one_shm_inst env tch
      in call_stub env CTC_FUNC_TYPE_LOCK_TABLE (tch_msg_buf tch)
           (\<lambda>_. \<lparr>lt_db_name = (case db_name of None \<Rightarrow> zeros SMALL_RECORD_SIZE | Some n \<Rightarrow> name_array n), lt_lock_info = lock_info, lt_tch = tch,
                 lt_result = 0, lt_mysql_inst_id = tch_inst_id tch, lt_error_code = 0, lt_error_message = zeros ERROR_MESSAGE_LEN\<rparr>)
           (answer lt_result (\<lambda>req ret. (lt_tch req, lt_error_code req))) (tch, error_code))"

definition ctc_pre_create_db :: "pre_create_db_request stub_env \<Rightarrow> ctc_handler \<Rightarrow> byte list \<Rightarrow> db_infos \<Rightarrow> int \<times> byte list \<Rightarrow> pre_create_db_request req_shm \<Rightarrow>
    (pre_create_db_request req_shm \<times> (ctc_handler \<times> int \<times> byte list) \<times> ct_errno) option" where
  "ctc_pre_create_db env tch sql_str db err =
     (let tch = get_one_shm_inst env tch
      in call_stub_late env CTC_FUNC_PRE_CREATE_DB (tch_msg_buf tch)
           (\<lambda>_. \<lparr>pc_tch = tch, pc_sql_str = ddl_sql_array sql_str, pc_db_name = name_array (di_name db), pc_datafile_size = di_datafile_size db,
                 pc_datafile_autoextend = di_datafile_autoextend db, pc_datafile_extend_size = di_datafile_extend_size db,
                 pc_error_code = 0, pc_error_message = zeros ERROR_MESSAGE_LEN, pc_result = 0\<rparr>)
           (\<lambda>req ret. (pc_tch req, copy_error (pc_error_code req) (pc_error_message req) err)) pc_result (\<lambda>_. ERR_CONNECTION_FAILED) (tch, err))"

definition ctc_unlock_table :: "unlock_tables_request stub_env \<Rightarrow> ctc_handler \<Rightarrow> nat \<Rightarrow> lock_table_info \<Rightarrow> unlock_tables_request req_shm \<Rightarrow>
    unlock_tables_request req_shm \<times> ctc_handler \<times> ct_errno" where
  "ctc_unlock_table env tch mysql_inst_id lock_info =
     (let tch = get_one_shm_inst env tch
      in call_stub env CTC_FUNC_TYPE_UNLOCK_TABLE (tch_msg_buf tch)
           (\<lambda>req. req\<lparr>ut_tch := tch, ut_mysql_inst_id := mysql_inst_id, ut_lock_info := lock_info\<rparr>) (answer ut_result (\<lambda>req ret. ut_tch req)) tch)"

text \<open>A statement for the other servers: \<open>ctc_ddl_broadcast_request\<close>.\<close>

record ddl_broadcast_request =
  db_db_name :: "byte list"
  db_sql_str :: "byte list"
  db_user_name :: "byte list"
  db_user_ip :: "byte list"
  db_mysql_inst_id :: nat
  db_err_code :: int
  db_sql_command :: nat
  db_options :: nat
  db_err_msg :: "byte list"

record execute_mysql_ddl_sql_request =
  em_broadcast_req :: ddl_broadcast_request
  em_tch :: ctc_handler
  em_result :: ct_errno
  em_allow_fail :: bool

definition copy_broadcast_error :: "ddl_broadcast_request \<Rightarrow> ddl_broadcast_request \<Rightarrow> ddl_broadcast_request" where
  "copy_broadcast_error src dst =
     dst\<lparr>db_err_code := db_err_code src, db_err_msg := strncpy (db_err_msg dst) (c_string (db_err_msg src)) (ERROR_MESSAGE_LEN - 1)\<rparr>"

text \<open>The three functions differ in the type of the request only.\<close>

definition broadcast_stub :: "func_type \<Rightarrow> execute_mysql_ddl_sql_request stub_env \<Rightarrow> ctc_handler \<Rightarrow> ddl_broadcast_request \<Rightarrow> bool \<Rightarrow>
    execute_mysql_ddl_sql_request req_shm \<Rightarrow> execute_mysql_ddl_sql_request req_shm \<times> (ctc_handler \<times> ddl_broadcast_request) \<times> ct_errno" where
  "broadcast_stub func env tch broadcast_req allow_fail =
     (let tch = get_one_shm_inst env tch
      in call_stub env func (tch_msg_buf tch)
           (\<lambda>req. req\<lparr>em_broadcast_req := broadcast_req, em_tch := tch, em_allow_fail := allow_fail\<rparr>)
           (answer em_result (\<lambda>req ret. (em_tch req, copy_broadcast_error (em_broadcast_req req) broadcast_req))) (tch, broadcast_req))"

definition ctc_execute_mysql_ddl_sql :: "execute_mysql_ddl_sql_request stub_env \<Rightarrow> ctc_handler \<Rightarrow> ddl_broadcast_request \<Rightarrow> bool \<Rightarrow>
    execute_mysql_ddl_sql_request req_shm \<Rightarrow> execute_mysql_ddl_sql_request req_shm \<times> (ctc_handler \<times> ddl_broadcast_request) \<times> ct_errno" where
  "ctc_execute_mysql_ddl_sql = broadcast_stub CTC_FUNC_TYPE_EXCUTE_MYSQL_DDL_SQL"

definition ctc_broadcast_rewrite_sql :: "execute_mysql_ddl_sql_request stub_env \<Rightarrow> ctc_handler \<Rightarrow> ddl_broadcast_request \<Rightarrow> bool \<Rightarrow>
    execute_mysql_ddl_sql_request req_shm \<Rightarrow> execute_mysql_ddl_sql_request req_shm \<times> (ctc_handler \<times> ddl_broadcast_request) \<times> ct_errno" where
  "ctc_broadcast_rewrite_sql = broadcast_stub CTC_FUNC_TYPE_BROADCAST_REWRITE_SQL"

definition ctc_record_sql_for_cantian :: "execute_mysql_ddl_sql_request stub_env \<Rightarrow> ctc_handler \<Rightarrow> ddl_broadcast_request \<Rightarrow> bool \<Rightarrow>
    execute_mysql_ddl_sql_request req_shm \<Rightarrow> execute_mysql_ddl_sql_request req_shm \<times> (ctc_handler \<times> ddl_broadcast_request) \<times> ct_errno" where
  "ctc_record_sql_for_cantian = broadcast_stub CTC_FUNC_TYPE_RECORD_SQL"

text \<open>System variables for the other servers: the array of the variables is a second block.\<close>

record set_opt_info =
  so_base_name :: "byte list"
  so_var_name :: "byte list"
  so_var_value :: "byte list"
  so_options :: nat
  so_var_is_int :: bool

text \<open>\<open>op_info\<close> is the pointer to the array, \<open>es_opts\<close> the block as an array.\<close>

record set_opt_request =
  op_info :: "nat option"
  op_mysql_inst_id :: nat
  op_opt_num :: nat
  op_err_code :: int
  op_err_msg :: "byte list"

record execute_set_opt_request =
  es_broadcast_req :: set_opt_request
  es_tch :: ctc_handler
  es_result :: ct_errno
  es_allow_fail :: bool
  es_opts :: "set_opt_info list"

definition ctc_execute_set_opt :: "execute_set_opt_request stub_env \<Rightarrow> nat \<Rightarrow> ctc_handler \<Rightarrow> set_opt_request \<Rightarrow> set_opt_info list \<Rightarrow> bool \<Rightarrow>
    execute_set_opt_request req_shm \<Rightarrow> execute_set_opt_request req_shm \<times> (ctc_handler \<times> set_opt_request) \<times> ct_errno" where
  "ctc_execute_set_opt env info_size tch broadcast_req opts allow_fail h =
     (let tch = get_one_shm_inst env tch
      in case shm_alloc h (se_req_size env) of
           (h, None) \<Rightarrow> (h, (tch, broadcast_req), ERR_ALLOC_MEMORY)
         | (h, Some req) \<Rightarrow>
             (case shm_alloc (set_req req (\<lambda>r. r\<lparr>es_broadcast_req := broadcast_req\<rparr>) h) (op_opt_num broadcast_req * info_size) of
                (h, None) \<Rightarrow> (shm_free req h, (tch, broadcast_req), ERR_ALLOC_MEMORY)
              | (h, Some info) \<Rightarrow>
                  let h = set_req info (\<lambda>r. r\<lparr>es_opts := take (op_opt_num broadcast_req) opts\<rparr>) h;
                      h = set_req req (\<lambda>r. r\<lparr>es_broadcast_req := broadcast_req\<lparr>op_info := Some info\<rparr>, es_tch := tch, es_allow_fail := allow_fail\<rparr>) h
                  in case ctc_mq_deal_func (se_mq env) (se_msg_size env) CTC_FUNC_TYPE_SET_OPT REQUEST_SIZE (tch_msg_buf tch) req h of
                       (h, ret) \<Rightarrow>
                         let r = sh_req h req; src = es_broadcast_req r;
                             b = broadcast_req\<lparr>op_err_code := op_err_code src,
                                  op_err_msg := strncpy (op_err_msg broadcast_req) (c_string (op_err_msg src)) (ERROR_MESSAGE_LEN - 1)\<rparr>
                         in (shm_free req (case op_info src of Some i \<Rightarrow> shm_free i h | None \<Rightarrow> h), (es_tch r, b),
                             if ret = CT_SUCCESS then es_result r else ERR_CONNECTION_FAILED)))"

record invalidate_broadcast_request =
  iv_buff :: "byte list"
  iv_buff_len :: nat
  iv_mysql_inst_id :: nat
  iv_is_dcl :: bool
  iv_is_flush :: bool
  iv_err_code :: int

record invalidate_mysql_dd_request =
  im_broadcast_req :: invalidate_broadcast_request
  im_tch :: ctc_handler
  im_err_code :: int
  im_result :: ct_errno

definition ctc_broadcast_mysql_dd_invalidate :: "invalidate_mysql_dd_request stub_env \<Rightarrow> ctc_handler \<Rightarrow> invalidate_broadcast_request \<Rightarrow>
    invalidate_mysql_dd_request req_shm \<Rightarrow> invalidate_mysql_dd_request req_shm \<times> (ctc_handler \<times> invalidate_broadcast_request) \<times> ct_errno" where
  "ctc_broadcast_mysql_dd_invalidate env tch broadcast_req =
     (let tch = get_one_shm_inst env tch
      in call_stub env CTC_FUNC_TYPE_INVALIDATE_OBJECT (tch_msg_buf tch) (\<lambda>req. req\<lparr>im_broadcast_req := broadcast_req, im_tch := tch\<rparr>)
           (answer im_result (\<lambda>req ret. (im_tch req, broadcast_req\<lparr>iv_err_code := iv_err_code (im_broadcast_req req)\<rparr>))) (tch, broadcast_req))"

section \<open>Administration\<close>

datatype lock_table_mode = CTC_LOCK_MODE_SHARE | CTC_LOCK_MODE_EXCLUSIVE

record lock_instance_request =
  ln_is_mysqld_starting :: bool
  ln_lock_type :: lock_table_mode
  ln_tch :: ctc_handler
  ln_result :: ct_errno

record unlock_instance_request =
  un_is_mysqld_starting :: bool
  un_tch :: ctc_handler
  un_result :: ct_errno

record search_metadata_status_request =
  ms_metadata_switch :: bool
  ms_cluster_ready :: bool
  ms_result :: ct_errno

record check_table_exists_request =
  ce_db :: "byte list"
  ce_name :: "byte list"
  ce_is_exists :: bool
  ce_result :: ct_errno

record query_cluster_role_request =
  qc_is_slave :: bool
  qc_cluster_ready :: bool
  qc_result :: ct_errno

record update_sample_size_request =
  us_sample_size :: nat
  us_need_persist :: bool

record query_shm_file_num_request =
  qf_shm_file_num :: nat
  qf_cluster_ready :: bool
  qf_result :: ct_errno

record query_shm_usage_request =
  qu_shm_usage :: nat
  qu_result :: ct_errno

text \<open>\<open>enable_stat\<close> is declared as a pointer: 0 is the null pointer.\<close>

record query_sql_statistic_stat =
  qs_enable_stat :: nat
  qs_result :: ct_errno

record update_job_info =
  uj_job_name :: "byte list"
  uj_job_name_len :: nat
  uj_user :: "byte list"
  uj_user_len :: nat
  uj_switch_on :: bool

record update_job_request =
  uq_result :: ct_errno
  uq_info :: update_job_info

record 'd analyze_table_request =
  az_tch :: ctc_handler
  az_table_name :: "byte list"
  az_user_name :: "byte list"
  az_ratio :: 'd
  az_result :: ct_errno

record get_serial_val_request =
  gv_tch :: ctc_handler
  gv_value :: nat
  gv_result :: ct_errno
  gv_flag :: dml_flag

definition ctc_lock_instance :: "lock_instance_request stub_env \<Rightarrow> bool \<Rightarrow> lock_table_mode \<Rightarrow> ctc_handler \<Rightarrow> lock_instance_request req_shm \<Rightarrow>
    lock_instance_request req_shm \<times> ctc_handler \<times> ct_errno" where
  "ctc_lock_instance env is_mysqld_starting lock_type tch =
     (let tch = get_one_shm_inst env tch
      in call_stub env CTC_FUNC_LOCK_INSTANCE (tch_msg_buf tch)
           (\<lambda>req. req\<lparr>ln_tch := tch, ln_lock_type := lock_type, ln_is_mysqld_starting := is_mysqld_starting\<rparr>) (answer ln_result (\<lambda>req ret. ln_tch req)) tch)"

definition ctc_unlock_instance :: "unlock_instance_request stub_env \<Rightarrow> bool \<Rightarrow> ctc_handler \<Rightarrow> unlock_instance_request req_shm \<Rightarrow>
    unlock_instance_request req_shm \<times> ctc_handler \<times> ct_errno" where
  "ctc_unlock_instance env is_mysqld_starting tch =
     (let tch = get_one_shm_inst env tch
      in call_stub env CTC_FUNC_UNLOCK_INSTANCE (tch_msg_buf tch)
           (\<lambda>req. req\<lparr>un_tch := tch, un_is_mysqld_starting := is_mysqld_starting\<rparr>) (answer un_result (\<lambda>req ret. un_tch req)) tch)"

text \<open>Requests without a session have no message block of their own.\<close>

definition ctc_search_metadata_status :: "search_metadata_status_request stub_env \<Rightarrow> bool \<times> bool \<Rightarrow> search_metadata_status_request req_shm \<Rightarrow>
    search_metadata_status_request req_shm \<times> (bool \<times> bool) \<times> ct_errno" where
  "ctc_search_metadata_status env out =
     call_stub env CTC_FUNC_SEARCH_METADATA_SWITCH None (\<lambda>req. req)
       (answer ms_result (\<lambda>req ret. if ret = CT_SUCCESS then (ms_metadata_switch req, ms_cluster_ready req) else out)) out"

definition ctc_check_db_table_exists :: "check_table_exists_request stub_env \<Rightarrow> byte list \<Rightarrow> byte list \<Rightarrow> bool \<Rightarrow> check_table_exists_request req_shm \<Rightarrow>
    check_table_exists_request req_shm \<times> bool \<times> ct_errno" where
  "ctc_check_db_table_exists env db name is_exists =
     call_stub env CTC_FUNC_CHECK_TABLE_EXIST None
       (\<lambda>_. \<lparr>ce_db = name_array db, ce_name = name_array name, ce_is_exists = False, ce_result = 0\<rparr>)
       (answer ce_result (\<lambda>req ret. if ret = CT_SUCCESS then ce_is_exists req else is_exists)) is_exists"

definition ctc_query_cluster_role :: "query_cluster_role_request stub_env \<Rightarrow> bool \<times> bool \<Rightarrow> query_cluster_role_request req_shm \<Rightarrow>
    query_cluster_role_request req_shm \<times> (bool \<times> bool) \<times> ct_errno" where
  "ctc_query_cluster_role env out =
     call_stub env CTC_FUNC_QUERY_CLUSTER_ROLE None (\<lambda>req. req)
       (answer qc_result (\<lambda>req ret. if ret = CT_SUCCESS then (qc_is_slave req, qc_cluster_ready req) else out)) out"

definition ctc_update_sample_size :: "update_sample_size_request stub_env \<Rightarrow> nat \<Rightarrow> bool \<Rightarrow> update_sample_size_request req_shm \<Rightarrow>
    update_sample_size_request req_shm \<times> unit \<times> ct_errno" where
  "ctc_update_sample_size env sample_size need_persist =
     call_stub env CTC_FUNC_TYPE_UPDATE_SAMPLE_SIZE None (\<lambda>req. req\<lparr>us_sample_size := sample_size, us_need_persist := need_persist\<rparr>)
       (\<lambda>req ret. ((), ret)) ()"

text \<open>The request is the number itself; it is copied even if it was not answered.\<close>

definition ctc_get_sample_size :: "nat stub_env \<Rightarrow> nat \<Rightarrow> nat req_shm \<Rightarrow> nat req_shm \<times> nat \<times> ct_errno" where
  "ctc_get_sample_size env sample_size = call_stub env CTC_FUNC_TYPE_GET_SAMPLE_SIZE None (\<lambda>req. req) (\<lambda>req ret. (req, ret)) sample_size"

definition ctc_query_shm_file_num :: "query_shm_file_num_request stub_env \<Rightarrow> nat \<Rightarrow> query_shm_file_num_request req_shm \<Rightarrow>
    query_shm_file_num_request req_shm \<times> nat \<times> ct_errno" where
  "ctc_query_shm_file_num env shm_file_num =
     call_stub env CTC_FUNC_QUERY_SHM_FILE_NUM None (\<lambda>req. req)
       (answer qf_result (\<lambda>req ret. if ret = CT_SUCCESS then qf_shm_file_num req else shm_file_num)) shm_file_num"

definition ctc_query_shm_usage :: "query_shm_usage_request stub_env \<Rightarrow> nat \<Rightarrow> query_shm_usage_request req_shm \<Rightarrow>
    query_shm_usage_request req_shm \<times> unit \<times> ct_errno" where
  "ctc_query_shm_usage env shm_usage =
     call_stub env CTC_FUNC_QUERY_SHM_USAGE None (\<lambda>req. req\<lparr>qu_shm_usage := shm_usage\<rparr>) (answer qu_result (\<lambda>req ret. ())) ()"

text \<open>The pointer, not what it points to, is converted to a truth value.\<close>

definition ctc_query_sql_statistic_stat :: "query_sql_statistic_stat stub_env \<Rightarrow> bool \<Rightarrow> query_sql_statistic_stat req_shm \<Rightarrow>
    query_sql_statistic_stat req_shm \<times> bool \<times> ct_errno" where
  "ctc_query_sql_statistic_stat env enable_stat =
     call_stub env CTC_FUNC_QUERY_SQL_STATISTIC_STAT None (\<lambda>req. req)
       (answer qs_result (\<lambda>req ret. if ret = CT_SUCCESS then qs_enable_stat req \<noteq> 0 else enable_stat)) enable_stat"

definition ctc_update_job :: "update_job_request stub_env \<Rightarrow> update_job_info \<Rightarrow> update_job_request req_shm \<Rightarrow>
    update_job_request req_shm \<times> unit \<times> ct_errno" where
  "ctc_update_job env info =
     call_stub env CTC_FUNC_TYPE_UPDATE_JOB None (\<lambda>req. req\<lparr>uq_info := info\<rparr>) (answer uq_result (\<lambda>req ret. ())) ()"

definition ctc_analyze_table :: "'d analyze_table_request stub_env \<Rightarrow> ctc_handler \<Rightarrow> byte list \<Rightarrow> byte list \<Rightarrow> 'd \<Rightarrow> 'd analyze_table_request req_shm \<Rightarrow>
    'd analyze_table_request req_shm \<times> ctc_handler \<times> ct_errno" where
  "ctc_analyze_table env tch db_name table_name sampling_ratio =
     (let tch = get_one_shm_inst env tch
      in call_stub env CTC_FUNC_TYPE_ANALYZE (tch_msg_buf tch)
           (\<lambda>_. \<lparr>az_tch = tch, az_table_name = name_array table_name, az_user_name = name_array db_name, az_ratio = sampling_ratio, az_result = 0\<rparr>)
           (answer az_result (\<lambda>req ret. az_tch req)) tch)"

definition ctc_get_serial_value :: "get_serial_val_request stub_env \<Rightarrow> ctc_handler \<Rightarrow> nat \<Rightarrow> dml_flag \<Rightarrow> get_serial_val_request req_shm \<Rightarrow>
    get_serial_val_request req_shm \<times> (ctc_handler \<times> nat) \<times> ct_errno" where
  "ctc_get_serial_value env tch v flag =
     (let tch = get_one_shm_inst env tch
      in call_stub env CTC_FUNC_TYPE_GET_SERIAL_VALUE (tch_msg_buf tch)
           (\<lambda>req. req\<lparr>gv_tch := tch, gv_flag := (gv_flag req)\<lparr>fl_auto_inc_step := fl_auto_inc_step flag,
                      fl_auto_inc_offset := fl_auto_inc_offset flag, fl_auto_increase := fl_auto_increase flag\<rparr>\<rparr>)
           (answer gv_result (\<lambda>req ret. (gv_tch req, if ret = CT_SUCCESS then gv_value req else v))) (tch, v))"

text \<open>The request of \<open>ctc_get_max_sessions_per_node\<close> is not freed.\<close>

definition ctc_get_max_sessions_per_node :: "nat stub_env \<Rightarrow> nat \<Rightarrow> nat req_shm \<Rightarrow> nat req_shm \<times> nat \<times> ct_errno" where
  "ctc_get_max_sessions_per_node env max_sessions h =
     (case shm_alloc h (se_req_size env) of
        (h, None) \<Rightarrow> (h, max_sessions, ERR_ALLOC_MEMORY)
      | (h, Some req) \<Rightarrow>
          (case ctc_mq_deal_func (se_mq env) (se_msg_size env) CTC_FUNC_TYPE_GET_MAX_SESSIONS REQUEST_SIZE None req h of
             (h, ret) \<Rightarrow> (h, if ret = CT_SUCCESS then sh_req h req else max_sessions, ret)))"

definition srv_wait_instance_startuped :: "unit stub_env \<Rightarrow> unit req_shm \<Rightarrow> unit req_shm \<times> unit \<times> ct_errno" where
  "srv_wait_instance_startuped env = call_stub env CTC_FUNC_TYPE_WAIT_CONNETOR_STARTUPED None (\<lambda>req. req) (\<lambda>req ret. ((), ret)) ()"

section \<open>Buffers\<close>

definition ctc_alloc_shm_buf :: "nat \<Rightarrow> 'x shm_scheme \<Rightarrow> 'x shm_scheme \<times> nat option" where
  "ctc_alloc_shm_buf buf_size h = (if buf_size = 0 then (h, None) else shm_alloc h buf_size)"

definition ctc_free_shm_buf :: "nat option \<Rightarrow> 'x shm_scheme \<Rightarrow> 'x shm_scheme" where
  "ctc_free_shm_buf buf h = (case buf of None \<Rightarrow> h | Some b \<Rightarrow> shm_free b h)"

section \<open>Requests sent as bytes\<close>

record 'q layout =
  ly_size :: nat
  ly_bytes :: "'q \<Rightarrow> byte list"
  ly_read :: "byte list \<Rightarrow> 'q"

text \<open>What a compiler guarantees: the bytes of a structure have its size and are read back, whatever follows them.\<close>

definition layout_ok :: "'q layout \<Rightarrow> bool" where
  "layout_ok ly \<longleftrightarrow> (\<forall>q. length (ly_bytes ly q) = ly_size ly) \<and> (\<forall>q rest. ly_read ly (ly_bytes ly q @ rest) = q)"

record ddl_ctrl =
  dc_error_msg :: "byte list"
  dc_user_name :: "byte list"
  dc_user_ip :: "byte list"
  dc_error_code :: ct_errno
  dc_msg_len :: nat
  dc_tch :: ctc_handler
  dc_mysql_inst_id :: nat
  dc_is_alter_copy :: bool
  dc_table_flags :: nat

text \<open>
  \<open>ctc_create_table\<close>, \<open>ctc_truncate_partition\<close> and \<open>ctc_alter_table\<close>: the definition begins with a \<open>ddl_ctrl_t\<close>, which
  is read back from the buffer in any case. \<open>ctc_mq_batch_send_message\<close> changes the buffer only if it has
  been answered.
\<close>

definition ddl_batch_stub :: "func_type \<Rightarrow> unit mq_env \<Rightarrow> nat \<Rightarrow> ddl_ctrl layout \<Rightarrow> message \<Rightarrow> byte list \<Rightarrow> ddl_ctrl \<Rightarrow> shm \<Rightarrow>
    (shm \<times> (byte list \<times> ddl_ctrl) \<times> ct_errno) option" where
  "ddl_batch_stub func env msg_size ly m0 table_def ctrl h =
     (case ctc_mq_batch_send_message env msg_size func m0 (take (dc_msg_len ctrl) table_def) (dc_msg_len ctrl) h of
        None \<Rightarrow> None
      | Some (h, out, ret) \<Rightarrow>
          let table_def = overwrite out table_def; ctrl = ly_read ly table_def
          in Some (h, (table_def, ctrl), if ret = CT_SUCCESS then dc_error_code ctrl else ERR_CONNECTION_FAILED))"

definition ctc_create_table :: "unit mq_env \<Rightarrow> nat \<Rightarrow> ddl_ctrl layout \<Rightarrow> message \<Rightarrow> byte list \<Rightarrow> ddl_ctrl \<Rightarrow> shm \<Rightarrow>
    (shm \<times> (byte list \<times> ddl_ctrl) \<times> ct_errno) option" where
  "ctc_create_table = ddl_batch_stub CTC_FUNC_TYPE_CREATE_TABLE"

definition ctc_truncate_partition :: "unit mq_env \<Rightarrow> nat \<Rightarrow> ddl_ctrl layout \<Rightarrow> message \<Rightarrow> byte list \<Rightarrow> ddl_ctrl \<Rightarrow> shm \<Rightarrow>
    (shm \<times> (byte list \<times> ddl_ctrl) \<times> ct_errno) option" where
  "ctc_truncate_partition = ddl_batch_stub CTC_FUNC_TYPE_TRUNCATE_PARTITION"

definition ctc_alter_table :: "unit mq_env \<Rightarrow> nat \<Rightarrow> ddl_ctrl layout \<Rightarrow> message \<Rightarrow> byte list \<Rightarrow> ddl_ctrl \<Rightarrow> shm \<Rightarrow>
    (shm \<times> (byte list \<times> ddl_ctrl) \<times> ct_errno) option" where
  "ctc_alter_table = ddl_batch_stub CTC_FUNC_TYPE_ALTER_TABLE"

text \<open>
  The requests in one block: the control structure and the definition behind it. \<^const>\<open>None\<close> is the failed assertion on
  the size.
\<close>

definition ddl_block_stub :: "func_type \<Rightarrow> unit mq_env \<Rightarrow> nat \<Rightarrow> ddl_ctrl layout \<Rightarrow> byte list \<Rightarrow> ddl_ctrl \<Rightarrow> shm \<Rightarrow> (shm \<times> ddl_ctrl \<times> ct_errno) option" where
  "ddl_block_stub func env msg_size ly def ctrl h =
     (if \<not> dc_msg_len ctrl + ly_size ly < REQUEST_SIZE then None
      else case shm_alloc h (dc_msg_len ctrl + ly_size ly) of
             (h, None) \<Rightarrow> Some (h, ctrl, ERR_ALLOC_MEMORY)
           | (h, Some req) \<Rightarrow>
               (case ctc_mq_deal_func env msg_size func REQUEST_SIZE None req
                       (shm_write req (ly_bytes ly ctrl @ take (dc_msg_len ctrl) def) h) of
                  (h, ret) \<Rightarrow>
                    let ctrl = ly_read ly (sh_data h req)
                    in Some (shm_free req h, ctrl, if ret = CT_SUCCESS then dc_error_code ctrl else ERR_CONNECTION_FAILED)))"

definition ctc_truncate_table :: "unit mq_env \<Rightarrow> nat \<Rightarrow> ddl_ctrl layout \<Rightarrow> byte list \<Rightarrow> ddl_ctrl \<Rightarrow> shm \<Rightarrow> (shm \<times> ddl_ctrl \<times> ct_errno) option" where
  "ctc_truncate_table = ddl_block_stub CTC_FUNC_TYPE_TRUNCATE_TABLE"

definition ctc_rename_table :: "unit mq_env \<Rightarrow> nat \<Rightarrow> ddl_ctrl layout \<Rightarrow> byte list \<Rightarrow> ddl_ctrl \<Rightarrow> shm \<Rightarrow> (shm \<times> ddl_ctrl \<times> ct_errno) option" where
  "ctc_rename_table = ddl_block_stub CTC_FUNC_TYPE_RENAME_TABLE"

definition ctc_drop_table :: "unit mq_env \<Rightarrow> nat \<Rightarrow> ddl_ctrl layout \<Rightarrow> byte list \<Rightarrow> ddl_ctrl \<Rightarrow> shm \<Rightarrow> (shm \<times> ddl_ctrl \<times> ct_errno) option" where
  "ctc_drop_table = ddl_block_stub CTC_FUNC_TYPE_DROP_TABLE"

definition ctc_create_tablespace :: "unit mq_env \<Rightarrow> nat \<Rightarrow> ddl_ctrl layout \<Rightarrow> byte list \<Rightarrow> ddl_ctrl \<Rightarrow> shm \<Rightarrow> (shm \<times> ddl_ctrl \<times> ct_errno) option" where
  "ctc_create_tablespace = ddl_block_stub CTC_FUNC_TYPE_CREATE_TABLESPACE"

definition ctc_alter_tablespace :: "unit mq_env \<Rightarrow> nat \<Rightarrow> ddl_ctrl layout \<Rightarrow> byte list \<Rightarrow> ddl_ctrl \<Rightarrow> shm \<Rightarrow> (shm \<times> ddl_ctrl \<times> ct_errno) option" where
  "ctc_alter_tablespace = ddl_block_stub CTC_FUNC_TYPE_ALTER_TABLESPACE"

definition ctc_drop_tablespace :: "unit mq_env \<Rightarrow> nat \<Rightarrow> ddl_ctrl layout \<Rightarrow> byte list \<Rightarrow> ddl_ctrl \<Rightarrow> shm \<Rightarrow> (shm \<times> ddl_ctrl \<times> ct_errno) option" where
  "ctc_drop_tablespace = ddl_block_stub CTC_FUNC_TYPE_DROP_TABLESPACE"

text \<open>
  Large objects: the structure with the data behind it is sent in segments. \<^const>\<open>None\<close> is a locator longer than the
  array of the request, or the assertion on the number of bytes read.
\<close>

record write_lob_request =
  wl_tch :: ctc_handler
  wl_locator :: "byte list"
  wl_column_id :: int
  wl_data_len :: nat
  wl_force_outline :: bool
  wl_result :: ct_errno

record read_lob_request =
  rl_tch :: ctc_handler
  rl_locator :: "byte list"
  rl_offset :: nat
  rl_size :: nat
  rl_read_size :: nat
  rl_result :: ct_errno

definition OUTLINE_LOB_LOCATOR_SIZE :: nat where "OUTLINE_LOB_LOCATOR_SIZE = 44"

text \<open>\<open>req0\<close> is what the new buffer holds.\<close>

definition ctc_knl_write_lob :: "unit mq_env \<Rightarrow> nat \<Rightarrow> write_lob_request layout \<Rightarrow> message \<Rightarrow> write_lob_request \<Rightarrow> ctc_handler \<Rightarrow> byte list \<Rightarrow> nat \<Rightarrow> int \<Rightarrow>
    byte list \<Rightarrow> bool \<Rightarrow> shm \<Rightarrow> (shm \<times> (ctc_handler \<times> byte list) \<times> ct_errno) option" where
  "ctc_knl_write_lob env msg_size ly m0 req0 tch locator locator_size column_id data force_outline h =
     (if locator_size > MAX_LOB_LOCATOR_SIZE then None
      else
        let req = req0\<lparr>wl_tch := tch, wl_locator := overwrite (take locator_size locator) (wl_locator req0), wl_data_len := length data,
                       wl_column_id := column_id, wl_force_outline := force_outline\<rparr>;
            buf = ly_bytes ly req @ data
        in case ctc_mq_batch_send_message env msg_size CTC_FUNC_TYPE_WRITE_LOB m0 buf (length buf) h of
             None \<Rightarrow> None
           | Some (h, out, ret) \<Rightarrow>
               let req = ly_read ly (overwrite out buf)
               in Some (h, (wl_tch req, if ret = CT_SUCCESS \<and> wl_result req = CT_SUCCESS then overwrite (take locator_size (wl_locator req)) locator else locator),
                        if ret = CT_SUCCESS then wl_result req else ERR_CONNECTION_FAILED))"

definition ctc_knl_read_lob :: "unit mq_env \<Rightarrow> nat \<Rightarrow> read_lob_request layout \<Rightarrow> message \<Rightarrow> read_lob_request \<Rightarrow> byte list \<Rightarrow> ctc_handler \<Rightarrow> byte list \<Rightarrow> nat \<Rightarrow>
    nat \<Rightarrow> nat \<Rightarrow> shm \<Rightarrow> (shm \<times> (byte list \<times> nat) \<times> ct_errno) option" where
  "ctc_knl_read_lob env msg_size ly m0 req0 buf0 tch locator offset n read_size h =
     (let req = req0\<lparr>rl_tch := tch, rl_locator := overwrite (take OUTLINE_LOB_LOCATOR_SIZE locator) (rl_locator req0), rl_offset := offset, rl_size := n\<rparr>;
          buf = ly_bytes ly req @ take n (buf0 @ zeros n)
      in case ctc_mq_batch_send_message env msg_size CTC_FUNC_TYPE_READ_LOB m0 buf (length buf) h of
           None \<Rightarrow> None
         | Some (h, out, ret) \<Rightarrow>
             if ret \<noteq> CT_SUCCESS then Some (h, ([], read_size), ERR_CONNECTION_FAILED)
             else let buf = overwrite out buf; req = ly_read ly buf
                  in if rl_result req = CT_SUCCESS
                     then (if \<not> rl_read_size req \<le> n then None
                           else Some (h, (take (rl_read_size req) (drop (ly_size ly) buf), rl_read_size req), CT_SUCCESS))
                     else Some (h, ([], read_size), rl_result req))"

section \<open>All requests\<close>

lemmas stub_defs = ctc_open_table_def ctc_close_session_def ctc_kill_session_def ctc_close_table_def ctc_write_row_def ctc_bulk_write_def
  ctc_update_row_def ctc_delete_row_def ctc_scan_records_def ctc_delete_all_rows_def ctc_rnd_init_def ctc_rnd_next_def ctc_general_fetch_def
  ctc_rnd_prefetch_def ctc_general_prefetch_def ctc_rnd_end_def ctc_position_def ctc_rnd_pos_def ctc_index_end_def ctc_free_session_cursors_def
  ctc_get_index_name_def ctc_pq_index_read_def ctc_get_index_paral_schedule_def ctc_pq_set_cursor_range_def ctc_get_paral_schedule_def
  ctc_trx_begin_def ctc_statistic_begin_def ctc_trx_commit_def ctc_statistic_commit_def ctc_trx_rollback_def ctc_srv_set_savepoint_def
  ctc_srv_rollback_savepoint_def ctc_srv_release_savepoint_def ctc_drop_tablespace_and_user_def ctc_drop_db_pre_check_def ctc_lock_table_def
  ctc_pre_create_db_def ctc_unlock_table_def broadcast_stub_def ctc_execute_mysql_ddl_sql_def ctc_broadcast_rewrite_sql_def
  ctc_record_sql_for_cantian_def ctc_broadcast_mysql_dd_invalidate_def ctc_lock_instance_def ctc_unlock_instance_def
  ctc_search_metadata_status_def ctc_check_db_table_exists_def ctc_query_cluster_role_def ctc_update_sample_size_def ctc_get_sample_size_def
  ctc_query_shm_file_num_def ctc_query_shm_usage_def ctc_query_sql_statistic_stat_def ctc_update_job_def ctc_analyze_table_def
  ctc_get_serial_value_def srv_wait_instance_startuped_def

text \<open>A function that may fail an assertion keeps the memory when it returns.\<close>

definition returns_memory :: "'x shm_scheme \<Rightarrow> ('x shm_scheme \<times> 'o) option \<Rightarrow> bool" where
  "returns_memory h r = (case r of None \<Rightarrow> True | Some x \<Rightarrow> keeps_memory h (fst x))"

lemma returns_memory_simps [simp]:
  "returns_memory h None" "returns_memory h (Some x) = keeps_memory h (fst x)"
  by (simp_all add: returns_memory_def)

lemma index_read_memory: "returns_memory h (ctc_index_read env tch ri ii mode cond rep h)"
proof (cases ii)
  case None
  then show ?thesis by (simp add: ctc_index_read_def)
next
  case (Some i)
  obtain h1 x where al: "shm_alloc h (se_req_size env) = (h1, x)" by fastforce
  show ?thesis
  proof (cases x)
    case None
    then show ?thesis using Some al by (simp add: ctc_index_read_def Let_def alloc_fails)
  next
    case (Some b)
    show ?thesis
    proof (cases "copy_index_info_to_req i (sh_req h1 b)")
      case None
      then show ?thesis using al \<open>ii = Some i\<close> \<open>x = Some b\<close> by (simp add: ctc_index_read_def Let_def)
    next
      case (Some req)
      then show ?thesis using al \<open>ii = Some i\<close> \<open>x = Some b\<close> alloc_deal_free(1) [of h "se_req_size env" h1 b]
        by (simp add: ctc_index_read_def Let_def split: prod.split)
    qed
  qed
qed

lemma late_memory: "returns_memory h (call_stub_late env ft mb fill outs res un out h)"
  using call_stub_late_memory by (cases "call_stub_late env ft mb fill outs res un out h") force+

lemma ddl_block_memory: "returns_memory h (ddl_block_stub func env msg_size ly def ctrl h)"
proof (cases "shm_alloc h (dc_msg_len ctrl + ly_size ly)")
  case (Pair h1 x)
  show ?thesis
  proof (cases x)
    case None
    then show ?thesis using Pair by (simp add: ddl_block_stub_def alloc_fails)
  next
    case (Some b)
    let ?h = "shm_write b (ly_bytes ly ctrl @ take (dc_msg_len ctrl) def) h1"
    obtain h2 ret where d: "ctc_mq_deal_func env msg_size func REQUEST_SIZE None b ?h = (h2, ret)" by fastforce
    have "sh_live h2 = b # sh_live h" "sh_bad_frees h2 = sh_bad_frees h"
      using deal_frame [OF d] alloc_some [of h "dc_msg_len ctrl + ly_size ly" h1 b] Pair Some by simp_all
    then show ?thesis using Pair Some d free_head [of h2 b "sh_live h"]
      by (simp add: ddl_block_stub_def keeps_memory_def Let_def)
  qed
qed


text \<open>The pointer to the array of variables is the connector's: the other process leaves it as it is.\<close>

definition keeps_pointer :: "execute_set_opt_request stub_env \<Rightarrow> bool" where
  "keeps_pointer env \<longleftrightarrow> (\<forall>m h b. op_info (es_broadcast_req (sh_req (answered (se_mq env) m h) b)) = op_info (es_broadcast_req (sh_req h b)))"

lemma deal_keeps_pointer:
  assumes "keeps_pointer env" "ctc_mq_deal_func (se_mq env) n ft rs mb b h = (h', ret)"
  shows "op_info (es_broadcast_req (sh_req h' c)) = op_info (es_broadcast_req (sh_req h c))"
proof -
  have "sh_req h1 = sh_req h" if "shm_alloc h n = (h1, r)" for h1 r
    using that by (auto simp: shm_alloc_def Let_def split: if_splits)
  then show ?thesis using assms
    by (cases mb; cases "shm_alloc h n"; cases "snd (shm_alloc h n)") (auto simp: ctc_mq_deal_func_def Let_def keeps_pointer_def split: if_splits)
qed

lemma set_opt_memory:
  assumes "keeps_pointer env" "shm_wf h"
  shows "keeps_memory h (fst (ctc_execute_set_opt env info_size tch br opts allow_fail h))"
proof -
  let ?tch = "get_one_shm_inst env tch"
  obtain h1 x where al: "shm_alloc h (se_req_size env) = (h1, x)" by fastforce
  show ?thesis
  proof (cases x)
    case None
    then show ?thesis using al by (simp add: ctc_execute_set_opt_def Let_def alloc_fails)
  next
    case x: (Some req)
    let ?h2 = "set_req req (\<lambda>r. r\<lparr>es_broadcast_req := br\<rparr>) h1"
    note a1 = alloc_some [OF al [unfolded x]]
    obtain h3 y where al2: "shm_alloc ?h2 (op_opt_num br * info_size) = (h3, y)" by fastforce
    show ?thesis
    proof (cases y)
      case None
      then show ?thesis using al x al2 alloc_none [OF al2 [unfolded None]] a1 free_head [of h3 req "sh_live h"]
        by (simp add: ctc_execute_set_opt_def Let_def keeps_memory_def)
    next
      case y: (Some info)
      note a2 = alloc_some [OF al2 [unfolded y]]
      have ne: "info \<noteq> req" using a1 a2 by simp
      let ?h4 = "set_req info (\<lambda>r. r\<lparr>es_opts := take (op_opt_num br) opts\<rparr>) h3"
      let ?h5 = "set_req req (\<lambda>r. r\<lparr>es_broadcast_req := br\<lparr>op_info := Some info\<rparr>, es_tch := ?tch, es_allow_fail := allow_fail\<rparr>) ?h4"
      obtain h6 ret where d: "ctc_mq_deal_func (se_mq env) (se_msg_size env) CTC_FUNC_TYPE_SET_OPT REQUEST_SIZE (tch_msg_buf ?tch) req ?h5 = (h6, ret)"
        by fastforce
      have p: "op_info (es_broadcast_req (sh_req h6 req)) = Some info" using deal_keeps_pointer [OF assms(1) d, of req] by simp
      have l: "sh_live h6 = info # req # sh_live h" "sh_bad_frees h6 = sh_bad_frees h" using deal_frame [OF d] a1 a2 by simp_all
      have f: "sh_live (shm_free info h6) = req # sh_live h" "sh_bad_frees (shm_free info h6) = sh_bad_frees h"
        using free_head [OF l(1)] l(2) by simp_all
      have "keeps_memory h (shm_free req (shm_free info h6))" using free_head [OF f(1)] f(2) by (simp add: keeps_memory_def)
      then show ?thesis using al x al2 y d p by (simp add: ctc_execute_set_opt_def Let_def)
    qed
  qed
qed


lemma late_result:
  assumes "shm_wf h" "call_stub_late env ft mb fill outs res un out h = Some r"
  shows "snd (snd r) = ERR_ALLOC_MEMORY \<or> (\<exists>ret. ret \<noteq> CT_SUCCESS \<and> snd (snd r) = un ret)"
  using late_read_fails [OF assms(1), of env ft mb fill outs res un out "fst r" "fst (snd r)" "snd (snd r)"] assms(2) by simp

text \<open>
  C39: four functions free their request and then read the result from it. In a well-formed memory none of them ever
  returns the result of an answered request: every value they return is that of a failed allocation or of an unanswered
  request, and for an answered one they read freed memory.
\<close>

theorem freed_requests_read:
  assumes "shm_wf h1" "shm_wf h2" "shm_wf h3" "shm_wf h4"
  shows "(\<forall>r. ctc_drop_tablespace_and_user e1 tch db sql user ip err h1 = Some r \<longrightarrow> snd (snd r) \<in> {ERR_ALLOC_MEMORY, ERR_CONNECTION_FAILED}) \<and>
    (\<forall>r. ctc_pre_create_db e2 tch sql dbi err h2 = Some r \<longrightarrow> snd (snd r) \<in> {ERR_ALLOC_MEMORY, ERR_CONNECTION_FAILED}) \<and>
    (\<forall>r. ctc_get_index_paral_schedule e3 tch scn wc iname rv full rng pr h3 = Some r \<longrightarrow> snd (snd r) \<noteq> CT_SUCCESS) \<and>
    (\<forall>r. ctc_pq_set_cursor_range e4 tch lp rp scn ssn h4 = Some r \<longrightarrow> snd (snd r) \<noteq> CT_SUCCESS)"
  using assms by (auto simp: stub_defs Let_def errno_defs dest!: late_result [rotated])

section \<open>Concrete requests\<close>

definition set_opt0 :: set_opt_request where
  "set_opt0 = \<lparr>op_info = None, op_mysql_inst_id = 1, op_opt_num = 0, op_err_code = 0, op_err_msg = []\<rparr>"

definition exec_set_opt0 :: execute_set_opt_request where
  "exec_set_opt0 = \<lparr>es_broadcast_req = set_opt0, es_tch = tch0, es_result = 0, es_allow_fail = False, es_opts = []\<rparr>"

definition silent_env :: "'r stub_env" where
  "silent_env = \<lparr>se_mq = \<lparr>sem_init_ok = True, send_ok = True, sem_wait_ok = True, serve = (\<lambda>m h. h)\<rparr>, se_msg_size = 100, se_req_size = 100, se_group_num = 0\<rparr>"


definition cursor_range0 :: set_cursor_range_request where
  "cursor_range0 = \<lparr>cr_tch = tch0, cr_l_page = 1, cr_r_page = 2, cr_query_scn = 3, cr_ssn = 4, cr_result = 0\<rparr>"

text \<open>An answered request of this kind reads freed memory.\<close>

theorem freed_requests_read_witness:
  "ctc_pq_set_cursor_range silent_env tch0 1 2 3 4 (shm1 cursor_range0) = None"
proof -
  note r = freed_requests_read [OF shm1_wf shm1_wf shm1_wf shm1_wf]
  have "\<forall>r. ctc_pq_set_cursor_range silent_env tch0 1 2 3 4 (shm1 cursor_range0) = Some r \<longrightarrow> snd (snd r) \<noteq> CT_SUCCESS"
    by (rule r [THEN conjunct2, THEN conjunct2, THEN conjunct2])
  moreover have "ctc_pq_set_cursor_range silent_env tch0 1 2 3 4 (shm1 cursor_range0) = Some r \<Longrightarrow> snd (snd r) = CT_SUCCESS" for r
    by (simp add: ctc_pq_set_cursor_range_def call_stub_late_def shm_alloc_def shm1_def silent_env_def ctc_mq_deal_func_def tch0_def
        get_one_shm_inst_def Let_def answered_def shm_free_def read_req_def set_req_def)
  ultimately show ?thesis by (cases "ctc_pq_set_cursor_range silent_env tch0 1 2 3 4 (shm1 cursor_range0)") auto
qed

section \<open>Failures\<close>

definition reports_failure :: "'r stub_env \<Rightarrow> 'r req_shm \<times> 'o \<times> ct_errno \<Rightarrow> bool" where
  "reports_failure env r \<longleftrightarrow> (snd (snd r) = CT_SUCCESS \<longrightarrow> send_ok (se_mq env) \<and> sem_wait_ok (se_mq env))"

definition returns_failure :: "'r stub_env \<Rightarrow> ('r req_shm \<times> 'o \<times> ct_errno) option \<Rightarrow> bool" where
  "returns_failure env r = (case r of None \<Rightarrow> True | Some x \<Rightarrow> reports_failure env x)"

lemma returns_failure_simps [simp]:
  "returns_failure env None" "returns_failure env (Some x) = reports_failure env x"
  by (simp_all add: returns_failure_def)

context remote_reply
begin

lemma reported: "reports_failure env (call_stub env ft mb fill reply out h)"
  using success_answered [of env ft mb fill out h] by (cases "call_stub env ft mb fill reply out h") (auto simp: reports_failure_def)

end

interpretation either: remote_reply "\<lambda>req ret. if ret = CT_SUCCESS then f req else (old, ret)"
  for f :: "'r \<Rightarrow> 'o \<times> ct_errno" and old :: 'o
  by unfold_locales simp

lemmas reported = plain.reported handed_on.reported either.reported

lemma index_read_reported: "returns_failure env (ctc_index_read env tch ri ii mode cond rep h)"
proof (cases ii)
  case None
  then show ?thesis by (simp add: ctc_index_read_def reports_failure_def errno_defs)
next
  case (Some i)
  obtain h1 x where al: "shm_alloc h (se_req_size env) = (h1, x)" by fastforce
  show ?thesis
  proof (cases x)
    case None
    then show ?thesis using Some al by (simp add: ctc_index_read_def Let_def reports_failure_def errno_defs)
  next
    case (Some b)
    show ?thesis
    proof (cases "copy_index_info_to_req i (sh_req h1 b)")
      case None
      then show ?thesis using al \<open>ii = Some i\<close> \<open>x = Some b\<close> by (simp add: ctc_index_read_def Let_def)
    next
      case (Some req)
      then show ?thesis using al \<open>ii = Some i\<close> \<open>x = Some b\<close>
        by (auto simp: ctc_index_read_def Let_def reports_failure_def errno_defs split: prod.split dest: deal_frame(3))
    qed
  qed
qed


definition mute_env :: "'r stub_env" where
  "mute_env = \<lparr>se_mq = \<lparr>sem_init_ok = True, send_ok = False, sem_wait_ok = True, serve = (\<lambda>m h. h)\<rparr>, se_msg_size = 100, se_req_size = 100, se_group_num = 0\<rparr>"

definition position0 :: position_request where
  "position0 = \<lparr>po_tch = tch0, po_pos_length = 0, po_position = zeros SMALL_RECORD_SIZE, po_result = 0\<rparr>"


end
