(* ===== verification/CTC_Trx.thy ===== *)
theory CTC_Trx
  imports CTC_Command CTC_Ddl_Stub "HOL-Library.Monad_Syntax" "HOL-Library.Multiset" "HOL-Library.AList"
begin

text \<open>
  Sessions and transactions (ha_ctc.cc). MySQL keeps one session context per connection; it holds the address of the
  engine's session, whether a transaction was begun, the cursors the engine opened for the handlers of the
  connection, and the message block. The handlerton functions and \<open>start_stmt\<close> read and change it and call the
  interface of ctc_srv.h.

  The engine behind the interface is an argument: a function from a call and its state to the new state and the reply.
  Every call is recorded with the code it returned, so that properties can speak of the calls the connector makes.
  \<^const>\<open>None\<close> is a failed assertion, a null pointer that is used or a write outside of a buffer.
\<close>

section \<open>State\<close>

definition SESSION_CURSOR_NUM :: int where "SESSION_CURSOR_NUM = 8192 * 2"
definition CTC_DDL_LOCAL_ENABLED :: nat where "CTC_DDL_LOCAL_ENABLED = 1"
definition CTC_DDL_ENABLED :: nat where "CTC_DDL_ENABLED = 2"
definition INVALID_PART_ID :: nat where "INVALID_PART_ID = 2 ^ 32 - 1"
definition INVALID_INT64 :: int where "INVALID_INT64 = 2 ^ 63 - 1"
definition CTC_NOT_NEED_CANTIAN_EXECUTE :: nat where "CTC_NOT_NEED_CANTIAN_EXECUTE = 16"
definition DD_BROADCAST_RECORD_LENGTH :: nat where "DD_BROADCAST_RECORD_LENGTH = 3072"
definition DD_BROADCAST_RECORD_SIZE :: nat where "DD_BROADCAST_RECORD_SIZE = 1000"

definition bytes_of :: "string \<Rightarrow> byte list" where
  "bytes_of s = map of_char s"

definition CTC_SQL_START_INTERNAL_SAVEPOINT :: "byte list" where
  "CTC_SQL_START_INTERNAL_SAVEPOINT = bytes_of ''CTC4CANTIAN_SYS_SV''"

datatype obj_kind =
    OBJ_ABSTRACT_TABLE | OBJ_EVENT | OBJ_COLUMN_STATISTICS | OBJ_RT_PROCEDURE | OBJ_RT_FUNCTION | OBJ_SCHEMA | OBJ_TABLESPACE
  | OBJ_RESOURCE_GROUP | OBJ_SPATIAL_REFERENCE_SYSTEM | OBJ_CHARSET | OBJ_COLLATION | OBJ_UNKNOWN

text \<open>
  \<open>thd_sess_ctx_s\<close>. The map from handlers to their cursor is a list of pairs with distinct keys, in some order; a handler is
  its address.
\<close>

record thd_sess_ctx =
  sc_sess_addr :: nat
  sc_thd_id :: nat
  sc_bind_core :: nat
  sc_is_ctc_trx_begin :: nat
  sc_sql_stat_start :: nat
  sc_cursors_map :: "(nat \<times> nat) list"
  sc_invalid_cursors :: "nat list option"
  sc_msg_buf :: "nat option"
  sc_set_flag :: nat

datatype tx_isolation = ISO_READ_UNCOMMITTED | ISO_READ_COMMITTED | ISO_REPEATABLE_READ | ISO_SERIALIZABLE

text \<open>What is read of MySQL's \<open>THD\<close>, the connector's data in it, and what the connector registers there.\<close>

record thd =
  th_thread_id :: nat
  th_ha_data :: "thd_sess_ctx option"
  th_sql_command :: sql_command
  th_plan_command :: sql_command
  th_query_id :: int
  th_query :: "byte list option"
  th_multi_stmt :: bool
  th_in_sub_stmt :: bool
  th_is_reading_dd :: bool
  th_isolation :: tx_isolation
  th_lock_wait_timeout :: nat
  th_no_fk_check :: bool
  th_attachable :: bool
  th_alter_copy :: bool
  th_exec_started :: bool
  th_db :: "byte list"
  th_user :: "byte list"
  th_host :: "byte list"
  th_table :: "byte list \<times> byte list"
  th_invalidates :: "((byte list \<times> byte list) \<times> nat) list"
  th_pre_sess_addr :: nat
  th_reg_stmt :: bool
  th_reg_all :: bool
  th_rollback_marked :: bool

text \<open>The server: its options and state, the numbers of its commands and dictionary objects, the text \<open>longlong2str\<close> makes of
  a savepoint, and the bytes an uninitialised request holds.\<close>

record server =
  sv_inst_id :: nat
  sv_initialize :: bool
  sv_upgrade_force :: bool
  sv_started :: bool
  sv_concurrent_ddl :: bool
  sv_normalized :: bool
  sv_group_num :: nat
  sv_max_cursors_no_autocommit :: int
  sv_enable_stat :: bool
  sv_now :: "int \<times> int"
  sv_malloc_ok :: bool
  sv_msg_size :: nat
  sv_command_no :: "sql_command \<Rightarrow> nat"
  sv_obj_kind :: "nat \<Rightarrow> obj_kind"
  sv_savepoint_name :: "nat \<Rightarrow> byte list"
  sv_stack :: invalidate_broadcast_request

text \<open>The calls of the interface these functions make.\<close>

datatype call =
    Trx_begin ctc_handler ctc_trx_context bool "int \<times> int" bool
  | Statistic_begin ctc_handler "int \<times> int" bool
  | Trx_commit ctc_handler "nat list" int "byte list option" bool
  | Statistic_commit ctc_handler "byte list option" bool
  | Trx_rollback ctc_handler "nat list" int
  | Set_savepoint ctc_handler "byte list"
  | Rollback_savepoint ctc_handler "nat list" int "byte list"
  | Release_savepoint ctc_handler "byte list"
  | Free_session_cursors ctc_handler "nat list" int
  | Close_session ctc_handler
  | Kill_session ctc_handler
  | Execute_ddl ctc_handler ddl_broadcast_request bool
  | Dd_invalidate ctc_handler invalidate_broadcast_request
  | Analyze_table ctc_handler "byte list" "byte list"

record reply =
  ry_tch :: ctc_handler
  ry_code :: ct_errno
  ry_ddl_commit :: bool
  ry_err_code :: int

type_synonym 'e engine = "call \<Rightarrow> 'e \<Rightarrow> 'e \<times> reply"

record 'e conn =
  cn_thd :: thd
  cn_shm :: shm
  cn_engine :: 'e
  cn_trace :: "(call \<times> ct_errno) list"

definition request :: "'e engine \<Rightarrow> call \<Rightarrow> 'e conn \<Rightarrow> 'e conn \<times> reply" where
  "request eng call c =
     (case eng call (cn_engine c) of (e, r) \<Rightarrow> (c\<lparr>cn_engine := e, cn_trace := cn_trace c @ [(call, ry_code r)]\<rparr>, r))"

definition set_thd :: "(thd \<Rightarrow> thd) \<Rightarrow> 'e conn \<Rightarrow> 'e conn" where
  "set_thd f c = c\<lparr>cn_thd := f (cn_thd c)\<rparr>"

definition set_ctx :: "(thd_sess_ctx \<Rightarrow> thd_sess_ctx) \<Rightarrow> 'e conn \<Rightarrow> 'e conn" where
  "set_ctx f = set_thd (\<lambda>t. t\<lparr>th_ha_data := map_option f (th_ha_data t)\<rparr>)"

abbreviation "ctx_of" :: "'e conn \<Rightarrow> thd_sess_ctx option" where
  "ctx_of c \<equiv> th_ha_data (cn_thd c)"

section \<open>The session context\<close>

text \<open>The context is filled with 1 bits and some of its fields are set.\<close>

definition new_ctx :: thd_sess_ctx where
  "new_ctx = \<lparr>sc_sess_addr = 2 ^ 64 - 1, sc_thd_id = 2 ^ 32 - 1, sc_bind_core = 2 ^ 16 - 1, sc_is_ctc_trx_begin = 0, sc_sql_stat_start = 0,
     sc_cursors_map = [], sc_invalid_cursors = None, sc_msg_buf = None, sc_set_flag = 0\<rparr>"

definition get_or_init_sess_ctx :: "server \<Rightarrow> 'e conn \<Rightarrow> 'e conn \<times> thd_sess_ctx option" where
  "get_or_init_sess_ctx sv c =
     (case ctx_of c of
        Some ctx \<Rightarrow> (c, Some ctx)
      | None \<Rightarrow> if sv_malloc_ok sv then (set_thd (\<lambda>t. t\<lparr>th_ha_data := Some new_ctx\<rparr>) c, Some new_ctx) else (c, None))"

definition bind_core :: "server \<Rightarrow> ctc_handler \<Rightarrow> ctc_handler" where
  "bind_core sv tch = (if sv_group_num sv \<noteq> 0 \<and> tch_bind_core tch \<noteq> 1 then tch\<lparr>tch_bind_core := 1\<rparr> else tch)"

text \<open>
  The message block of the session. The semaphore in it is initialised without a look at the result of the allocation.
\<close>

definition alloc_msg_buf :: "server \<Rightarrow> bool \<Rightarrow> ctc_handler \<Rightarrow> 'e conn \<Rightarrow> ('e conn \<times> ctc_handler) option" where
  "alloc_msg_buf sv alloc tch c =
     (case ctx_of c of
        None \<Rightarrow> None
      | Some ctx \<Rightarrow>
          let tch = tch\<lparr>tch_msg_buf := sc_msg_buf ctx\<rparr>
          in if sc_msg_buf ctx = None \<and> alloc
             then case shm_alloc (cn_shm c) (sv_msg_size sv) of
                    (h, None) \<Rightarrow> None
                  | (h, Some b) \<Rightarrow>
                      Some (set_ctx (\<lambda>x. x\<lparr>sc_msg_buf := Some b\<rparr>) (c\<lparr>cn_shm := h\<rparr>), (bind_core sv tch)\<lparr>tch_msg_buf := Some b\<rparr>)
             else Some (c, tch))"

definition zero_tch :: ctc_handler where
  "zero_tch = \<lparr>tch_inst_id = 0, tch_thd_id = 0, tch_part_id = 0, tch_subpart_id = 0, tch_query_id = 0, tch_sess_addr = 0, tch_ctx_addr = 0,
     tch_cursor_addr = 0, tch_pre_sess_addr = 0, tch_cursor_ref = 0, tch_bind_core = 0, tch_sql_command = 0, tch_sql_stat_start = 0,
     tch_change_data_capture = 0, tch_cursor_valid = False, tch_is_broadcast = False, tch_read_only_in_ct = False, tch_msg_buf = None\<rparr>"

definition command_no :: "server \<Rightarrow> thd \<Rightarrow> nat" where
  "command_no sv t = sv_command_no sv (th_sql_command t) mod 256"

text \<open>A context of another thread number is that of a new session.\<close>

definition adopt_ctx :: "thd \<Rightarrow> thd_sess_ctx \<Rightarrow> thd_sess_ctx" where
  "adopt_ctx t ctx =
     (if sc_thd_id ctx \<noteq> th_thread_id t
      then ctx\<lparr>sc_sess_addr := INVALID_VALUE64, sc_thd_id := th_thread_id t, sc_bind_core := 0, sc_is_ctc_trx_begin := 0, sc_sql_stat_start := 0\<rparr>
      else ctx)"

definition get_tch_in_handler_data :: "server \<Rightarrow> bool \<Rightarrow> 'e conn \<Rightarrow> ('e conn \<times> ctc_handler \<times> mysql_errno) option" where
  "get_tch_in_handler_data sv alloc c =
     (case get_or_init_sess_ctx sv c of
        (c, None) \<Rightarrow> Some (c, zero_tch, HA_ERR_OUT_OF_MEM)
      | (c, Some ctx) \<Rightarrow>
          let ctx = adopt_ctx (cn_thd c) ctx; c = set_ctx (adopt_ctx (cn_thd c)) c;
              tch = zero_tch\<lparr>tch_inst_id := sv_inst_id sv, tch_ctx_addr := INVALID_VALUE64, tch_sess_addr := sc_sess_addr ctx,
                     tch_thd_id := sc_thd_id ctx, tch_bind_core := sc_bind_core ctx, tch_sql_command := command_no sv (cn_thd c),
                     tch_query_id := th_query_id (cn_thd c), tch_sql_stat_start := sc_sql_stat_start ctx\<rparr>
          in do { (c, tch) \<leftarrow> alloc_msg_buf sv alloc tch c; Some (c, tch, NO_ERROR) })"

text \<open>The handler's own \<open>m_tch\<close> is brought up to date with the session before a call.\<close>

definition update_member_tch :: "server \<Rightarrow> bool \<Rightarrow> ctc_handler \<Rightarrow> 'e conn \<Rightarrow> ('e conn \<times> ctc_handler) option" where
  "update_member_tch sv alloc tch c =
     (let t = cn_thd c;
          fresh = Some (c, tch\<lparr>tch_thd_id := th_thread_id t, tch_sess_addr := INVALID_VALUE64, tch_bind_core := 0, tch_sql_command := command_no sv t,
                   tch_query_id := th_query_id t, tch_sql_stat_start := 0, tch_cursor_ref := 0, tch_pre_sess_addr := 0, tch_msg_buf := None,
                   tch_change_data_capture := 0, tch_read_only_in_ct := False\<rparr>)
      in case ctx_of c of
           None \<Rightarrow> fresh
         | Some ctx \<Rightarrow>
             if sc_thd_id ctx \<noteq> th_thread_id t then fresh
             else map_option (\<lambda>(c, tch). (c, if sv_normalized sv \<and> th_is_reading_dd t then tch\<lparr>tch_sql_stat_start := 1\<rparr> else tch)) (alloc_msg_buf sv alloc
                    (tch\<lparr>tch_cursor_addr := (if tch_sess_addr tch = sc_sess_addr ctx then tch_cursor_addr tch else INVALID_VALUE64),
                         tch_sess_addr := sc_sess_addr ctx, tch_thd_id := sc_thd_id ctx, tch_bind_core := sc_bind_core ctx,
                         tch_sql_command := command_no sv t, tch_query_id := th_query_id t, tch_sql_stat_start := sc_sql_stat_start ctx,
                         tch_pre_sess_addr := 0\<rparr>) c))"

definition update_sess_ctx_by_tch :: "server \<Rightarrow> ctc_handler \<Rightarrow> 'e conn \<Rightarrow> 'e conn" where
  "update_sess_ctx_by_tch sv tch c =
     set_ctx (\<lambda>x. x\<lparr>sc_thd_id := tch_thd_id tch, sc_sess_addr := tch_sess_addr tch, sc_bind_core := tch_bind_core tch,
                    sc_sql_stat_start := tch_sql_stat_start tch\<rparr>) (fst (get_or_init_sess_ctx sv c))"


section \<open>Cursors\<close>

text \<open>
  \<open>ctc_copy_cursors_to_free\<close> moves the cursors into a buffer for \<open>cap\<close> addresses: first those that handlers gave up,
  then, unless \<open>left\<close> says otherwise, those of the handlers.
\<close>

definition ctc_copy_cursors_to_free :: "nat \<Rightarrow> bool \<Rightarrow> thd_sess_ctx \<Rightarrow> (thd_sess_ctx \<times> nat list) option" where
  "ctc_copy_cursors_to_free cap left ctx =
     (let inv = (case sc_invalid_cursors ctx of None \<Rightarrow> [] | Some v \<Rightarrow> v); ctx = ctx\<lparr>sc_invalid_cursors := map_option (\<lambda>_. []) (sc_invalid_cursors ctx)\<rparr>;
          cs = (if left then inv else inv @ map snd (sc_cursors_map ctx)); ctx = (if left then ctx else ctx\<lparr>sc_cursors_map := []\<rparr>)
      in if length cs \<le> cap then Some (ctx, cs) else None)"

definition ctc_alloc_buf :: "server \<Rightarrow> ctc_handler \<Rightarrow> int \<Rightarrow> 'e conn \<Rightarrow> 'e conn \<times> ctc_handler \<times> nat option" where
  "ctc_alloc_buf sv tch buf_size c =
     (if buf_size = 0 then (c, tch, None)
      else case shm_alloc (cn_shm c) (nat buf_size) of (h, b) \<Rightarrow> (c\<lparr>cn_shm := h\<rparr>, bind_core sv tch, b))"

definition ctc_free_buf :: "server \<Rightarrow> ctc_handler \<Rightarrow> nat option \<Rightarrow> 'e conn \<Rightarrow> 'e conn \<times> ctc_handler" where
  "ctc_free_buf sv tch buf c =
     (case buf of None \<Rightarrow> (c, tch) | Some b \<Rightarrow> (c\<lparr>cn_shm := shm_free b (cn_shm c)\<rparr>, bind_core sv tch))"

definition total_csize :: "thd_sess_ctx \<Rightarrow> int" where
  "total_csize ctx = s32 (int (length (sc_cursors_map ctx)) + (case sc_invalid_cursors ctx of None \<Rightarrow> 0 | Some v \<Rightarrow> int (length v)))"

text \<open>The buffer is allocated, the assertion on it checked and the cursors are moved into it.\<close>

definition collect_cursors :: "server \<Rightarrow> ctc_handler \<Rightarrow> int \<Rightarrow> int \<Rightarrow> bool \<Rightarrow> 'e conn \<Rightarrow> ('e conn \<times> ctc_handler \<times> nat option \<times> nat list) option" where
  "collect_cursors sv tch csize checked left c =
     (case ctc_alloc_buf sv tch (u32 (8 * csize)) c of
        (c, tch, buf) \<Rightarrow>
          if (checked = 0) = (buf \<noteq> None) then None
          else do {
            ctx \<leftarrow> ctx_of c;
            (ctx, cs) \<leftarrow> ctc_copy_cursors_to_free (case buf of None \<Rightarrow> 0 | Some b \<Rightarrow> nat (u32 (8 * csize)) div 8) left ctx;
            Some (set_ctx (\<lambda>_. ctx) c, tch, buf, cs) })"

text \<open>
  The pattern of every release: the cursors are collected, the call hands them back, and the buffer is freed.
\<close>

definition hand_cursors :: "server \<Rightarrow> 'e engine \<Rightarrow> ctc_handler \<Rightarrow> int \<Rightarrow> int \<Rightarrow> bool \<Rightarrow> (ctc_handler \<Rightarrow> nat list \<Rightarrow> call) \<Rightarrow> 'e conn \<Rightarrow>
    ('e conn \<times> ctc_handler \<times> reply) option" where
  "hand_cursors sv eng tch csize checked left call c = do {
     (c, tch, buf, cs) \<leftarrow> collect_cursors sv tch csize checked left c;
     let (c, r) = request eng (call tch cs) c;
     let (c, tch) = ctc_free_buf sv (ry_tch r) buf c;
     Some (c, tch, r) }"

text \<open>
  After a call that may have opened a cursor, the handler at address \<open>p\<close> records it. The cursor it had before is kept
  for release, and when there are many, those are released at once.
\<close>

definition update_sess_ctx_cursor_by_tch :: "server \<Rightarrow> 'e engine \<Rightarrow> nat \<Rightarrow> ctc_handler \<Rightarrow> 'e conn \<Rightarrow> ('e conn \<times> ctc_handler) option" where
  "update_sess_ctx_cursor_by_tch sv eng p tch c =
     (if tch_cursor_addr tch = INVALID_VALUE64 then Some (c, tch)
      else do {
        ctx \<leftarrow> ctx_of c;
        let cur = map_of (sc_cursors_map ctx) p;
        if cur = Some (tch_cursor_addr tch) then Some (c, tch)
        else let inv = (case cur of None \<Rightarrow> sc_invalid_cursors ctx
                        | Some k \<Rightarrow> Some ((case sc_invalid_cursors ctx of None \<Rightarrow> [] | Some v \<Rightarrow> v) @ [k]));
                 ctx = ctx\<lparr>sc_invalid_cursors := inv, sc_cursors_map := AList.update p (tch_cursor_addr tch) (sc_cursors_map ctx)\<rparr>;
                 c = set_ctx (\<lambda>_. ctx) c
             in case inv of
                  None \<Rightarrow> Some (c, tch)
                | Some v \<Rightarrow>
                    if total_csize ctx \<ge> SESSION_CURSOR_NUM
                    then map_option (\<lambda>(c, tch, r). (c, tch)) (hand_cursors sv eng tch (u32 (int (length v))) (total_csize ctx) True
                           (\<lambda>tch cs. Free_session_cursors tch cs (s32 (int (length v)))) c)
                    else Some (c, tch) })"

definition ctc_free_cursors_no_autocommit :: "server \<Rightarrow> 'e engine \<Rightarrow> ctc_handler \<Rightarrow> 'e conn \<Rightarrow> ('e conn \<times> ctc_handler) option" where
  "ctc_free_cursors_no_autocommit sv eng tch c =
     (if \<not> th_multi_stmt (cn_thd c) then Some (c, tch)
      else do {
        ctx \<leftarrow> ctx_of c;
        if total_csize ctx \<le> sv_max_cursors_no_autocommit sv then Some (c, tch)
        else map_option (\<lambda>(c, tch, r). (c, tch)) (hand_cursors sv eng tch (total_csize ctx) (total_csize ctx) False
               (\<lambda>tch cs. Free_session_cursors tch cs (total_csize ctx)) c) })"

text \<open>At the end of the connection the context and its message block are released.\<close>

definition release_sess_ctx :: "'e conn \<Rightarrow> 'e conn option" where
  "release_sess_ctx c = do {
     ctx \<leftarrow> ctx_of c;
     Some (set_thd (\<lambda>t. t\<lparr>th_ha_data := None\<rparr>)
       (case sc_msg_buf ctx of None \<Rightarrow> c | Some b \<Rightarrow> c\<lparr>cn_shm := shm_free b (cn_shm c)\<rparr>)) }"


section \<open>Modes of the server\<close>

definition is_work_flow :: "server \<Rightarrow> bool" where
  "is_work_flow sv \<longleftrightarrow> sv_started sv \<and> \<not> sv_initialize sv"

definition is_meta_version_upgrading_force :: "server \<Rightarrow> bool" where
  "is_meta_version_upgrading_force sv \<longleftrightarrow> sv_normalized sv \<and> sv_upgrade_force sv"

definition is_create_table_check :: "thd \<Rightarrow> bool" where
  "is_create_table_check t \<longleftrightarrow> th_sql_command t = ''SQLCOM_CREATE_TABLE'' \<and> th_exec_started t"

definition is_lock_table :: "thd \<Rightarrow> bool" where
  "is_lock_table t \<longleftrightarrow> th_sql_command t = ''SQLCOM_LOCK_TABLES''"

definition is_ctc_mdl_thd :: "thd \<Rightarrow> bool" where
  "is_ctc_mdl_thd t \<longleftrightarrow> th_query t = Some (bytes_of ''ctc_mdl_thd_notify'')"

definition has_flag :: "thd_sess_ctx \<Rightarrow> nat \<Rightarrow> bool" where
  "has_flag ctx f \<longleftrightarrow> and (sc_set_flag ctx) f \<noteq> 0"

definition ddl_enabled_normal :: "server \<Rightarrow> 'e conn \<Rightarrow> ('e conn \<times> bool) option" where
  "ddl_enabled_normal sv c =
     (case get_or_init_sess_ctx sv c of
        (c, None) \<Rightarrow> None
      | (c, Some ctx) \<Rightarrow> Some (c, \<not> has_flag ctx CTC_DDL_LOCAL_ENABLED \<and> (sv_concurrent_ddl sv \<or> has_flag ctx CTC_DDL_ENABLED)))"

definition engine_skip_ddl :: "server \<Rightarrow> 'e conn \<Rightarrow> ('e conn \<times> bool) option" where
  "engine_skip_ddl sv c =
     (case get_or_init_sess_ctx sv c of
        (c, None) \<Rightarrow> None
      | (c, Some ctx) \<Rightarrow> Some (c, has_flag ctx CTC_DDL_LOCAL_ENABLED \<and> sv_concurrent_ddl sv))"

definition engine_ddl_passthru :: "server \<Rightarrow> 'e conn \<Rightarrow> ('e conn \<times> bool) option" where
  "engine_ddl_passthru sv c =
     (if sv_initialize sv \<or> is_meta_version_upgrading_force sv then Some (c, False)
      else case get_or_init_sess_ctx sv c of
             (c, None) \<Rightarrow> None
           | (c, Some ctx) \<Rightarrow> Some (c, sv_initialize sv \<or> \<not> sv_started sv \<or> has_flag ctx CTC_DDL_LOCAL_ENABLED))"

section \<open>Objects of the dictionary for the other servers\<close>

text \<open>
  The entries of a broadcast, \<open>invalidate_obj_entry_t\<close>: a type and two names in arrays of 128 bytes. \<open>strncpy\<close> copies 127
  bytes and leaves the last of the array. The entries follow a first byte that says whether it is the last broadcast of
  a statement.
\<close>

definition OBJ_ENTRY_SIZE :: nat where "OBJ_ENTRY_SIZE = 2 * SMALL_RECORD_SIZE + 1"

definition put_entry :: "nat \<Rightarrow> nat \<Rightarrow> byte list \<Rightarrow> byte list \<Rightarrow> byte list \<Rightarrow> byte list option" where
  "put_entry n typ name1 name2 buff =
     (if n + OBJ_ENTRY_SIZE \<le> length buff
      then Some (take n buff @ [of_nat typ] @
             strncpy (take SMALL_RECORD_SIZE (drop (n + 1) buff)) name1 (SMALL_RECORD_SIZE - 1) @
             strncpy (take SMALL_RECORD_SIZE (drop (n + 1 + SMALL_RECORD_SIZE) buff)) name2 (SMALL_RECORD_SIZE - 1) @
             drop (n + OBJ_ENTRY_SIZE) buff)
      else None)"

definition broadcast_dd :: "'e engine \<Rightarrow> ctc_handler \<Rightarrow> invalidate_broadcast_request \<Rightarrow> 'e conn \<Rightarrow>
    'e conn \<times> ctc_handler \<times> invalidate_broadcast_request" where
  "broadcast_dd eng tch req c =
     (case request eng (Dd_invalidate tch req) c of (c, r) \<Rightarrow> (c, ry_tch r, req\<lparr>iv_err_code := ry_err_code r\<rparr>))"

definition broadcast_and_reload_buffer :: "'e engine \<Rightarrow> ctc_handler \<Rightarrow> invalidate_broadcast_request \<Rightarrow> 'e conn \<Rightarrow>
    'e conn \<times> ctc_handler \<times> invalidate_broadcast_request" where
  "broadcast_and_reload_buffer eng tch req c =
     (if iv_buff_len req + OBJ_ENTRY_SIZE > DD_BROADCAST_RECORD_LENGTH
      then case broadcast_dd eng tch req c of
             (c, tch, req) \<Rightarrow> (c, tch, req\<lparr>iv_buff := zeros DD_BROADCAST_RECORD_LENGTH, iv_buff_len := 1\<rparr>)
      else (c, tch, req))"

definition add_entry :: "'e engine \<Rightarrow> nat \<Rightarrow> byte list \<Rightarrow> byte list \<Rightarrow> ctc_handler \<Rightarrow> invalidate_broadcast_request \<Rightarrow> 'e conn \<Rightarrow>
    ('e conn \<times> ctc_handler \<times> invalidate_broadcast_request) option" where
  "add_entry eng typ name1 name2 tch req c =
     (case broadcast_and_reload_buffer eng tch req c of
        (c, tch, req) \<Rightarrow> do {
          b \<leftarrow> put_entry (iv_buff_len req) typ name1 name2 (iv_buff req);
          Some (c, tch, req\<lparr>iv_buff := b, iv_buff_len := iv_buff_len req + OBJ_ENTRY_SIZE\<rparr>) })"

fun send_objs :: "'e engine \<Rightarrow> (nat \<Rightarrow> obj_kind) \<Rightarrow> ((byte list \<times> byte list) \<times> nat) list \<Rightarrow> ctc_handler \<Rightarrow> invalidate_broadcast_request \<Rightarrow> 'e conn \<Rightarrow>
    ('e conn \<times> ctc_handler \<times> invalidate_broadcast_request) option" where
  "send_objs eng kind [] tch req c = Some (c, tch, req)"
| "send_objs eng kind (((name1, name2), typ) # objs) tch req c =
     (case kind typ of
        OBJ_CHARSET \<Rightarrow> send_objs eng kind objs tch req c
      | OBJ_COLLATION \<Rightarrow> send_objs eng kind objs tch req c
      | OBJ_UNKNOWN \<Rightarrow> send_objs eng kind objs tch req c
      | k \<Rightarrow> do {
          (c, tch, req) \<leftarrow> add_entry eng typ name1
             (if k \<in> {OBJ_SCHEMA, OBJ_TABLESPACE, OBJ_RESOURCE_GROUP, OBJ_SPATIAL_REFERENCE_SYSTEM} then [] else name2) tch req c;
          send_objs eng kind objs tch req c })"

definition invalidate_remote_dd :: "server \<Rightarrow> 'e engine \<Rightarrow> ctc_handler \<Rightarrow> 'e conn \<Rightarrow> ('e conn \<times> ctc_handler) option" where
  "invalidate_remote_dd sv eng tch c =
     (let req = (sv_stack sv)\<lparr>iv_mysql_inst_id := sv_inst_id sv, iv_is_dcl := False\<rparr>; objs = th_invalidates (cn_thd c)
      in if length objs \<ge> DD_BROADCAST_RECORD_SIZE
         then case broadcast_dd eng tch (req\<lparr>iv_buff_len := 0\<rparr>) c of (c, tch, req) \<Rightarrow> Some (c, tch)
         else do {
           (c, tch, req) \<leftarrow> send_objs eng (sv_obj_kind sv) objs tch
              (req\<lparr>iv_buff_len := 1, iv_is_flush := (tch_sql_command tch = sv_command_no sv ''SQLCOM_FLUSH'')\<rparr>) c;
           case broadcast_dd eng tch (req\<lparr>iv_buff := (iv_buff req)[0 := of_char CHR ''1'']\<rparr>) c of (c, tch, req) \<Rightarrow> Some (c, tch) })"

definition commit_preprocess :: "server \<Rightarrow> 'e engine \<Rightarrow> ctc_handler \<Rightarrow> 'e conn \<Rightarrow> ('e conn \<times> ctc_handler) option" where
  "commit_preprocess sv eng tch c =
     (if sv_normalized sv \<and> is_work_flow sv \<and> th_invalidates (cn_thd c) \<noteq> [] \<and> \<not> th_attachable (cn_thd c)
      then map_option (\<lambda>(c, tch). (set_thd (\<lambda>t. t\<lparr>th_invalidates := []\<rparr>) c, tch)) (invalidate_remote_dd sv eng tch c)
      else Some (c, tch))"

definition attachable_trx_update_pre_addr :: "server \<Rightarrow> thd \<Rightarrow> bool \<Rightarrow> ctc_handler \<Rightarrow> ctc_handler" where
  "attachable_trx_update_pre_addr sv t set_to_pre_addr tch =
     (if sv_normalized sv \<and> th_attachable t \<and> th_isolation t = ISO_READ_UNCOMMITTED \<and> th_pre_sess_addr t \<noteq> 0 \<and>
         th_plan_command t = ''SQLCOM_RENAME_TABLE''
      then tch\<lparr>tch_pre_sess_addr := (if set_to_pre_addr then th_pre_sess_addr t else 0)\<rparr> else tch)"


section \<open>Transactions\<close>

definition isolation_level_to_cantian :: "tx_isolation \<Rightarrow> int" where
  "isolation_level_to_cantian level = (if level = ISO_SERIALIZABLE then 3 else 1)"

definition begin_time :: "server \<Rightarrow> int \<times> int" where
  "begin_time sv = (if sv_enable_stat sv then sv_now sv else (INVALID_INT64, INVALID_INT64))"

definition trans_register_ha :: "bool \<Rightarrow> 'e conn \<Rightarrow> 'e conn" where
  "trans_register_ha all = set_thd (\<lambda>t. if all then t\<lparr>th_reg_all := True\<rparr> else t\<lparr>th_reg_stmt := True\<rparr>)"

definition ctc_start_trx_and_assign_scn :: "server \<Rightarrow> 'e engine \<Rightarrow> 'e conn \<Rightarrow> ('e conn \<times> mysql_errno) option" where
  "ctc_start_trx_and_assign_scn sv eng c = do {
     (c, passthru) \<leftarrow> engine_ddl_passthru sv c;
     if passthru \<and> th_alter_copy (cn_thd c) \<or> th_isolation (cn_thd c) \<noteq> ISO_REPEATABLE_READ then Some (c, NO_ERROR)
     else do {
       (c, tch, ret) \<leftarrow> get_tch_in_handler_data sv True c;
       if ret \<noteq> NO_ERROR then Some (c, ret)
       else do {
         ctx \<leftarrow> ctx_of c;
         if sc_is_ctc_trx_begin ctx \<noteq> 0 then None
         else let autocommit = (if th_multi_stmt (cn_thd c) then 0 else 1);
                  trx = \<lparr>tc_isolation_level = isolation_level_to_cantian (th_isolation (cn_thd c)), tc_autocommit = autocommit,
                         tc_lock_wait_timeout = th_lock_wait_timeout (cn_thd c), tc_use_exclusive_lock = False\<rparr>
              in case request eng (Trx_begin tch trx (has_flag ctx CTC_DDL_LOCAL_ENABLED) (begin_time sv) (sv_enable_stat sv)) c of
                   (c, r) \<Rightarrow>
                     let c = update_sess_ctx_by_tch sv (ry_tch r) c
                     in if ry_code r \<noteq> CT_SUCCESS then Some (c, convert_ctc_error_code_to_mysql_impl (ry_code r))
                        else Some (trans_register_ha (autocommit = 0) (set_ctx (\<lambda>x. x\<lparr>sc_is_ctc_trx_begin := 1\<rparr>) c), NO_ERROR) } } }"

text \<open>
  \<open>start_stmt\<close> of the handler with \<open>m_tch\<close> and its lock: a statement of a running transaction only announces itself to
  the statistics. The error of the begin is looked at after \<open>check_error_code_to_mysql\<close>.
\<close>

definition start_stmt :: "server \<Rightarrow> 'e engine \<Rightarrow> bool \<Rightarrow> ctc_handler \<Rightarrow> 'e conn \<Rightarrow> ('e conn \<times> ctc_handler \<times> mysql_errno) option" where
  "start_stmt sv eng exclusive m_tch c = do {
     (c, m_tch) \<leftarrow> update_member_tch sv False m_tch (trans_register_ha False c);
     case get_or_init_sess_ctx sv c of
       (c, None) \<Rightarrow> Some (c, m_tch, HA_ERR_OUT_OF_MEM)
     | (c, Some ctx) \<Rightarrow>
         let t = cn_thd c; c = set_ctx (\<lambda>x. x\<lparr>sc_thd_id := th_thread_id t\<rparr>) c;
             c = (if th_in_sub_stmt t then c else set_ctx (\<lambda>x. x\<lparr>sc_sql_stat_start := 1\<rparr>) c);
             m_tch = (if th_in_sub_stmt t then m_tch else m_tch\<lparr>tch_sql_stat_start := 1\<rparr>)
         in if th_plan_command t = ''SQLCOM_LOCK_TABLES'' then Some (c, m_tch, NO_ERROR)
            else if sc_is_ctc_trx_begin ctx \<noteq> 0
            then if tch_sess_addr m_tch = INVALID_VALUE64 \<or> tch_thd_id m_tch \<noteq> th_thread_id t then None
                 else case request eng (Statistic_begin m_tch (begin_time sv) (sv_enable_stat sv)) c of
                        (c, r) \<Rightarrow> Some (c, ry_tch r, if ry_code r \<noteq> CT_SUCCESS then convert_ctc_error_code_to_mysql_impl (ry_code r) else NO_ERROR)
            else let autocommit = (if th_multi_stmt t then 0 else 1);
                     trx = \<lparr>tc_isolation_level = isolation_level_to_cantian (th_isolation t), tc_autocommit = autocommit,
                            tc_lock_wait_timeout = th_lock_wait_timeout t, tc_use_exclusive_lock = exclusive\<rparr>
                 in case request eng (Trx_begin m_tch trx (has_flag ctx CTC_DDL_LOCAL_ENABLED) (begin_time sv) (sv_enable_stat sv)) c of
                      (c, r) \<Rightarrow>
                        (case check_error_code_to_mysql (th_no_fk_check t) (ry_code r) of
                           (ret, mark) \<Rightarrow>
                             let c = (if mark then set_thd (\<lambda>t. t\<lparr>th_rollback_marked := True\<rparr>) c else c);
                                 c = update_sess_ctx_by_tch sv (ry_tch r) c
                             in if ret \<noteq> CT_SUCCESS then Some (c, ry_tch r, convert_ctc_error_code_to_mysql_impl ret)
                                else let c = set_ctx (\<lambda>x. x\<lparr>sc_is_ctc_trx_begin := 1\<rparr>) c
                                     in Some (if autocommit = 0 then trans_register_ha True c else c, ry_tch r, NO_ERROR)) }"

text \<open>
  \<open>external_lock\<close>: \<open>logs\<close> says whether the table is one of MySQL's logs kept in the engine, \<open>unlock\<close> whether the lock type is
  \<open>F_UNLCK\<close>. The last output is the new lock mode of the handler where it changes.
\<close>

definition external_lock :: "server \<Rightarrow> 'e engine \<Rightarrow> bool \<Rightarrow> bool \<Rightarrow> bool \<Rightarrow> ctc_handler \<Rightarrow> 'e conn \<Rightarrow>
    ('e conn \<times> ctc_handler \<times> mysql_errno \<times> bool) option" where
  "external_lock sv eng logs unlock exclusive m_tch c =
     (if sv_normalized sv \<and> logs
      then if th_in_sub_stmt (cn_thd c) then Some (c, m_tch, NO_ERROR, exclusive)
           else case get_or_init_sess_ctx sv c of
                  (c, None) \<Rightarrow> None
                | (c, Some ctx) \<Rightarrow> Some (set_ctx (\<lambda>x. x\<lparr>sc_sql_stat_start := 1\<rparr>) c, m_tch\<lparr>tch_sql_stat_start := 1\<rparr>, NO_ERROR, exclusive)
      else do {
        (c, passthru) \<leftarrow> engine_ddl_passthru sv c;
        if passthru \<and> (is_create_table_check (cn_thd c) \<or> th_alter_copy (cn_thd c)) then Some (c, m_tch, NO_ERROR, exclusive)
        else if unlock then Some (c, m_tch, NO_ERROR, False)
        else map_option (\<lambda>(c, m_tch, ret). (c, m_tch, ret, exclusive)) (start_stmt sv eng exclusive m_tch c) })"

definition tolower :: "byte \<Rightarrow> byte" where
  "tolower b = (if 65 \<le> b \<and> b \<le> 90 then b + 32 else b)"

definition is_dml_cmd :: "byte list \<Rightarrow> bool" where
  "is_dml_cmd sql \<longleftrightarrow> length sql \<ge> 6 \<and>
     map tolower (take 6 sql) \<in> {bytes_of ''select'', bytes_of ''insert'', bytes_of ''delete'', bytes_of ''update''}"

text \<open>The statement of a committed atomic definition of data, for the other servers.\<close>

definition ddl_commit_request :: "server \<Rightarrow> thd \<Rightarrow> ddl_broadcast_request" where
  "ddl_commit_request sv t =
     \<lparr>db_db_name = (if th_db t = [] then zeros SMALL_RECORD_SIZE else name_array (th_db t)),
      db_sql_str = strncpy (zeros MAX_DDL_SQL_LEN) (case th_query t of None \<Rightarrow> [] | Some q \<Rightarrow> q) (MAX_DDL_SQL_LEN - 1),
      db_user_name = name_array (th_user t), db_user_ip = name_array (th_host t), db_mysql_inst_id = sv_inst_id sv, db_err_code = 0,
      db_sql_command = command_no sv t, db_options = 0, db_err_msg = zeros ERROR_MESSAGE_LEN\<rparr>"

definition broadcast_ddl_commit :: "server \<Rightarrow> 'e engine \<Rightarrow> ctc_handler \<Rightarrow> 'e conn \<Rightarrow> ('e conn \<times> ctc_handler) option" where
  "broadcast_ddl_commit sv eng tch c = do {
     (c, skip) \<leftarrow> engine_skip_ddl sv c;
     if skip then Some (c, tch)
     else case request eng (Execute_ddl tch (ddl_commit_request sv (cn_thd c)) False) c of
            (c, r) \<Rightarrow> if ry_code r = CT_SUCCESS then Some (c, ry_tch r) else None }"

definition end_statement :: "bool \<Rightarrow> 'e conn \<Rightarrow> 'e conn" where
  "end_statement trx c = (if trx then c else set_ctx (\<lambda>x. x\<lparr>sc_sql_stat_start := 1\<rparr>) c)"

definition commit_transaction :: "server \<Rightarrow> 'e engine \<Rightarrow> byte list option \<Rightarrow> ctc_handler \<Rightarrow> 'e conn \<Rightarrow> ('e conn \<times> ctc_handler \<times> ct_errno) option" where
  "commit_transaction sv eng sql_str tch c = do {
     (c, tch) \<leftarrow> commit_preprocess sv eng tch c;
     let tch = attachable_trx_update_pre_addr sv (cn_thd c) True tch;
     ctx \<leftarrow> ctx_of c;
     (c, tch, r) \<leftarrow> hand_cursors sv eng tch (total_csize ctx) (total_csize ctx) False
       (\<lambda>tch cs. Trx_commit tch cs (total_csize ctx) sql_str (sv_enable_stat sv)) c;
     if ry_code r \<noteq> CT_SUCCESS then Some (c, tch, ry_code r)
     else map_option (\<lambda>(c, tch). (set_ctx (\<lambda>x. x\<lparr>sc_is_ctc_trx_begin := 0\<rparr>) c, tch, CT_SUCCESS))
            (if ry_ddl_commit r then broadcast_ddl_commit sv eng tch c else Some (c, tch)) }"

definition commit_statement :: "server \<Rightarrow> 'e engine \<Rightarrow> byte list option \<Rightarrow> ctc_handler \<Rightarrow> 'e conn \<Rightarrow> ('e conn \<times> ctc_handler \<times> ct_errno) option" where
  "commit_statement sv eng sql_str tch c =
     (let (c, r) = (if sql_str \<noteq> None then request eng (Statistic_commit tch sql_str (sv_enable_stat sv)) c
                    else (c, \<lparr>ry_tch = tch, ry_code = CT_SUCCESS, ry_ddl_commit = False, ry_err_code = 0\<rparr>))
      in if ry_code r \<noteq> CT_SUCCESS then Some (c, ry_tch r, ry_code r)
         else map_option (\<lambda>(c, tch). (c, tch, CT_SUCCESS)) (ctc_free_cursors_no_autocommit sv eng (ry_tch r) c))"

text \<open>The end of a commit: the border of the statement, and the statistics of a table that was copied.\<close>

definition commit_end :: "'e engine \<Rightarrow> bool \<Rightarrow> thd \<Rightarrow> 'e conn \<times> ctc_handler \<times> ct_errno \<Rightarrow> 'e conn \<times> mysql_errno" where
  "commit_end eng commit_trx t = (\<lambda>(c, tch, code).
     if code \<noteq> CT_SUCCESS then (c, convert_ctc_error_code_to_mysql_impl code)
     else let c = end_statement commit_trx c; tch = (if commit_trx then tch else tch\<lparr>tch_sql_stat_start := 1\<rparr>)
          in if commit_trx \<and> th_sql_command t = ''SQLCOM_ALTER_TABLE'' \<and> th_alter_copy t
             then (fst (request eng (Analyze_table (tch\<lparr>tch_part_id := INVALID_PART_ID\<rparr>) (fst (th_table t)) (snd (th_table t))) c), NO_ERROR)
             else (c, NO_ERROR))"

text \<open>The statement goes to the statistics when it is a query or a change of rows.\<close>

definition statistic_sql :: "server \<Rightarrow> thd \<Rightarrow> byte list option" where
  "statistic_sql sv t = (case th_query t of None \<Rightarrow> None | Some q \<Rightarrow> if sv_enable_stat sv \<and> length q > 0 \<and> is_dml_cmd q then Some q else None)"

definition ctc_commit :: "server \<Rightarrow> 'e engine \<Rightarrow> bool \<Rightarrow> 'e conn \<Rightarrow> ('e conn \<times> mysql_errno) option" where
  "ctc_commit sv eng commit_trx c = do {
     (c, passthru) \<leftarrow> engine_ddl_passthru sv c;
     let t = cn_thd c;
     if passthru \<and> (th_alter_copy t \<or> is_create_table_check t \<or> is_lock_table t) then Some (c, NO_ERROR)
     else do {
       let will_commit = (commit_trx \<or> \<not> th_multi_stmt t);
       (c, tch, ret) \<leftarrow> get_tch_in_handler_data sv will_commit c;
       if ret \<noteq> NO_ERROR then Some (c, ret)
       else map_option (commit_end eng commit_trx t)
              (if will_commit then commit_transaction sv eng (statistic_sql sv t) tch c else commit_statement sv eng (statistic_sql sv t) tch c) } }"

text \<open>
  A rollback of the transaction, of the statement when it has run (the engine's savepoint at its start), or nothing but the
  release of cursors. The result of the rollback to the savepoint is not looked at.
\<close>

definition ctc_rollback :: "server \<Rightarrow> 'e engine \<Rightarrow> bool \<Rightarrow> 'e conn \<Rightarrow> ('e conn \<times> mysql_errno) option" where
  "ctc_rollback sv eng rollback_trx c = do {
     let t = cn_thd c;
     let will_rollback = (rollback_trx \<or> \<not> th_multi_stmt t);
     (c, tch, ret) \<leftarrow> get_tch_in_handler_data sv True c;
     if ret \<noteq> NO_ERROR then Some (c, ret)
     else do {
       ctx \<leftarrow> ctx_of c;
       if will_rollback
       then do {
         (c, tch, r) \<leftarrow> hand_cursors sv eng tch (total_csize ctx) (total_csize ctx) False (\<lambda>tch cs. Trx_rollback tch cs (total_csize ctx)) c;
         if ry_code r \<noteq> CT_SUCCESS then Some (c, convert_ctc_error_code_to_mysql_impl (ry_code r))
         else Some (end_statement rollback_trx (set_ctx (\<lambda>x. x\<lparr>sc_is_ctc_trx_begin := 0\<rparr>) c), NO_ERROR) }
       else if sc_sql_stat_start ctx = 0
       then do {
         (c, tch, r) \<leftarrow> hand_cursors sv eng tch (total_csize ctx) (total_csize ctx) False
           (\<lambda>tch cs. Rollback_savepoint tch cs (total_csize ctx) CTC_SQL_START_INTERNAL_SAVEPOINT) c;
         Some (end_statement rollback_trx c, NO_ERROR) }
       else map_option (\<lambda>(c, tch). (end_statement rollback_trx c, NO_ERROR)) (ctc_free_cursors_no_autocommit sv eng tch c) } }"

definition local_tch :: "ctc_handler \<Rightarrow> ctc_handler" where
  "local_tch tch = zero_tch\<lparr>tch_inst_id := tch_inst_id tch, tch_sess_addr := tch_sess_addr tch, tch_thd_id := tch_thd_id tch\<rparr>"

definition ctc_close_connect :: "server \<Rightarrow> 'e engine \<Rightarrow> 'e conn \<Rightarrow> ('e conn \<times> mysql_errno) option" where
  "ctc_close_connect sv eng c = do {
     let t = cn_thd c;
     (c, tch, ret) \<leftarrow> get_tch_in_handler_data sv True c;
     if ret \<noteq> NO_ERROR then Some (c, ret)
     else case request eng (Close_session ((local_tch tch)\<lparr>tch_is_broadcast := \<not> (th_attachable t \<or> sv_initialize sv \<or> is_ctc_mdl_thd t)\<rparr>)) c of
            (c, r) \<Rightarrow> map_option (\<lambda>c. (c, convert_ctc_error_code_to_mysql_impl (ry_code r))) (release_sess_ctx c) }"

definition ctc_kill_connection :: "server \<Rightarrow> 'e engine \<Rightarrow> 'e conn \<Rightarrow> 'e conn option" where
  "ctc_kill_connection sv eng c = do {
     (c, tch, ret) \<leftarrow> get_tch_in_handler_data sv True c;
     if ret \<noteq> NO_ERROR \<or> tch_sess_addr tch = INVALID_VALUE64 \<or> is_ddl_sql_cmd (th_sql_command (cn_thd c)) then Some c
     else Some (fst (request eng (Kill_session (local_tch tch)) c)) }"

section \<open>Savepoints\<close>

definition ctc_set_savepoint :: "server \<Rightarrow> 'e engine \<Rightarrow> nat \<Rightarrow> 'e conn \<Rightarrow> ('e conn \<times> mysql_errno) option" where
  "ctc_set_savepoint sv eng savepoint c = do {
     let name = sv_savepoint_name sv savepoint;
     (c, tch, ret) \<leftarrow> get_tch_in_handler_data sv True c;
     if ret \<noteq> NO_ERROR then Some (c, ret)
     else if name = CTC_SQL_START_INTERNAL_SAVEPOINT then Some (c, ER_DISALLOWED_OPERATION)
     else case request eng (Set_savepoint tch name) c of (c, r) \<Rightarrow> Some (c, convert_ctc_error_code_to_mysql_impl (ry_code r)) }"

definition ctc_rollback_savepoint :: "server \<Rightarrow> 'e engine \<Rightarrow> nat \<Rightarrow> 'e conn \<Rightarrow> ('e conn \<times> mysql_errno) option" where
  "ctc_rollback_savepoint sv eng savepoint c = do {
     let name = sv_savepoint_name sv savepoint;
     (c, tch, ret) \<leftarrow> get_tch_in_handler_data sv True c;
     if ret \<noteq> NO_ERROR then Some (c, ret)
     else do {
       ctx \<leftarrow> ctx_of c;
       (c, tch, r) \<leftarrow> hand_cursors sv eng tch (total_csize ctx) (total_csize ctx) False (\<lambda>tch cs. Rollback_savepoint tch cs (total_csize ctx) name) c;
       Some (c, convert_ctc_error_code_to_mysql_impl (ry_code r)) } }"

definition ctc_release_savepoint :: "server \<Rightarrow> 'e engine \<Rightarrow> nat \<Rightarrow> 'e conn \<Rightarrow> ('e conn \<times> mysql_errno) option" where
  "ctc_release_savepoint sv eng savepoint c =
     (if th_plan_command (cn_thd c) = ''SQLCOM_SAVEPOINT'' then Some (c, NO_ERROR)
      else do {
        let name = sv_savepoint_name sv savepoint;
        (c, tch, ret) \<leftarrow> get_tch_in_handler_data sv True c;
        if ret \<noteq> NO_ERROR then Some (c, ret)
        else case request eng (Release_savepoint tch name) c of (c, r) \<Rightarrow> Some (c, convert_ctc_error_code_to_mysql_impl (ry_code r)) })"

section \<open>What the calls say\<close>

text \<open>
  The state of the transaction as the calls give it: no violation so far and a transaction is open or not. A begin needs
  that none is open, a statement of a transaction that one is.
\<close>

fun trx_next :: "call \<times> ct_errno \<Rightarrow> bool option \<Rightarrow> bool option" where
  "trx_next (Trx_begin _ _ _ _ _, code) s = (if s = Some False then Some (code = CT_SUCCESS) else None)"
| "trx_next (Statistic_begin _ _ _, code) s = (if s = Some True then s else None)"
| "trx_next (Trx_commit _ _ _ _ _, code) s = (if code = CT_SUCCESS then map_option (\<lambda>_. False) s else s)"
| "trx_next (Trx_rollback _ _ _, code) s = (if code = CT_SUCCESS then map_option (\<lambda>_. False) s else s)"
| "trx_next (Close_session _, code) s = map_option (\<lambda>_. False) s"
| "trx_next _ s = s"

definition trx_state :: "(call \<times> ct_errno) list \<Rightarrow> bool option" where
  "trx_state tr = fold trx_next tr (Some False)"

text \<open>The cursors a call hands back to the engine, with the number it states.\<close>

fun handed :: "call \<Rightarrow> nat list" where
  "handed (Trx_commit _ cs _ _ _) = cs"
| "handed (Trx_rollback _ cs _) = cs"
| "handed (Rollback_savepoint _ cs _ _) = cs"
| "handed (Free_session_cursors _ cs _) = cs"
| "handed _ = []"

definition trace_handed :: "(call \<times> ct_errno) list \<Rightarrow> nat multiset" where
  "trace_handed tr = mset (concat (map (handed \<circ> fst) tr))"

definition held :: "'e conn \<Rightarrow> nat multiset" where
  "held c = (case ctx_of c of None \<Rightarrow> {#} | Some x \<Rightarrow> mset (map snd (sc_cursors_map x)) + mset (case sc_invalid_cursors x of None \<Rightarrow> [] | Some v \<Rightarrow> v))"

definition own :: "'e conn \<Rightarrow> nat multiset" where
  "own c = (case ctx_of c of None \<Rightarrow> {#} | Some x \<Rightarrow> (case sc_msg_buf x of None \<Rightarrow> {#} | Some b \<Rightarrow> {#b#}))"

text \<open>
  A connection with a transaction open or not, blocks \<open>bufs\<close> besides the session's own and cursors \<open>pend\<close> taken from the context
  and not yet handed back; and the context says the same of the transaction.
\<close>

definition conn_mid :: "shm \<Rightarrow> nat multiset \<Rightarrow> nat multiset \<Rightarrow> nat multiset \<Rightarrow> bool \<Rightarrow> 'e conn \<Rightarrow> bool" where
  "conn_mid h0 seen bufs pend opn c \<longleftrightarrow>
     trx_state (cn_trace c) = Some opn \<and> mset (sh_live (cn_shm c)) = mset (sh_live h0) + own c + bufs \<and>
     sh_bad_frees (cn_shm c) = sh_bad_frees h0 \<and> seen = trace_handed (cn_trace c) + held c + pend"

definition linked :: "bool \<Rightarrow> 'e conn \<Rightarrow> bool" where
  "linked opn c \<longleftrightarrow>
     (case ctx_of c of
        None \<Rightarrow> \<not> opn
      | Some x \<Rightarrow> if sc_thd_id x = th_thread_id (cn_thd c)
                  then (sc_is_ctc_trx_begin x \<noteq> 0) = opn \<and> (opn \<longrightarrow> sc_sess_addr x \<noteq> INVALID_VALUE64)
                  else sc_is_ctc_trx_begin x = 0 \<and> \<not> opn)"

definition conn_ok :: "shm \<Rightarrow> nat multiset \<Rightarrow> 'e conn \<Rightarrow> bool" where
  "conn_ok h0 seen c \<longleftrightarrow> (\<exists>opn. conn_mid h0 seen {#} {#} opn c \<and> linked opn c)"

text \<open>
  What is used of the engine: it does not change the number of the thread, a transaction it begins has a session, and a begin
  does not fail with the two errors of foreign keys.
\<close>

fun call_tch :: "call \<Rightarrow> ctc_handler" where
  "call_tch (Trx_begin t _ _ _ _) = t"
| "call_tch (Statistic_begin t _ _) = t"
| "call_tch (Trx_commit t _ _ _ _) = t"
| "call_tch (Statistic_commit t _ _) = t"
| "call_tch (Trx_rollback t _ _) = t"
| "call_tch (Set_savepoint t _) = t"
| "call_tch (Rollback_savepoint t _ _ _) = t"
| "call_tch (Release_savepoint t _) = t"
| "call_tch (Free_session_cursors t _ _) = t"
| "call_tch (Close_session t) = t"
| "call_tch (Kill_session t) = t"
| "call_tch (Execute_ddl t _ _) = t"
| "call_tch (Dd_invalidate t _) = t"
| "call_tch (Analyze_table t _ _) = t"

definition session_engine :: "'e engine \<Rightarrow> bool" where
  "session_engine eng \<longleftrightarrow>
     (\<forall>call e. tch_thd_id (ry_tch (snd (eng call e))) = tch_thd_id (call_tch call)) \<and>
     (\<forall>t x l b s e. let r = snd (eng (Trx_begin t x l b s) e)
        in (ry_code r = CT_SUCCESS \<longrightarrow> tch_sess_addr (ry_tch r) \<noteq> INVALID_VALUE64) \<and>
           ry_code r \<noteq> ERR_CONSTRAINT_VIOLATED_NO_FOUND \<and> ry_code r \<noteq> ERR_ROW_IS_REFERENCED)"

named_theorems conn_simps

lemma trx_state_snoc [conn_simps]: "trx_state (tr @ [x]) = trx_next x (trx_state tr)"
  by (simp add: trx_state_def)

lemma trace_handed_snoc [conn_simps]: "trace_handed (tr @ [x]) = trace_handed tr + mset (handed (fst x))"
  by (simp add: trace_handed_def)

lemma set_ctx_simps [conn_simps]:
  "ctx_of (set_ctx f c) = map_option f (ctx_of c)" "cn_shm (set_ctx f c) = cn_shm c" "cn_trace (set_ctx f c) = cn_trace c"
  "cn_engine (set_ctx f c) = cn_engine c" "th_thread_id (cn_thd (set_ctx f c)) = th_thread_id (cn_thd c)"
  by (simp_all add: set_ctx_def set_thd_def)

lemma set_thd_simps [conn_simps]:
  "cn_shm (set_thd g c) = cn_shm c" "cn_trace (set_thd g c) = cn_trace c" "cn_engine (set_thd g c) = cn_engine c" "cn_thd (set_thd g c) = g (cn_thd c)"
  by (simp_all add: set_thd_def)

lemma request_simps:
  assumes "request eng call c = (c', r)"
  shows "cn_thd c' = cn_thd c" "cn_shm c' = cn_shm c" "cn_trace c' = cn_trace c @ [(call, ry_code r)]"
    "r = snd (eng call (cn_engine c))"
  using assms by (auto simp: request_def split: prod.splits)

text \<open>Updates of the context that change neither cursors nor the message block.\<close>

definition keeps_ctx :: "(thd_sess_ctx \<Rightarrow> thd_sess_ctx) \<Rightarrow> bool" where
  "keeps_ctx f \<longleftrightarrow> (\<forall>x. sc_cursors_map (f x) = sc_cursors_map x \<and> sc_invalid_cursors (f x) = sc_invalid_cursors x \<and> sc_msg_buf (f x) = sc_msg_buf x)"

lemma mid_set_ctx: "keeps_ctx f \<Longrightarrow> conn_mid h0 seen B P opn (set_ctx f c) = conn_mid h0 seen B P opn c"
  by (cases "ctx_of c") (auto simp: conn_mid_def own_def held_def conn_simps keeps_ctx_def)

lemma mid_set_thd: "(\<And>t. th_ha_data (g t) = th_ha_data t) \<Longrightarrow> conn_mid h0 seen B P opn (set_thd g c) = conn_mid h0 seen B P opn c"
  by (simp add: conn_mid_def own_def held_def conn_simps)

lemma linked_set_thd: "(\<And>t. th_ha_data (g t) = th_ha_data t) \<Longrightarrow> (\<And>t. th_thread_id (g t) = th_thread_id t) \<Longrightarrow> linked opn (set_thd g c) = linked opn c"
  by (simp add: linked_def conn_simps split: option.split)

lemma mid_request:
  assumes "request eng call c = (c', r)" "conn_mid h0 seen B (P + mset (handed call)) opn c" "trx_next (call, ry_code r) (Some opn) = Some opn'"
  shows "conn_mid h0 seen B P opn' c'"
  using assms(2,3) request_simps [OF assms(1)] by (auto simp: conn_mid_def conn_simps own_def held_def)

lemma linked_same: "cn_thd c' = cn_thd c \<Longrightarrow> linked opn c' = linked opn c"
  by (simp add: linked_def split: option.split)

text \<open>A call that neither begins nor ends a transaction nor hands back cursors.\<close>

lemma neutral_request:
  assumes "request eng call c = (c', r)" "handed call = []" "\<And>s. trx_next (call, ry_code r) s = s" "conn_mid h0 seen B P opn c"
  shows "conn_mid h0 seen B P opn c'" "cn_thd c' = cn_thd c"
  using mid_request [OF assms(1), of h0 seen B P opn opn] assms request_simps [OF assms(1)] by auto

lemma new_ctx_link: "linked False c \<Longrightarrow> ctx_of c = None \<Longrightarrow> linked False (set_thd (\<lambda>t. t\<lparr>th_ha_data := Some new_ctx\<rparr>) c)"
  by (simp add: linked_def conn_simps new_ctx_def)

lemma init_ctx:
  assumes "get_or_init_sess_ctx sv c = (c', x)" "conn_mid h0 seen B P opn c" "linked opn c"
  shows "conn_mid h0 seen B P opn c'" "linked opn c'" "x = ctx_of c'" "th_thread_id (cn_thd c') = th_thread_id (cn_thd c)"
    "cn_trace c' = cn_trace c" "x \<noteq> None \<or> c' = c" "cn_thd c' = (cn_thd c)\<lparr>th_ha_data := ctx_of c'\<rparr>"
  using assms
  by (auto simp: get_or_init_sess_ctx_def conn_simps new_ctx_link conn_mid_def own_def held_def new_ctx_def linked_def
           split: option.splits if_splits)

lemma alloc_msg:
  assumes "alloc_msg_buf sv alloc tch c = Some (c', tch')" "conn_mid h0 seen B P opn c" "linked opn c"
  shows "conn_mid h0 seen B P opn c'" "linked opn c'" "ctx_of c \<noteq> None" "ctx_of c' \<noteq> None" "tch_thd_id tch' = tch_thd_id tch"
    "tch_sess_addr tch' = tch_sess_addr tch" "th_thread_id (cn_thd c') = th_thread_id (cn_thd c)" 
    "map_option sc_thd_id (ctx_of c') = map_option sc_thd_id (ctx_of c)" "map_option sc_sess_addr (ctx_of c') = map_option sc_sess_addr (ctx_of c)"
    "cn_thd c' = (cn_thd c)\<lparr>th_ha_data := ctx_of c'\<rparr>"
proof -
  obtain x where x: "ctx_of c = Some x" using assms(1) by (cases "ctx_of c") (auto simp: alloc_msg_buf_def)
  have "conn_mid h0 seen B P opn c' \<and> linked opn c' \<and> ctx_of c' \<noteq> None \<and> tch_thd_id tch' = tch_thd_id tch \<and>
    tch_sess_addr tch' = tch_sess_addr tch \<and> th_thread_id (cn_thd c') = th_thread_id (cn_thd c) \<and>
    map_option sc_thd_id (ctx_of c') = map_option sc_thd_id (ctx_of c) \<and> map_option sc_sess_addr (ctx_of c') = map_option sc_sess_addr (ctx_of c) \<and>
    cn_thd c' = (cn_thd c)\<lparr>th_ha_data := ctx_of c'\<rparr>"
  proof (cases "sc_msg_buf x = None \<and> alloc")
    case True
    obtain h ob where al: "shm_alloc (cn_shm c) (sv_msg_size sv) = (h, ob)" by fastforce
    then obtain b where b: "ob = Some b" using assms(1) True x by (cases ob) (auto simp: alloc_msg_buf_def Let_def)
    note a = alloc_some [OF al [unfolded b]]
    show ?thesis using assms True x al b a
      by (auto simp: alloc_msg_buf_def Let_def conn_simps conn_mid_def own_def held_def linked_def bind_core_def set_ctx_def set_thd_def)
  next
    case False
    then show ?thesis using assms x by (auto simp: alloc_msg_buf_def Let_def)
  qed
  then show "conn_mid h0 seen B P opn c'" "linked opn c'" "ctx_of c \<noteq> None" "ctx_of c' \<noteq> None" "tch_thd_id tch' = tch_thd_id tch"
    "tch_sess_addr tch' = tch_sess_addr tch" "th_thread_id (cn_thd c') = th_thread_id (cn_thd c)" 
    "map_option sc_thd_id (ctx_of c') = map_option sc_thd_id (ctx_of c)" "map_option sc_sess_addr (ctx_of c') = map_option sc_sess_addr (ctx_of c)"
    "cn_thd c' = (cn_thd c)\<lparr>th_ha_data := ctx_of c'\<rparr>"
    using x by auto
qed

lemma adopt_linked:
  "linked opn c \<Longrightarrow> linked opn (set_ctx (adopt_ctx (cn_thd c)) c)"
  by (auto simp: linked_def conn_simps adopt_ctx_def split: option.splits if_splits)

lemma keeps_adopt: "keeps_ctx (adopt_ctx t)"
  by (simp add: keeps_ctx_def adopt_ctx_def)

lemma set_ctx_thd: "cn_thd (set_ctx f c) = (cn_thd c)\<lparr>th_ha_data := map_option f (ctx_of c)\<rparr>"
  by (simp add: set_ctx_def set_thd_def)

lemma get_tch:
  assumes "get_tch_in_handler_data sv alloc c = Some (c', tch, ret)" "conn_mid h0 seen B P opn c" "linked opn c"
  shows "conn_mid h0 seen B P opn c'" "linked opn c'" "cn_thd c' = (cn_thd c)\<lparr>th_ha_data := ctx_of c'\<rparr>"
    "ret = NO_ERROR \<Longrightarrow> ctx_of c' \<noteq> None \<and> map_option sc_thd_id (ctx_of c') = Some (th_thread_id (cn_thd c')) \<and> tch_thd_id tch = th_thread_id (cn_thd c')"
proof -
  obtain c1 x where i: "get_or_init_sess_ctx sv c = (c1, x)" by fastforce
  note i' = init_ctx [OF i assms(2,3)]
  have "conn_mid h0 seen B P opn c' \<and> linked opn c' \<and> cn_thd c' = (cn_thd c)\<lparr>th_ha_data := ctx_of c'\<rparr> \<and>
    (ret = NO_ERROR \<longrightarrow> ctx_of c' \<noteq> None \<and> map_option sc_thd_id (ctx_of c') = Some (th_thread_id (cn_thd c')) \<and> tch_thd_id tch = th_thread_id (cn_thd c'))"
  proof (cases x)
    case None
    then show ?thesis using assms i i' by (auto simp: get_tch_in_handler_data_def)
  next
    case (Some ctx)
    define c2 where "c2 = set_ctx (adopt_ctx (cn_thd c1)) c1"
    have 2: "conn_mid h0 seen B P opn c2" "linked opn c2" "ctx_of c2 = Some (adopt_ctx (cn_thd c1) ctx)" "th_thread_id (cn_thd c2) = th_thread_id (cn_thd c1)"
      "cn_thd c2 = (cn_thd c)\<lparr>th_ha_data := ctx_of c2\<rparr>" "sc_thd_id (adopt_ctx (cn_thd c1) ctx) = th_thread_id (cn_thd c)"
      using i' Some adopt_linked [OF i'(2)] mid_set_ctx [OF keeps_adopt, of h0 seen B P opn "cn_thd c1" c1]
      by (simp_all add: c2_def conn_simps set_ctx_thd adopt_ctx_def)
         (metis (no_types, lifting) i'(7) thd.surjective thd.update_convs(2))+
    obtain t where t: "alloc_msg_buf sv alloc t c2 = Some (c', tch)" "ret = NO_ERROR" "tch_thd_id t = sc_thd_id (adopt_ctx (cn_thd c1) ctx)"
      using assms(1) i Some by (auto simp: get_tch_in_handler_data_def Let_def c2_def Option.bind_eq_Some_conv)
    note a = alloc_msg [OF t(1) 2(1,2)]
    show ?thesis using a 2 t by (auto simp: adopt_ctx_def)
  qed
  then show "conn_mid h0 seen B P opn c'" "linked opn c'" "cn_thd c' = (cn_thd c)\<lparr>th_ha_data := ctx_of c'\<rparr>"
    "ret = NO_ERROR \<Longrightarrow> ctx_of c' \<noteq> None \<and> map_option sc_thd_id (ctx_of c') = Some (th_thread_id (cn_thd c')) \<and> tch_thd_id tch = th_thread_id (cn_thd c')"
    by auto
qed

lemma member_tch:
  assumes "update_member_tch sv alloc m c = Some (c', m')" "conn_mid h0 seen B P opn c" "linked opn c"
  shows "conn_mid h0 seen B P opn c'" "linked opn c'" "cn_thd c' = (cn_thd c)\<lparr>th_ha_data := ctx_of c'\<rparr>" "tch_thd_id m' = th_thread_id (cn_thd c')"
    "opn \<Longrightarrow> tch_sess_addr m' \<noteq> INVALID_VALUE64"
proof -
  have "conn_mid h0 seen B P opn c' \<and> linked opn c' \<and> cn_thd c' = (cn_thd c)\<lparr>th_ha_data := ctx_of c'\<rparr> \<and> tch_thd_id m' = th_thread_id (cn_thd c') \<and>
    (opn \<longrightarrow> tch_sess_addr m' \<noteq> INVALID_VALUE64)"
  proof (cases "\<exists>x. ctx_of c = Some x \<and> sc_thd_id x = th_thread_id (cn_thd c)")
    case False
    then show ?thesis using assms by (auto simp: update_member_tch_def Let_def linked_def split: option.splits if_splits)
  next
    case True
    then obtain x where x: "ctx_of c = Some x" "sc_thd_id x = th_thread_id (cn_thd c)" by blast
    obtain t m1 where t: "alloc_msg_buf sv alloc t c = Some (c', m1)" "tch_thd_id t = sc_thd_id x" "tch_sess_addr t = sc_sess_addr x"
        "tch_thd_id m' = tch_thd_id m1" "tch_sess_addr m' = tch_sess_addr m1"
      using assms(1) x by (auto simp: update_member_tch_def Let_def split: if_splits)
    note a = alloc_msg [OF t(1) assms(2,3)]
    show ?thesis using a t x assms(3) by (auto simp: linked_def)
  qed
  then show "conn_mid h0 seen B P opn c'" "linked opn c'" "cn_thd c' = (cn_thd c)\<lparr>th_ha_data := ctx_of c'\<rparr>" "tch_thd_id m' = th_thread_id (cn_thd c')"
    "opn \<Longrightarrow> tch_sess_addr m' \<noteq> INVALID_VALUE64"
    by auto
qed

lemma by_tch:
  assumes "conn_mid h0 seen B P opn c" "linked opn0 c" "tch_thd_id t = th_thread_id (cn_thd c)" "ctx_of c \<noteq> None"
  shows "conn_mid h0 seen B P opn (update_sess_ctx_by_tch sv t c)"
    "ctx_of (update_sess_ctx_by_tch sv t c) = map_option (\<lambda>x. x\<lparr>sc_thd_id := tch_thd_id t, sc_sess_addr := tch_sess_addr t,
       sc_bind_core := tch_bind_core t, sc_sql_stat_start := tch_sql_stat_start t\<rparr>) (ctx_of c)"
    "cn_trace (update_sess_ctx_by_tch sv t c) = cn_trace c" "th_thread_id (cn_thd (update_sess_ctx_by_tch sv t c)) = th_thread_id (cn_thd c)"
proof -
  have g: "fst (get_or_init_sess_ctx sv c) = c" using assms(4) by (auto simp: get_or_init_sess_ctx_def)
  have k: "keeps_ctx (\<lambda>x. x\<lparr>sc_thd_id := tch_thd_id t, sc_sess_addr := tch_sess_addr t,
       sc_bind_core := tch_bind_core t, sc_sql_stat_start := tch_sql_stat_start t\<rparr>)" by (simp add: keeps_ctx_def)
  show "conn_mid h0 seen B P opn (update_sess_ctx_by_tch sv t c)"
    using mid_set_ctx [OF k, of h0 seen B P opn c] assms(1) by (simp add: update_sess_ctx_by_tch_def g)
qed (use assms(4) in \<open>auto simp: update_sess_ctx_by_tch_def get_or_init_sess_ctx_def conn_simps\<close>)

definition bufm :: "nat option \<Rightarrow> nat multiset" where
  "bufm b = (case b of None \<Rightarrow> {#} | Some n \<Rightarrow> {#n#})"

lemma alloc_buf:
  assumes "ctc_alloc_buf sv tch n c = (c', tch', buf)" "conn_mid h0 seen B P opn c"
  shows "conn_mid h0 seen (B + bufm buf) P opn c'" "cn_thd c' = cn_thd c" "tch_thd_id tch' = tch_thd_id tch"
proof -
  obtain h b where al: "shm_alloc (cn_shm c) (nat n) = (h, b)" by fastforce
  have "conn_mid h0 seen (B + bufm buf) P opn c' \<and> cn_thd c' = cn_thd c \<and> tch_thd_id tch' = tch_thd_id tch"
    using assms al alloc_some [of "cn_shm c" "nat n" h] alloc_none [of "cn_shm c" "nat n" h]
    by (cases b) (auto simp: ctc_alloc_buf_def conn_mid_def own_def held_def bufm_def bind_core_def split: if_splits)
  then show "conn_mid h0 seen (B + bufm buf) P opn c'" "cn_thd c' = cn_thd c" "tch_thd_id tch' = tch_thd_id tch" by auto
qed

lemma free_buf:
  assumes "ctc_free_buf sv tch buf c = (c', tch')" "conn_mid h0 seen (B + bufm buf) P opn c"
  shows "conn_mid h0 seen B P opn c'" "cn_thd c' = cn_thd c" "tch_thd_id tch' = tch_thd_id tch" "cn_trace c' = cn_trace c"
proof -
  have "b \<in> set (sh_live (cn_shm c))" if "buf = Some b" for b
    using assms(2) that by (metis (no_types, lifting) bufm_def conn_mid_def in_multiset_in_set option.simps(5) union_iff union_single_eq_member add_mset_add_single)
  then have "conn_mid h0 seen B P opn c' \<and> cn_thd c' = cn_thd c \<and> tch_thd_id tch' = tch_thd_id tch \<and> cn_trace c' = cn_trace c"
    using assms by (cases buf) (auto simp: ctc_free_buf_def conn_mid_def own_def held_def bufm_def bind_core_def shm_free_def)
  then show "conn_mid h0 seen B P opn c'" "cn_thd c' = cn_thd c" "tch_thd_id tch' = tch_thd_id tch" "cn_trace c' = cn_trace c" by auto
qed

lemma copied_cursors:
  assumes "ctc_copy_cursors_to_free cap lft x = Some (x', cs)"
  shows "mset (map snd (sc_cursors_map x)) + mset (case sc_invalid_cursors x of None \<Rightarrow> [] | Some v \<Rightarrow> v) =
      mset (map snd (sc_cursors_map x')) + mset (case sc_invalid_cursors x' of None \<Rightarrow> [] | Some v \<Rightarrow> v) + mset cs"
    "sc_msg_buf x' = sc_msg_buf x" "sc_thd_id x' = sc_thd_id x" "sc_is_ctc_trx_begin x' = sc_is_ctc_trx_begin x" "sc_sess_addr x' = sc_sess_addr x"
    "sc_sql_stat_start x' = sc_sql_stat_start x" "\<not> lft \<Longrightarrow> sc_cursors_map x' = []" "(case sc_invalid_cursors x' of None \<Rightarrow> [] | Some v \<Rightarrow> v) = []"
    "sc_set_flag x' = sc_set_flag x"
  using assms by (auto simp: ctc_copy_cursors_to_free_def Let_def split: if_splits option.splits)

lemma collected:
  assumes "collect_cursors sv tch csize ck lft c = Some (c', tch', buf, cs)" "conn_mid h0 seen B P opn c" "linked o1 c"
  shows "conn_mid h0 seen (B + bufm buf) (P + mset cs) opn c'" "linked o1 c'" "cn_thd c' = (cn_thd c)\<lparr>th_ha_data := ctx_of c'\<rparr>"
    "ctx_of c' \<noteq> None" "tch_thd_id tch' = tch_thd_id tch" "map_option sc_thd_id (ctx_of c') = map_option sc_thd_id (ctx_of c)"
    "\<not> lft \<Longrightarrow> held c' = {#}"
proof -
  obtain c1 t1 b1 where al: "ctc_alloc_buf sv tch (u32 (8 * csize)) c = (c1, t1, b1)" by (metis prod_cases3)
  note a = alloc_buf [OF al assms(2)]
  obtain x x' cap where x: "ctx_of c1 = Some x" "ctc_copy_cursors_to_free cap lft x = Some (x', cs)"
      and c': "c' = set_ctx (\<lambda>_. x') c1" "buf = b1" "tch' = t1"
    using assms(1) al by (auto simp: collect_cursors_def Option.bind_eq_Some_conv split: if_splits)
  note cp = copied_cursors [OF x(2)]
  have "conn_mid h0 seen (B + bufm buf) (P + mset cs) opn c'"
    using a x c' cp by (auto simp: conn_mid_def own_def held_def conn_simps)
  moreover have "linked o1 c'" using assms(3) a(2) x c' cp by (auto simp: linked_def conn_simps)
  moreover have "\<not> lft \<Longrightarrow> held c' = {#}" using cp x c' by (auto simp: held_def conn_simps)
  ultimately show "conn_mid h0 seen (B + bufm buf) (P + mset cs) opn c'" "linked o1 c'" "cn_thd c' = (cn_thd c)\<lparr>th_ha_data := ctx_of c'\<rparr>"
    "ctx_of c' \<noteq> None" "tch_thd_id tch' = tch_thd_id tch" "map_option sc_thd_id (ctx_of c') = map_option sc_thd_id (ctx_of c)" "\<not> lft \<Longrightarrow> held c' = {#}"
    using a x c' cp by (auto simp: conn_simps set_ctx_thd)
qed

text \<open>Cursors taken from the context, handed back in one call, and the buffer freed.\<close>

lemma hand_back:
  assumes "hand_cursors sv eng tch csize ck lft call c = Some (c', t', r)"
    and "conn_mid h0 seen B P opn c" "linked o1 c" "\<And>t cs. handed (call t cs) = cs" "\<And>t cs. trx_next (call t cs, ry_code r) (Some opn) = Some opn'"
  shows "conn_mid h0 seen B P opn' c'" "linked o1 c'" "cn_thd c' = (cn_thd c)\<lparr>th_ha_data := ctx_of c'\<rparr>" "ctx_of c' \<noteq> None"
    "map_option sc_thd_id (ctx_of c') = map_option sc_thd_id (ctx_of c)" "\<not> lft \<Longrightarrow> held c' = {#}"
    "\<exists>t cs e. tch_thd_id t = tch_thd_id tch \<and> r = snd (eng (call t cs) e) \<and> tch_thd_id t' = tch_thd_id (ry_tch r)"
proof -
  obtain c1 t1 buf cs where co: "collect_cursors sv tch csize ck lft c = Some (c1, t1, buf, cs)"
    using assms(1) by (cases "collect_cursors sv tch csize ck lft c") (auto simp: hand_cursors_def)
  obtain c2 r2 where re: "request eng (call t1 cs) c1 = (c2, r2)" by fastforce
  obtain c3 t3 where fr: "ctc_free_buf sv (ry_tch r2) buf c2 = (c3, t3)" by fastforce
  have 1: "collect_cursors sv tch csize ck lft c = Some (c1, t1, buf, cs)" "request eng (call t1 cs) c1 = (c2, r)"
      "ctc_free_buf sv (ry_tch r) buf c2 = (c', t')"
    using assms(1) co re fr by (simp_all add: hand_cursors_def)
  note c = collected [OF 1(1) assms(2,3)]
  have "conn_mid h0 seen (B + bufm buf) P opn' c2" using mid_request [OF 1(2)] c(1) assms(4,5) by fastforce
  note f = free_buf [OF 1(3) this]
  note r = request_simps [OF 1(2)]
  have h: "held c' = held c1" using f(2) r(1) by (simp add: held_def)
  show "\<exists>t cs e. tch_thd_id t = tch_thd_id tch \<and> r = snd (eng (call t cs) e) \<and> tch_thd_id t' = tch_thd_id (ry_tch r)"
    using r(4) c(5) f(3) by blast
  show "conn_mid h0 seen B P opn' c'" "linked o1 c'" "cn_thd c' = (cn_thd c)\<lparr>th_ha_data := ctx_of c'\<rparr>" "ctx_of c' \<noteq> None"
    "map_option sc_thd_id (ctx_of c') = map_option sc_thd_id (ctx_of c)" "\<not> lft \<Longrightarrow> held c' = {#}"
    using f r c h linked_same [of c' c1 o1] by auto
qed

lemma no_autocommit:
  assumes "ctc_free_cursors_no_autocommit sv eng tch c = Some (c', t')" "conn_mid h0 seen B P opn c" "linked o1 c"
  shows "conn_mid h0 seen B P opn c'" "linked o1 c'" "cn_thd c' = (cn_thd c)\<lparr>th_ha_data := ctx_of c'\<rparr>"
proof -
  have "conn_mid h0 seen B P opn c' \<and> linked o1 c' \<and> cn_thd c' = (cn_thd c)\<lparr>th_ha_data := ctx_of c'\<rparr>"
  proof (cases "c' = c")
    case True
    then show ?thesis using assms by simp
  next
    case False
    then obtain n r where 1: "hand_cursors sv eng tch n n False (\<lambda>tch cs. Free_session_cursors tch cs n) c = Some (c', t', r)"
      using assms(1) by (auto simp: ctc_free_cursors_no_autocommit_def Option.bind_eq_Some_conv split: if_splits)
    show ?thesis using hand_back [OF 1 assms(2,3)] by simp
  qed
  then show "conn_mid h0 seen B P opn c'" "linked o1 c'" "cn_thd c' = (cn_thd c)\<lparr>th_ha_data := ctx_of c'\<rparr>" by auto
qed

lemma passthru:
  assumes "engine_ddl_passthru sv c = Some (c', b)" "conn_mid h0 seen B P opn c" "linked opn c"
  shows "conn_mid h0 seen B P opn c'" "linked opn c'" "cn_thd c' = (cn_thd c)\<lparr>th_ha_data := ctx_of c'\<rparr>"
proof -
  obtain c1 x where i: "get_or_init_sess_ctx sv c = (c1, x)" by fastforce
  have "c' = c \<or> c' = c1" using assms(1) i by (auto simp: engine_ddl_passthru_def split: if_splits option.splits)
  then show "conn_mid h0 seen B P opn c'" "linked opn c'" "cn_thd c' = (cn_thd c)\<lparr>th_ha_data := ctx_of c'\<rparr>"
    using init_ctx [OF i assms(2,3)] assms(2,3) by auto
qed

lemma broadcast_dd_keeps:
  assumes "broadcast_dd eng tch req c = (c', t', req')" "conn_mid h0 seen B P opn c"
  shows "conn_mid h0 seen B P opn c'" "cn_thd c' = cn_thd c"
proof -
  obtain c1 r where r: "request eng (Dd_invalidate tch req) c = (c1, r)" by fastforce
  show "conn_mid h0 seen B P opn c'" "cn_thd c' = cn_thd c"
    using neutral_request [OF r _ _ assms(2)] assms(1) r by (auto simp: broadcast_dd_def)
qed

lemma add_entry_keeps:
  assumes "add_entry eng typ n1 n2 tch req c = Some (c', t', req')" "conn_mid h0 seen B P opn c"
  shows "conn_mid h0 seen B P opn c'" "cn_thd c' = cn_thd c"
proof -
  obtain c1 t1 q1 where b: "broadcast_dd eng tch req c = (c1, t1, q1)" by (metis prod_cases3)
  show "conn_mid h0 seen B P opn c'" "cn_thd c' = cn_thd c"
    using broadcast_dd_keeps [OF b assms(2)] assms b
    by (auto simp: add_entry_def broadcast_and_reload_buffer_def Option.bind_eq_Some_conv split: if_splits)
qed

definition obj_second :: "obj_kind \<Rightarrow> byte list \<Rightarrow> byte list" where
  "obj_second k name = (if k \<in> {OBJ_SCHEMA, OBJ_TABLESPACE, OBJ_RESOURCE_GROUP, OBJ_SPATIAL_REFERENCE_SYSTEM} then [] else name)"

definition obj_sent :: "obj_kind \<Rightarrow> bool" where
  "obj_sent k \<longleftrightarrow> k \<notin> {OBJ_CHARSET, OBJ_COLLATION, OBJ_UNKNOWN}"

lemma send_objs_cons:
  "send_objs eng kind (((n1, n2), ty) # objs) tch req c =
     (if obj_sent (kind ty) then do { (c, tch, req) \<leftarrow> add_entry eng ty n1 (obj_second (kind ty) n2) tch req c; send_objs eng kind objs tch req c }
      else send_objs eng kind objs tch req c)"
  by (cases "kind ty") (simp_all add: obj_sent_def obj_second_def)

lemma send_objs_keeps:
  assumes "send_objs eng kind objs tch req c = Some (c', t', req')" "conn_mid h0 seen B P opn c"
  shows "conn_mid h0 seen B P opn c' \<and> cn_thd c' = cn_thd c"
  using assms
proof (induction objs arbitrary: tch req c)
  case (Cons o1 objs)
  obtain n1 n2 ty where [simp]: "o1 = ((n1, n2), ty)" by (metis prod.exhaust)
  show ?case
  proof (cases "obj_sent (kind ty)")
    case True
    then obtain c1 t1 q1 where a: "add_entry eng ty n1 (obj_second (kind ty) n2) tch req c = Some (c1, t1, q1)"
        "send_objs eng kind objs t1 q1 c1 = Some (c', t', req')"
      using Cons.prems(1) by (auto simp: send_objs_cons Option.bind_eq_Some_conv simp del: send_objs.simps)
    show ?thesis using add_entry_keeps [OF a(1) Cons.prems(2)] Cons.IH [OF a(2)] by simp
  next
    case False
    then show ?thesis using Cons by (simp add: send_objs_cons del: send_objs.simps)
  qed
qed simp

lemma preprocess:
  assumes "commit_preprocess sv eng tch c = Some (c', t')" "conn_mid h0 seen B P opn c" "linked o1 c"
  shows "conn_mid h0 seen B P opn c'" "linked o1 c'" "th_thread_id (cn_thd c') = th_thread_id (cn_thd c)" "ctx_of c' = ctx_of c"
    "cn_thd c' = (cn_thd c)\<lparr>th_invalidates := th_invalidates (cn_thd c')\<rparr>"
proof -
  have remote: "conn_mid h0 seen B P opn c1 \<and> cn_thd c1 = cn_thd c" if i: "invalidate_remote_dd sv eng tch c = Some (c1, t1)" for c1 t1
  proof -
    obtain ts q cs where s: "broadcast_dd eng ts q cs = (c1, t1, snd (snd (broadcast_dd eng ts q cs)))"
      "cs = c \<or> (\<exists>objs q0 q1. send_objs eng (sv_obj_kind sv) objs tch q0 c = Some (cs, ts, q1))"
      using i by (auto simp: invalidate_remote_dd_def Let_def Option.bind_eq_Some_conv case_prod_unfold prod_eq_iff split: if_splits) blast+
    then show ?thesis using broadcast_dd_keeps [OF s(1)] send_objs_keeps assms(2) by metis
  qed
  have "conn_mid h0 seen B P opn c' \<and> linked o1 c' \<and> th_thread_id (cn_thd c') = th_thread_id (cn_thd c) \<and> ctx_of c' = ctx_of c \<and>
    cn_thd c' = (cn_thd c)\<lparr>th_invalidates := th_invalidates (cn_thd c')\<rparr>"
  proof (cases "c' = c")
    case False
    then obtain c1 t1 where r: "invalidate_remote_dd sv eng tch c = Some (c1, t1)" "c' = set_thd (\<lambda>t. t\<lparr>th_invalidates := []\<rparr>) c1"
      using assms(1) by (auto simp: commit_preprocess_def split: if_splits)
    show ?thesis using remote [OF r(1)] assms(3) r(2) linked_same [of c1 c o1]
      by (simp add: mid_set_thd linked_set_thd conn_simps)
  qed (use assms in simp)
  then show "conn_mid h0 seen B P opn c'" "linked o1 c'" "th_thread_id (cn_thd c') = th_thread_id (cn_thd c)" "ctx_of c' = ctx_of c"
    "cn_thd c' = (cn_thd c)\<lparr>th_invalidates := th_invalidates (cn_thd c')\<rparr>" by auto
qed

lemma ddl_commit:
  assumes "broadcast_ddl_commit sv eng tch c = Some (c', t')" "conn_mid h0 seen B P opn c" "ctx_of c \<noteq> None"
  shows "conn_mid h0 seen B P opn c'" "cn_thd c' = cn_thd c"
proof -
  have g: "get_or_init_sess_ctx sv c = (c, ctx_of c)" using assms(3) by (auto simp: get_or_init_sess_ctx_def)
  obtain c1 r where r: "request eng (Execute_ddl tch (ddl_commit_request sv (cn_thd c)) False) c = (c1, r)" by fastforce
  show "conn_mid h0 seen B P opn c'" "cn_thd c' = cn_thd c"
    using neutral_request [OF r _ _ assms(2)] assms g r
    by (auto simp: broadcast_ddl_commit_def engine_skip_ddl_def Option.bind_eq_Some_conv split: if_splits)
qed

lemma keeps_fields:
  "keeps_ctx (\<lambda>x. x\<lparr>sc_is_ctc_trx_begin := n\<rparr>)" "keeps_ctx (\<lambda>x. x\<lparr>sc_sql_stat_start := n\<rparr>)" "keeps_ctx (\<lambda>x. x\<lparr>sc_thd_id := n\<rparr>)"
  by (simp_all add: keeps_ctx_def)

lemma statement_end:
  "conn_mid h0 seen B P opn (end_statement b c) = conn_mid h0 seen B P opn c" "linked o1 (end_statement b c) = linked o1 c"
  "th_thread_id (cn_thd (end_statement b c)) = th_thread_id (cn_thd c)"
  by (auto simp: end_statement_def mid_set_ctx keeps_fields linked_def conn_simps split: option.splits)

lemma flag_cleared: "linked o1 c \<Longrightarrow> linked False (set_ctx (\<lambda>x. x\<lparr>sc_is_ctc_trx_begin := 0\<rparr>) c)"
  by (auto simp: linked_def conn_simps split: option.splits)

section \<open>The contract of the operations\<close>

text \<open>
  An operation of the connection keeps the agreement of context, calls and memory, and leaves the thread. What follows for
  the operations is proved from this contract alone.
\<close>

locale session_op =
  fixes op1 :: "'e engine \<Rightarrow> 'e conn \<Rightarrow> 'e conn option"
  assumes keeps: "session_engine eng \<Longrightarrow> conn_ok h0 seen c \<Longrightarrow> op1 eng c = Some c' \<Longrightarrow>
    conn_ok h0 seen c' \<and> th_thread_id (cn_thd c') = th_thread_id (cn_thd c)"
begin

lemma no_violation: "session_engine eng \<Longrightarrow> conn_ok h0 seen c \<Longrightarrow> op1 eng c = Some c' \<Longrightarrow> trx_state (cn_trace c') \<noteq> None"
  using keeps [of eng h0 seen c c'] by (auto simp: conn_ok_def conn_mid_def)

lemma memory_returned: "session_engine eng \<Longrightarrow> conn_ok h0 seen c \<Longrightarrow> op1 eng c = Some c' \<Longrightarrow> mset (sh_live (cn_shm c')) = mset (sh_live h0) + own c'"
  using keeps [of eng h0 seen c c'] by (auto simp: conn_ok_def conn_mid_def)

end

lemma handed_dest:
  assumes "hand_cursors sv eng tch csize ck lft call c = Some (c', t', r)"
    "conn_mid h0 seen {#} {#} opn c" "linked opn c" "\<And>t cs. handed (call t cs) = cs" "\<And>t cs s. trx_next (call t cs, ry_code r) s = s"
  shows "conn_ok h0 seen c' \<and> th_thread_id (cn_thd c') = th_thread_id (cn_thd c)"
  using hand_back [OF assms(1-4), of opn] assms(5) unfolding conn_ok_def by (metis (no_types, lifting) thd.select_convs(1) thd.surjective thd.update_convs(2))

lemma same_thread: "t' = t\<lparr>th_ha_data := x\<rparr> \<Longrightarrow> th_thread_id t' = th_thread_id t"
  by simp

text \<open>An operation that fetches a handler and, unless that fails, makes one more step.\<close>

lemma after_tch:
  assumes "get_tch_in_handler_data sv alloc c = Some (c1, tch, ret)" "conn_ok h0 seen c"
  shows "conn_ok h0 seen c1" "th_thread_id (cn_thd c1) = th_thread_id (cn_thd c)" "cn_thd c1 = (cn_thd c)\<lparr>th_ha_data := ctx_of c1\<rparr>"
    "ret = NO_ERROR \<Longrightarrow> ctx_of c1 \<noteq> None \<and> map_option sc_thd_id (ctx_of c1) = Some (th_thread_id (cn_thd c1)) \<and> tch_thd_id tch = th_thread_id (cn_thd c1)"
proof -
  obtain opn where o: "conn_mid h0 seen {#} {#} opn c" "linked opn c" using assms(2) by (auto simp: conn_ok_def)
  note g = get_tch [OF assms(1) o]
  show "conn_ok h0 seen c1" using g(1,2) by (auto simp: conn_ok_def)
  show "th_thread_id (cn_thd c1) = th_thread_id (cn_thd c)" using same_thread [OF g(3)] .
qed (use get_tch [OF assms(1)] assms(2) in \<open>auto simp: conn_ok_def\<close>)

lemma ok_neutral:
  assumes "request eng call c = (c', r)" "conn_ok h0 seen c" "handed call = []" "\<And>s. trx_next (call, ry_code r) s = s"
  shows "conn_ok h0 seen c'" "cn_thd c' = cn_thd c"
proof -
  obtain opn where o: "conn_mid h0 seen {#} {#} opn c" "linked opn c" using assms(2) by (auto simp: conn_ok_def)
  note n = neutral_request [OF assms(1,3,4) o(1)]
  show "conn_ok h0 seen c'" "cn_thd c' = cn_thd c" using n o(2) linked_same [OF n(2)] by (auto simp: conn_ok_def)
qed

interpretation set_sp: session_op "\<lambda>eng c. map_option fst (ctc_set_savepoint sv eng p c)"
proof
  fix eng :: "'a engine" and h0 seen c c'
  assume a: "conn_ok h0 seen c" "map_option fst (ctc_set_savepoint sv eng p c) = Some c'"
  then obtain c1 tch ret where g: "get_tch_in_handler_data sv True c = Some (c1, tch, ret)"
    by (auto simp: ctc_set_savepoint_def Let_def Option.bind_eq_Some_conv)
  obtain c2 r where r: "request eng (Set_savepoint tch (sv_savepoint_name sv p)) c1 = (c2, r)" by fastforce
  show "conn_ok h0 seen c' \<and> th_thread_id (cn_thd c') = th_thread_id (cn_thd c)"
    using a(2) g r after_tch [OF g a(1)] ok_neutral [OF r]
    by (auto simp: ctc_set_savepoint_def Let_def split: if_splits)
qed

interpretation release_sp: session_op "\<lambda>eng c. map_option fst (ctc_release_savepoint sv eng p c)"
proof
  fix eng :: "'a engine" and h0 seen c c'
  assume a: "conn_ok h0 seen c" "map_option fst (ctc_release_savepoint sv eng p c) = Some c'"
  show "conn_ok h0 seen c' \<and> th_thread_id (cn_thd c') = th_thread_id (cn_thd c)"
  proof (cases "th_plan_command (cn_thd c) = ''SQLCOM_SAVEPOINT''")
    case True
    then show ?thesis using a by (simp add: ctc_release_savepoint_def)
  next
    case False
    then obtain c1 tch ret where g: "get_tch_in_handler_data sv True c = Some (c1, tch, ret)"
      using a(2) by (auto simp: ctc_release_savepoint_def Let_def Option.bind_eq_Some_conv)
    obtain c2 r where r: "request eng (Release_savepoint tch (sv_savepoint_name sv p)) c1 = (c2, r)" by fastforce
    show ?thesis
      using a(2) g r False after_tch [OF g a(1)] ok_neutral [OF r]
    by (auto simp: ctc_release_savepoint_def Let_def split: if_splits)
  qed
qed

interpretation rollback_sp: session_op "\<lambda>eng c. map_option fst (ctc_rollback_savepoint sv eng p c)"
proof
  fix eng :: "'a engine" and h0 seen c c'
  assume a: "conn_ok h0 seen c" "map_option fst (ctc_rollback_savepoint sv eng p c) = Some c'"
  then obtain c1 tch ret where g: "get_tch_in_handler_data sv True c = Some (c1, tch, ret)"
    by (auto simp: ctc_rollback_savepoint_def Let_def Option.bind_eq_Some_conv)
  obtain opn where o: "conn_mid h0 seen {#} {#} opn c1" "linked opn c1" "th_thread_id (cn_thd c1) = th_thread_id (cn_thd c)" "conn_ok h0 seen c1"
    using after_tch [OF g a(1)] by (auto simp: conn_ok_def)
  show "conn_ok h0 seen c' \<and> th_thread_id (cn_thd c') = th_thread_id (cn_thd c)"
  proof (cases "ret = NO_ERROR")
    case False
    then show ?thesis using a(2) g o by (auto simp: ctc_rollback_savepoint_def)
  next
    case True
    then obtain n t2 r where "hand_cursors sv eng tch n n False (\<lambda>t cs. Rollback_savepoint t cs n (sv_savepoint_name sv p)) c1 = Some (c', t2, r)"
      using a(2) g by (auto simp: ctc_rollback_savepoint_def Let_def Option.bind_eq_Some_conv)
    from handed_dest [OF this o(1,2)] show ?thesis using o(3) by simp
  qed
qed

interpretation kill: session_op "ctc_kill_connection sv"
proof
  fix eng :: "'a engine" and h0 seen c c'
  assume a: "conn_ok h0 seen c" "ctc_kill_connection sv eng c = Some c'"
  then obtain c1 tch ret where g: "get_tch_in_handler_data sv True c = Some (c1, tch, ret)"
    by (auto simp: ctc_kill_connection_def Let_def Option.bind_eq_Some_conv)
  obtain c2 r where r: "request eng (Kill_session (local_tch tch)) c1 = (c2, r)" by fastforce
  show "conn_ok h0 seen c' \<and> th_thread_id (cn_thd c') = th_thread_id (cn_thd c)"
    using a(2) g r after_tch [OF g a(1)] ok_neutral [OF r]
    by (auto simp: ctc_kill_connection_def Let_def split: if_splits)
qed

text \<open>The calls that end a transaction.\<close>

lemma ended:
  assumes "hand_cursors sv eng tch csize ck lft call c = Some (c', t', r)" "conn_mid h0 seen {#} {#} opn c" "linked opn c"
    "\<And>t cs. handed (call t cs) = cs" "\<And>t cs s. trx_next (call t cs, ry_code r) s = (if ry_code r = CT_SUCCESS then map_option (\<lambda>_. False) s else s)"
  shows "ry_code r \<noteq> CT_SUCCESS \<Longrightarrow> conn_ok h0 seen c'" "ry_code r = CT_SUCCESS \<Longrightarrow> conn_mid h0 seen {#} {#} False c'" "linked opn c'"
    "th_thread_id (cn_thd c') = th_thread_id (cn_thd c)" "ctx_of c' \<noteq> None"
proof -
  note h = hand_back [OF assms(1-4), of "if ry_code r = CT_SUCCESS then False else opn"]
  show "ry_code r \<noteq> CT_SUCCESS \<Longrightarrow> conn_ok h0 seen c'" using h(1,2) assms(5) by (auto simp: conn_ok_def)
  show "ry_code r = CT_SUCCESS \<Longrightarrow> conn_mid h0 seen {#} {#} False c'" using h(1) assms(5) by simp
  show "linked opn c'" "ctx_of c' \<noteq> None" using h assms(5) by auto
  have "cn_thd c' = (cn_thd c)\<lparr>th_ha_data := ctx_of c'\<rparr>" using h(3) assms(5) by simp
  then show "th_thread_id (cn_thd c') = th_thread_id (cn_thd c)" by (rule same_thread)
qed

lemma cleared:
  assumes "conn_mid h0 seen {#} {#} False c" "linked opn c"
  shows "conn_ok h0 seen (set_ctx (\<lambda>x. x\<lparr>sc_is_ctc_trx_begin := 0\<rparr>) c)"
  using assms flag_cleared [OF assms(2)] by (auto simp: conn_ok_def mid_set_ctx keeps_fields)

lemma ok_end: "conn_ok h0 seen (end_statement b c) = conn_ok h0 seen c"
  by (simp add: conn_ok_def statement_end)

interpretation roll: session_op "\<lambda>eng c. map_option fst (ctc_rollback sv eng trx c)"
proof
  fix eng :: "'a engine" and h0 seen c c'
  assume a: "conn_ok h0 seen c" "map_option fst (ctc_rollback sv eng trx c) = Some c'"
  then obtain c1 tch ret where g: "get_tch_in_handler_data sv True c = Some (c1, tch, ret)"
    by (auto simp: ctc_rollback_def Let_def Option.bind_eq_Some_conv)
  note c1 = after_tch [OF g a(1)]
  obtain opn where o: "conn_mid h0 seen {#} {#} opn c1" "linked opn c1" using c1(1) by (auto simp: conn_ok_def)
  show "conn_ok h0 seen c' \<and> th_thread_id (cn_thd c') = th_thread_id (cn_thd c)"
  proof (cases "ret = NO_ERROR")
    case False
    then show ?thesis using a(2) g c1 by (auto simp: ctc_rollback_def Let_def)
  next
    case True
    then obtain x where x: "ctx_of c1 = Some x" using c1(4) by auto
    let ?n = "total_csize x"
    consider "trx \<or> \<not> th_multi_stmt (cn_thd c)" | "\<not> (trx \<or> \<not> th_multi_stmt (cn_thd c))" "sc_sql_stat_start x = 0"
      | "\<not> (trx \<or> \<not> th_multi_stmt (cn_thd c))" "sc_sql_stat_start x \<noteq> 0" by blast
    then show ?thesis
    proof cases
      case 1
      then obtain c2 t2 r where h: "hand_cursors sv eng tch ?n ?n False (\<lambda>t cs. Trx_rollback t cs ?n) c1 = Some (c2, t2, r)"
        using a(2) g True x by (auto simp: ctc_rollback_def Let_def Option.bind_eq_Some_conv)
      have c': "c' = (if ry_code r \<noteq> CT_SUCCESS then c2 else end_statement trx (set_ctx (\<lambda>x. x\<lparr>sc_is_ctc_trx_begin := 0\<rparr>) c2))"
        using a(2) g True x h 1 by (auto simp: ctc_rollback_def Let_def)
      note e = ended [OF h o]
      show ?thesis using e c' c1(2) cleared [of h0 seen c2 opn] by (auto simp: ok_end statement_end conn_simps)
    next
      case 2
      then obtain c2 t2 r where h: "hand_cursors sv eng tch ?n ?n False (\<lambda>t cs. Rollback_savepoint t cs ?n CTC_SQL_START_INTERNAL_SAVEPOINT) c1 = Some (c2, t2, r)"
          "c' = end_statement trx c2"
        using a(2) g True x by (auto simp: ctc_rollback_def Let_def Option.bind_eq_Some_conv)
      show ?thesis using handed_dest [OF h(1) o] h(2) c1(2) by (simp add: ok_end statement_end)
    next
      case 3
      then obtain c2 t2 where h: "ctc_free_cursors_no_autocommit sv eng tch c1 = Some (c2, t2)" "c' = end_statement trx c2"
        using a(2) g True x by (auto simp: ctc_rollback_def Let_def Option.bind_eq_Some_conv)
      note k = no_autocommit [OF h(1) o]
      show ?thesis using k(1,2) same_thread [OF k(3)] h(2) c1(2) by (auto simp: ok_end statement_end conn_ok_def)
    qed
  qed
qed

text \<open>The committing part of \<open>ctc_commit\<close>, and the part for a statement of a longer transaction.\<close>

lemma committed:
  assumes "commit_transaction sv eng sql tch c = Some (c', t', code)" "conn_mid h0 seen {#} {#} opn c" "linked opn c"
  shows "conn_ok h0 seen c' \<and> th_thread_id (cn_thd c') = th_thread_id (cn_thd c)"
proof -
  obtain c1 t1 x where p: "commit_preprocess sv eng tch c = Some (c1, t1)" "ctx_of c1 = Some x"
    using assms(1) by (auto simp: commit_transaction_def Option.bind_eq_Some_conv Let_def)
  let ?call = "\<lambda>t cs. Trx_commit t cs (total_csize x) sql (sv_enable_stat sv)" and ?t = "attachable_trx_update_pre_addr sv (cn_thd c1) True t1"
  obtain c2 t2 r where h: "hand_cursors sv eng ?t (total_csize x) (total_csize x) False ?call c1 = Some (c2, t2, r)"
    using assms(1) p by (auto simp: commit_transaction_def Option.bind_eq_Some_conv Let_def)
  note q = preprocess [OF p(1) assms(2,3)]
  note e = ended [OF h q(1,2)]
  have d: "conn_mid h0 seen {#} {#} False c3 \<and> cn_thd c3 = cn_thd c2" if "broadcast_ddl_commit sv eng t2 c2 = Some (c3, t4)" "ry_code r = CT_SUCCESS" for c3 t4
    using ddl_commit [OF that(1)] e that(2) by auto
  show ?thesis
    using assms(1) p h e q cleared [of h0 seen _ opn] d linked_same [of _ c2 opn]
    by (auto simp: commit_transaction_def Let_def conn_simps split: if_splits dest!: d)
qed

lemma not_committed:
  assumes "commit_statement sv eng sql tch c = Some (c', t', code)" "conn_ok h0 seen c"
  shows "conn_ok h0 seen c' \<and> th_thread_id (cn_thd c') = th_thread_id (cn_thd c)"
proof -
  obtain c1 r where r: "(if sql \<noteq> None then request eng (Statistic_commit tch sql (sv_enable_stat sv)) c
      else (c, \<lparr>ry_tch = tch, ry_code = CT_SUCCESS, ry_ddl_commit = False, ry_err_code = 0\<rparr>)) = (c1, r)" by fastforce
  have 1: "conn_ok h0 seen c1" "cn_thd c1 = cn_thd c" using r ok_neutral [of eng "Statistic_commit tch sql (sv_enable_stat sv)" c c1 r h0 seen] assms(2)
    by (auto split: if_splits)
  obtain opn where o: "conn_mid h0 seen {#} {#} opn c1" "linked opn c1" using 1(1) by (auto simp: conn_ok_def)
  have k: "conn_ok h0 seen c2 \<and> th_thread_id (cn_thd c2) = th_thread_id (cn_thd c1)" if "ctc_free_cursors_no_autocommit sv eng t c1 = Some (c2, t2)" for t c2 t2
    using no_autocommit [OF that o] same_thread by (auto simp: conn_ok_def)
  show ?thesis using assms(1) r 1 by (auto simp: commit_statement_def split: if_splits dest!: k)
qed

end
