(* ===== verification/CTC_Session.thy ===== *)
theory CTC_Session
  imports CTC_Trx
begin

text \<open>
  What holds of a connection whatever operations run on it, in any order and with any replies of the engine: the contract of
  CTC_Trx for the operations that begin and commit transactions, the connection as a step relation, and the properties of its
  reachable states.
\<close>

lemma ok_passthru:
  assumes "engine_ddl_passthru sv c = Some (c', b)" "conn_ok h0 seen c"
  shows "conn_ok h0 seen c'" "th_thread_id (cn_thd c') = th_thread_id (cn_thd c)"
proof -
  obtain opn where o: "conn_mid h0 seen {#} {#} opn c" "linked opn c" using assms(2) by (auto simp: conn_ok_def)
  note p = passthru [OF assms(1) o]
  show "conn_ok h0 seen c'" "th_thread_id (cn_thd c') = th_thread_id (cn_thd c)" using p same_thread [OF p(3)] by (auto simp: conn_ok_def)
qed

lemma ended_commit:
  assumes "conn_ok h0 seen c"
  shows "conn_ok h0 seen (fst (commit_end eng trx t (c, tch, code))) \<and> th_thread_id (cn_thd (fst (commit_end eng trx t (c, tch, code)))) = th_thread_id (cn_thd c)"
proof -
  have an: "conn_ok h0 seen (fst (request eng (Analyze_table m n l) c1))" "cn_thd (fst (request eng (Analyze_table m n l) c1)) = cn_thd c1"
    if "conn_ok h0 seen c1" for c1 m n l
    using ok_neutral [of eng "Analyze_table m n l" c1 "fst (request eng (Analyze_table m n l) c1)" "snd (request eng (Analyze_table m n l) c1)", OF _ that]
    by simp_all
  show ?thesis using assms by (simp add: commit_end_def Let_def ok_end statement_end an)
qed

interpretation comm: session_op "\<lambda>eng c. map_option fst (ctc_commit sv eng trx c)"
proof
  fix eng :: "'a engine" and h0 seen c c'
  assume a: "conn_ok h0 seen c" "map_option fst (ctc_commit sv eng trx c) = Some c'"
  obtain c1 b where p: "engine_ddl_passthru sv c = Some (c1, b)" using a(2) by (auto simp: ctc_commit_def Option.bind_eq_Some_conv)
  note 1 = ok_passthru [OF p a(1)]
  let ?t = "cn_thd c1"
  show "conn_ok h0 seen c' \<and> th_thread_id (cn_thd c') = th_thread_id (cn_thd c)"
  proof (cases "b \<and> (th_alter_copy ?t \<or> is_create_table_check ?t \<or> is_lock_table ?t)")
    case True
    then show ?thesis using a(2) p 1 by (auto simp: ctc_commit_def Let_def)
  next
    case nb: False
    define wc where "wc = (trx \<or> \<not> th_multi_stmt ?t)"
    have u: "ctc_commit sv eng trx c = do {
       (c, tch, ret) \<leftarrow> get_tch_in_handler_data sv wc c1;
       if ret \<noteq> NO_ERROR then Some (c, ret)
       else map_option (commit_end eng trx ?t)
              (if wc then commit_transaction sv eng (statistic_sql sv ?t) tch c else commit_statement sv eng (statistic_sql sv ?t) tch c) }"
      unfolding ctc_commit_def p Let_def wc_def using nb by auto
    obtain c2 tch ret where g: "get_tch_in_handler_data sv wc c1 = Some (c2, tch, ret)"
      using a(2) u by (cases "get_tch_in_handler_data sv wc c1") auto
    note c2 = after_tch [OF g 1(1)]
    obtain opn where o: "conn_mid h0 seen {#} {#} opn c2" "linked opn c2" using c2(1) by (auto simp: conn_ok_def)
    have 3: "conn_ok h0 seen c3 \<and> th_thread_id (cn_thd c3) = th_thread_id (cn_thd c2)"
      if "(if wc then commit_transaction sv eng sql tch c2 else commit_statement sv eng sql tch c2) = Some (c3, t3, code)" for sql c3 t3 code
      using that committed [OF _ o] not_committed [OF _ c2(1)] by (auto split: if_splits)
    show ?thesis
    proof (cases "ret = NO_ERROR")
      case False
      then show ?thesis using a(2) u g c2 1(2) by auto
    next
      case True
      then obtain c3 t3 code where "(if wc then commit_transaction sv eng (statistic_sql sv ?t) tch c2 else commit_statement sv eng (statistic_sql sv ?t) tch c2) =
          Some (c3, t3, code)" "c' = fst (commit_end eng trx ?t (c3, t3, code))"
        using a(2) u g by auto
      then show ?thesis using 3 [of "statistic_sql sv ?t" c3 t3 code] c2(2) 1(2) ended_commit [of h0 seen c3 eng trx ?t t3 code] by simp
    qed
  qed
qed

text \<open>A begin, and what the context says after it.\<close>

lemma begun:
  assumes r: "request eng (Trx_begin tch x l b s) c = (c1, r)" and e: "session_engine eng"
    and m: "conn_mid h0 seen {#} {#} False c" and k: "linked False c" and t: "tch_thd_id tch = th_thread_id (cn_thd c)" and n: "ctx_of c \<noteq> None"
  shows "ry_code r \<noteq> CT_SUCCESS \<Longrightarrow> conn_ok h0 seen (update_sess_ctx_by_tch sv (ry_tch r) c1)"
    "ry_code r = CT_SUCCESS \<Longrightarrow> conn_ok h0 seen (set_ctx (\<lambda>x. x\<lparr>sc_is_ctc_trx_begin := 1\<rparr>) (update_sess_ctx_by_tch sv (ry_tch r) c1))"
    "th_thread_id (cn_thd (update_sess_ctx_by_tch sv (ry_tch r) c1)) = th_thread_id (cn_thd c)"
    "check_error_code_to_mysql nofk (ry_code r) = (ry_code r, ry_code r = ERR_DEAD_LOCK)"
proof -
  note q = request_simps [OF r]
  have g: "tch_thd_id (ry_tch r) = th_thread_id (cn_thd c1)" "ry_code r = CT_SUCCESS \<Longrightarrow> tch_sess_addr (ry_tch r) \<noteq> INVALID_VALUE64"
    using e q t by (cases b; simp add: session_engine_def Let_def)+
  have m1: "conn_mid h0 seen {#} {#} (ry_code r = CT_SUCCESS) c1" using mid_request [OF r, of h0 seen "{#}" "{#}" False] m by simp
  have k1: "linked False c1" "ctx_of c1 \<noteq> None" using k n q linked_same [of c1 c] by auto
  note u = by_tch [OF m1 k1(1) g(1) k1(2), of sv]
  show "th_thread_id (cn_thd (update_sess_ctx_by_tch sv (ry_tch r) c1)) = th_thread_id (cn_thd c)" using u(4) q by simp
  obtain y where y: "ctx_of c1 = Some y" using k1(2) by auto
  show "conn_ok h0 seen (update_sess_ctx_by_tch sv (ry_tch r) c1)" if "ry_code r \<noteq> CT_SUCCESS"
    using that u k1(1) y g(1) by (auto simp: conn_ok_def linked_def split: if_splits intro!: exI [of _ False])
  show "conn_ok h0 seen (set_ctx (\<lambda>x. x\<lparr>sc_is_ctc_trx_begin := 1\<rparr>) (update_sess_ctx_by_tch sv (ry_tch r) c1))" if "ry_code r = CT_SUCCESS"
    using that u y g by (auto simp: conn_ok_def linked_def conn_simps mid_set_ctx keeps_fields intro!: exI [of _ True])
  show "check_error_code_to_mysql nofk (ry_code r) = (ry_code r, ry_code r = ERR_DEAD_LOCK)"
    using e q(4) by (cases b) (simp add: session_engine_def Let_def check_error_code_to_mysql_def errno_defs)
qed

lemma ok_register: "conn_ok h0 seen (trans_register_ha b c) = conn_ok h0 seen c" "th_thread_id (cn_thd (trans_register_ha b c)) = th_thread_id (cn_thd c)"
  by (auto simp: conn_ok_def trans_register_ha_def mid_set_thd linked_set_thd conn_simps)

lemma ok_marked:
  "update_sess_ctx_by_tch sv t (set_thd (\<lambda>t. t\<lparr>th_rollback_marked := True\<rparr>) c) =
     set_thd (\<lambda>t. t\<lparr>th_rollback_marked := True\<rparr>) (update_sess_ctx_by_tch sv t c)"
  "conn_ok h0 seen (set_thd (\<lambda>t. t\<lparr>th_rollback_marked := True\<rparr>) c) = conn_ok h0 seen c"
  by (auto simp: update_sess_ctx_by_tch_def get_or_init_sess_ctx_def set_ctx_def set_thd_def conn_ok_def mid_set_thd [unfolded set_thd_def]
      linked_set_thd [unfolded set_thd_def] split: option.splits)

interpretation snap: session_op "\<lambda>eng c. map_option fst (ctc_start_trx_and_assign_scn sv eng c)"
proof
  fix eng :: "'a engine" and h0 seen c c'
  assume e: "session_engine eng" and a: "conn_ok h0 seen c" "map_option fst (ctc_start_trx_and_assign_scn sv eng c) = Some c'"
  obtain c1 b where p: "engine_ddl_passthru sv c = Some (c1, b)" using a(2) by (auto simp: ctc_start_trx_and_assign_scn_def Option.bind_eq_Some_conv)
  note 1 = ok_passthru [OF p a(1)]
  show "conn_ok h0 seen c' \<and> th_thread_id (cn_thd c') = th_thread_id (cn_thd c)"
  proof (cases "b \<and> th_alter_copy (cn_thd c1) \<or> th_isolation (cn_thd c1) \<noteq> ISO_REPEATABLE_READ")
    case True
    then show ?thesis using a(2) p 1 by (auto simp: ctc_start_trx_and_assign_scn_def)
  next
    case nb: False
    have u: "ctc_start_trx_and_assign_scn sv eng c = do {
       (c, tch, ret) \<leftarrow> get_tch_in_handler_data sv True c1;
       if ret \<noteq> NO_ERROR then Some (c, ret) else do {
         ctx \<leftarrow> ctx_of c;
         if sc_is_ctc_trx_begin ctx \<noteq> 0 then None
         else let autocommit = (if th_multi_stmt (cn_thd c) then 0 else 1);
                  trx = \<lparr>tc_isolation_level = isolation_level_to_cantian (th_isolation (cn_thd c)), tc_autocommit = autocommit,
                         tc_lock_wait_timeout = th_lock_wait_timeout (cn_thd c), tc_use_exclusive_lock = False\<rparr>
              in case request eng (Trx_begin tch trx (has_flag ctx CTC_DDL_LOCAL_ENABLED) (begin_time sv) (sv_enable_stat sv)) c of
                   (c, r) \<Rightarrow>
                     let c = update_sess_ctx_by_tch sv (ry_tch r) c
                     in if ry_code r \<noteq> CT_SUCCESS then Some (c, convert_ctc_error_code_to_mysql_impl (ry_code r))
                        else Some (trans_register_ha (autocommit = 0) (set_ctx (\<lambda>x. x\<lparr>sc_is_ctc_trx_begin := 1\<rparr>) c), NO_ERROR) } }"
      unfolding ctc_start_trx_and_assign_scn_def p using nb by auto
    obtain c2 tch ret where g: "get_tch_in_handler_data sv True c1 = Some (c2, tch, ret)"
      using a(2) u by (cases "get_tch_in_handler_data sv True c1") auto
    note c2 = after_tch [OF g 1(1)]
    show ?thesis
    proof (cases "ret = NO_ERROR")
      case False
      then show ?thesis using a(2) u g c2 1(2) by auto
    next
      case True
      then obtain x where x: "ctx_of c2 = Some x" "sc_thd_id x = th_thread_id (cn_thd c2)" "tch_thd_id tch = th_thread_id (cn_thd c2)" using c2(4) by auto
      have f: "sc_is_ctc_trx_begin x = 0" using a(2) u g True x(1) by (auto split: if_splits)
      obtain opn where o: "conn_mid h0 seen {#} {#} opn c2" "linked opn c2" using c2(1) by (auto simp: conn_ok_def)
      have "\<not> opn" using o(2) x f by (simp add: linked_def)
      then have o: "conn_mid h0 seen {#} {#} False c2" "linked False c2" using o by simp_all
      obtain trx where trx: "trx = \<lparr>tc_isolation_level = isolation_level_to_cantian (th_isolation (cn_thd c2)), tc_autocommit = (if th_multi_stmt (cn_thd c2) then 0 else 1),
                         tc_lock_wait_timeout = th_lock_wait_timeout (cn_thd c2), tc_use_exclusive_lock = False\<rparr>" by blast
      obtain c3 r where r: "request eng (Trx_begin tch trx (has_flag x CTC_DDL_LOCAL_ENABLED) (begin_time sv) (sv_enable_stat sv)) c2 = (c3, r)" by fastforce
      note bg = begun [OF r e o x(3)]
      show ?thesis using a(2) u g True x(1) f r c2(2) 1(2) bg
        by (auto simp: Let_def trx [symmetric] ok_register conn_simps split: if_splits)
    qed
  qed
qed

text \<open>A statement in steps: the connection and the handler it starts with, and what follows for each state of the transaction.\<close>

definition stmt_conn :: "'e conn \<Rightarrow> 'e conn" where
  "stmt_conn c = set_ctx (\<lambda>x. if th_in_sub_stmt (cn_thd c) then x\<lparr>sc_thd_id := th_thread_id (cn_thd c)\<rparr>
     else x\<lparr>sc_thd_id := th_thread_id (cn_thd c), sc_sql_stat_start := 1\<rparr>) c"

definition stmt_tch :: "thd \<Rightarrow> ctc_handler \<Rightarrow> ctc_handler" where
  "stmt_tch t m = (if th_in_sub_stmt t then m else m\<lparr>tch_sql_stat_start := 1\<rparr>)"

definition stmt_trx :: "bool \<Rightarrow> thd \<Rightarrow> ctc_trx_context" where
  "stmt_trx ex t = \<lparr>tc_isolation_level = isolation_level_to_cantian (th_isolation t), tc_autocommit = (if th_multi_stmt t then 0 else 1),
     tc_lock_wait_timeout = th_lock_wait_timeout t, tc_use_exclusive_lock = ex\<rparr>"

lemma start_stmt_steps:
  assumes m: "update_member_tch sv False m_tch (trans_register_ha False c) = Some (c1, m1)" and i: "get_or_init_sess_ctx sv c1 = (c2, Some y)"
    and s: "request eng (Statistic_begin (stmt_tch (cn_thd c2) m1) (begin_time sv) (sv_enable_stat sv)) (stmt_conn c2) = (cs, rs)"
    and b: "request eng (Trx_begin (stmt_tch (cn_thd c2) m1) (stmt_trx ex (cn_thd c2)) (has_flag y CTC_DDL_LOCAL_ENABLED) (begin_time sv)
       (sv_enable_stat sv)) (stmt_conn c2) = (cb, rb)"
  shows "start_stmt sv eng ex m_tch c =
     (if th_plan_command (cn_thd c2) = ''SQLCOM_LOCK_TABLES'' then Some (stmt_conn c2, stmt_tch (cn_thd c2) m1, NO_ERROR)
      else if sc_is_ctc_trx_begin y \<noteq> 0
      then if tch_sess_addr (stmt_tch (cn_thd c2) m1) = INVALID_VALUE64 \<or> tch_thd_id (stmt_tch (cn_thd c2) m1) \<noteq> th_thread_id (cn_thd c2) then None
           else Some (cs, ry_tch rs, if ry_code rs \<noteq> CT_SUCCESS then convert_ctc_error_code_to_mysql_impl (ry_code rs) else NO_ERROR)
      else case check_error_code_to_mysql (th_no_fk_check (cn_thd c2)) (ry_code rb) of
             (ret, mark) \<Rightarrow>
               let c = (if mark then set_thd (\<lambda>t. t\<lparr>th_rollback_marked := True\<rparr>) cb else cb); c = update_sess_ctx_by_tch sv (ry_tch rb) c
               in if ret \<noteq> CT_SUCCESS then Some (c, ry_tch rb, convert_ctc_error_code_to_mysql_impl ret)
                  else let c = set_ctx (\<lambda>x. x\<lparr>sc_is_ctc_trx_begin := 1\<rparr>) c
                       in Some (if (if th_multi_stmt (cn_thd c2) then 0 else (1::nat)) = 0 then trans_register_ha True c else c, ry_tch rb, NO_ERROR))"
proof -
  have c4: "(if th_in_sub_stmt (cn_thd c2) then set_ctx (\<lambda>x. x\<lparr>sc_thd_id := th_thread_id (cn_thd c2)\<rparr>) c2
      else set_ctx (\<lambda>x. x\<lparr>sc_sql_stat_start := 1\<rparr>) (set_ctx (\<lambda>x. x\<lparr>sc_thd_id := th_thread_id (cn_thd c2)\<rparr>) c2)) = stmt_conn c2"
    by (auto simp: stmt_conn_def set_ctx_def set_thd_def option.map_comp comp_def)
  show ?thesis
    unfolding start_stmt_def m Option.bind.bind_lunit prod.case i option.case Let_def c4 stmt_tch_def [symmetric] stmt_trx_def [symmetric] s b
    by (rule refl)
qed

lemma stmt_prepared:
  assumes "conn_ok h0 seen c" "update_member_tch sv False m_tch (trans_register_ha False c) = Some (c1, m1)" "get_or_init_sess_ctx sv c1 = (c2, x)"
  obtains opn where "conn_mid h0 seen {#} {#} opn c2" "linked opn c2" "x = ctx_of c2" "th_thread_id (cn_thd c2) = th_thread_id (cn_thd c)"
    "tch_thd_id m1 = th_thread_id (cn_thd c)" "opn \<Longrightarrow> tch_sess_addr m1 \<noteq> INVALID_VALUE64" "th_plan_command (cn_thd c2) = th_plan_command (cn_thd c)"
proof -
  obtain opn where o0: "conn_mid h0 seen {#} {#} opn (trans_register_ha False c)" "linked opn (trans_register_ha False c)"
    using assms(1) ok_register(1) [of h0 seen False c] by (auto simp: conn_ok_def)
  note 1 = member_tch [OF assms(2) o0]
  note 2 = init_ctx [OF assms(3) 1(1,2)]
  have "th_plan_command (cn_thd c2) = th_plan_command (cn_thd c1)" by (subst 2(7)) simp
  moreover have "th_plan_command (cn_thd c1) = th_plan_command (cn_thd (trans_register_ha False c))" by (subst 1(3)) simp
  ultimately have "th_plan_command (cn_thd c2) = th_plan_command (cn_thd c)" by (simp add: trans_register_ha_def conn_simps)
  moreover have "th_thread_id (cn_thd c1) = th_thread_id (cn_thd c)" using same_thread [OF 1(3)] by (simp add: ok_register)
  ultimately show thesis using that [of opn] 1(4,5) 2(1-4) by simp
qed

lemma stmt_marked:
  assumes "conn_mid h0 seen {#} {#} opn c" "linked opn c" "ctx_of c = Some y"
  shows "conn_mid h0 seen {#} {#} opn (stmt_conn c)" "linked opn (stmt_conn c)" "th_thread_id (cn_thd (stmt_conn c)) = th_thread_id (cn_thd c)"
    "ctx_of (stmt_conn c) \<noteq> None" "(sc_is_ctc_trx_begin y \<noteq> 0) = opn" "tch_thd_id (stmt_tch t m) = tch_thd_id m" "tch_sess_addr (stmt_tch t m) = tch_sess_addr m"
  using assms by (auto simp: stmt_conn_def stmt_tch_def mid_set_ctx keeps_ctx_def linked_def conn_simps split: if_splits)

interpretation stmt: session_op "\<lambda>eng c. map_option fst (start_stmt sv eng ex m_tch c)"
proof
  fix eng :: "'a engine" and h0 seen c c'
  assume e: "session_engine eng" and a: "conn_ok h0 seen c" "map_option fst (start_stmt sv eng ex m_tch c) = Some c'"
  obtain c1 m1 where m: "update_member_tch sv False m_tch (trans_register_ha False c) = Some (c1, m1)"
    using a(2) by (cases "update_member_tch sv False m_tch (trans_register_ha False c)") (auto simp: start_stmt_def)
  obtain c2 x where i: "get_or_init_sess_ctx sv c1 = (c2, x)" by fastforce
  obtain opn where 2: "conn_mid h0 seen {#} {#} opn c2" "linked opn c2" "x = ctx_of c2" "th_thread_id (cn_thd c2) = th_thread_id (cn_thd c)"
    "tch_thd_id m1 = th_thread_id (cn_thd c)" by (rule stmt_prepared [OF a(1) m i]) blast
  show "conn_ok h0 seen c' \<and> th_thread_id (cn_thd c') = th_thread_id (cn_thd c)"
  proof (cases x)
    case None
    then show ?thesis using a(2) m i 2 by (auto simp: start_stmt_def conn_ok_def)
  next
    case (Some y)
    then have y: "ctx_of c2 = Some y" using 2(3) by simp
    let ?t = "cn_thd c2" and ?m = "stmt_tch (cn_thd c2) m1" and ?c = "stmt_conn c2"
    note c4 = stmt_marked [OF 2(1,2) y]
    have ok4: "conn_ok h0 seen ?c" using c4(1,2) by (auto simp: conn_ok_def)
    obtain cs rs where s: "request eng (Statistic_begin ?m (begin_time sv) (sv_enable_stat sv)) ?c = (cs, rs)" by fastforce
    obtain cb rb where b: "request eng (Trx_begin ?m (stmt_trx ex ?t) (has_flag y CTC_DDL_LOCAL_ENABLED) (begin_time sv) (sv_enable_stat sv)) ?c = (cb, rb)" by fastforce
    note u = start_stmt_steps [OF m i [unfolded Some] s b]
    show ?thesis
    proof (cases opn)
      case True
      have "conn_ok h0 seen cs" "cn_thd cs = cn_thd ?c"
        using mid_request [OF s, of h0 seen "{#}" "{#}" True True] c4(1,2) True request_simps(1) [OF s] linked_same [of cs ?c True] by (auto simp: conn_ok_def)
      then show ?thesis using a(2) u c4(3,5) True ok4 2(4) by (auto split: if_splits)
    next
      case False
      have f: "conn_mid h0 seen {#} {#} False ?c" "linked False ?c" "tch_thd_id ?m = th_thread_id (cn_thd ?c)" using c4 2 False by simp_all
      note bg = begun(1-3) [OF b e f c4(4), of sv] begun(4) [OF b e f c4(4), of "th_no_fk_check ?t"]
      show ?thesis using a(2) u c4(3,5) False ok4 2(4) bg
        by (auto simp: Let_def ok_marked ok_register conn_simps errno_defs split: if_splits)
    qed
  qed
qed

interpretation lock: session_op "\<lambda>eng c. map_option fst (external_lock sv eng logs unlock ex m_tch c)"
proof
  fix eng :: "'a engine" and h0 seen c c'
  assume e: "session_engine eng" and a: "conn_ok h0 seen c" "map_option fst (external_lock sv eng logs unlock ex m_tch c) = Some c'"
  obtain opn where o: "conn_mid h0 seen {#} {#} opn c" "linked opn c" using a(1) by (auto simp: conn_ok_def)
  show "conn_ok h0 seen c' \<and> th_thread_id (cn_thd c') = th_thread_id (cn_thd c)"
  proof (cases "sv_normalized sv \<and> logs")
    case True
    obtain c1 x where i: "get_or_init_sess_ctx sv c = (c1, x)" by fastforce
    note 1 = init_ctx [OF i o]
    have "conn_ok h0 seen (set_ctx (\<lambda>x. x\<lparr>sc_sql_stat_start := 1\<rparr>) c1)"
      using ok_end [of h0 seen False c1] 1(1,2) by (auto simp: end_statement_def conn_ok_def)
    then show ?thesis using a True i 1(4) by (auto simp: external_lock_def conn_simps split: if_splits option.splits)
  next
    case nl: False
    then obtain c1 b where p: "engine_ddl_passthru sv c = Some (c1, b)"
      using a(2) by (cases "engine_ddl_passthru sv c") (auto simp: external_lock_def)
    note 1 = ok_passthru [OF p a(1)]
    show ?thesis
    proof (cases "(b \<and> (is_create_table_check (cn_thd c1) \<or> th_alter_copy (cn_thd c1))) \<or> unlock")
      case True
      then show ?thesis using a(2) nl p 1 by (auto simp: external_lock_def split: if_splits)
    next
      case False
      then have "map_option fst (start_stmt sv eng ex m_tch c1) = Some c'"
        using a(2) nl p by (auto simp: external_lock_def option.map_comp comp_def case_prod_unfold)
      then show ?thesis using stmt.keeps [OF e 1(1)] 1(2) by fastforce
    qed
  qed
qed

text \<open>The cursors a registration adds to those the connection has seen.\<close>

definition registered :: "nat \<Rightarrow> ctc_handler \<Rightarrow> 'e conn \<Rightarrow> nat multiset" where
  "registered p tch c =
     (if tch_cursor_addr tch = INVALID_VALUE64 \<or> (case ctx_of c of None \<Rightarrow> True | Some x \<Rightarrow> map_of (sc_cursors_map x) p = Some (tch_cursor_addr tch))
      then {#} else {#tch_cursor_addr tch#})"

lemma mset_update:
  "map_of xs p = None \<Longrightarrow> mset (map snd (AList.update p v xs)) = add_mset v (mset (map snd xs))"
  "map_of xs p = Some k \<Longrightarrow> add_mset k (mset (map snd (AList.update p v xs))) = add_mset v (mset (map snd xs))"
  by (induction xs) (auto simp: add_mset_commute split: if_splits)

lemma cursor_kept:
  assumes a: "update_sess_ctx_cursor_by_tch sv eng p tch c = Some (c', tch')" and ok: "conn_ok h0 seen c"
  shows "conn_ok h0 (seen + registered p tch c) c' \<and> th_thread_id (cn_thd c') = th_thread_id (cn_thd c)"
proof -
  obtain opn where o: "conn_mid h0 seen {#} {#} opn c" "linked opn c" using ok by (auto simp: conn_ok_def)
  show ?thesis
  proof (cases "tch_cursor_addr tch = INVALID_VALUE64")
    case True
    then show ?thesis using a ok by (simp add: update_sess_ctx_cursor_by_tch_def registered_def)
  next
    case nv: False
    then obtain x where x: "ctx_of c = Some x" using a by (cases "ctx_of c") (auto simp: update_sess_ctx_cursor_by_tch_def)
    let ?cur = "map_of (sc_cursors_map x) p" and ?v = "case sc_invalid_cursors x of None \<Rightarrow> [] | Some v \<Rightarrow> v"
    define inv where "inv = (case ?cur of None \<Rightarrow> sc_invalid_cursors x | Some k \<Rightarrow> Some (?v @ [k]))"
    define y where "y = x\<lparr>sc_invalid_cursors := inv, sc_cursors_map := AList.update p (tch_cursor_addr tch) (sc_cursors_map x)\<rparr>"
    define c1 where "c1 = set_ctx (\<lambda>_. y) c"
    show ?thesis
    proof (cases "?cur = Some (tch_cursor_addr tch)")
      case True
      then show ?thesis using a ok nv x by (simp add: update_sess_ctx_cursor_by_tch_def registered_def)
    next
      case False
      have "mset (map snd (sc_cursors_map y)) + mset (case inv of None \<Rightarrow> [] | Some v \<Rightarrow> v) =
          add_mset (tch_cursor_addr tch) (mset (map snd (sc_cursors_map x)) + mset ?v)"
        using mset_update [of "sc_cursors_map x" p] by (cases ?cur) (auto simp: y_def inv_def)
      then have 1: "conn_mid h0 (seen + {#tch_cursor_addr tch#}) {#} {#} opn c1" "linked opn c1" "th_thread_id (cn_thd c1) = th_thread_id (cn_thd c)"
        using o x by (auto simp: c1_def conn_mid_def own_def held_def linked_def conn_simps y_def)
      have g: "registered p tch c = {#tch_cursor_addr tch#}" using nv False x by (simp add: registered_def)
      have u: "update_sess_ctx_cursor_by_tch sv eng p tch c = (case inv of None \<Rightarrow> Some (c1, tch) | Some v \<Rightarrow>
          if total_csize y \<ge> SESSION_CURSOR_NUM
          then map_option (\<lambda>(c, tch, r). (c, tch)) (hand_cursors sv eng tch (u32 (int (length v))) (total_csize y) True
                 (\<lambda>tch cs. Free_session_cursors tch cs (s32 (int (length v)))) c1)
          else Some (c1, tch))"
        unfolding update_sess_ctx_cursor_by_tch_def x Option.bind.bind_lunit Let_def inv_def c1_def y_def if_not_P [OF nv] if_not_P [OF False] by (rule refl)
      have "c' = c1 \<or> (\<exists>n m k r. hand_cursors sv eng tch n m True (\<lambda>tch cs. Free_session_cursors tch cs k) c1 = Some (c', tch', r))"
        using a u by (auto split: option.splits if_splits)
      then show ?thesis using handed_dest [OF _ 1(1,2)] 1 g by (auto simp: conn_ok_def)
    qed
  qed
qed

lemma closed_ok:
  assumes a: "ctc_close_connect sv eng c = Some (c', ret)" and ok: "conn_ok h0 seen c"
  shows "conn_ok h0 (trace_handed (cn_trace c')) c' \<and> th_thread_id (cn_thd c') = th_thread_id (cn_thd c)"
proof -
  obtain c1 tch r1 where g: "get_tch_in_handler_data sv True c = Some (c1, tch, r1)"
    using a by (cases "get_tch_in_handler_data sv True c") (auto simp: ctc_close_connect_def)
  note 1 = after_tch [OF g ok]
  obtain opn where o: "conn_mid h0 seen {#} {#} opn c1" "linked opn c1" using 1(1) by (auto simp: conn_ok_def)
  show ?thesis
  proof (cases "r1 = NO_ERROR")
    case False
    then have "c1 = c" "ctx_of c = None" "c' = c"
      using a g by (auto simp: ctc_close_connect_def get_tch_in_handler_data_def get_or_init_sess_ctx_def Let_def Option.bind_eq_Some_conv split: option.splits if_splits)
    then show ?thesis using ok by (auto simp: conn_ok_def conn_mid_def held_def)
  next
    case True
    define l where "l = (local_tch tch)\<lparr>tch_is_broadcast := \<not> (th_attachable (cn_thd c) \<or> sv_initialize sv \<or> is_ctc_mdl_thd (cn_thd c))\<rparr>"
    obtain c2 r where r: "request eng (Close_session l) c1 = (c2, r)" by fastforce
    have m: "conn_mid h0 seen {#} {#} False c2" using mid_request [OF r, of h0 seen "{#}" "{#}" opn False] o(1) by simp
    obtain x where x: "ctx_of c2 = Some x" using 1(4) True request_simps(1) [OF r] by auto
    have c': "release_sess_ctx c2 = Some c'" using a g True r by (auto simp: ctc_close_connect_def Let_def l_def)
    have "b \<in> set (sh_live (cn_shm c2))" if "sc_msg_buf x = Some b" for b
      using m x that by (metis (no_types, lifting) conn_mid_def own_def add_mset_add_single option.simps(5) in_multiset_in_set union_iff union_single_eq_member)
    then have "conn_mid h0 (trace_handed (cn_trace c')) {#} {#} False c' \<and> linked False c' \<and> th_thread_id (cn_thd c') = th_thread_id (cn_thd c2)"
      using m x c' by (auto simp: release_sess_ctx_def conn_mid_def own_def held_def linked_def conn_simps shm_free_def split: option.splits)
    then show ?thesis using 1(2) request_simps(1) [OF r] by (auto simp: conn_ok_def)
  qed
qed

section \<open>A connection as a step relation\<close>

text \<open>
  A connection that MySQL and its handlers drive: the operations in any order, the server's options and data changing
  in between, except for the number of the thread and the connector's own data. The second component are the cursors that
  were registered since the session was opened.
\<close>

inductive conn_run :: "'e engine \<Rightarrow> 'e conn \<Rightarrow> 'e conn \<Rightarrow> nat multiset \<Rightarrow> bool" for eng c0 where
  New: "conn_run eng c0 c0 {#}"
| Server: "conn_run eng c0 c seen \<Longrightarrow> th_thread_id t = th_thread_id (cn_thd c) \<Longrightarrow> th_ha_data t = ctx_of c \<Longrightarrow> conn_run eng c0 (c\<lparr>cn_thd := t\<rparr>) seen"
| Statement: "conn_run eng c0 c seen \<Longrightarrow> start_stmt sv eng ex m c = Some (c', m', ret) \<Longrightarrow> conn_run eng c0 c' seen"
| Lock: "conn_run eng c0 c seen \<Longrightarrow> external_lock sv eng logs unlock ex m c = Some (c', m', ret, ex') \<Longrightarrow> conn_run eng c0 c' seen"
| Snapshot: "conn_run eng c0 c seen \<Longrightarrow> ctc_start_trx_and_assign_scn sv eng c = Some (c', ret) \<Longrightarrow> conn_run eng c0 c' seen"
| Commit: "conn_run eng c0 c seen \<Longrightarrow> ctc_commit sv eng trx c = Some (c', ret) \<Longrightarrow> conn_run eng c0 c' seen"
| Rollback: "conn_run eng c0 c seen \<Longrightarrow> ctc_rollback sv eng trx c = Some (c', ret) \<Longrightarrow> conn_run eng c0 c' seen"
| Savepoint: "conn_run eng c0 c seen \<Longrightarrow> ctc_set_savepoint sv eng sp c = Some (c', ret) \<Longrightarrow> conn_run eng c0 c' seen"
| Back_to_savepoint: "conn_run eng c0 c seen \<Longrightarrow> ctc_rollback_savepoint sv eng sp c = Some (c', ret) \<Longrightarrow> conn_run eng c0 c' seen"
| Release: "conn_run eng c0 c seen \<Longrightarrow> ctc_release_savepoint sv eng sp c = Some (c', ret) \<Longrightarrow> conn_run eng c0 c' seen"
| Kill: "conn_run eng c0 c seen \<Longrightarrow> ctc_kill_connection sv eng c = Some c' \<Longrightarrow> conn_run eng c0 c' seen"
| Cursor: "conn_run eng c0 c seen \<Longrightarrow> update_sess_ctx_cursor_by_tch sv eng p tch c = Some (c', tch') \<Longrightarrow> conn_run eng c0 c' (seen + registered p tch c)"
| Close: "conn_run eng c0 c seen \<Longrightarrow> ctc_close_connect sv eng c = Some (c', ret) \<Longrightarrow> conn_run eng c0 c' (trace_handed (cn_trace c'))"

definition conn_new :: "'e conn \<Rightarrow> bool" where
  "conn_new c \<longleftrightarrow> ctx_of c = None \<and> cn_trace c = []"

lemma run_ok:
  assumes "session_engine eng" "conn_new c0" "conn_run eng c0 c seen"
  shows "conn_ok (cn_shm c0) seen c"
  using assms(3)
proof induction
  case New
  then show ?case using assms(2) by (auto simp: conn_new_def conn_ok_def conn_mid_def linked_def own_def held_def trx_state_def trace_handed_def)
next
  case (Server c seen t)
  then show ?case by (auto simp: conn_ok_def conn_mid_def linked_def own_def held_def split: option.splits)
next
  case Statement
  then show ?case using stmt.keeps [OF assms(1)] by fastforce
next
  case Lock
  then show ?case using lock.keeps [OF assms(1)] by fastforce
next
  case Snapshot
  then show ?case using snap.keeps [OF assms(1)] by fastforce
next
  case Commit
  then show ?case using comm.keeps [OF assms(1)] by fastforce
next
  case Rollback
  then show ?case using roll.keeps [OF assms(1)] by fastforce
next
  case Savepoint
  then show ?case using set_sp.keeps [OF assms(1)] by fastforce
next
  case Back_to_savepoint
  then show ?case using rollback_sp.keeps [OF assms(1)] by fastforce
next
  case Release
  then show ?case using release_sp.keeps [OF assms(1)] by fastforce
next
  case Kill
  then show ?case using kill.keeps [OF assms(1)] by blast
next
  case Cursor
  then show ?case using cursor_kept by blast
next
  case Close
  then show ?case using closed_ok by blast
qed

section \<open>Properties\<close>




text \<open>An engine that accepts: begins and statements succeed.\<close>

definition accepts :: "'e engine \<Rightarrow> bool" where
  "accepts eng \<longleftrightarrow> (\<forall>t x l b s e. ry_code (snd (eng (Trx_begin t x l b s) e)) = CT_SUCCESS) \<and>
     (\<forall>t b s e. ry_code (snd (eng (Statistic_begin t b s) e)) = CT_SUCCESS)"

lemma member_tch_total: "update_member_tch sv False m c \<noteq> None"
  by (auto simp: update_member_tch_def alloc_msg_buf_def Let_def split: option.splits)

text \<open>
  C11: in every state a connection can reach, a statement that is not LOCK TABLES starts when the engine accepts it and there
  is memory for the context: no assertion fails, no error is returned and afterwards a transaction is open.
\<close>

theorem statement_starts:
  assumes e: "session_engine eng" "accepts eng" and r: "conn_new c0" "conn_run eng c0 c seen"
    and m: "sv_malloc_ok sv" "th_plan_command (cn_thd c) \<noteq> ''SQLCOM_LOCK_TABLES''"
  shows "\<exists>c' m'. start_stmt sv eng ex m_tch c = Some (c', m', NO_ERROR) \<and> trx_state (cn_trace c') = Some True \<and>
    (\<exists>x. ctx_of c' = Some x \<and> sc_is_ctc_trx_begin x \<noteq> 0)"
proof -
  have ok: "conn_ok (cn_shm c0) seen c" by (rule run_ok [OF e(1) r])
  obtain c1 m1 where u: "update_member_tch sv False m_tch (trans_register_ha False c) = Some (c1, m1)"
    using member_tch_total [of sv m_tch "trans_register_ha False c"] by auto
  obtain c2 x where i: "get_or_init_sess_ctx sv c1 = (c2, x)" by fastforce
  obtain opn where 2: "conn_mid (cn_shm c0) seen {#} {#} opn c2" "linked opn c2" "x = ctx_of c2" "th_thread_id (cn_thd c2) = th_thread_id (cn_thd c)"
    "tch_thd_id m1 = th_thread_id (cn_thd c)" "opn \<Longrightarrow> tch_sess_addr m1 \<noteq> INVALID_VALUE64" "th_plan_command (cn_thd c2) = th_plan_command (cn_thd c)"
    by (rule stmt_prepared [OF ok u i]) blast
  obtain y where y: "x = Some y" using i m(1) by (cases "ctx_of c1"; simp add: get_or_init_sess_ctx_def) blast+
  then have y: "x = Some y" "ctx_of c2 = Some y" using 2(3) by simp_all
  note c4 = stmt_marked [OF 2(1,2) y(2)]
  let ?t = "cn_thd c2" and ?m = "stmt_tch (cn_thd c2) m1" and ?c = "stmt_conn c2"
  obtain cs rs where s: "request eng (Statistic_begin ?m (begin_time sv) (sv_enable_stat sv)) ?c = (cs, rs)" by fastforce
  obtain cb rb where b: "request eng (Trx_begin ?m (stmt_trx ex ?t) (has_flag y CTC_DDL_LOCAL_ENABLED) (begin_time sv) (sv_enable_stat sv)) ?c = (cb, rb)" by fastforce
  note st = start_stmt_steps [OF u i [unfolded y(1)] s b]
  have c: "ry_code rs = CT_SUCCESS" "ry_code rb = CT_SUCCESS"
    using e(2) request_simps(4) [OF s] request_simps(4) [OF b] by (cases "begin_time sv"; simp add: accepts_def)+
  have "\<exists>c' m'. start_stmt sv eng ex m_tch c = Some (c', m', NO_ERROR) \<and> (\<exists>x. ctx_of c' = Some x \<and> sc_is_ctc_trx_begin x \<noteq> 0)"
  proof (cases opn)
    case True
    then show ?thesis using st c m(2) 2 c4(3-7) request_simps(1) [OF s] y(2) by (auto simp: stmt_conn_def conn_simps)
  next
    case False
    have "ctx_of (update_sess_ctx_by_tch sv (ry_tch rb) cb) \<noteq> None"
      using request_simps(1) [OF b] c4(4) by (auto simp: update_sess_ctx_by_tch_def get_or_init_sess_ctx_def conn_simps)
    then show ?thesis using st c m(2) 2(7) c4(5) False
      by (auto simp: check_error_code_to_mysql_def errno_defs Let_def conn_simps trans_register_ha_def)
  qed
  then obtain c' m' x where s: "start_stmt sv eng ex m_tch c = Some (c', m', NO_ERROR)" "ctx_of c' = Some x" "sc_is_ctc_trx_begin x \<noteq> 0" by blast
  have "conn_run eng c0 c' seen" using conn_run.Statement [OF r(2) s(1)] .
  then have "conn_ok (cn_shm c0) seen c'" by (rule run_ok [OF e(1) r(1)])
  then show ?thesis using s by (auto simp: conn_ok_def conn_mid_def linked_def split: if_splits)
qed

section \<open>A concrete connection\<close>

definition demo_engine :: "unit engine" where
  "demo_engine call e = (e, \<lparr>ry_tch = (call_tch call)\<lparr>tch_sess_addr := 77\<rparr>, ry_code = CT_SUCCESS, ry_ddl_commit = False, ry_err_code = 0\<rparr>)"

definition demo_server :: server where
  "demo_server = \<lparr>sv_inst_id = 1, sv_initialize = False, sv_upgrade_force = False, sv_started = True, sv_concurrent_ddl = False, sv_normalized = False,
     sv_group_num = 0, sv_max_cursors_no_autocommit = 128, sv_enable_stat = False, sv_now = (0, 0), sv_malloc_ok = True, sv_msg_size = 100,
     sv_command_no = (\<lambda>_. 0), sv_obj_kind = (\<lambda>_. OBJ_UNKNOWN), sv_savepoint_name = (\<lambda>_. []),
     sv_stack = \<lparr>iv_buff = [], iv_buff_len = 0, iv_mysql_inst_id = 0, iv_is_dcl = False, iv_is_flush = False, iv_err_code = 0\<rparr>\<rparr>"

definition demo_thd :: thd where
  "demo_thd = \<lparr>th_thread_id = 9, th_ha_data = None, th_sql_command = ''SQLCOM_SELECT'', th_plan_command = ''SQLCOM_SELECT'', th_query_id = 1, th_query = None,
     th_multi_stmt = True, th_in_sub_stmt = False, th_is_reading_dd = False, th_isolation = ISO_READ_COMMITTED, th_lock_wait_timeout = 50, th_no_fk_check = False,
     th_attachable = False, th_alter_copy = False, th_exec_started = True, th_db = [], th_user = [], th_host = [], th_table = ([], []), th_invalidates = [],
     th_pre_sess_addr = 0, th_reg_stmt = False, th_reg_all = False, th_rollback_marked = False\<rparr>"

definition demo0 :: "unit conn" where
  "demo0 = \<lparr>cn_thd = demo_thd, cn_shm = \<lparr>sh_next = 1, sh_ok = (\<lambda>_. True), sh_live = [], sh_data = (\<lambda>_. []), sh_bad_frees = []\<rparr>, cn_engine = (), cn_trace = []\<rparr>"

definition demo1 :: "unit conn" where
  "demo1 = fst (the (start_stmt demo_server demo_engine False zero_tch demo0))"

definition demo2 :: "unit conn" where
  "demo2 = fst (the (update_sess_ctx_cursor_by_tch demo_server demo_engine 3 (zero_tch\<lparr>tch_cursor_addr := 5\<rparr>) demo1))"

definition demo3 :: "unit conn" where
  "demo3 = fst (the (ctc_commit demo_server demo_engine True demo0))"

lemmas demo_defs = demo_engine_def demo_server_def demo_thd_def demo0_def

lemma demo_session: "session_engine demo_engine" "accepts demo_engine" "conn_new demo0"
  by (simp_all add: session_engine_def accepts_def conn_new_def demo_defs errno_defs INVALID_VALUE64_def Let_def)

lemma demo_start: "\<exists>m. start_stmt demo_server demo_engine False zero_tch demo0 = Some (demo1, m, NO_ERROR)"
  "trx_state (cn_trace demo1) = Some True" "ctx_of demo1 = Some (new_ctx\<lparr>sc_thd_id := 9, sc_sess_addr := 77, sc_bind_core := 0, sc_sql_stat_start := 1, sc_is_ctc_trx_begin := 1\<rparr>)"
  unfolding demo1_def
  by (simp_all add: start_stmt_def demo_defs update_member_tch_def trans_register_ha_def set_thd_def set_ctx_def get_or_init_sess_ctx_def new_ctx_def Let_def
      request_def check_error_code_to_mysql_def errno_defs update_sess_ctx_by_tch_def zero_tch_def trx_state_def has_flag_def INVALID_VALUE64_def)

lemma demo_cursor:
  "update_sess_ctx_cursor_by_tch demo_server demo_engine 3 (zero_tch\<lparr>tch_cursor_addr := 5\<rparr>) demo1 = Some (demo2, zero_tch\<lparr>tch_cursor_addr := 5\<rparr>)"
  "registered 3 (zero_tch\<lparr>tch_cursor_addr := 5\<rparr>) demo1 = {#5#}"
  using demo_start(3) by (simp_all add: demo2_def update_sess_ctx_cursor_by_tch_def registered_def INVALID_VALUE64_def new_ctx_def)

lemma demo_commit: "ctc_commit demo_server demo_engine True demo0 = Some (demo3, NO_ERROR)" "own demo3 = {#1#}"
  unfolding demo3_def
  by (simp_all add: demo_defs ctc_commit_def engine_ddl_passthru_def is_meta_version_upgrading_force_def get_or_init_sess_ctx_def has_flag_def
      new_ctx_def CTC_DDL_LOCAL_ENABLED_def Let_def is_create_table_check_def is_lock_table_def get_tch_in_handler_data_def adopt_ctx_def set_ctx_def set_thd_def
      alloc_msg_buf_def shm_alloc_def bind_core_def zero_tch_def commit_transaction_def commit_preprocess_def attachable_trx_update_pre_addr_def hand_cursors_def
      collect_cursors_def ctc_alloc_buf_def total_csize_def cast_simps ctc_copy_cursors_to_free_def request_def ctc_free_buf_def commit_end_def end_statement_def
      errno_defs own_def)

lemma demo_runs: "conn_run demo_engine demo0 demo1 {#}" "conn_run demo_engine demo0 demo2 {#5#}" "conn_run demo_engine demo0 demo3 {#}"
proof -
  obtain m where "start_stmt demo_server demo_engine False zero_tch demo0 = Some (demo1, m, NO_ERROR)" using demo_start(1) by blast
  then show 1: "conn_run demo_engine demo0 demo1 {#}" by (rule conn_run.Statement [OF conn_run.New])
  show "conn_run demo_engine demo0 demo2 {#5#}" using conn_run.Cursor [OF 1 demo_cursor(1)] demo_cursor(2) by simp
  show "conn_run demo_engine demo0 demo3 {#}" by (rule conn_run.Commit [OF conn_run.New demo_commit(1)])
qed




theorem statement_starts_witness:
  "\<exists>c' m'. start_stmt demo_server demo_engine False zero_tch demo0 = Some (c', m', NO_ERROR) \<and> trx_state (cn_trace c') = Some True"
proof -
  have "sv_malloc_ok demo_server" "th_plan_command (cn_thd demo0) \<noteq> ''SQLCOM_LOCK_TABLES''" by (simp_all add: demo_defs)
  from statement_starts [OF demo_session conn_run.New this] show ?thesis by blast
qed

lemma committed_success:
  assumes "commit_transaction sv eng sql tch c = Some (c', t', CT_SUCCESS)" "conn_mid h0 seen {#} {#} opn c" "linked opn c"
  shows "held c' = {#} \<and> (\<exists>x. ctx_of c' = Some x \<and> sc_is_ctc_trx_begin x = 0)"
proof -
  obtain c1 t1 x where p: "commit_preprocess sv eng tch c = Some (c1, t1)" "ctx_of c1 = Some x"
    using assms(1) by (auto simp: commit_transaction_def Option.bind_eq_Some_conv Let_def)
  let ?call = "\<lambda>t cs. Trx_commit t cs (total_csize x) sql (sv_enable_stat sv)" and ?t = "attachable_trx_update_pre_addr sv (cn_thd c1) True t1"
  obtain c2 t2 r where h: "hand_cursors sv eng ?t (total_csize x) (total_csize x) False ?call c1 = Some (c2, t2, r)"
    using assms(1) p by (auto simp: commit_transaction_def Option.bind_eq_Some_conv Let_def)
  note q = preprocess [OF p(1) assms(2,3)]
  note b = hand_back [OF h q(1,2), of "if ry_code r = CT_SUCCESS then False else opn"]
  have 2: "held c2 = {#}" "ctx_of c2 \<noteq> None" "conn_mid h0 seen {#} {#} (if ry_code r = CT_SUCCESS then False else opn) c2" using b by auto
  have d: "cn_thd c3 = cn_thd c2" if "broadcast_ddl_commit sv eng t2 c2 = Some (c3, t4)" for c3 t4
    using ddl_commit(2) [OF that 2(3,2)] .
  show ?thesis using assms(1) p h 2
    by (auto simp: commit_transaction_def Let_def conn_simps held_def split: if_splits dest!: d)
qed

lemma request_thd: "cn_thd (fst (request eng call c)) = cn_thd c"
  by (simp add: request_def split: prod.split)

lemma commit_steps:
  assumes "engine_ddl_passthru sv c = Some (c1, False)"
  shows "ctc_commit sv eng trx c = do {
       (c, tch, ret) \<leftarrow> get_tch_in_handler_data sv (trx \<or> \<not> th_multi_stmt (cn_thd c1)) c1;
       if ret \<noteq> NO_ERROR then Some (c, ret)
       else map_option (commit_end eng trx (cn_thd c1))
              (if trx \<or> \<not> th_multi_stmt (cn_thd c1) then commit_transaction sv eng (statistic_sql sv (cn_thd c1)) tch c
               else commit_statement sv eng (statistic_sql sv (cn_thd c1)) tch c) }"
  unfolding ctc_commit_def assms by (simp add: Let_def)



end
