(* ===== verification/CTC_Meta.thy ===== *)
theory CTC_Meta
  imports CTC_Session "HOL-Library.List_Lexorder"
begin

text \<open>
  The metadata locks and the dictionary cache a server keeps for the other servers of the cluster
  (\<open>ctc_meta_data.cc\<close>, the connection keys of \<open>ctc_proxy_util.h\<close>). A statement of another server reaches this one as
  requests that carry the number of that server and of its connection; the requests of one connection run in one \<open>THD\<close> of
  this server. The model holds the global maps of the file, the threads that are alive and what the requests did to the
  caches. The metadata locks themselves are MySQL's: \<open>mdl_api\<close> has its operations, \<open>mdl_laws\<close> what they promise.
\<close>

section \<open>Maps\<close>

text \<open>\<open>std::map\<close> as the list of its pairs in the order of the keys: \<open>map_of\<close> is \<open>find\<close>, \<open>std_put\<close> the assignment
  \<open>m[k] = v\<close>, \<open>std_insert\<close> the member \<open>insert\<close>, which keeps a value that is there, \<open>std_erase\<close> the member \<open>erase\<close>.\<close>

fun std_put :: "'k::linorder \<Rightarrow> 'v \<Rightarrow> ('k \<times> 'v) list \<Rightarrow> ('k \<times> 'v) list" where
  "std_put k v [] = [(k, v)]"
| "std_put k v ((l, w) # m) =
     (if k = l then (k, v) # m else if k < l then (k, v) # (l, w) # m else (l, w) # std_put k v m)"

definition std_insert :: "'k::linorder \<Rightarrow> 'v \<Rightarrow> ('k \<times> 'v) list \<Rightarrow> ('k \<times> 'v) list" where
  "std_insert k v m = (case map_of m k of None \<Rightarrow> std_put k v m | Some w \<Rightarrow> m)"

definition std_erase :: "'k \<Rightarrow> ('k \<times> 'v) list \<Rightarrow> ('k \<times> 'v) list" where
  "std_erase k m = filter (\<lambda>e. fst e \<noteq> k) m"

lemma map_of_put [simp]: "map_of (std_put k v m) = (map_of m)(k \<mapsto> v)"
  by (induction k v m rule: std_put.induct) (auto simp: fun_eq_iff)

lemma map_of_insert [simp]: "map_of (std_insert k v m) x = (if x = k \<and> map_of m k = None then Some v else map_of m x)"
  by (simp add: std_insert_def split: option.split)

lemma map_of_erase [simp]: "map_of (std_erase k m) = (map_of m)(k := None)"
  by (induction m) (auto simp: std_erase_def fun_eq_iff)

lemma keys_put [simp]: "fst ` set (std_put k v m) = insert k (fst ` set m)"
  by (induction k v m rule: std_put.induct) auto

lemma sorted_put: "sorted_wrt (<) (map fst m) \<Longrightarrow> sorted_wrt (<) (map fst (std_put k v m))"
  by (induction k v m rule: std_put.induct) (auto simp: image_iff)

lemma sorted_insert: "sorted_wrt (<) (map fst m) \<Longrightarrow> sorted_wrt (<) (map fst (std_insert k v m))"
  by (simp add: std_insert_def sorted_put split: option.split)

lemma sorted_erase: "sorted_wrt (<) (map fst m) \<Longrightarrow> sorted_wrt (<) (map fst (std_erase k m))"
  by (induction m) (auto simp: std_erase_def)

fun the_default :: "'v \<Rightarrow> 'v option \<Rightarrow> 'v" where
  "the_default v None = v"
| "the_default v (Some w) = w"

section \<open>Connection keys\<close>

definition AGENT_CONN_KEY_MASK :: nat where "AGENT_CONN_KEY_MASK = 9223372036854775808"

definition ctc_get_conn_key :: "nat \<Rightarrow> nat \<Rightarrow> bool \<Rightarrow> nat" where
  "ctc_get_conn_key inst_id thd_id use_proxy =
     (let conn_key = (push_bit 32 inst_id + thd_id) mod 2 ^ 64
      in if use_proxy then conn_key else or conn_key AGENT_CONN_KEY_MASK)"

definition ctc_get_inst_id_from_conn_key :: "nat \<Rightarrow> nat" where
  "ctc_get_inst_id_from_conn_key conn_key = drop_bit 32 (and conn_key (AGENT_CONN_KEY_MASK - 1)) mod 2 ^ 32"

definition ctc_get_cantian_id_from_conn_key :: "nat \<Rightarrow> nat" where
  "ctc_get_cantian_id_from_conn_key conn_key = drop_bit 48 (and conn_key (AGENT_CONN_KEY_MASK - 1)) mod 2 ^ 16"

section \<open>Metadata locks of MySQL\<close>

type_synonym thd_ptr = nat

datatype mdl_namespace =
    MDL_GLOBAL | MDL_BACKUP_LOCK | MDL_TABLESPACE | MDL_SCHEMA | MDL_TABLE | MDL_FUNCTION | MDL_PROCEDURE | MDL_TRIGGER
  | MDL_EVENT | MDL_RESOURCE_GROUPS | MDL_NAMESPACE_OTHER int

datatype mdl_type =
    MDL_INTENTION_EXCLUSIVE | MDL_SHARED | MDL_SHARED_READ_ONLY | MDL_SHARED_NO_READ_WRITE | MDL_EXCLUSIVE | MDL_TYPE_OTHER int

text \<open>A request names an object by its namespace and the bytes of its key and asks for a type of lock; all requests of the
  file have the duration \<open>MDL_EXPLICIT\<close>. A granted lock is a ticket of its own.\<close>

record mdl_request =
  rq_namespace :: mdl_namespace
  rq_key :: "byte list"
  rq_type :: mdl_type

record mdl_ticket =
  tk_id :: nat
  tk_namespace :: mdl_namespace
  tk_key :: "byte list"
  tk_type :: mdl_type

record 'm mdl_api =
  acquire_lock :: "thd_ptr \<Rightarrow> mdl_request \<Rightarrow> nat \<Rightarrow> 'm \<Rightarrow> 'm \<times> mdl_ticket option"
  release_lock :: "thd_ptr \<Rightarrow> mdl_ticket \<Rightarrow> 'm \<Rightarrow> 'm"
  release_all_locks_for_name :: "thd_ptr \<Rightarrow> mdl_ticket \<Rightarrow> 'm \<Rightarrow> 'm"
  release_locks :: "thd_ptr \<Rightarrow> (mdl_ticket \<Rightarrow> bool) \<Rightarrow> 'm \<Rightarrow> 'm"
  owns_equal_or_stronger_lock :: "thd_ptr \<Rightarrow> mdl_request \<Rightarrow> 'm \<Rightarrow> bool"

text \<open>
  What the file relies on, with \<open>tix\<close> the tickets of each thread: a granted ticket is a new one for the key and the type of
  the request, a refused request changes nothing, and a release takes away that ticket, all tickets with its key, or those
  a visitor picks.
\<close>

definition mdl_laws :: "'m mdl_api \<Rightarrow> ('m \<Rightarrow> thd_ptr \<Rightarrow> mdl_ticket set) \<Rightarrow> bool" where
  "mdl_laws api tix \<longleftrightarrow>
     (\<forall>t rq w m m' tk. acquire_lock api t rq w m = (m', Some tk) \<longrightarrow>
        (\<forall>u. tk \<notin> tix m u) \<and> tk_namespace tk = rq_namespace rq \<and> tk_key tk = rq_key rq \<and> tk_type tk = rq_type rq \<and>
        tix m' = (tix m)(t := insert tk (tix m t))) \<and>
     (\<forall>t rq w m m'. acquire_lock api t rq w m = (m', None) \<longrightarrow> tix m' = tix m) \<and>
     (\<forall>t tk m. tix (release_lock api t tk m) = (tix m)(t := tix m t - {tk})) \<and>
     (\<forall>t tk m. tix (release_all_locks_for_name api t tk m) = (tix m)(t := {k \<in> tix m t. tk_key k \<noteq> tk_key tk})) \<and>
     (\<forall>t p m. tix (release_locks api t p m) = (tix m)(t := {k \<in> tix m t. \<not> p k}))"

section \<open>State\<close>

text \<open>What a request does to the caches of the server.\<close>

datatype dd_event =
    Tdc_remove_table "byte list" "byte list"
  | Invalidate_table "byte list" "byte list"
  | Invalidate_routine bool "byte list" "byte list"
  | Sp_cache_invalidate
  | Sp_cache_flush_obsolete bool "byte list" "byte list"
  | Invalidate_schema "byte list"
  | Invalidate_tablespace "byte list"
  | Dump_tablespaces
  | Reset_dictionary_cache
  | Reload_acl_caches
  | Reset_mqh

text \<open>
  The maps of the file, the \<open>THD\<close>s between \<open>new\<close> and \<open>delete\<close>, the locks, the number of \<open>invalidate_obj_entry_t\<close> blocks
  allocated and not freed, and of the thread that runs the requests: the calls of \<open>my_thread_init\<close> without their
  \<open>my_thread_end\<close> and the \<open>THD\<close> its globals point to.
\<close>

record 'm meta =
  md_thd_map :: "(nat \<times> thd_ptr) list"
  md_ticket_maps :: "(thd_ptr \<times> (byte list \<times> mdl_ticket) list) list"
  md_routine_maps :: "(thd_ptr \<times> byte list list) list"
  md_schema_maps :: "(thd_ptr \<times> byte list list) list"
  md_live :: "thd_ptr list"
  md_mdl :: 'm
  md_blocks :: nat
  md_inits :: nat
  md_current :: "thd_ptr option"
  md_events :: "dd_event list"

text \<open>
  The server around the file: its options, the locks, \<open>new THD\<close> (\<open>None\<close> where it fails), the keys MySQL makes of a name
  (\<open>mdl_key_init\<close> and the \<open>create_mdl_key\<close> of the dictionary), the meaning of the numbers in a request, and what its caches
  hold.
\<close>

record 'm meta_env =
  me_server :: server
  me_mdl :: "'m mdl_api"
  me_new_thd :: "thd_ptr list \<Rightarrow> thd_ptr option"
  me_mdl_key :: "mdl_namespace \<Rightarrow> byte list \<Rightarrow> byte list \<Rightarrow> byte list"
  me_create_mdl_key :: "mdl_namespace \<Rightarrow> byte list \<Rightarrow> byte list \<Rightarrow> byte list"
  me_namespace :: "int \<Rightarrow> mdl_namespace"
  me_type :: "int \<Rightarrow> mdl_type"
  me_in_dictionary :: "dd_event \<Rightarrow> bool"
  me_in_sp_cache :: "thd_ptr \<Rightarrow> bool \<Rightarrow> byte list \<Rightarrow> byte list \<Rightarrow> bool"
  me_reload_acl_fails :: bool

definition on_mdl :: "('m \<Rightarrow> 'm) \<Rightarrow> 'm meta \<Rightarrow> 'm meta" where
  "on_mdl f s = s\<lparr>md_mdl := f (md_mdl s)\<rparr>"

definition log_event :: "dd_event list \<Rightarrow> 'm meta \<Rightarrow> 'm meta" where
  "log_event es s = s\<lparr>md_events := md_events s @ es\<rparr>"

definition enter_thd :: "thd_ptr \<Rightarrow> 'm meta \<Rightarrow> 'm meta" where
  "enter_thd thd s = s\<lparr>md_inits := md_inits s + 1, md_current := Some thd\<rparr>"

definition leave_thd :: "'m meta \<Rightarrow> 'm meta" where
  "leave_thd s = s\<lparr>md_inits := md_inits s - 1, md_current := None\<rparr>"

section \<open>Threads\<close>

text \<open>\<open>ctc_init_thd\<close>: the result of \<open>new (std::nothrow) THD\<close> is used unchecked; \<open>None\<close> stands for the null dereference.\<close>

definition ctc_init_thd :: "'m meta_env \<Rightarrow> nat \<Rightarrow> 'm meta \<Rightarrow> ('m meta \<times> thd_ptr) option" where
  "ctc_init_thd env thd_key s =
     (case map_of (md_thd_map s) thd_key of
        Some thd \<Rightarrow> Some (enter_thd thd s, thd)
      | None \<Rightarrow> do {
          new_thd \<leftarrow> me_new_thd env (md_live s);
          Some ((enter_thd new_thd s)\<lparr>md_live := new_thd # md_live s, md_thd_map := std_put thd_key new_thd (md_thd_map s)\<rparr>, new_thd) })"

text \<open>The visitor \<open>Release_all_ctc_explicit_locks\<close> and the end of a \<open>THD\<close>; \<open>release_resources\<close> leaves the thread without
  globals.\<close>

definition releases :: "mdl_ticket \<Rightarrow> bool" where
  "releases ticket \<longleftrightarrow> tk_type ticket = MDL_EXCLUSIVE \<or>
     (tk_type ticket = MDL_SHARED_READ_ONLY \<or> tk_type ticket = MDL_SHARED_NO_READ_WRITE) \<and> tk_namespace ticket = MDL_TABLE"

definition release_ctc_thd_and_explicit_locks :: "'m meta_env \<Rightarrow> thd_ptr \<Rightarrow> 'm meta \<Rightarrow> 'm meta" where
  "release_ctc_thd_and_explicit_locks env thd s =
     leave_thd ((on_mdl (release_locks (me_mdl env) thd releases) (enter_thd thd s))\<lparr>md_live := remove1 thd (md_live s)\<rparr>)"

definition release_ctc_thd_tickets :: "thd_ptr \<Rightarrow> 'm meta \<Rightarrow> 'm meta" where
  "release_ctc_thd_tickets thd s = s\<lparr>md_ticket_maps := std_erase thd (md_ticket_maps s)\<rparr>"

section \<open>Invalidation of the dictionary cache\<close>

text \<open>Lists of entries wait per thread until the last broadcast of a statement.\<close>

definition ctc_insert_schema :: "thd_ptr \<Rightarrow> byte list \<Rightarrow> 'm meta \<Rightarrow> 'm meta" where
  "ctc_insert_schema thd obj s =
     s\<lparr>md_schema_maps := std_put thd (the_default [] (map_of (md_schema_maps s) thd) @ [obj]) (md_schema_maps s)\<rparr>"

definition ctc_insert_routine :: "thd_ptr \<Rightarrow> byte list \<Rightarrow> 'm meta \<Rightarrow> 'm meta" where
  "ctc_insert_routine thd obj s =
     s\<lparr>md_routine_maps := std_put thd (the_default [] (map_of (md_routine_maps s) thd) @ [obj]) (md_routine_maps s)\<rparr>"

text \<open>The names of an entry are C strings: one that fills its array of 128 bytes goes on in the bytes after it.\<close>

definition entry_type :: "byte list \<Rightarrow> nat" where
  "entry_type obj = unat (hd obj)"

definition entry_first :: "byte list \<Rightarrow> byte list" where
  "entry_first obj = c_string (drop 1 obj)"

definition entry_second :: "byte list \<Rightarrow> byte list" where
  "entry_second obj = c_string (drop (1 + SMALL_RECORD_SIZE) obj)"

definition CTC_MDL_TIMEOUT :: nat where "CTC_MDL_TIMEOUT = 31536000"

definition mdl_init :: "'m meta_env \<Rightarrow> mdl_namespace \<Rightarrow> byte list \<Rightarrow> byte list \<Rightarrow> mdl_type \<Rightarrow> mdl_request" where
  "mdl_init env ns db name typ' = \<lparr>rq_namespace = ns, rq_key = me_mdl_key env ns db name, rq_type = typ'\<rparr>"

definition mdl_init_by_key :: "'m meta_env \<Rightarrow> mdl_namespace \<Rightarrow> byte list \<Rightarrow> byte list \<Rightarrow> mdl_type \<Rightarrow> mdl_request" where
  "mdl_init_by_key env ns db name typ' = \<lparr>rq_namespace = ns, rq_key = me_create_mdl_key env ns db name, rq_type = typ'\<rparr>"

text \<open>A lock taken for the time of an invalidation, unless the thread owns it already: no result where it is refused,
  otherwise the ticket to give back.\<close>

definition lock_for :: "'m meta_env \<Rightarrow> thd_ptr \<Rightarrow> mdl_request \<Rightarrow> 'm meta \<Rightarrow> 'm meta \<times> mdl_ticket option option" where
  "lock_for env thd rq s =
     (case acquire_lock (me_mdl env) thd rq CTC_MDL_TIMEOUT (md_mdl s) of
        (m, None) \<Rightarrow> (s\<lparr>md_mdl := m\<rparr>, None)
      | (m, Some ticket) \<Rightarrow> (s\<lparr>md_mdl := m\<rparr>, Some (Some ticket)))"

definition lock_unless_owned :: "'m meta_env \<Rightarrow> thd_ptr \<Rightarrow> mdl_request \<Rightarrow> 'm meta \<Rightarrow> 'm meta \<times> mdl_ticket option option" where
  "lock_unless_owned env thd rq s =
     (if owns_equal_or_stronger_lock (me_mdl env) thd rq (md_mdl s) then (s, Some None) else lock_for env thd rq s)"

fun give_back :: "'m meta_env \<Rightarrow> thd_ptr \<Rightarrow> mdl_ticket option \<Rightarrow> 'm meta \<Rightarrow> 'm meta" where
  "give_back env thd None s = s"
| "give_back env thd (Some ticket) s = on_mdl (release_lock (me_mdl env) thd ticket) s"

definition invalidate_routine :: "'m meta_env \<Rightarrow> thd_ptr \<Rightarrow> byte list \<Rightarrow> byte list \<Rightarrow> nat \<Rightarrow> 'm meta \<Rightarrow> 'm meta \<times> bool" where
  "invalidate_routine env thd schema_name routine_name typ' s =
     (if \<not> sv_normalized (me_server env) then (s, False)
      else case lock_unless_owned env thd (mdl_init env MDL_SCHEMA schema_name [] MDL_INTENTION_EXCLUSIVE) s of
             (s, None) \<Rightarrow> (s, True)
           | (s, Some schema_ticket) \<Rightarrow>
               let procedure = (sv_obj_kind (me_server env) typ' = OBJ_RT_PROCEDURE)
               in case lock_unless_owned env thd
                     (mdl_init_by_key env (if procedure then MDL_PROCEDURE else MDL_FUNCTION) schema_name routine_name MDL_EXCLUSIVE) s of
                    (s, None) \<Rightarrow> (s, True)
                  | (s, Some routine_ticket) \<Rightarrow>
                      let ivd = Invalidate_routine procedure schema_name routine_name;
                          s = log_event (if me_in_dictionary env ivd then [ivd] else []) s;
                          s = log_event [Sp_cache_invalidate] s;
                          s = log_event (if me_in_sp_cache env thd procedure schema_name routine_name
                                         then [Sp_cache_flush_obsolete procedure schema_name routine_name] else []) s
                      in (give_back env thd schema_ticket (give_back env thd routine_ticket s), False))"

definition invalidate_table :: "'m meta_env \<Rightarrow> thd_ptr \<Rightarrow> byte list \<Rightarrow> byte list \<Rightarrow> 'm meta \<Rightarrow> 'm meta \<times> bool" where
  "invalidate_table env thd schema_name table_name s =
     (if \<not> sv_normalized (me_server env) then (s, False)
      else case lock_unless_owned env thd (mdl_init env MDL_SCHEMA schema_name [] MDL_INTENTION_EXCLUSIVE) s of
             (s, None) \<Rightarrow> (s, True)
           | (s, Some schema_ticket) \<Rightarrow>
               (case lock_unless_owned env thd (mdl_init env MDL_TABLE schema_name table_name MDL_EXCLUSIVE) s of
                  (s, None) \<Rightarrow> (s, True)
                | (s, Some table_ticket) \<Rightarrow>
                    let s = log_event [Tdc_remove_table schema_name table_name, Invalidate_table schema_name table_name] s
                    in (give_back env thd table_ticket (give_back env thd schema_ticket s), False)))"

definition invalidate_schema :: "'m meta_env \<Rightarrow> thd_ptr \<Rightarrow> byte list \<Rightarrow> 'm meta \<Rightarrow> 'm meta \<times> bool" where
  "invalidate_schema env thd schema_name s =
     (if \<not> sv_normalized (me_server env) then (s, False)
      else case lock_for env thd (mdl_init env MDL_SCHEMA schema_name [] MDL_EXCLUSIVE) s of
             (s, None) \<Rightarrow> (s, True)
           | (s, Some schema_ticket) \<Rightarrow>
               let ivd = Invalidate_schema schema_name
               in (give_back env thd schema_ticket (log_event (if me_in_dictionary env ivd then [ivd] else []) s), False))"

definition invalidate_tablespace :: "'m meta_env \<Rightarrow> thd_ptr \<Rightarrow> byte list \<Rightarrow> 'm meta \<Rightarrow> 'm meta \<times> bool" where
  "invalidate_tablespace env thd tablespace_name s =
     (if \<not> sv_normalized (me_server env) then (s, False)
      else case lock_for env thd (mdl_init env MDL_TABLESPACE tablespace_name [] MDL_EXCLUSIVE) s of
             (s, None) \<Rightarrow> (s, True)
           | (s, Some tablespace_ticket) \<Rightarrow>
               let ivd = Invalidate_tablespace tablespace_name;
                   s = log_event (if me_in_dictionary env ivd then [ivd] else []) s
               in (give_back env thd tablespace_ticket (log_event [Dump_tablespaces] s), False))"

text \<open>\<open>release_routine_and_schema\<close>: every waiting entry is worked off and freed; the error left is the last entry's.\<close>

fun invalidate_list :: "(byte list \<Rightarrow> 'm meta \<Rightarrow> 'm meta \<times> bool) \<Rightarrow> byte list list \<Rightarrow> 'm meta \<times> bool \<Rightarrow> 'm meta \<times> bool" where
  "invalidate_list ivd [] r = r"
| "invalidate_list ivd (obj # objs) (s, error) =
     (case ivd obj s of (s, error) \<Rightarrow> invalidate_list ivd objs (s\<lparr>md_blocks := md_blocks s - 1\<rparr>, error))"

definition release_routines :: "'m meta_env \<Rightarrow> thd_ptr \<Rightarrow> 'm meta \<times> bool \<Rightarrow> 'm meta \<times> bool" where
  "release_routines env thd r =
     (case map_of (md_routine_maps (fst r)) thd of
        None \<Rightarrow> r
      | Some objs \<Rightarrow>
          (case invalidate_list (\<lambda>obj. invalidate_routine env thd (entry_first obj) (entry_second obj) (entry_type obj)) objs r of
             (s, error) \<Rightarrow> (s\<lparr>md_routine_maps := std_erase thd (md_routine_maps s)\<rparr>, error)))"

definition release_schemas :: "'m meta_env \<Rightarrow> thd_ptr \<Rightarrow> 'm meta \<times> bool \<Rightarrow> 'm meta \<times> bool" where
  "release_schemas env thd r =
     (case map_of (md_schema_maps (fst r)) thd of
        None \<Rightarrow> r
      | Some objs \<Rightarrow>
          (case invalidate_list (\<lambda>obj. invalidate_schema env thd (entry_first obj)) objs r of
             (s, error) \<Rightarrow> (s\<lparr>md_schema_maps := std_erase thd (md_schema_maps s)\<rparr>, error)))"

definition release_routine_and_schema :: "'m meta_env \<Rightarrow> thd_ptr \<Rightarrow> 'm meta \<times> bool \<Rightarrow> 'm meta \<times> bool" where
  "release_routine_and_schema env thd r =
     (if sv_normalized (me_server env) then release_schemas env thd (release_routines env thd r) else r)"

text \<open>
  One entry of a broadcast and the loop over them. An entry that is not whole in the buffer is read beyond it, which has no
  value here. The loop ends because the offset grows by the size of an entry.
\<close>

definition invalidate_entry :: "'m meta_env \<Rightarrow> thd_ptr \<Rightarrow> byte list \<Rightarrow> 'm meta \<times> bool \<Rightarrow> 'm meta \<times> bool" where
  "invalidate_entry env thd obj r =
     (case r of (s, error) \<Rightarrow>
        let s = s\<lparr>md_blocks := md_blocks s + 1\<rparr>; kind = sv_obj_kind (me_server env) (entry_type obj)
        in if kind = OBJ_ABSTRACT_TABLE
           then case invalidate_table env thd (entry_first obj) (entry_second obj) s of (s, error) \<Rightarrow> (s\<lparr>md_blocks := md_blocks s - 1\<rparr>, error)
           else if kind = OBJ_RT_PROCEDURE \<or> kind = OBJ_RT_FUNCTION then (ctc_insert_routine thd obj s, error)
           else if kind = OBJ_SCHEMA then (ctc_insert_schema thd obj s, error)
           else if kind = OBJ_TABLESPACE
           then case invalidate_tablespace env thd (entry_first obj) s of (s, error) \<Rightarrow> (s\<lparr>md_blocks := md_blocks s - 1\<rparr>, error)
           else (s, error))"

function invalidate_entries :: "'m meta_env \<Rightarrow> thd_ptr \<Rightarrow> byte list \<Rightarrow> nat \<Rightarrow> nat \<Rightarrow> 'm meta \<times> bool \<Rightarrow> ('m meta \<times> bool) option" where
  "invalidate_entries env thd buff buff_len offset r =
     (if offset < buff_len
      then if offset + OBJ_ENTRY_SIZE \<le> length buff
           then invalidate_entries env thd buff buff_len (offset + OBJ_ENTRY_SIZE)
                  (invalidate_entry env thd (take OBJ_ENTRY_SIZE (drop offset buff)) r)
           else None
      else Some r)"
  by pat_completeness auto

termination
  by (relation "measure (\<lambda>(env, thd, buff, buff_len, offset, r). buff_len - offset)") (auto simp: OBJ_ENTRY_SIZE_def)

declare invalidate_entries.simps [simp del]

definition ctc_invalidate_mysql_dd_cache_impl :: "'m meta_env \<Rightarrow> ctc_handler \<Rightarrow> invalidate_broadcast_request \<Rightarrow> 'm meta \<Rightarrow>
    ('m meta \<times> bool) option" where
  "ctc_invalidate_mysql_dd_cache_impl env tch broadcast_req s =
     (if \<not> sv_normalized (me_server env) then Some (s, False)
      else if \<not> is_work_flow (me_server env) then Some (s, False)
      else if iv_mysql_inst_id broadcast_req = sv_inst_id (me_server env) then Some (s, False)
      else do {
        (s, thd) \<leftarrow> ctc_init_thd env (ctc_get_conn_key (tch_inst_id tch) (tch_thd_id tch) True) s;
        if iv_buff_len broadcast_req = 0 \<and> \<not> iv_is_dcl broadcast_req then Some (log_event [Reset_dictionary_cache] s, False)
        else do {
          (s, error) \<leftarrow>
            (if iv_is_dcl broadcast_req
             then Some (log_event (Reload_acl_caches # (if iv_is_flush broadcast_req then [Reset_mqh] else [])) s, me_reload_acl_fails env)
             else do {
               first \<leftarrow> (if iv_buff broadcast_req = [] then None else Some (hd (iv_buff broadcast_req)));
               r \<leftarrow> invalidate_entries env thd (iv_buff broadcast_req) (iv_buff_len broadcast_req) 1 (s, False);
               Some (if first = of_char CHR ''1'' then release_routine_and_schema env thd r else r) });
          Some (leave_thd s, error) } })"

definition ctc_invalidate_mysql_dd_cache_req :: "'m meta_env \<Rightarrow> ctc_handler \<Rightarrow> invalidate_broadcast_request \<Rightarrow> 'm meta \<Rightarrow>
    ('m meta \<times> bool) option" where
  "ctc_invalidate_mysql_dd_cache_req = ctc_invalidate_mysql_dd_cache_impl"

section \<open>Closing threads\<close>

text \<open>The end of one thread of the map, in the order of the code, and the three ways to choose threads.\<close>

definition close_thd :: "'m meta_env \<Rightarrow> thd_ptr \<Rightarrow> 'm meta \<Rightarrow> 'm meta" where
  "close_thd env thd s =
     release_ctc_thd_and_explicit_locks env thd (release_ctc_thd_tickets thd (fst (release_routine_and_schema env thd (s, False))))"

definition release_ctc_mdl_thd_by_key :: "'m meta_env \<Rightarrow> nat \<Rightarrow> 'm meta \<Rightarrow> 'm meta" where
  "release_ctc_mdl_thd_by_key env mdl_thd_key s =
     (case map_of (md_thd_map s) mdl_thd_key of
        None \<Rightarrow> s
      | Some thd \<Rightarrow> (let s = close_thd env thd s in s\<lparr>md_thd_map := std_erase mdl_thd_key (md_thd_map s)\<rparr>))"

fun release_matching :: "'m meta_env \<Rightarrow> (nat \<Rightarrow> bool) \<Rightarrow> (nat \<times> thd_ptr) list \<Rightarrow> 'm meta \<Rightarrow> 'm meta" where
  "release_matching env p [] s = s"
| "release_matching env p ((key, thd) # rest) s =
     release_matching env p rest
       (if p key then (let s = close_thd env thd s in s\<lparr>md_thd_map := std_erase key (md_thd_map s)\<rparr>) else s)"

definition release_ctc_mdl_thd_by_cantian_id :: "'m meta_env \<Rightarrow> nat \<Rightarrow> 'm meta \<Rightarrow> 'm meta" where
  "release_ctc_mdl_thd_by_cantian_id env cantian_inst_id s =
     release_matching env (\<lambda>key. ctc_get_cantian_id_from_conn_key key = cantian_inst_id) (md_thd_map s) s"

definition release_ctc_mdl_thd_by_inst_id :: "'m meta_env \<Rightarrow> nat \<Rightarrow> 'm meta \<Rightarrow> 'm meta" where
  "release_ctc_mdl_thd_by_inst_id env mysql_inst_id s =
     release_matching env (\<lambda>key. ctc_get_inst_id_from_conn_key key = mysql_inst_id) (md_thd_map s) s"

definition CANTIAN_DOWN_MASK :: nat where "CANTIAN_DOWN_MASK = 65535"

definition close_ctc_mdl_thd :: "'m meta_env \<Rightarrow> nat \<Rightarrow> nat \<Rightarrow> 'm meta \<Rightarrow> 'm meta" where
  "close_ctc_mdl_thd env thd_id mysql_inst_id s =
     (if thd_id = 0
      then if mysql_inst_id mod 2 ^ 16 = CANTIAN_DOWN_MASK
           then release_ctc_mdl_thd_by_cantian_id env (drop_bit 16 mysql_inst_id mod 2 ^ 16) s
           else release_ctc_mdl_thd_by_inst_id env mysql_inst_id s
      else release_ctc_mdl_thd_by_key env (ctc_get_conn_key mysql_inst_id thd_id True) s)"

section \<open>Locks for the statements of other servers\<close>

definition ctc_init_mdl_request :: "'m meta_env \<Rightarrow> lock_table_info \<Rightarrow> mdl_request" where
  "ctc_init_mdl_request env lock_info =
     (let schema_name = c_string (li_db_name lock_info); name = c_string (li_table_name lock_info);
          ns = me_namespace env (li_mdl_namespace lock_info)
      in if ns \<in> {MDL_FUNCTION, MDL_PROCEDURE, MDL_EVENT, MDL_TRIGGER} then mdl_init_by_key env ns schema_name name MDL_EXCLUSIVE
         else if ns = MDL_RESOURCE_GROUPS then mdl_init_by_key env ns schema_name [] MDL_EXCLUSIVE
         else if ns \<in> {MDL_GLOBAL, MDL_BACKUP_LOCK} then mdl_init env ns schema_name name MDL_SHARED
         else mdl_init env ns schema_name name MDL_EXCLUSIVE)"

text \<open>The overloaded \<open>ctc_init_mdl_request\<close> of \<open>LOCK TABLES\<close>: the number in \<open>mdl_namespace\<close> is the type of the lock.\<close>

definition ctc_init_mdl_request_of :: "'m meta_env \<Rightarrow> lock_table_info \<Rightarrow> mdl_namespace \<Rightarrow> mdl_request" where
  "ctc_init_mdl_request_of env lock_info ns =
     mdl_init env ns (c_string (li_db_name lock_info)) (c_string (li_table_name lock_info)) (me_type env (li_mdl_namespace lock_info))"

definition ER_LOCK_WAIT_TIMEOUT :: int where "ER_LOCK_WAIT_TIMEOUT = 1205"

text \<open>The common end of the two functions that take a lock: it is recorded under its key unless one is there, and a
  refusal leaves the thread as it is.\<close>

definition acquire_and_record :: "'m meta_env \<Rightarrow> thd_ptr \<Rightarrow> mdl_request \<Rightarrow> int \<Rightarrow> 'm meta \<Rightarrow> 'm meta \<times> int \<times> bool" where
  "acquire_and_record env thd rq err_code s =
     (case acquire_lock (me_mdl env) thd rq 1 (md_mdl s) of
        (m, None) \<Rightarrow> (s\<lparr>md_mdl := m\<rparr>, ER_LOCK_WAIT_TIMEOUT, True)
      | (m, Some ticket) \<Rightarrow>
          (leave_thd (s\<lparr>md_mdl := m, md_ticket_maps := std_put thd
             (std_insert (rq_key rq) ticket (the_default [] (map_of (md_ticket_maps s) thd))) (md_ticket_maps s)\<rparr>), err_code, False))"

definition ctc_mdl_lock_thd :: "'m meta_env \<Rightarrow> ctc_handler \<Rightarrow> lock_table_info \<Rightarrow> int \<Rightarrow> 'm meta \<Rightarrow> ('m meta \<times> int \<times> bool) option" where
  "ctc_mdl_lock_thd env tch lock_info err_code s =
     (if \<not> is_work_flow (me_server env) then Some (s, err_code, False)
      else if tch_inst_id tch = sv_inst_id (me_server env) then Some (s, err_code, False)
      else do {
        (s, thd) \<leftarrow> ctc_init_thd env (ctc_get_conn_key (tch_inst_id tch) (tch_thd_id tch) True) s;
        Some (acquire_and_record env thd (ctc_init_mdl_request env lock_info) err_code s) })"

definition keep_tickets :: "thd_ptr \<Rightarrow> (byte list \<times> mdl_ticket) list \<Rightarrow> 'm meta \<Rightarrow> 'm meta" where
  "keep_tickets thd ticket_map s =
     s\<lparr>md_ticket_maps := (if ticket_map = [] then std_erase thd (md_ticket_maps s) else std_put thd ticket_map (md_ticket_maps s))\<rparr>"

definition ctc_mdl_unlock_thd_by_ticket :: "'m meta_env \<Rightarrow> thd_ptr \<Rightarrow> mdl_request \<Rightarrow> 'm meta \<Rightarrow> 'm meta" where
  "ctc_mdl_unlock_thd_by_ticket env thd rq s =
     (case map_of (md_ticket_maps s) thd of
        None \<Rightarrow> s
      | Some ticket_map \<Rightarrow>
          (case map_of ticket_map (rq_key rq) of
             None \<Rightarrow> s
           | Some ticket \<Rightarrow> keep_tickets thd (std_erase (rq_key rq) ticket_map)
                              (on_mdl (release_all_locks_for_name (me_mdl env) thd ticket) s)))"

text \<open>\<open>ctc_release_mdl_tickets\<close>: the locks of \<open>LOCK TABLES\<close> among the recorded ones, or the one of a key.\<close>

fun ctc_release_mdl_tickets :: "'m meta_env \<Rightarrow> thd_ptr \<Rightarrow> byte list option \<Rightarrow> (byte list \<times> mdl_ticket) list \<Rightarrow> 'm meta \<Rightarrow>
    'm meta \<times> (byte list \<times> mdl_ticket) list" where
  "ctc_release_mdl_tickets env thd filter_key [] s = (s, [])"
| "ctc_release_mdl_tickets env thd filter_key ((key, ticket) # rest) s =
     (if (filter_key = None \<or> filter_key = Some key) \<and>
         (tk_type ticket = MDL_SHARED_READ_ONLY \<or> tk_type ticket = MDL_SHARED_NO_READ_WRITE)
      then ctc_release_mdl_tickets env thd filter_key rest (on_mdl (release_lock (me_mdl env) thd ticket) s)
      else case ctc_release_mdl_tickets env thd filter_key rest s of (s, kept) \<Rightarrow> (s, (key, ticket) # kept))"

definition ctc_mdl_unlock_tables_thd :: "'m meta_env \<Rightarrow> ctc_handler \<Rightarrow> mdl_request option \<Rightarrow> 'm meta \<Rightarrow> 'm meta" where
  "ctc_mdl_unlock_tables_thd env tch rq s =
     (if tch_inst_id tch = sv_inst_id (me_server env) then s
      else case map_of (md_thd_map s) (ctc_get_conn_key (tch_inst_id tch) (tch_thd_id tch) True) of
             None \<Rightarrow> s
           | Some thd \<Rightarrow>
               let s = enter_thd thd s
               in (case map_of (md_ticket_maps s) thd of
                     None \<Rightarrow> s
                   | Some ticket_map \<Rightarrow>
                       (case ctc_release_mdl_tickets env thd (map_option rq_key rq) ticket_map s of
                          (s, kept) \<Rightarrow> leave_thd (keep_tickets thd kept s))))"

definition ctc_mdl_unlock_thd :: "'m meta_env \<Rightarrow> ctc_handler \<Rightarrow> lock_table_info \<Rightarrow> 'm meta \<Rightarrow> 'm meta" where
  "ctc_mdl_unlock_thd env tch lock_info s =
     (if \<not> is_work_flow (me_server env) then s
      else if tch_inst_id tch = sv_inst_id (me_server env) then s
      else case map_of (md_thd_map s) (ctc_get_conn_key (tch_inst_id tch) (tch_thd_id tch) True) of
             None \<Rightarrow> s
           | Some thd \<Rightarrow> leave_thd (ctc_mdl_unlock_thd_by_ticket env thd (ctc_init_mdl_request env lock_info) (enter_thd thd s)))"

definition ctc_ddl_execute_lock_tables_by_req :: "'m meta_env \<Rightarrow> ctc_handler \<Rightarrow> lock_table_info \<Rightarrow> int \<Rightarrow> 'm meta \<Rightarrow>
    ('m meta \<times> int \<times> bool) option" where
  "ctc_ddl_execute_lock_tables_by_req env tch lock_info err_code s =
     (let rq = ctc_init_mdl_request_of env lock_info MDL_TABLE; s = ctc_mdl_unlock_tables_thd env tch (Some rq) s
      in if tch_inst_id tch = sv_inst_id (me_server env) then Some (s, err_code, False)
         else do {
           (s, thd) \<leftarrow> ctc_init_thd env (ctc_get_conn_key (tch_inst_id tch) (tch_thd_id tch) True) s;
           Some (acquire_and_record env thd rq err_code s) })"

section \<open>Keys name one connection\<close>

lemma mask_and: "and k (AGENT_CONN_KEY_MASK - 1) = take_bit 63 k"
  unfolding take_bit_eq_mask mask_eq_exp_minus_1 AGENT_CONN_KEY_MASK_def by simp

lemma conn_key_low:
  assumes "inst_id < 2 ^ 31" "thd_id < 2 ^ 32"
  shows "take_bit 63 (ctc_get_conn_key inst_id thd_id use_proxy) = inst_id * 2 ^ 32 + thd_id"
proof -
  have b: "inst_id * 4294967296 + thd_id < 9223372036854775808" using assms by simp
  have m: "take_bit 63 (9223372036854775808 :: nat) = 0" by (simp add: take_bit_eq_mod)
  have l: "take_bit 63 (inst_id * 4294967296 + thd_id) = inst_id * 4294967296 + thd_id" using b by (simp add: take_bit_eq_mod)
  have k: "(push_bit 32 inst_id + thd_id) mod 2 ^ 64 = inst_id * 4294967296 + thd_id" using b by (simp add: push_bit_eq_mult)
  show ?thesis unfolding ctc_get_conn_key_def Let_def k by (simp add: take_bit_or AGENT_CONN_KEY_MASK_def l m)
qed

lemma conn_key_parts:
  assumes "inst_id < 2 ^ 31" "thd_id < 2 ^ 32"
  shows "ctc_get_inst_id_from_conn_key (ctc_get_conn_key inst_id thd_id use_proxy) = inst_id"
    "ctc_get_cantian_id_from_conn_key (ctc_get_conn_key inst_id thd_id use_proxy) = inst_id div 2 ^ 16"
proof -
  have d: "(inst_id * 4294967296 + thd_id) div 4294967296 = inst_id" using assms by simp
  have e: "(inst_id * 4294967296 + thd_id) div 281474976710656 = inst_id div 65536"
    using div_mult2_eq [of "inst_id * 4294967296 + thd_id" 4294967296 65536] d by simp
  show "ctc_get_inst_id_from_conn_key (ctc_get_conn_key inst_id thd_id use_proxy) = inst_id"
    using assms d by (simp add: ctc_get_inst_id_from_conn_key_def mask_and conn_key_low drop_bit_eq_div del: One_nat_def)
  show "ctc_get_cantian_id_from_conn_key (ctc_get_conn_key inst_id thd_id use_proxy) = inst_id div 2 ^ 16"
    using assms e by (simp add: ctc_get_cantian_id_from_conn_key_def mask_and conn_key_low drop_bit_eq_div del: One_nat_def)
qed

lemma conn_key_inject:
  assumes "inst_id < 2 ^ 31" "thd_id < 2 ^ 32" "inst_id' < 2 ^ 31" "thd_id' < 2 ^ 32"
  shows "ctc_get_conn_key inst_id thd_id p = ctc_get_conn_key inst_id' thd_id' p' \<longleftrightarrow> inst_id = inst_id' \<and> thd_id = thd_id' \<and> p = p'"
proof
  assume k: "ctc_get_conn_key inst_id thd_id p = ctc_get_conn_key inst_id' thd_id' p'"
  have i: "inst_id = inst_id'" using conn_key_parts(1) [OF assms(1,2), of p] conn_key_parts(1) [OF assms(3,4), of p'] k by simp
  have t: "thd_id = thd_id'" using conn_key_low [OF assms(1,2), of p] conn_key_low [OF assms(3,4), of p'] k i by simp
  have b: "\<not> bit (inst_id * 4294967296 + thd_id) 63"
  proof -
    have "inst_id * 4294967296 + thd_id < 2 ^ 63" using assms(1,2) by simp
    then show ?thesis by (simp add: bit_iff_odd)
  qed
  have m: "bit (9223372036854775808 :: nat) 63" by (simp add: bit_iff_odd)
  have "bit (ctc_get_conn_key inst_id thd_id q) 63 \<longleftrightarrow> \<not> q" for q
    using b m assms(1,2) by (auto simp: ctc_get_conn_key_def Let_def push_bit_eq_mult bit_or_iff AGENT_CONN_KEY_MASK_def)
  with k i t show "inst_id = inst_id' \<and> thd_id = thd_id' \<and> p = p'" by metis
qed simp

section \<open>What is recorded is held\<close>

definition tickets_ok :: "mdl_ticket set \<Rightarrow> (byte list \<times> mdl_ticket) list \<Rightarrow> bool" where
  "tickets_ok locks ticket_map \<longleftrightarrow> sorted_wrt (<) (map fst ticket_map) \<and> (\<forall>(k, tk) \<in> set ticket_map. tk_key tk = k \<and> tk \<in> locks)"

definition waiting :: "'m meta \<Rightarrow> nat" where
  "waiting s = sum_list (map (length \<circ> snd) (md_routine_maps s)) + sum_list (map (length \<circ> snd) (md_schema_maps s))"

text \<open>
  The invariant of the maps: the threads of the map are those alive, each under one key; a recorded ticket is a lock its
  thread holds, under the key of the lock; entries wait only for threads alive, in blocks that are allocated.
\<close>

definition meta_ok :: "('m \<Rightarrow> thd_ptr \<Rightarrow> mdl_ticket set) \<Rightarrow> 'm meta \<Rightarrow> bool" where
  "meta_ok tix s \<longleftrightarrow>
     sorted_wrt (<) (map fst (md_thd_map s)) \<and> distinct (map snd (md_thd_map s)) \<and> distinct (md_live s) \<and>
     set (md_live s) = snd ` set (md_thd_map s) \<and>
     sorted_wrt (<) (map fst (md_ticket_maps s)) \<and> sorted_wrt (<) (map fst (md_routine_maps s)) \<and> sorted_wrt (<) (map fst (md_schema_maps s)) \<and>
     (\<forall>(thd, tm) \<in> set (md_ticket_maps s). thd \<in> set (md_live s) \<and> tickets_ok (tix (md_mdl s) thd) tm) \<and>
     fst ` set (md_routine_maps s) \<subseteq> set (md_live s) \<and> fst ` set (md_schema_maps s) \<subseteq> set (md_live s) \<and>
     waiting s \<le> md_blocks s"

lemma above: "sorted_wrt (<) (map fst ((l::'k::linorder, w) # m)) \<Longrightarrow> \<forall>e \<in> set m. l < fst e"
  by simp

lemma set_put: "sorted_wrt (<) (map fst m) \<Longrightarrow> set (std_put k v m) = insert (k, v) {e \<in> set m. fst e \<noteq> k}"
proof (induction k v m rule: std_put.induct)
  case (2 k v l w m)
  have n: "{e \<in> set m. fst e \<noteq> k} = set m" if "k \<le> l" using above [OF 2(2)] that by force
  have f: "{e \<in> set ((l, w) # m). fst e \<noteq> k} = (if l = k then {e \<in> set m. fst e \<noteq> k} else insert (l, w) {e \<in> set m. fst e \<noteq> k})"
    by auto
  consider "k = l" | "k < l" | "l < k" by (rule linorder_cases [of k l])
  then show ?case
  proof cases
    case 1
    with n show ?thesis unfolding f by simp
  next
    case 2
    with n show ?thesis unfolding f by simp
  next
    case 3
    then have "k \<noteq> l" "\<not> k < l" by auto
    with 2 show ?thesis unfolding f by (simp add: insert_commute)
  qed
qed simp

lemma set_erase [simp]: "set (std_erase k m) = {e \<in> set m. fst e \<noteq> k}"
  by (simp add: std_erase_def)

lemma set_insert_std: "set (std_insert k v m) \<subseteq> insert (k, v) (set m)"
proof -
  have "set (std_put k v m) \<subseteq> insert (k, v) (set m)" by (induction k v m rule: std_put.induct) auto
  then show ?thesis by (simp add: std_insert_def subset_insertI split: option.split)
qed

lemma sum_put:
  assumes "sorted_wrt (<) (map fst m)"
  shows "sum_list (map (length \<circ> snd) (std_put k v m)) + length (the_default [] (map_of m k)) = sum_list (map (length \<circ> snd) m) + length v"
  using assms
proof (induction k v m rule: std_put.induct)
  case (2 k v l w m)
  have "map_of m k = None" if "k < l"
  proof (rule ccontr)
    assume "map_of m k \<noteq> None"
    then have "k \<in> fst ` set m" by (simp add: map_of_eq_None_iff)
    with 2(2) that show False by auto
  qed
  with 2 show ?case by auto
qed simp

lemma sum_erase:
  assumes "sorted_wrt (<) (map fst (m :: ('k::linorder \<times> 'v list) list))"
  shows "sum_list (map (length \<circ> snd) (std_erase k m)) + length (the_default [] (map_of m k)) = sum_list (map (length \<circ> snd) m)"
  using assms
proof (induction m)
  case (Cons e m)
  obtain l w where e: "e = (l, w)" by force
  show ?case
  proof (cases "l = k")
    case True
    with above [of l w m] Cons(2) e have "\<forall>e \<in> set m. fst e \<noteq> k" by fastforce
    then have "std_erase k m = m" by (simp add: std_erase_def)
    with True e show ?thesis by (simp add: std_erase_def)
  next
    case False
    with Cons e show ?thesis by (simp add: std_erase_def)
  qed
qed (simp add: std_erase_def)

lemma mdl_lawsD:
  assumes "mdl_laws api tix"
  shows "acquire_lock api t rq w m = (m', Some tk) \<Longrightarrow> (\<forall>u. tk \<notin> tix m u) \<and> tk_namespace tk = rq_namespace rq \<and> tk_key tk = rq_key rq \<and>
      tk_type tk = rq_type rq \<and> tix m' = (tix m)(t := insert tk (tix m t))"
    and "acquire_lock api t rq w m = (m', None) \<Longrightarrow> tix m' = tix m"
    and "tix (release_lock api t tk m) = (tix m)(t := tix m t - {tk})"
    and "tix (release_all_locks_for_name api t tk m) = (tix m)(t := {k \<in> tix m t. tk_key k \<noteq> tk_key tk})"
    and "tix (release_locks api t p m) = (tix m)(t := {k \<in> tix m t. \<not> p k})"
  using assms unfolding mdl_laws_def by (elim conjE, simp)+

lemma meta_field_simps [simp]:
  "md_mdl (on_mdl f s) = f (md_mdl s)" "md_thd_map (on_mdl f s) = md_thd_map s" "md_ticket_maps (on_mdl f s) = md_ticket_maps s"
  "md_routine_maps (on_mdl f s) = md_routine_maps s" "md_schema_maps (on_mdl f s) = md_schema_maps s" "md_live (on_mdl f s) = md_live s"
  "md_blocks (on_mdl f s) = md_blocks s" "md_events (on_mdl f s) = md_events s"
  "md_mdl (log_event es s) = md_mdl s" "md_events (log_event es s) = md_events s @ es"
  "md_mdl (enter_thd t s) = md_mdl s" "md_thd_map (enter_thd t s) = md_thd_map s" "md_ticket_maps (enter_thd t s) = md_ticket_maps s"
  "md_routine_maps (enter_thd t s) = md_routine_maps s" "md_schema_maps (enter_thd t s) = md_schema_maps s" "md_live (enter_thd t s) = md_live s"
  "md_blocks (enter_thd t s) = md_blocks s" "md_events (enter_thd t s) = md_events s"
  "md_mdl (leave_thd s) = md_mdl s" "md_thd_map (leave_thd s) = md_thd_map s" "md_ticket_maps (leave_thd s) = md_ticket_maps s"
  "md_routine_maps (leave_thd s) = md_routine_maps s" "md_schema_maps (leave_thd s) = md_schema_maps s" "md_live (leave_thd s) = md_live s"
  "md_blocks (leave_thd s) = md_blocks s" "md_events (leave_thd s) = md_events s"
  by (simp_all add: on_mdl_def log_event_def enter_thd_def leave_thd_def)

section \<open>Invalidations keep the locks\<close>

text \<open>An invalidation changes the locks and the events only; no lock is lost, none of another
  thread changes, and one that succeeds leaves the locks as
  they were.\<close>

definition grown :: "('m \<Rightarrow> thd_ptr \<Rightarrow> mdl_ticket set) \<Rightarrow> thd_ptr \<Rightarrow> 'm meta \<Rightarrow> 'm meta \<Rightarrow> bool" where
  "grown tix t s s' \<longleftrightarrow> tix (md_mdl s) t \<subseteq> tix (md_mdl s') t \<and> (\<forall>u. u \<noteq> t \<longrightarrow> tix (md_mdl s') u = tix (md_mdl s) u)"

definition invalidates :: "('m \<Rightarrow> thd_ptr \<Rightarrow> mdl_ticket set) \<Rightarrow> thd_ptr \<Rightarrow> 'm meta \<Rightarrow> 'm meta \<times> bool \<Rightarrow> bool" where
  "invalidates tix t s r \<longleftrightarrow>
     (\<exists>m es. fst r = s\<lparr>md_events := es, md_mdl := m\<rparr>) \<and> grown tix t s (fst r) \<and>
     (\<not> snd r \<longrightarrow> tix (md_mdl (fst r)) = tix (md_mdl s))"

lemma lock_for:
  assumes "mdl_laws (me_mdl env) tix" "lock_for env t rq s = (s', r)"
  shows "\<exists>m. s' = s\<lparr>md_mdl := m\<rparr>"
    and "r = None \<Longrightarrow> tix (md_mdl s') = tix (md_mdl s)"
    and "r = Some tko \<Longrightarrow> tix (md_mdl s') = (tix (md_mdl s))(t := tix (md_mdl s) t \<union> set_option tko) \<and> set_option tko \<inter> tix (md_mdl s) t = {}"
proof -
  obtain m' tk where a: "acquire_lock (me_mdl env) t rq CTC_MDL_TIMEOUT (md_mdl s) = (m', tk)" by force
  with assms(2) have r: "s' = s\<lparr>md_mdl := m'\<rparr>" "r = map_option Some tk" by (auto simp: lock_for_def split: option.splits)
  show "\<exists>m. s' = s\<lparr>md_mdl := m\<rparr>" using r(1) ..
  show "tix (md_mdl s') = tix (md_mdl s)" if "r = None" using mdl_lawsD(2) [OF assms(1)] a r that by simp
  show "tix (md_mdl s') = (tix (md_mdl s))(t := tix (md_mdl s) t \<union> set_option tko) \<and> set_option tko \<inter> tix (md_mdl s) t = {}" if e: "r = Some tko"
  proof -
    obtain k where k: "tk = Some k" "tko = Some k" using r(2) e by (cases tk) auto
    from a k(1) have "acquire_lock (me_mdl env) t rq CTC_MDL_TIMEOUT (md_mdl s) = (m', Some k)" by simp
    from mdl_lawsD(1) [OF assms(1) this] show ?thesis using r(1) k by simp
  qed
qed

lemma lock_unless_owned:
  assumes "mdl_laws (me_mdl env) tix" "lock_unless_owned env t rq s = (s', r)"
  shows "\<exists>m. s' = s\<lparr>md_mdl := m\<rparr>"
    and "r = None \<Longrightarrow> tix (md_mdl s') = tix (md_mdl s)"
    and "r = Some tko \<Longrightarrow> tix (md_mdl s') = (tix (md_mdl s))(t := tix (md_mdl s) t \<union> set_option tko) \<and> set_option tko \<inter> tix (md_mdl s) t = {}"
proof -
  have cs: "s' = s \<and> r = Some None \<or> lock_for env t rq s = (s', r)"
    using assms(2) unfolding lock_unless_owned_def by (simp split: if_splits)
  have "s = s\<lparr>md_mdl := md_mdl s\<rparr>" by simp
  with cs lock_for(1) [OF assms(1)] show "\<exists>m. s' = s\<lparr>md_mdl := m\<rparr>" by blast
  show "tix (md_mdl s') = tix (md_mdl s)" if e: "r = None"
    using cs e lock_for(2) [OF assms(1)] by blast
  show "tix (md_mdl s') = (tix (md_mdl s))(t := tix (md_mdl s) t \<union> set_option tko) \<and> set_option tko \<inter> tix (md_mdl s) t = {}" if e: "r = Some tko"
    using cs
  proof
    assume "s' = s \<and> r = Some None"
    with e show ?thesis by simp
  next
    assume "lock_for env t rq s = (s', r)"
    from lock_for(3) [OF assms(1) this e] show ?thesis .
  qed
qed

lemma give_back:
  assumes "mdl_laws (me_mdl env) tix"
  shows "\<exists>m. give_back env t tko s = s\<lparr>md_mdl := m\<rparr>"
    and "tix (md_mdl (give_back env t tko s)) = (tix (md_mdl s))(t := tix (md_mdl s) t - set_option tko)"
proof -
  have "s = s\<lparr>md_mdl := md_mdl s\<rparr>" by simp
  then have n: "\<exists>m. s = s\<lparr>md_mdl := m\<rparr>" by blast
  show "\<exists>m. give_back env t tko s = s\<lparr>md_mdl := m\<rparr>"
  proof (cases tko)
    case None
    with n show ?thesis by simp
  qed (auto simp: on_mdl_def)
  show "tix (md_mdl (give_back env t tko s)) = (tix (md_mdl s))(t := tix (md_mdl s) t - set_option tko)"
    by (cases tko) (simp_all add: mdl_lawsD(3) [OF assms])
qed

lemma Diff_Diff: "a - b - c = a - (b \<union> c)"
  by blast

text \<open>The shape of all invalidations: one or two locks, events, and the locks given back.\<close>

lemma two_locks:
  assumes "mdl_laws (me_mdl env) tix" "lock_unless_owned env t rqa s = (s1, r1)"
    and "r1 = None \<Longrightarrow> r = (s1, True)"
    and "\<And>tk1 s2. r1 = Some tk1 \<Longrightarrow> lock_unless_owned env t rqb s1 = (s2, None) \<Longrightarrow> r = (s2, True)"
    and "\<And>tk1 tk2 s2. r1 = Some tk1 \<Longrightarrow> lock_unless_owned env t rqb s1 = (s2, Some tk2) \<Longrightarrow>
      \<exists>es. r = (give_back env t tk2 (give_back env t tk1 (s2\<lparr>md_events := es\<rparr>)), False) \<or>
           r = (give_back env t tk1 (give_back env t tk2 (s2\<lparr>md_events := es\<rparr>)), False)"
  shows "invalidates tix t s r"
proof (cases r1)
  case None
  then show ?thesis using lock_unless_owned(1,2) [OF assms(1,2)] assms(3)
    by (auto simp: invalidates_def grown_def intro!: exI [of _ "md_events s"])
next
  case (Some tk1)
  obtain s2 r2 where l: "lock_unless_owned env t rqb s1 = (s2, r2)" by force
  obtain m1 where m1: "s1 = s\<lparr>md_mdl := m1\<rparr>" using lock_unless_owned(1) [OF assms(1,2)] by blast
  obtain m2 where m2: "s2 = s1\<lparr>md_mdl := m2\<rparr>" using lock_unless_owned(1) [OF assms(1) l] by blast
  have t1: "tix m1 = (tix (md_mdl s))(t := tix (md_mdl s) t \<union> set_option tk1)" "set_option tk1 \<inter> tix (md_mdl s) t = {}"
    using lock_unless_owned(3) [OF assms(1,2) Some] m1 by auto
  show ?thesis
  proof (cases r2)
    case None
    then have "r = (s2, True)" using assms(4) Some l by simp
    moreover have "tix m2 = tix m1" using lock_unless_owned(2) [OF assms(1) l None] m1 m2 by simp
    ultimately show ?thesis using m1 m2 t1 by (auto simp: invalidates_def grown_def intro!: exI [of _ "md_events s"])
  next
    case (Some tk2)
    have t2: "tix m2 = (tix m1)(t := tix m1 t \<union> set_option tk2)" "set_option tk2 \<inter> tix m1 t = {}"
      using lock_unless_owned(3) [OF assms(1) l Some] m1 m2 by auto
    obtain es where r: "r = (give_back env t tk2 (give_back env t tk1 (s2\<lparr>md_events := es\<rparr>)), False) \<or>
        r = (give_back env t tk1 (give_back env t tk2 (s2\<lparr>md_events := es\<rparr>)), False)"
      using assms(5) \<open>r1 = Some tk1\<close> l Some by blast
    let ?a = "give_back env t tk1 (s2\<lparr>md_events := es\<rparr>)" and ?b = "give_back env t tk2 (s2\<lparr>md_events := es\<rparr>)"
    have "\<exists>m. fst r = s\<lparr>md_events := es, md_mdl := m\<rparr>"
      using r give_back(1) [OF assms(1), of t tk1 "s2\<lparr>md_events := es\<rparr>"] give_back(1) [OF assms(1), of t tk2 ?a]
        give_back(1) [OF assms(1), of t tk2 "s2\<lparr>md_events := es\<rparr>"] give_back(1) [OF assms(1), of t tk1 ?b] m1 m2 by auto
    moreover have g: "tix (md_mdl (fst r)) = (tix m2)(t := tix m2 t - (set_option tk1 \<union> set_option tk2))"
      using r
    proof
      assume "r = (give_back env t tk2 ?a, False)"
      with m2 show ?thesis by (simp add: give_back(2) [OF assms(1)] Un_Diff_Int Diff_Diff)
    next
      assume "r = (give_back env t tk1 ?b, False)"
      moreover have "set_option tk1 \<union> set_option tk2 = set_option tk2 \<union> set_option tk1" by blast
      ultimately show ?thesis using m2 by (simp add: give_back(2) [OF assms(1)] Diff_Diff)
    qed
    have "tix m2 t - (set_option tk1 \<union> set_option tk2) = tix (md_mdl s) t" using t1 t2 by auto
    with g t1(1) t2(1) have "tix (md_mdl (fst r)) = tix (md_mdl s)" by simp
    ultimately show ?thesis by (auto simp: invalidates_def grown_def)
  qed
qed

lemma one_lock:
  assumes "mdl_laws (me_mdl env) tix" "lock_for env t rq s = (s1, r1)" "r1 = None \<Longrightarrow> r = (s1, True)"
    and "\<And>tk1. r1 = Some tk1 \<Longrightarrow> r = (give_back env t tk1 (log_event es s1), False)"
  shows "invalidates tix t s r"
proof (cases r1)
  case None
  then show ?thesis using lock_for(1,2) [OF assms(1,2)] assms(3) by (auto simp: invalidates_def grown_def intro!: exI [of _ "md_events s"])
next
  case (Some tk1)
  obtain m1 where m1: "s1 = s\<lparr>md_mdl := m1\<rparr>" using lock_for(1) [OF assms(1,2)] by blast
  have "tix (md_mdl (fst r)) = tix (md_mdl s)"
    using lock_for(3) [OF assms(1,2) Some] assms(4) [OF Some] by (auto simp: give_back(2) [OF assms(1)] fun_eq_iff)
  moreover obtain m where "give_back env t tk1 (log_event es s1) = (log_event es s1)\<lparr>md_mdl := m\<rparr>"
    using give_back(1) [OF assms(1)] by blast
  then have "fst r = s\<lparr>md_events := md_events s @ es, md_mdl := m\<rparr>" using assms(4) [OF Some] m1 by (simp add: log_event_def)
  ultimately show ?thesis by (auto simp: invalidates_def grown_def)
qed

lemma invalidates_refl: "invalidates tix t s (s, False)"
proof -
  have "s = s\<lparr>md_events := md_events s, md_mdl := md_mdl s\<rparr>" by simp
  then show ?thesis unfolding invalidates_def grown_def fst_conv by blast
qed

lemma invalidate_table_ok:
  assumes "mdl_laws (me_mdl env) tix"
  shows "invalidates tix t s (invalidate_table env t a b s)"
proof (cases "sv_normalized (me_server env)")
  case True
  obtain s1 r1 where l: "lock_unless_owned env t (mdl_init env MDL_SCHEMA a [] MDL_INTENTION_EXCLUSIVE) s = (s1, r1)" by force
  show ?thesis
    by (rule two_locks [OF assms l, where rqb = "mdl_init env MDL_TABLE a b MDL_EXCLUSIVE"])
      (use True l in \<open>auto simp: invalidate_table_def log_event_def Let_def\<close>)
qed (simp add: invalidate_table_def invalidates_refl)

lemma invalidate_routine_ok:
  assumes "mdl_laws (me_mdl env) tix"
  shows "invalidates tix t s (invalidate_routine env t a b n s)"
proof (cases "sv_normalized (me_server env)")
  case True
  obtain s1 r1 where l: "lock_unless_owned env t (mdl_init env MDL_SCHEMA a [] MDL_INTENTION_EXCLUSIVE) s = (s1, r1)" by force
  let ?p = "sv_obj_kind (me_server env) n = OBJ_RT_PROCEDURE"
  show ?thesis
    by (rule two_locks [OF assms l, where rqb = "mdl_init_by_key env (if ?p then MDL_PROCEDURE else MDL_FUNCTION) a b MDL_EXCLUSIVE"])
      (use True l in \<open>auto simp: invalidate_routine_def log_event_def Let_def\<close>)
qed (simp add: invalidate_routine_def invalidates_refl)

lemma invalidate_schema_ok:
  assumes "mdl_laws (me_mdl env) tix"
  shows "invalidates tix t s (invalidate_schema env t a s)"
proof (cases "sv_normalized (me_server env)")
  case True
  obtain s1 r1 where l: "lock_for env t (mdl_init env MDL_SCHEMA a [] MDL_EXCLUSIVE) s = (s1, r1)" by force
  show ?thesis
    by (rule one_lock [OF assms l, where es = "if me_in_dictionary env (Invalidate_schema a) then [Invalidate_schema a] else []"])
      (use True l in \<open>auto simp: invalidate_schema_def Let_def\<close>)
qed (simp add: invalidate_schema_def invalidates_refl)

lemma invalidate_tablespace_ok:
  assumes "mdl_laws (me_mdl env) tix"
  shows "invalidates tix t s (invalidate_tablespace env t a s)"
proof (cases "sv_normalized (me_server env)")
  case True
  obtain s1 r1 where l: "lock_for env t (mdl_init env MDL_TABLESPACE a [] MDL_EXCLUSIVE) s = (s1, r1)" by force
  show ?thesis
    by (rule one_lock [OF assms l, where es = "(if me_in_dictionary env (Invalidate_tablespace a) then [Invalidate_tablespace a] else []) @ [Dump_tablespaces]"])
      (use True l in \<open>auto simp: invalidate_tablespace_def Let_def log_event_def\<close>)
qed (simp add: invalidate_tablespace_def invalidates_refl)

definition same_threads :: "'m meta \<Rightarrow> 'm meta \<Rightarrow> bool" where
  "same_threads s s' \<longleftrightarrow> md_thd_map s' = md_thd_map s \<and> md_ticket_maps s' = md_ticket_maps s \<and> md_live s' = md_live s"

definition same_lists :: "'m meta \<Rightarrow> 'm meta \<Rightarrow> bool" where
  "same_lists s s' \<longleftrightarrow> md_routine_maps s' = md_routine_maps s \<and> md_schema_maps s' = md_schema_maps s"

lemma invalidatesD:
  assumes "invalidates tix t s (s', e)"
  shows "same_threads s s'" "same_lists s s'" "grown tix t s s'" "md_blocks s' = md_blocks s"
  using assms by (auto simp: invalidates_def same_threads_def same_lists_def grown_def)

lemma invalidate_list_ok:
  assumes "\<And>obj s. invalidates tix t s (ivd obj s)" "invalidate_list ivd objs (s, e) = (s', e')"
  shows "same_threads s s' \<and> same_lists s s' \<and> grown tix t s s' \<and> md_blocks s' = md_blocks s - length objs"
  using assms(2)
proof (induction objs arbitrary: s e)
  case (Cons obj objs)
  obtain s1 e1 where i: "ivd obj s = (s1, e1)" by force
  have o: "invalidates tix t s (s1, e1)" using assms(1) [of s obj] i by simp
  with Cons(1) [of "s1\<lparr>md_blocks := md_blocks s1 - 1\<rparr>" e1] Cons(2) i invalidatesD [OF o] show ?case
    by (auto simp: same_threads_def same_lists_def grown_def)
qed (auto simp: same_threads_def same_lists_def grown_def)

lemma tickets_ok_mono: "tickets_ok locks tm \<Longrightarrow> locks \<subseteq> locks' \<Longrightarrow> tickets_ok locks' tm"
  by (auto simp: tickets_ok_def)

lemma meta_ok_grown:
  assumes "meta_ok tix s" "same_threads s s'" "grown tix t s s'" "sorted_wrt (<) (map fst (md_routine_maps s'))"
    "sorted_wrt (<) (map fst (md_schema_maps s'))" "fst ` set (md_routine_maps s') \<subseteq> set (md_live s)"
    "fst ` set (md_schema_maps s') \<subseteq> set (md_live s)" "waiting s' \<le> md_blocks s'"
  shows "meta_ok tix s'"
proof -
  have "\<forall>(thd, tm) \<in> set (md_ticket_maps s'). thd \<in> set (md_live s') \<and> tickets_ok (tix (md_mdl s') thd) tm"
    using assms(1,2,3) by (fastforce simp: meta_ok_def same_threads_def grown_def intro: tickets_ok_mono)
  with assms show ?thesis unfolding meta_ok_def same_threads_def by simp
qed

lemma waitsD:
  assumes "meta_ok tix s"
  shows "sorted_wrt (<) (map fst (md_routine_maps s))" "sorted_wrt (<) (map fst (md_schema_maps s))"
    "fst ` set (md_routine_maps s) \<subseteq> set (md_live s)" "fst ` set (md_schema_maps s) \<subseteq> set (md_live s)" "waiting s \<le> md_blocks s"
  using assms unfolding meta_ok_def by - (elim conjE, assumption)+

lemma threadsD:
  assumes "meta_ok tix s"
  shows "sorted_wrt (<) (map fst (md_thd_map s))" "distinct (map snd (md_thd_map s))" "distinct (md_live s)"
    "set (md_live s) = snd ` set (md_thd_map s)" "sorted_wrt (<) (map fst (md_ticket_maps s))"
    "(thd, tm) \<in> set (md_ticket_maps s) \<Longrightarrow> thd \<in> set (md_live s) \<and> tickets_ok (tix (md_mdl s) thd) tm"
  using assms unfolding meta_ok_def by auto

lemma meta_ok_same:
  assumes "meta_ok tix s" "same_threads s s'" "same_lists s s'" "grown tix t s s'" "md_blocks s \<le> md_blocks s'"
  shows "meta_ok tix s'"
  by (rule meta_ok_grown [OF assms(1,2,4)])
    (use waitsD [OF assms(1)] assms(3,5) in \<open>auto simp: same_lists_def waiting_def\<close>)

lemma release_routines_ok:
  assumes "mdl_laws (me_mdl env) tix" "meta_ok tix s" "release_routines env t (s, e) = (s', e')"
  shows "meta_ok tix s'" "same_threads s s'" "grown tix t s s'" "md_routine_maps s' = std_erase t (md_routine_maps s)"
    "md_schema_maps s' = md_schema_maps s"
proof -
  have "meta_ok tix s' \<and> same_threads s s' \<and> grown tix t s s' \<and> md_routine_maps s' = std_erase t (md_routine_maps s) \<and> md_schema_maps s' = md_schema_maps s"
  proof (cases "map_of (md_routine_maps s) t")
    case None
    then have "t \<notin> fst ` set (md_routine_maps s)" by (simp add: map_of_eq_None_iff)
    then have "std_erase t (md_routine_maps s) = md_routine_maps s" unfolding std_erase_def by (intro filter_True) auto
    with None assms(2,3) show ?thesis by (auto simp: release_routines_def same_threads_def grown_def)
  next
    case (Some objs)
    obtain s1 where i: "invalidate_list (\<lambda>obj. invalidate_routine env t (entry_first obj) (entry_second obj) (entry_type obj)) objs (s, e) = (s1, e')"
        "s' = s1\<lparr>md_routine_maps := std_erase t (md_routine_maps s1)\<rparr>"
      using assms(3) Some by (auto simp: release_routines_def split: prod.splits)
    from invalidate_list_ok [OF invalidate_routine_ok [OF assms(1)] i(1)]
    have f: "same_threads s s1" "same_lists s s1" "grown tix t s s1" "md_blocks s1 = md_blocks s - length objs" by auto
    have "waiting s' + length objs = waiting s"
      using sum_erase [OF waitsD(1) [OF assms(2)], of t] Some f(2) i(2) by (simp add: waiting_def same_lists_def)
    then have "waiting s' \<le> md_blocks s'" using waitsD(5) [OF assms(2)] f(4) i(2) by simp
    then have "meta_ok tix s'"
      using f i(2) sorted_erase [OF waitsD(1) [OF assms(2)]] waitsD [OF assms(2)]
      by (intro meta_ok_grown [OF assms(2)]) (auto simp: same_threads_def same_lists_def grown_def)
    with f i(2) show ?thesis by (simp add: same_threads_def same_lists_def grown_def)
  qed
  then show "meta_ok tix s'" "same_threads s s'" "grown tix t s s'" "md_routine_maps s' = std_erase t (md_routine_maps s)"
    "md_schema_maps s' = md_schema_maps s" by auto
qed

lemma release_schemas_ok:
  assumes "mdl_laws (me_mdl env) tix" "meta_ok tix s" "release_schemas env t (s, e) = (s', e')"
  shows "meta_ok tix s'" "same_threads s s'" "grown tix t s s'" "md_schema_maps s' = std_erase t (md_schema_maps s)"
    "md_routine_maps s' = md_routine_maps s"
proof -
  have "meta_ok tix s' \<and> same_threads s s' \<and> grown tix t s s' \<and> md_schema_maps s' = std_erase t (md_schema_maps s) \<and> md_routine_maps s' = md_routine_maps s"
  proof (cases "map_of (md_schema_maps s) t")
    case None
    then have "t \<notin> fst ` set (md_schema_maps s)" by (simp add: map_of_eq_None_iff)
    then have "std_erase t (md_schema_maps s) = md_schema_maps s" unfolding std_erase_def by (intro filter_True) auto
    with None assms(2,3) show ?thesis by (auto simp: release_schemas_def same_threads_def grown_def)
  next
    case (Some objs)
    obtain s1 where i: "invalidate_list (\<lambda>obj. invalidate_schema env t (entry_first obj)) objs (s, e) = (s1, e')"
        "s' = s1\<lparr>md_schema_maps := std_erase t (md_schema_maps s1)\<rparr>"
      using assms(3) Some by (auto simp: release_schemas_def split: prod.splits)
    from invalidate_list_ok [OF invalidate_schema_ok [OF assms(1)] i(1)]
    have f: "same_threads s s1" "same_lists s s1" "grown tix t s s1" "md_blocks s1 = md_blocks s - length objs" by auto
    have "waiting s' + length objs = waiting s"
      using sum_erase [OF waitsD(2) [OF assms(2)], of t] Some f(2) i(2) by (simp add: waiting_def same_lists_def)
    then have "waiting s' \<le> md_blocks s'" using waitsD(5) [OF assms(2)] f(4) i(2) by simp
    then have "meta_ok tix s'"
      using f i(2) sorted_erase [OF waitsD(2) [OF assms(2)]] waitsD [OF assms(2)]
      by (intro meta_ok_grown [OF assms(2)]) (auto simp: same_threads_def same_lists_def grown_def)
    with f i(2) show ?thesis by (simp add: same_threads_def same_lists_def grown_def)
  qed
  then show "meta_ok tix s'" "same_threads s s'" "grown tix t s s'" "md_schema_maps s' = std_erase t (md_schema_maps s)"
    "md_routine_maps s' = md_routine_maps s" by auto
qed

lemma same_grown_trans:
  "same_threads s s' \<Longrightarrow> same_threads s' s'' \<Longrightarrow> same_threads s s''" "grown tix t s s' \<Longrightarrow> grown tix t s' s'' \<Longrightarrow> grown tix t s s''"
  "same_threads s s" "grown tix t s s"
  by (auto simp: same_threads_def grown_def)

lemma release_both_ok:
  assumes "mdl_laws (me_mdl env) tix" "meta_ok tix s" "release_routine_and_schema env t (s, e) = (s', e')"
  shows "meta_ok tix s'" "same_threads s s'" "grown tix t s s'"
    "sv_normalized (me_server env) \<Longrightarrow> md_routine_maps s' = std_erase t (md_routine_maps s) \<and> md_schema_maps s' = std_erase t (md_schema_maps s)"
    "\<not> sv_normalized (me_server env) \<Longrightarrow> s' = s"
proof -
  obtain s1 e1 where r: "release_routines env t (s, e) = (s1, e1)" by force
  note r' = release_routines_ok [OF assms(1,2) r]
  have "meta_ok tix s' \<and> same_threads s s' \<and> grown tix t s s' \<and>
      (sv_normalized (me_server env) \<longrightarrow> md_routine_maps s' = std_erase t (md_routine_maps s) \<and> md_schema_maps s' = std_erase t (md_schema_maps s)) \<and>
      (\<not> sv_normalized (me_server env) \<longrightarrow> s' = s)"
  proof (cases "sv_normalized (me_server env)")
    case True
    with assms(3) r have "release_schemas env t (s1, e1) = (s', e')" by (simp add: release_routine_and_schema_def)
    note release_schemas_ok [OF assms(1) r'(1) this]
    with r' True show ?thesis using same_grown_trans by metis
  next
    case False
    with assms show ?thesis by (simp add: release_routine_and_schema_def same_grown_trans)
  qed
  then show "meta_ok tix s'" "same_threads s s'" "grown tix t s s'"
    "sv_normalized (me_server env) \<Longrightarrow> md_routine_maps s' = std_erase t (md_routine_maps s) \<and> md_schema_maps s' = std_erase t (md_schema_maps s)"
    "\<not> sv_normalized (me_server env) \<Longrightarrow> s' = s" by auto
qed

lemma mset_put: "k \<notin> fst ` set m \<Longrightarrow> mset (std_put k v m) = add_mset (k, v) (mset m)"
  by (induction k v m rule: std_put.induct) auto

definition fresh_thds :: "'m meta_env \<Rightarrow> bool" where
  "fresh_thds env \<longleftrightarrow> (\<forall>live thd. me_new_thd env live = Some thd \<longrightarrow> thd \<notin> set live)"

lemma meta_ok_enter: "meta_ok tix (enter_thd t s) = meta_ok tix s" "meta_ok tix (leave_thd s) = meta_ok tix s"
    "meta_ok tix (log_event es s) = meta_ok tix s"
  by (simp_all add: meta_ok_def waiting_def log_event_def)

lemma init_thd_ok:
  assumes "fresh_thds env" "meta_ok tix s" "ctc_init_thd env key s = Some (s', thd)"
  shows "meta_ok tix s'" "thd \<in> set (md_live s')" "map_of (md_thd_map s') key = Some thd" "md_mdl s' = md_mdl s"
    "md_ticket_maps s' = md_ticket_maps s"
proof -
  have "meta_ok tix s' \<and> thd \<in> set (md_live s') \<and> map_of (md_thd_map s') key = Some thd \<and> md_mdl s' = md_mdl s \<and> md_ticket_maps s' = md_ticket_maps s"
  proof (cases "map_of (md_thd_map s) key")
    case None
    then have k: "key \<notin> fst ` set (md_thd_map s)" by (simp add: map_of_eq_None_iff)
    obtain n where n: "me_new_thd env (md_live s) = Some n" "thd = n"
        "s' = (enter_thd n s)\<lparr>md_live := n # md_live s, md_thd_map := std_put key n (md_thd_map s)\<rparr>"
      using assms(3) None by (auto simp: ctc_init_thd_def split: Option.bind_splits)
    have f: "n \<notin> set (md_live s)" using assms(1) n(1) by (simp add: fresh_thds_def)
    let ?m = "std_put key n (md_thd_map s)"
    have ms: "mset ?m = add_mset (key, n) (mset (md_thd_map s))" by (rule mset_put [OF k])
    then have st: "set ?m = insert (key, n) (set (md_thd_map s))" by (metis set_mset_add_mset_insert set_mset_mset)
    have "mset (map snd ?m) = mset (n # map snd (md_thd_map s))" using ms by simp
    then have d: "distinct (map snd ?m)" using threadsD(2,4) [OF assms(2)] f by (metis distinct.simps(2) list.set_map mset_eq_imp_distinct_iff)
    have "\<forall>(thd, tm) \<in> set (md_ticket_maps s). thd \<in> insert n (set (md_live s)) \<and> tickets_ok (tix (md_mdl s) thd) tm"
      using threadsD(6) [OF assms(2)] by auto
    then have "meta_ok tix s'"
      using n(3) d st f threadsD [OF assms(2)] waitsD [OF assms(2)] sorted_put [OF threadsD(1) [OF assms(2)]]
      by (auto simp: meta_ok_def waiting_def)
    with n show ?thesis by simp
  next
    case (Some t)
    then have "t \<in> set (md_live s)" using threadsD(4) [OF assms(2)] map_of_SomeD [OF Some] by force
    with Some assms(2,3) show ?thesis by (auto simp: ctc_init_thd_def meta_ok_enter)
  qed
  then show "meta_ok tix s'" "thd \<in> set (md_live s')" "map_of (md_thd_map s') key = Some thd" "md_mdl s' = md_mdl s"
    "md_ticket_maps s' = md_ticket_maps s" by auto
qed

lemma put_waits_ok:
  assumes "meta_ok tix s" "t \<in> set (md_live s)" "same_threads s s'" "md_mdl s' = md_mdl s" "md_blocks s' = md_blocks s + 1"
    "md_routine_maps s' = std_put t (the_default [] (map_of (md_routine_maps s) t) @ [obj]) (md_routine_maps s) \<and> md_schema_maps s' = md_schema_maps s \<or>
     md_schema_maps s' = std_put t (the_default [] (map_of (md_schema_maps s) t) @ [obj]) (md_schema_maps s) \<and> md_routine_maps s' = md_routine_maps s"
  shows "meta_ok tix s'"
proof -
  note w = waitsD [OF assms(1)]
  have "waiting s' = waiting s + 1" using assms(6)
  proof
    assume "md_routine_maps s' = std_put t (the_default [] (map_of (md_routine_maps s) t) @ [obj]) (md_routine_maps s) \<and> md_schema_maps s' = md_schema_maps s"
    with sum_put [OF w(1), of t "the_default [] (map_of (md_routine_maps s) t) @ [obj]"] show ?thesis by (simp add: waiting_def)
  next
    assume "md_schema_maps s' = std_put t (the_default [] (map_of (md_schema_maps s) t) @ [obj]) (md_schema_maps s) \<and> md_routine_maps s' = md_routine_maps s"
    with sum_put [OF w(2), of t "the_default [] (map_of (md_schema_maps s) t) @ [obj]"] show ?thesis by (simp add: waiting_def)
  qed
  moreover have "grown tix t s s'" using assms(4) by (simp add: grown_def)
  ultimately show ?thesis
    using w assms(2,5,6) sorted_put [OF w(1)] sorted_put [OF w(2)]
    by (intro meta_ok_grown [OF assms(1,3)]) (elim disjE; simp)+
qed

lemma entry_ok:
  assumes "mdl_laws (me_mdl env) tix" "meta_ok tix s" "t \<in> set (md_live s)" "invalidate_entry env t obj (s, e) = (s', e')"
  shows "meta_ok tix s' \<and> same_threads s s' \<and> grown tix t s s'"
proof -
  let ?k = "sv_obj_kind (me_server env) (entry_type obj)" and ?s = "s\<lparr>md_blocks := md_blocks s + 1\<rparr>"
  have freed: "meta_ok tix s'' \<and> same_threads s s'' \<and> grown tix t s s''"
    if "invalidates tix t ?s (s1, e1)" "s'' = s1\<lparr>md_blocks := md_blocks s1 - 1\<rparr>" for s1 e1 s''
  proof -
    have f: "same_threads s s''" "same_lists s s''" "grown tix t s s''" "md_blocks s'' = md_blocks s"
      using invalidatesD [OF that(1)] that(2) by (auto simp: same_threads_def same_lists_def grown_def)
    with meta_ok_same [OF assms(2)] show ?thesis by simp
  qed
  consider (table) "?k = OBJ_ABSTRACT_TABLE" | (space) "?k = OBJ_TABLESPACE" | (routine) "?k = OBJ_RT_PROCEDURE \<or> ?k = OBJ_RT_FUNCTION" |
    (schema) "?k = OBJ_SCHEMA" | (other) "?k \<notin> {OBJ_ABSTRACT_TABLE, OBJ_TABLESPACE, OBJ_RT_PROCEDURE, OBJ_RT_FUNCTION, OBJ_SCHEMA}" by blast
  then show ?thesis
  proof cases
    case table
    obtain s1 e1 where i: "invalidate_table env t (entry_first obj) (entry_second obj) ?s = (s1, e1)" by force
    with invalidate_table_ok [OF assms(1)] have "invalidates tix t ?s (s1, e1)" by metis
    then show ?thesis using assms(4) table i by (intro freed) (auto simp: invalidate_entry_def Let_def)
  next
    case space
    obtain s1 e1 where i: "invalidate_tablespace env t (entry_first obj) ?s = (s1, e1)" by force
    with invalidate_tablespace_ok [OF assms(1)] have "invalidates tix t ?s (s1, e1)" by metis
    then show ?thesis using assms(4) space i by (intro freed) (auto simp: invalidate_entry_def Let_def)
  next
    case routine
    then have "s' = ctc_insert_routine t obj ?s" using assms(4) by (auto simp: invalidate_entry_def Let_def)
    moreover from this have "meta_ok tix s'"
      by (intro put_waits_ok [OF assms(2,3)]) (auto simp: ctc_insert_routine_def same_threads_def)
    ultimately show ?thesis by (simp add: ctc_insert_routine_def same_threads_def grown_def)
  next
    case schema
    then have "s' = ctc_insert_schema t obj ?s" using assms(4) by (auto simp: invalidate_entry_def Let_def)
    moreover from this have "meta_ok tix s'"
      by (intro put_waits_ok [OF assms(2,3)]) (auto simp: ctc_insert_schema_def same_threads_def)
    ultimately show ?thesis by (simp add: ctc_insert_schema_def same_threads_def grown_def)
  next
    case other
    then have "s' = ?s" using assms(4) by (auto simp: invalidate_entry_def Let_def)
    moreover have "meta_ok tix ?s" by (rule meta_ok_same [OF assms(2)]) (auto simp: same_threads_def same_lists_def grown_def)
    ultimately show ?thesis by (simp add: same_threads_def grown_def)
  qed
qed

lemma entries_ok:
  assumes "mdl_laws (me_mdl env) tix" "invalidate_entries env t buff n off r = Some (s', e')" "meta_ok tix (fst r)" "t \<in> set (md_live (fst r))"
  shows "meta_ok tix s' \<and> same_threads (fst r) s' \<and> grown tix t (fst r) s'"
  using assms
proof (induction env t buff n off r rule: invalidate_entries.induct)
  case (1 env t buff n off r)
  show ?case
  proof (cases "off < n")
    case True
    obtain s e where r: "r = (s, e)" by force
    obtain s1 e1 where i: "invalidate_entry env t (take OBJ_ENTRY_SIZE (drop off buff)) r = (s1, e1)" by force
    with 1(3) True have b: "off + OBJ_ENTRY_SIZE \<le> length buff" "invalidate_entries env t buff n (off + OBJ_ENTRY_SIZE) (s1, e1) = Some (s', e')"
      by (auto simp: invalidate_entries.simps [of _ _ _ _ off] split: if_splits)
    have e: "meta_ok tix s1 \<and> same_threads s s1 \<and> grown tix t s s1"
      using entry_ok [OF 1(2), of s t _ e] 1(4,5) i r by simp
    then have "t \<in> set (md_live s1)" using 1(5) r by (simp add: same_threads_def)
    with 1(1) [OF True b(1) 1(2)] i b(2) e have "meta_ok tix s' \<and> same_threads s1 s' \<and> grown tix t s1 s'" by simp
    with e r show ?thesis by (auto intro: same_grown_trans(1,2) [where s' = s1])
  next
    case False
    with 1(3) have "r = (s', e')" by (simp add: invalidate_entries.simps [of _ _ _ _ off])
    with 1(4) show ?thesis by (simp add: same_grown_trans)
  qed
qed

end
