(* ===== verification/CTC_Mdl.thy ===== *)
theory CTC_Mdl
  imports CTC_Meta
begin

text \<open>
  What the requests of \<open>CTC_Meta\<close> keep and do, whatever their order: every ticket in the maps is a lock its thread
  holds, a lock that was recorded is given back under its name, the close of connections reaches every thread it is meant
  for, and a list of dictionary objects sent by \<open>invalidate_remote_dd\<close> is applied by the receiver.
\<close>

section \<open>Requests keep the invariant\<close>

lemma dd_cache_ok:
  assumes "mdl_laws (me_mdl env) tix" "fresh_thds env" "meta_ok tix s" "ctc_invalidate_mysql_dd_cache_impl env tch req s = Some (s', e)"
  shows "meta_ok tix s'"
proof -
  let ?key = "ctc_get_conn_key (tch_inst_id tch) (tch_thd_id tch) True"
  consider (idle) "s' = s"
    | (reset) s1 thd where "ctc_init_thd env ?key s = Some (s1, thd)" "\<exists>es. s' = log_event es s1 \<or> s' = leave_thd (log_event es s1)"
    | (entries) s1 thd r where "ctc_init_thd env ?key s = Some (s1, thd)"
        "invalidate_entries env thd (iv_buff req) (iv_buff_len req) 1 (s1, False) = Some r"
        "s' = leave_thd (fst r) \<or> s' = leave_thd (fst (release_routine_and_schema env thd r))"
    using assms(4) by (auto simp: ctc_invalidate_mysql_dd_cache_impl_def split: if_splits Option.bind_splits prod.splits)
  then show ?thesis
  proof cases
    case idle
    with assms(3) show ?thesis by simp
  next
    case reset
    with init_thd_ok(1) [OF assms(2,3) reset(1)] show ?thesis by (auto simp: meta_ok_enter)
  next
    case entries
    note i = init_thd_ok [OF assms(2,3) entries(1)]
    obtain s2 e2 where r: "r = (s2, e2)" by force
    have o: "meta_ok tix s2" using entries_ok [OF assms(1)] entries(2) i(1,2) r by fastforce
    obtain s3 e3 where b: "release_routine_and_schema env thd (s2, e2) = (s3, e3)" by force
    from entries(3) r b o release_both_ok(1) [OF assms(1) o b] show ?thesis by (auto simp: meta_ok_enter)
  qed
qed

lemma remove_thread:
  assumes "sorted_wrt (<) (map fst (m :: ('k::linorder \<times> 'v) list))" "distinct (map snd m)" "map_of m k = Some t"
  shows "distinct (map snd (std_erase k m))" "snd ` set (std_erase k m) = snd ` set m - {t}"
proof -
  show "distinct (map snd (std_erase k m))" unfolding std_erase_def by (rule distinct_map_filter [OF assms(2)])
  have a: "k' = k" if "(k', t) \<in> set m" for k'
    using assms(2) that map_of_SomeD [OF assms(3)] by (fastforce simp: distinct_map inj_on_def)
  have b: "t' = t" if "(k, t') \<in> set m" for t'
  proof -
    have "distinct (map fst m)" using assms(1) by (simp add: strict_sorted_iff)
    with that assms(3) show ?thesis by (metis eq_key_imp_eq_value map_of_SomeD)
  qed
  have "fst e \<noteq> k \<longleftrightarrow> snd e \<noteq> t" if "e \<in> set m" for e using a [of "fst e"] b [of "snd e"] that by (metis prod.collapse)
  then have "{e \<in> set m. fst e \<noteq> k} = {e \<in> set m. snd e \<noteq> t}" by blast
  moreover have "snd ` {e \<in> set m. snd e \<noteq> t} = snd ` set m - {t}" by auto
  ultimately show "snd ` set (std_erase k m) = snd ` set m - {t}" by simp
qed

lemma close_thd_facts:
  assumes "mdl_laws (me_mdl env) tix" "sv_normalized (me_server env)" "meta_ok tix s" "s' = close_thd env t s"
  shows "md_thd_map s' = md_thd_map s" "md_live s' = remove1 t (md_live s)" "md_ticket_maps s' = std_erase t (md_ticket_maps s)"
    "md_routine_maps s' = std_erase t (md_routine_maps s)" "md_schema_maps s' = std_erase t (md_schema_maps s)"
    "u \<noteq> t \<Longrightarrow> tix (md_mdl s') u = tix (md_mdl s) u" "k \<in> tix (md_mdl s') t \<Longrightarrow> \<not> releases k"
    "{k \<in> tix (md_mdl s) t. \<not> releases k} \<subseteq> tix (md_mdl s') t" "waiting s' \<le> md_blocks s'"
proof -
  obtain s1 e1 where b: "release_routine_and_schema env t (s, False) = (s1, e1)" by force
  note r = release_both_ok [OF assms(1,3) b]
  have w: "waiting s1 \<le> md_blocks s1" by (rule waitsD(5) [OF r(1)])
  have s': "s' = release_ctc_thd_and_explicit_locks env t (release_ctc_thd_tickets t s1)" using assms(4) b by (simp add: close_thd_def)
  note d = release_ctc_thd_and_explicit_locks_def release_ctc_thd_tickets_def
  show "md_thd_map s' = md_thd_map s" "md_live s' = remove1 t (md_live s)" "md_ticket_maps s' = std_erase t (md_ticket_maps s)"
    using s' r(2) by (simp_all add: d same_threads_def)
  show "md_routine_maps s' = std_erase t (md_routine_maps s)" "md_schema_maps s' = std_erase t (md_schema_maps s)"
    using s' r(4) [OF assms(2)] by (simp_all add: d)
  have m: "tix (md_mdl s') = (tix (md_mdl s1))(t := {k \<in> tix (md_mdl s1) t. \<not> releases k})"
    using s' mdl_lawsD(5) [OF assms(1)] by (simp add: d)
  show "tix (md_mdl s') u = tix (md_mdl s) u" if "u \<noteq> t" using m r(3) that by (simp add: grown_def)
  show "\<not> releases k" if "k \<in> tix (md_mdl s') t" using m that by simp
  show "{k \<in> tix (md_mdl s) t. \<not> releases k} \<subseteq> tix (md_mdl s') t" using m r(3) by (auto simp: grown_def)
  show "waiting s' \<le> md_blocks s'" using w s' by (simp add: d waiting_def)
qed

lemma close_ok:
  assumes "mdl_laws (me_mdl env) tix" "sv_normalized (me_server env)" "meta_ok tix s" "map_of (md_thd_map s) key = Some t"
  shows "meta_ok tix ((close_thd env t s)\<lparr>md_thd_map := std_erase key (md_thd_map (close_thd env t s))\<rparr>)"
proof -
  define s1 where "s1 = close_thd env t s"
  note f = close_thd_facts [OF assms(1,2,3) s1_def] and o = threadsD [OF assms(3)] and w = waitsD [OF assms(3)]
  note rm = remove_thread [OF o(1,2) assms(4)]
  have l: "set (remove1 t (md_live s)) = set (md_live s) - {t}" using o(3) by (rule set_remove1_eq)
  have "\<forall>(thd, tm) \<in> set (std_erase t (md_ticket_maps s)). thd \<in> set (md_live s) - {t} \<and> tickets_ok (tix (md_mdl s1) thd) tm"
    using o(6) f(6) by auto
  moreover have "fst ` set (std_erase t (md_routine_maps s)) \<subseteq> set (md_live s) - {t}" "fst ` set (std_erase t (md_schema_maps s)) \<subseteq> set (md_live s) - {t}"
    using w(3,4) by auto
  ultimately show ?thesis
    using sorted_erase [OF o(1), of key] sorted_erase [OF o(5), of t] sorted_erase [OF w(1), of t] sorted_erase [OF w(2), of t] rm o(3,4) l f(9)
    unfolding s1_def [symmetric] meta_ok_def waiting_def
    by (auto simp: f(1-5) distinct_remove1)
qed

lemma meta_ok_tickets:
  assumes "meta_ok tix s" "sorted_wrt (<) (map fst ms)" "\<forall>(thd, x) \<in> set ms. thd \<in> set (md_live s) \<and> tickets_ok (tix m thd) x"
  shows "meta_ok tix (s\<lparr>md_mdl := m, md_ticket_maps := ms\<rparr>)"
proof -
  have w: "waiting (s\<lparr>md_mdl := m, md_ticket_maps := ms\<rparr>) = waiting s" by (simp add: waiting_def)
  show ?thesis unfolding meta_ok_def w
    using threadsD(1-4) [OF assms(1)] waitsD [OF assms(1)] assms(2,3) by (intro conjI) simp_all
qed

lemma acquire_ok:
  assumes "mdl_laws (me_mdl env) tix" "meta_ok tix s" "t \<in> set (md_live s)" "acquire_and_record env t rq e0 s = (s', e, failed')"
  shows "meta_ok tix s'"
    "\<not> failed' \<Longrightarrow> md_thd_map s' = md_thd_map s \<and>
      (\<exists>tm tk. map_of (md_ticket_maps s') t = Some tm \<and> map_of tm (rq_key rq) = Some tk)"
proof -
  obtain m r where a: "acquire_lock (me_mdl env) t rq 1 (md_mdl s) = (m, r)" by force
  have "meta_ok tix s' \<and> (\<not> failed' \<longrightarrow> md_thd_map s' = md_thd_map s \<and>
      (\<exists>tm tk. map_of (md_ticket_maps s') t = Some tm \<and> map_of tm (rq_key rq) = Some tk))"
  proof (cases r)
    case None
    with a mdl_lawsD(2) [OF assms(1)] have "tix m = tix (md_mdl s)" by simp
    then have "meta_ok tix (s\<lparr>md_mdl := m\<rparr>)"
      by (intro meta_ok_same [OF assms(2)]) (auto simp: same_threads_def same_lists_def grown_def)
    with None a assms(4) show ?thesis by (auto simp: acquire_and_record_def)
  next
    case (Some tk)
    with a have l: "acquire_lock (me_mdl env) t rq 1 (md_mdl s) = (m, Some tk)" by simp
    note law = mdl_lawsD(1) [OF assms(1) l]
    define tm where "tm = the_default [] (map_of (md_ticket_maps s) t)"
    define tm' where "tm' = std_insert (rq_key rq) tk tm"
    have s': "s' = leave_thd (s\<lparr>md_mdl := m, md_ticket_maps := std_put t tm' (md_ticket_maps s)\<rparr>)" and fl: "\<not> failed'"
      using assms(4) l by (simp_all add: acquire_and_record_def tm_def tm'_def)
    have "tickets_ok (tix (md_mdl s) t) tm"
      using threadsD(6) [OF assms(2)] map_of_SomeD [of "md_ticket_maps s" t]
      by (cases "map_of (md_ticket_maps s) t") (auto simp: tm_def tickets_ok_def)
    then have new: "tickets_ok (tix m t) tm'"
      using law set_insert_std [of "rq_key rq" tk tm] sorted_insert [of tm "rq_key rq" tk] by (auto simp: tickets_ok_def tm'_def)
    have "\<forall>(thd, x) \<in> set (std_put t tm' (md_ticket_maps s)). thd \<in> set (md_live s) \<and> tickets_ok (tix m thd) x"
      using threadsD(6) [OF assms(2)] assms(3) new law by (auto simp: set_put [OF threadsD(5) [OF assms(2)]])
    then have "meta_ok tix s'"
      unfolding s' meta_ok_enter by (rule meta_ok_tickets [OF assms(2) sorted_put [OF threadsD(5) [OF assms(2)]]])
    moreover have "\<exists>k. map_of tm' (rq_key rq) = Some k" by (auto simp: tm'_def)
    ultimately show ?thesis using s' by simp
  qed
  then show "meta_ok tix s'" "\<not> failed' \<Longrightarrow> md_thd_map s' = md_thd_map s \<and>
      (\<exists>tm tk. map_of (md_ticket_maps s') t = Some tm \<and> map_of tm (rq_key rq) = Some tk)" by auto
qed

lemma keep_tickets_ok:
  assumes "meta_ok tix s" "t \<in> set (md_live s)" "tickets_ok (tix m t) tm" "\<And>u. u \<noteq> t \<Longrightarrow> tix m u = tix (md_mdl s) u"
  shows "meta_ok tix (keep_tickets t tm (s\<lparr>md_mdl := m\<rparr>))"
proof -
  let ?ms = "if tm = [] then std_erase t (md_ticket_maps s) else std_put t tm (md_ticket_maps s)"
  note o = threadsD [OF assms(1)]
  have "\<forall>(thd, x) \<in> set ?ms. thd \<in> set (md_live s) \<and> tickets_ok (tix m thd) x"
    using o(6) assms(2,3,4) by (auto simp: set_put [OF o(5)])
  moreover have "sorted_wrt (<) (map fst ?ms)" using sorted_put [OF o(5)] sorted_erase [OF o(5)] by simp
  ultimately have "meta_ok tix (s\<lparr>md_mdl := m, md_ticket_maps := ?ms\<rparr>)" by (intro meta_ok_tickets [OF assms(1)])
  then show ?thesis by (simp add: keep_tickets_def cong: if_cong split: if_splits)
qed

lemma recorded:
  assumes "meta_ok tix s" "map_of (md_ticket_maps s) t = Some tm"
  shows "t \<in> set (md_live s)" "tickets_ok (tix (md_mdl s) t) tm"
  using threadsD(6) [OF assms(1) map_of_SomeD [OF assms(2)]] by auto

lemma unlock_ticket_ok:
  assumes "mdl_laws (me_mdl env) tix" "meta_ok tix s"
  shows "meta_ok tix (ctc_mdl_unlock_thd_by_ticket env t rq s)"
proof (cases "map_of (md_ticket_maps s) t")
  case (Some tm)
  note r = recorded [OF assms(2) Some]
  show ?thesis
  proof (cases "map_of tm (rq_key rq)")
    case (Some tk)
    let ?m = "release_all_locks_for_name (me_mdl env) t tk (md_mdl s)"
    have k: "tk_key tk = rq_key rq" using r(2) map_of_SomeD [OF Some] by (auto simp: tickets_ok_def)
    have x: "tix ?m = (tix (md_mdl s))(t := {k \<in> tix (md_mdl s) t. tk_key k \<noteq> rq_key rq})"
      using mdl_lawsD(4) [OF assms(1)] k by simp
    have "tickets_ok (tix ?m t) (std_erase (rq_key rq) tm)"
      using r(2) x sorted_erase [of tm "rq_key rq"] by (auto simp: tickets_ok_def)
    from keep_tickets_ok [OF assms(2) r(1) this] x show ?thesis
      using \<open>map_of (md_ticket_maps s) t = Some tm\<close> Some by (simp add: ctc_mdl_unlock_thd_by_ticket_def on_mdl_def)
  qed (simp add: ctc_mdl_unlock_thd_by_ticket_def Some assms(2))
qed (simp add: ctc_mdl_unlock_thd_by_ticket_def assms(2))

definition of_lock_tables :: "byte list option \<Rightarrow> byte list \<times> mdl_ticket \<Rightarrow> bool" where
  "of_lock_tables key e \<longleftrightarrow> (key = None \<or> key = Some (fst e)) \<and> (tk_type (snd e) = MDL_SHARED_READ_ONLY \<or> tk_type (snd e) = MDL_SHARED_NO_READ_WRITE)"

lemma release_tickets_spec:
  assumes "mdl_laws (me_mdl env) tix" "ctc_release_mdl_tickets env t key tm s = (s', kept)"
  shows "kept = filter (\<lambda>e. \<not> of_lock_tables key e) tm \<and>
    (\<exists>m. s' = s\<lparr>md_mdl := m\<rparr> \<and> tix m = (tix (md_mdl s))(t := tix (md_mdl s) t - snd ` {e \<in> set tm. of_lock_tables key e}))"
  using assms(2)
proof (induction tm arbitrary: s kept)
  case Nil
  have "s' = s\<lparr>md_mdl := md_mdl s\<rparr>" "kept = []" using Nil by simp_all
  then show ?case by (intro conjI exI [of _ "md_mdl s"]) simp_all
next
  case (Cons e tm)
  obtain k tk where e: "e = (k, tk)" by force
  show ?case
  proof (cases "of_lock_tables key e")
    case True
    let ?s = "on_mdl (release_lock (me_mdl env) t tk) s"
    have "ctc_release_mdl_tickets env t key tm ?s = (s', kept)" using Cons(2) True e by (auto simp: of_lock_tables_def split: if_splits)
    from Cons(1) [OF this] obtain m where i: "kept = filter (\<lambda>e. \<not> of_lock_tables key e) tm" "s' = ?s\<lparr>md_mdl := m\<rparr>"
        "tix m = (tix (md_mdl ?s))(t := tix (md_mdl ?s) t - snd ` {e \<in> set tm. of_lock_tables key e})" by blast
    have s: "{x \<in> set (e # tm). of_lock_tables key x} = insert e {x \<in> set tm. of_lock_tables key x}" using True by auto
    have "tix m = (tix (md_mdl s))(t := tix (md_mdl s) t - snd ` {x \<in> set (e # tm). of_lock_tables key x})"
    proof -
      have "tix (md_mdl ?s) = (tix (md_mdl s))(t := tix (md_mdl s) t - {tk})" by (simp add: mdl_lawsD(3) [OF assms(1)])
      with i(3) have "tix m = (tix (md_mdl s))(t := tix (md_mdl s) t - {tk} - snd ` {e \<in> set tm. of_lock_tables key e})" by simp
      moreover have "snd ` {x \<in> set (e # tm). of_lock_tables key x} = insert tk (snd ` {e \<in> set tm. of_lock_tables key e})" unfolding s using e by simp
      ultimately show ?thesis by (simp only: Diff_insert2 [of _ tk "snd ` _"])
    qed
    moreover have "s' = s\<lparr>md_mdl := m\<rparr>" using i(2) by (simp add: on_mdl_def)
    moreover have "kept = filter (\<lambda>e. \<not> of_lock_tables key e) (e # tm)" using i(1) True by simp
    ultimately show ?thesis by blast
  next
    case False
    obtain kept' where k: "ctc_release_mdl_tickets env t key tm s = (s', kept')" "kept = e # kept'"
      using Cons(2) False e by (auto simp: of_lock_tables_def split: if_splits prod.splits)
    have "{x \<in> set (e # tm). of_lock_tables key x} = {x \<in> set tm. of_lock_tables key x}" using False by auto
    with Cons(1) [OF k(1)] k(2) False show ?thesis by simp
  qed
qed

lemma unlock_tables_ok:
  assumes "mdl_laws (me_mdl env) tix" "meta_ok tix s"
  shows "meta_ok tix (ctc_mdl_unlock_tables_thd env tch rq s)"
proof (cases "tch_inst_id tch = sv_inst_id (me_server env)")
  case False
  let ?key = "ctc_get_conn_key (tch_inst_id tch) (tch_thd_id tch) True"
  show ?thesis
  proof (cases "map_of (md_thd_map s) ?key")
    case (Some t)
    show ?thesis
    proof (cases "map_of (md_ticket_maps s) t")
      case None
      with False Some assms(2) show ?thesis by (simp add: ctc_mdl_unlock_tables_thd_def Let_def meta_ok_enter)
    next
      case tm: (Some tm)
      note r = recorded [OF assms(2) tm]
      let ?s = "enter_thd t s" and ?rk = "map_option rq_key rq"
      obtain s' kept where c: "ctc_release_mdl_tickets env t ?rk tm ?s = (s', kept)" by force
      from release_tickets_spec [OF assms(1) c] obtain m where i: "kept = filter (\<lambda>e. \<not> of_lock_tables ?rk e) tm" "s' = ?s\<lparr>md_mdl := m\<rparr>"
          "tix m = (tix (md_mdl s))(t := tix (md_mdl s) t - snd ` {e \<in> set tm. of_lock_tables ?rk e})" by auto
      have k: "tk_key (snd x) = fst x" "snd x \<in> tix (md_mdl s) t" if "x \<in> set tm" for x using r(2) that by (auto simp: tickets_ok_def)
      have u: "x = y" if "x \<in> set tm" "y \<in> set tm" "snd x = snd y" for x y using k(1) [OF that(1)] k(1) [OF that(2)] that(3) by (simp add: prod_eq_iff)
      have g: "snd x \<notin> snd ` {e \<in> set tm. of_lock_tables ?rk e}" if "x \<in> set kept" for x 
      proof
        assume "snd x \<in> snd ` {e \<in> set tm. of_lock_tables ?rk e}"
        then obtain y where "y \<in> set tm" "of_lock_tables ?rk y" "snd x = snd y" by blast
        with u [of x y] that i(1) show False by auto
      qed
      have "sorted_wrt (<) (map fst kept)" using r(2) i(1) by (simp add: tickets_ok_def sorted_wrt_map sorted_wrt_filter)
      moreover have "tk_key (snd x) = fst x \<and> snd x \<in> tix m t" if x: "x \<in> set kept" for x using g [OF x] k [of x] x i(1,3) by simp
      ultimately have "tickets_ok (tix m t) kept" unfolding tickets_ok_def by (simp add: case_prod_beta)
      from keep_tickets_ok [of tix ?s, OF _ _ this] r(1) assms(2) i(2,3) have "meta_ok tix (keep_tickets t kept s')" by (simp add: meta_ok_enter)
      with False Some tm c show ?thesis by (simp add: ctc_mdl_unlock_tables_thd_def Let_def meta_ok_enter)
    qed
  qed (simp add: ctc_mdl_unlock_tables_thd_def False assms(2))
qed (simp add: ctc_mdl_unlock_tables_thd_def assms(2))

lemma one_key: "distinct (map snd m) \<Longrightarrow> (k, t) \<in> set m \<Longrightarrow> (k', t) \<in> set m \<Longrightarrow> k = k'"
  by (fastforce simp: distinct_map inj_on_def)

text \<open>The threads a close selects end, the others keep their locks and their records.\<close>

definition ended :: "('m \<Rightarrow> thd_ptr \<Rightarrow> mdl_ticket set) \<Rightarrow> 'm meta \<Rightarrow> thd_ptr \<Rightarrow> bool" where
  "ended tix s t \<longleftrightarrow> t \<notin> set (md_live s) \<and> t \<notin> snd ` set (md_thd_map s) \<and> map_of (md_ticket_maps s) t = None \<and>
     map_of (md_routine_maps s) t = None \<and> map_of (md_schema_maps s) t = None \<and> (\<forall>k \<in> tix (md_mdl s) t. \<not> releases k)"

definition untouched :: "('m \<Rightarrow> thd_ptr \<Rightarrow> mdl_ticket set) \<Rightarrow> 'm meta \<Rightarrow> 'm meta \<Rightarrow> thd_ptr \<Rightarrow> bool" where
  "untouched tix s s' t \<longleftrightarrow> tix (md_mdl s') t = tix (md_mdl s) t \<and> map_of (md_ticket_maps s') t = map_of (md_ticket_maps s) t \<and>
     map_of (md_routine_maps s') t = map_of (md_routine_maps s) t \<and> map_of (md_schema_maps s') t = map_of (md_schema_maps s) t"

lemma close_one:
  assumes "mdl_laws (me_mdl env) tix" "sv_normalized (me_server env)" "meta_ok tix s" "map_of (md_thd_map s) key = Some t"
    "s' = (close_thd env t s)\<lparr>md_thd_map := std_erase key (md_thd_map (close_thd env t s))\<rparr>"
  shows "meta_ok tix s'" "md_thd_map s' = std_erase key (md_thd_map s)" "ended tix s' t" "u \<noteq> t \<Longrightarrow> untouched tix s s' u"
    "{k \<in> tix (md_mdl s) t. \<not> releases k} \<subseteq> tix (md_mdl s') t"
proof -
  note f = close_thd_facts [OF assms(1,2,3) refl [of "close_thd env t s"]] and o = threadsD [OF assms(3)]
  show "meta_ok tix s'" unfolding assms(5) by (rule close_ok [OF assms(1-4)])
  show m: "md_thd_map s' = std_erase key (md_thd_map s)" using assms(5) f(1) by simp
  have "t \<notin> set (md_live s')" using assms(5) f(2) o(3) by (simp add: set_remove1_eq)
  moreover have "t \<notin> snd ` set (md_thd_map s')" using remove_thread(2) [OF o(1,2) assms(4)] m by simp
  ultimately show "ended tix s' t" using assms(5) f(3-5) f(7) by (simp add: ended_def)
  show "untouched tix s s' u" if "u \<noteq> t" using assms(5) f(3-5) f(6) [OF that] that by (simp add: untouched_def)
  show "{k \<in> tix (md_mdl s) t. \<not> releases k} \<subseteq> tix (md_mdl s') t" using assms(5) f(8) by simp
qed

lemma untouched_trans: "untouched tix s s' u \<Longrightarrow> untouched tix s' s'' u \<Longrightarrow> untouched tix s s'' u"
  by (simp add: untouched_def)

lemma ended_untouched:
  assumes "ended tix s t" "untouched tix s s' t" "set (md_live s') \<subseteq> set (md_live s)" "set (md_thd_map s') \<subseteq> set (md_thd_map s)"
  shows "ended tix s' t"
  using assms by (auto simp: ended_def untouched_def)

lemma release_matching_ok:
  assumes "mdl_laws (me_mdl env) tix" "sv_normalized (me_server env)" "meta_ok tix s"
    "\<forall>(k, t) \<in> set es. map_of (md_thd_map s) k = Some t" "distinct (map fst es)" "s' = release_matching env p es s"
  shows "meta_ok tix s' \<and> md_thd_map s' = filter (\<lambda>e. \<not> (p (fst e) \<and> fst e \<in> fst ` set es)) (md_thd_map s) \<and>
    (\<forall>(k, t) \<in> set es. p k \<longrightarrow> ended tix s' t) \<and> (\<forall>u. u \<notin> snd ` {e \<in> set es. p (fst e)} \<longrightarrow> untouched tix s s' u)"
  using assms(3-)
proof (induction es arbitrary: s)
  case Nil
  then show ?case by (simp add: untouched_def)
next
  case (Cons e es)
  obtain k t where e: "e = (k, t)" by force
  show ?case
  proof (cases "p k")
    case False
    have "{x \<in> set (e # es). p (fst x)} = {x \<in> set es. p (fst x)}" using False e by auto
    moreover have "filter (\<lambda>x. \<not> (p (fst x) \<and> fst x \<in> fst ` set (e # es))) (md_thd_map s) = filter (\<lambda>x. \<not> (p (fst x) \<and> fst x \<in> fst ` set es)) (md_thd_map s)"
      using False e by (intro filter_cong) auto
    ultimately show ?thesis using Cons(1) [of s] Cons(2-) False e by simp
  next
    case True
    define s1 where "s1 = (close_thd env t s)\<lparr>md_thd_map := std_erase k (md_thd_map (close_thd env t s))\<rparr>"
    have mk: "map_of (md_thd_map s) k = Some t" using Cons(3) e by simp
    note c = close_one [OF assms(1,2) Cons(2) mk s1_def]
    have k: "k \<notin> fst ` set es" using Cons(4) e by simp
    have s': "s' = release_matching env p es s1" using Cons(5) True e by (simp add: s1_def Let_def)
    have "\<forall>(k', t') \<in> set es. map_of (md_thd_map s1) k' = Some t'" using Cons(3) k c(2) by (force simp: image_iff)
    with Cons(1) [OF c(1) this _ s'] Cons(4) have i: "meta_ok tix s'"
        "md_thd_map s' = filter (\<lambda>e. \<not> (p (fst e) \<and> fst e \<in> fst ` set es)) (md_thd_map s1)"
        "\<forall>(k, t) \<in> set es. p k \<longrightarrow> ended tix s' t" "\<forall>u. u \<notin> snd ` {e \<in> set es. p (fst e)} \<longrightarrow> untouched tix s1 s' u" by auto
    have t: "t \<notin> snd ` set es"
    proof
      assume "t \<in> snd ` set es"
      then obtain k' where k': "(k', t) \<in> set es" by force
      then have "map_of (md_thd_map s) k' = Some t" using Cons(3) by auto
      then have "(k', t) \<in> set (md_thd_map s)" "(k, t) \<in> set (md_thd_map s)" using mk by (auto dest: map_of_SomeD)
      with one_key [OF threadsD(2) [OF Cons(2)]] have "k' = k" by blast
      with k k' show False by force
    qed
    have "untouched tix s1 s' t" using i(4) t by blast
    moreover have ms: "set (md_thd_map s') \<subseteq> set (md_thd_map s1)" using i(2) by auto
    moreover have "set (md_live s') \<subseteq> set (md_live s1)" using ms threadsD(4) [OF i(1)] threadsD(4) [OF c(1)] by auto
    ultimately have "ended tix s' t" using ended_untouched [OF c(3)] by blast
    moreover have "md_thd_map s' = filter (\<lambda>x. \<not> (p (fst x) \<and> fst x \<in> fst ` set (e # es))) (md_thd_map s)"
      unfolding i(2) c(2) std_erase_def filter_filter using True e by (intro filter_cong) auto
    moreover have "untouched tix s s' u" if "u \<notin> snd ` {x \<in> set (e # es). p (fst x)}" for u
    proof (rule untouched_trans [OF c(4)])
      show "u \<noteq> t" using that True e by force
      show "untouched tix s1 s' u" using that i(4) by force
    qed
    ultimately show ?thesis using i(1,3) e by simp
  qed
qed

text \<open>The keys a close is meant for.\<close>

definition close_selects :: "nat \<Rightarrow> nat \<Rightarrow> nat \<Rightarrow> bool" where
  "close_selects thd_id inst_id key \<longleftrightarrow>
     (if thd_id \<noteq> 0 then key = ctc_get_conn_key inst_id thd_id True
      else if inst_id mod 2 ^ 16 = CANTIAN_DOWN_MASK then ctc_get_cantian_id_from_conn_key key = inst_id div 2 ^ 16 mod 2 ^ 16
      else ctc_get_inst_id_from_conn_key key = inst_id)"

lemma close_all:
  assumes "mdl_laws (me_mdl env) tix" "sv_normalized (me_server env)" "meta_ok tix s" "s' = release_matching env p (md_thd_map s) s"
  shows "meta_ok tix s' \<and> md_thd_map s' = filter (\<lambda>e. \<not> p (fst e)) (md_thd_map s) \<and>
    (\<forall>(k, t) \<in> set (md_thd_map s). if p k then ended tix s' t else untouched tix s s' t)"
proof -
  note o = threadsD [OF assms(3)]
  have d: "distinct (map fst (md_thd_map s))" using o(1) by (simp add: strict_sorted_iff)
  then have m: "\<forall>(k, t) \<in> set (md_thd_map s). map_of (md_thd_map s) k = Some t" by (auto simp: map_of_is_SomeI)
  note r = release_matching_ok [OF assms(1-3) m d assms(4)]
  have "untouched tix s s' t" if "(k, t) \<in> set (md_thd_map s)" "\<not> p k" for k t
  proof -
    have "t \<notin> snd ` {e \<in> set (md_thd_map s). p (fst e)}"
    proof
      assume "t \<in> snd ` {e \<in> set (md_thd_map s). p (fst e)}"
      then obtain k' where "(k', t) \<in> set (md_thd_map s)" "p k'" by auto
      with that one_key [OF o(2)] have "k' = k" by blast
      with that \<open>p k'\<close> show False by simp
    qed
    with r show ?thesis by blast
  qed
  moreover have "filter (\<lambda>e. \<not> (p (fst e) \<and> fst e \<in> fst ` set (md_thd_map s))) (md_thd_map s) = filter (\<lambda>e. \<not> p (fst e)) (md_thd_map s)"
    by (intro filter_cong) auto
  ultimately show ?thesis using r by auto
qed

lemma close_spec:
  assumes "mdl_laws (me_mdl env) tix" "sv_normalized (me_server env)" "meta_ok tix s" "s' = close_ctc_mdl_thd env thd_id inst_id s"
  shows "meta_ok tix s' \<and> md_thd_map s' = filter (\<lambda>e. \<not> close_selects thd_id inst_id (fst e)) (md_thd_map s) \<and>
    (\<forall>(k, t) \<in> set (md_thd_map s). if close_selects thd_id inst_id k then ended tix s' t else untouched tix s s' t)"
proof (cases "thd_id = 0")
  case True
  then have "close_selects thd_id inst_id = (if inst_id mod 2 ^ 16 = CANTIAN_DOWN_MASK
      then (\<lambda>key. ctc_get_cantian_id_from_conn_key key = drop_bit 16 inst_id mod 2 ^ 16) else (\<lambda>key. ctc_get_inst_id_from_conn_key key = inst_id))"
    by (auto simp: close_selects_def fun_eq_iff drop_bit_eq_div)
  then have "s' = release_matching env (close_selects thd_id inst_id) (md_thd_map s) s"
    using assms(4) True by (simp add: close_ctc_mdl_thd_def release_ctc_mdl_thd_by_cantian_id_def release_ctc_mdl_thd_by_inst_id_def)
  then show ?thesis by (rule close_all [OF assms(1-3)])
next
  case False
  let ?key = "ctc_get_conn_key inst_id thd_id True"
  have sel: "close_selects thd_id inst_id k \<longleftrightarrow> k = ?key" for k using False by (simp add: close_selects_def)
  have s': "s' = release_ctc_mdl_thd_by_key env ?key s" using assms(4) False by (simp add: close_ctc_mdl_thd_def)
  show ?thesis
  proof (cases "map_of (md_thd_map s) ?key")
    case None
    then have "?key \<notin> fst ` set (md_thd_map s)" by (simp add: map_of_eq_None_iff)
    then have n: "\<not> close_selects thd_id inst_id (fst e)" if "e \<in> set (md_thd_map s)" for e using that sel by force
    have "s' = s" using s' None by (simp add: release_ctc_mdl_thd_by_key_def)
    moreover have "filter (\<lambda>e. \<not> close_selects thd_id inst_id (fst e)) (md_thd_map s) = md_thd_map s" using n by simp
    ultimately show ?thesis using assms(3) n by (fastforce simp: untouched_def)
  next
    case (Some t)
    have s1: "s' = (close_thd env t s)\<lparr>md_thd_map := std_erase ?key (md_thd_map (close_thd env t s))\<rparr>"
      using s' Some by (simp add: release_ctc_mdl_thd_by_key_def Let_def)
    note c = close_one [OF assms(1-3) Some s1] and o = threadsD [OF assms(3)]
    have d: "distinct (map fst (md_thd_map s))" using o(1) by (simp add: strict_sorted_iff)
    have "if k = ?key then ended tix s' u else untouched tix s s' u" if "(k, u) \<in> set (md_thd_map s)" for k u
    proof (cases "k = ?key")
      case True
      with that d Some have "u = t" by (simp add: map_of_is_SomeI)
      with True c(3) show ?thesis by simp
    next
      case False
      have "u \<noteq> t"
      proof
        assume "u = t"
        with that map_of_SomeD [OF Some] one_key [OF o(2)] have "k = ?key" by blast
        with False show False by simp
      qed
      with False c(4) show ?thesis by simp
    qed
    then show ?thesis using c(1,2) unfolding sel by (auto simp: std_erase_def)
  qed
qed

section \<open>Any order of requests\<close>

definition meta_init :: "'m \<Rightarrow> 'm meta" where
  "meta_init m = \<lparr>md_thd_map = [], md_ticket_maps = [], md_routine_maps = [], md_schema_maps = [], md_live = [], md_mdl = m, md_blocks = 0,
     md_inits = 0, md_current = None, md_events = []\<rparr>"

text \<open>The states a server reaches with the requests of the other servers, in any order.\<close>

inductive meta_reach :: "'m meta_env \<Rightarrow> 'm meta \<Rightarrow> bool" for env :: "'m meta_env" where
  reach_init: "meta_reach env (meta_init m)"
| reach_lock: "meta_reach env s \<Longrightarrow> ctc_mdl_lock_thd env tch lock_info e s = Some (s', r) \<Longrightarrow> meta_reach env s'"
| reach_lock_tables: "meta_reach env s \<Longrightarrow> ctc_ddl_execute_lock_tables_by_req env tch lock_info e s = Some (s', r) \<Longrightarrow> meta_reach env s'"
| reach_unlock: "meta_reach env s \<Longrightarrow> meta_reach env (ctc_mdl_unlock_thd env tch lock_info s)"
| reach_unlock_tables: "meta_reach env s \<Longrightarrow> meta_reach env (ctc_mdl_unlock_tables_thd env tch rq s)"
| reach_invalidate: "meta_reach env s \<Longrightarrow> ctc_invalidate_mysql_dd_cache_req env tch req s = Some (s', b) \<Longrightarrow> meta_reach env s'"
| reach_close: "meta_reach env s \<Longrightarrow> meta_reach env (close_ctc_mdl_thd env thd_id inst_id s)"

lemma meta_ok_init: "meta_ok tix (meta_init m)"
  by (simp add: meta_ok_def meta_init_def waiting_def)

lemma lock_ok:
  assumes "mdl_laws (me_mdl env) tix" "fresh_thds env" "meta_ok tix s" "ctc_mdl_lock_thd env tch li e s = Some (s', r)"
  shows "meta_ok tix s'"
proof -
  consider "s' = s" | s1 t where "ctc_init_thd env (ctc_get_conn_key (tch_inst_id tch) (tch_thd_id tch) True) s = Some (s1, t)"
      "acquire_and_record env t (ctc_init_mdl_request env li) e s1 = (s', r)"
    using assms(4) by (auto simp: ctc_mdl_lock_thd_def split: if_splits Option.bind_splits)
  then show ?thesis
  proof cases
    case 2
    note i = init_thd_ok [OF assms(2,3) 2(1)]
    show ?thesis using acquire_ok(1) [OF assms(1) i(1,2)] 2(2) by (cases r) blast
  qed (use assms(3) in simp)
qed

lemma lock_tables_ok:
  assumes "mdl_laws (me_mdl env) tix" "fresh_thds env" "meta_ok tix s" "ctc_ddl_execute_lock_tables_by_req env tch li e s = Some (s', r)"
  shows "meta_ok tix s'"
proof -
  define rq where "rq = ctc_init_mdl_request_of env li MDL_TABLE"
  define s0 where "s0 = ctc_mdl_unlock_tables_thd env tch (Some rq) s"
  have o: "meta_ok tix s0" unfolding s0_def by (rule unlock_tables_ok [OF assms(1,3)])
  consider "s' = s0" | s1 t where "ctc_init_thd env (ctc_get_conn_key (tch_inst_id tch) (tch_thd_id tch) True) s0 = Some (s1, t)"
      "acquire_and_record env t rq e s1 = (s', r)"
    using assms(4) by (auto simp: ctc_ddl_execute_lock_tables_by_req_def Let_def rq_def s0_def split: if_splits Option.bind_splits)
  then show ?thesis
  proof cases
    case 2
    note i = init_thd_ok [OF assms(2) o 2(1)]
    show ?thesis using acquire_ok(1) [OF assms(1) i(1,2)] 2(2) by (cases r) blast
  qed (use o in simp)
qed

lemma unlock_ok:
  assumes "mdl_laws (me_mdl env) tix" "meta_ok tix s"
  shows "meta_ok tix (ctc_mdl_unlock_thd env tch li s)"
  using assms unlock_ticket_ok [OF assms(1)] by (auto simp: ctc_mdl_unlock_thd_def meta_ok_enter split: option.split)

text \<open>
  C13: In every state reached by lock, unlock, invalidation and close requests in any order, the recorded tickets are locks
  held by threads that are alive, the threads of the map are exactly those alive, one per connection, and every entry that
  waits sits in an allocated block (\<open>meta_ok\<close>): no request releases a lock that is gone or reaches a deleted thread.
\<close>

theorem recorded_tickets_held:
  assumes "mdl_laws (me_mdl env) tix" "fresh_thds env" "sv_normalized (me_server env)" "meta_reach env s"
  shows "meta_ok tix s"
  using assms(4)
proof induction
  case (reach_invalidate s tch req s' b)
  then show ?case by (auto simp: ctc_invalidate_mysql_dd_cache_req_def intro: dd_cache_ok [OF assms(1,2)])
next
  case (reach_close s thd_id inst_id)
  with close_spec [OF assms(1,3)] show ?case by blast
qed (auto intro: meta_ok_init lock_ok [OF assms(1,2)] lock_tables_ok [OF assms(1,2)] unlock_ok [OF assms(1)] unlock_tables_ok [OF assms(1)])

text \<open>
  C15: A close ends exactly the threads it is meant for (those of one connection, of one server or of one Cantian node): they
  leave the map, their records are gone and they hold none of the locks the visitor releases, while the threads of all other
  connections keep their locks and records.
\<close>

theorem close_ends_connections:
  assumes "mdl_laws (me_mdl env) tix" "sv_normalized (me_server env)" "meta_ok tix s" "s' = close_ctc_mdl_thd env thd_id inst_id s"
  shows "md_thd_map s' = filter (\<lambda>e. \<not> close_selects thd_id inst_id (fst e)) (md_thd_map s) \<and>
    (\<forall>(k, t) \<in> set (md_thd_map s). if close_selects thd_id inst_id k then ended tix s' t else untouched tix s s' t)"
  using close_spec [OF assms] by blast

lemma unlock_recorded:
  assumes "mdl_laws (me_mdl env) tix" "meta_ok tix s" "map_of (md_ticket_maps s) t = Some tm" "map_of tm (rq_key rq) = Some tk"
  shows "tix (md_mdl (ctc_mdl_unlock_thd_by_ticket env t rq s)) = (tix (md_mdl s))(t := {k \<in> tix (md_mdl s) t. tk_key k \<noteq> rq_key rq})"
proof -
  have "tk_key tk = rq_key rq" using recorded(2) [OF assms(2,3)] map_of_SomeD [OF assms(4)] by (auto simp: tickets_ok_def)
  with assms(3,4) show ?thesis
    using mdl_lawsD(4) [OF assms(1)] by (simp add: ctc_mdl_unlock_thd_by_ticket_def keep_tickets_def)
qed

lemma lock_steps:
  assumes "mdl_laws (me_mdl env) tix" "fresh_thds env" "meta_ok tix s" "is_work_flow (me_server env)" "tch_inst_id tch \<noteq> sv_inst_id (me_server env)"
    "ctc_mdl_lock_thd env tch li e s = Some (s', e', False)"
  obtains t tm tk tk0 where "map_of (md_thd_map s') (ctc_get_conn_key (tch_inst_id tch) (tch_thd_id tch) True) = Some t"
    "map_of (md_ticket_maps s') t = Some tm" "map_of tm (rq_key (ctc_init_mdl_request env li)) = Some tk0"
    "tix (md_mdl s') = (tix (md_mdl s))(t := insert tk (tix (md_mdl s) t))" "tk_key tk = rq_key (ctc_init_mdl_request env li)"
    "tk_type tk = rq_type (ctc_init_mdl_request env li)" "tk_namespace tk = rq_namespace (ctc_init_mdl_request env li)"
proof -
  let ?key = "ctc_get_conn_key (tch_inst_id tch) (tch_thd_id tch) True" and ?rq = "ctc_init_mdl_request env li"
  obtain s1 t where i: "ctc_init_thd env ?key s = Some (s1, t)" and a: "acquire_and_record env t ?rq e s1 = (s', e', False)"
    using assms(4-6) by (auto simp: ctc_mdl_lock_thd_def split: Option.bind_splits)
  note o = init_thd_ok [OF assms(2,3) i]
  from acquire_ok(2) [OF assms(1) o(1,2) a] obtain tm tk0 where r: "md_thd_map s' = md_thd_map s1" "map_of (md_ticket_maps s') t = Some tm"
      "map_of tm (rq_key ?rq) = Some tk0" by auto
  obtain m tk where l: "acquire_lock (me_mdl env) t ?rq 1 (md_mdl s1) = (m, Some tk)" and m: "md_mdl s' = m"
    using a by (auto simp: acquire_and_record_def split: prod.splits option.splits)
  note law = mdl_lawsD(1) [OF assms(1) l]
  show ?thesis by (rule that [of t tm tk0 tk]) (use r o m law in simp_all)
qed

text \<open>
  C14: An unlock undoes a lock: after a lock request that succeeds and the unlock request with the same names, the connection's
  thread holds the locks it held before, less every lock of that name; the locks of all other threads are as before.
\<close>

theorem unlock_undoes_lock:
  assumes "mdl_laws (me_mdl env) tix" "fresh_thds env" "meta_ok tix s" "is_work_flow (me_server env)" "tch_inst_id tch \<noteq> sv_inst_id (me_server env)"
    "ctc_mdl_lock_thd env tch lock_info e s = Some (s1, e1, False)"
  shows "\<exists>t. map_of (md_thd_map s1) (ctc_get_conn_key (tch_inst_id tch) (tch_thd_id tch) True) = Some t \<and>
    tix (md_mdl (ctc_mdl_unlock_thd env tch lock_info s1)) =
      (tix (md_mdl s))(t := {k \<in> tix (md_mdl s) t. tk_key k \<noteq> rq_key (ctc_init_mdl_request env lock_info)})"
proof -
  from lock_steps [OF assms] obtain t tm tk tk0 where l: "map_of (md_thd_map s1) (ctc_get_conn_key (tch_inst_id tch) (tch_thd_id tch) True) = Some t"
    "map_of (md_ticket_maps s1) t = Some tm" "map_of tm (rq_key (ctc_init_mdl_request env lock_info)) = Some tk0"
    "tix (md_mdl s1) = (tix (md_mdl s))(t := insert tk (tix (md_mdl s) t))" "tk_key tk = rq_key (ctc_init_mdl_request env lock_info)" .
  let ?rq = "ctc_init_mdl_request env lock_info"
  have o: "meta_ok tix (enter_thd t s1)" using lock_ok [OF assms(1-3) assms(6)] by (simp add: meta_ok_enter)
  have "tix (md_mdl (ctc_mdl_unlock_thd env tch lock_info s1)) = (tix (md_mdl s1))(t := {k \<in> tix (md_mdl s1) t. tk_key k \<noteq> rq_key ?rq})"
    using unlock_recorded [OF assms(1) o, of t tm ?rq tk0] l assms(4,5) by (simp add: ctc_mdl_unlock_thd_def)
  moreover have "{k \<in> insert tk (tix (md_mdl s) t). tk_key k \<noteq> rq_key ?rq} = {k \<in> tix (md_mdl s) t. tk_key k \<noteq> rq_key ?rq}" using l(5) by auto
  ultimately show ?thesis using l(1,4) by simp
qed


section \<open>A server with its locks\<close>

text \<open>Locks as a list of tickets with their threads: a request is refused where another thread holds a lock of that name.\<close>

definition listed_tickets :: "(thd_ptr \<times> mdl_ticket) list \<Rightarrow> thd_ptr \<Rightarrow> mdl_ticket set" where
  "listed_tickets m t = {k. (t, k) \<in> set m}"

definition listed_mdl :: "(thd_ptr \<times> mdl_ticket) list mdl_api" where
  "listed_mdl = \<lparr>acquire_lock = (\<lambda>t rq w m. if list_ex (\<lambda>(u, k). u \<noteq> t \<and> tk_key k = rq_key rq) m then (m, None)
        else let tk = \<lparr>tk_id = Suc (sum_list (map (tk_id \<circ> snd) m)), tk_namespace = rq_namespace rq, tk_key = rq_key rq, tk_type = rq_type rq\<rparr>
             in ((t, tk) # m, Some tk)),
     release_lock = (\<lambda>t tk m. filter (\<lambda>e. e \<noteq> (t, tk)) m),
     release_all_locks_for_name = (\<lambda>t tk m. filter (\<lambda>(u, k). u \<noteq> t \<or> tk_key k \<noteq> tk_key tk) m),
     release_locks = (\<lambda>t p m. filter (\<lambda>(u, k). u \<noteq> t \<or> \<not> p k) m),
     owns_equal_or_stronger_lock = (\<lambda>t rq m. list_ex (\<lambda>(u, k). u = t \<and> tk_key k = rq_key rq \<and> tk_type k = rq_type rq) m)\<rparr>"

lemma id_le: "(u, k) \<in> set m \<Longrightarrow> tk_id k \<le> sum_list (map (tk_id \<circ> snd) m)"
  by (induction m) auto

lemma listed_laws: "mdl_laws listed_mdl listed_tickets"
proof -
  have "(\<forall>u. tk \<notin> listed_tickets m u) \<and> tk_namespace tk = rq_namespace rq \<and> tk_key tk = rq_key rq \<and> tk_type tk = rq_type rq \<and>
      listed_tickets m' = (listed_tickets m)(t := insert tk (listed_tickets m t))"
    if "acquire_lock listed_mdl t rq w m = (m', Some tk)" for t rq w m m' tk
  proof -
    have a: "m' = (t, tk) # m" "tk = \<lparr>tk_id = Suc (sum_list (map (tk_id \<circ> snd) m)), tk_namespace = rq_namespace rq, tk_key = rq_key rq, tk_type = rq_type rq\<rparr>"
      using that by (auto simp: listed_mdl_def Let_def split: if_splits)
    have "tk \<notin> listed_tickets m u" for u using id_le [of u tk m] a(2) by (auto simp: listed_tickets_def)
    moreover have "listed_tickets m' = (listed_tickets m)(t := insert tk (listed_tickets m t))"
      unfolding a(1) by (auto simp: listed_tickets_def fun_eq_iff)
    ultimately show ?thesis using a(2) by simp
  qed
  moreover have "listed_tickets m' = listed_tickets m" if "acquire_lock listed_mdl t rq w m = (m', None)" for t rq w m m'
    using that by (auto simp: listed_mdl_def Let_def split: if_splits)
  moreover have "listed_tickets (release_lock listed_mdl t tk m) = (listed_tickets m)(t := listed_tickets m t - {tk})"
    "listed_tickets (release_all_locks_for_name listed_mdl t tk m) = (listed_tickets m)(t := {k \<in> listed_tickets m t. tk_key k \<noteq> tk_key tk})"
    "listed_tickets (release_locks listed_mdl t p m) = (listed_tickets m)(t := {k \<in> listed_tickets m t. \<not> p k})" for t tk m p
    by (auto simp: listed_mdl_def listed_tickets_def fun_eq_iff)
  ultimately show ?thesis unfolding mdl_laws_def by simp
qed

text \<open>Objects of kind 1 are tables, 2 procedures, 3 schemas, 4 tablespaces and 5 events; lock number 0 is the backup lock and
  1 a table.\<close>

definition demo_env :: "(thd_ptr \<times> mdl_ticket) list meta_env" where
  "demo_env = \<lparr>me_server = demo_server\<lparr>sv_normalized := True, sv_obj_kind := (\<lambda>n. if n = 1 then OBJ_ABSTRACT_TABLE else if n = 2 then OBJ_RT_PROCEDURE
        else if n = 3 then OBJ_SCHEMA else if n = 4 then OBJ_TABLESPACE else OBJ_EVENT)\<rparr>,
     me_mdl = listed_mdl, me_new_thd = (\<lambda>live. Some (Suc (sum_list live))), me_mdl_key = (\<lambda>ns db name. db @ 0 # name),
     me_create_mdl_key = (\<lambda>ns db name. 1 # db @ 0 # name), me_namespace = (\<lambda>n. if n = 0 then MDL_BACKUP_LOCK else MDL_TABLE),
     me_type = (\<lambda>n. MDL_SHARED_READ_ONLY), me_in_dictionary = (\<lambda>_. True), me_in_sp_cache = (\<lambda>_ _ _ _. False), me_reload_acl_fails = False\<rparr>"

lemma demo_env_simps [simp]:
  "me_mdl demo_env = listed_mdl" "sv_normalized (me_server demo_env)" "is_work_flow (me_server demo_env)" "sv_inst_id (me_server demo_env) = 1"
  "me_namespace demo_env n = (if n = 0 then MDL_BACKUP_LOCK else MDL_TABLE)"
  by (simp_all add: demo_env_def demo_server_def is_work_flow_def)

lemma demo_fresh: "fresh_thds demo_env"
proof -
  have "(t :: nat) \<le> sum_list ts" if "t \<in> set ts" for t ts using that by (induction ts) auto
  then show ?thesis by (fastforce simp: fresh_thds_def demo_env_def)
qed

definition remote_tch :: ctc_handler where
  "remote_tch = tch0\<lparr>tch_inst_id := 2, tch_thd_id := 7\<rparr>"

definition table_lock :: lock_table_info where
  "table_lock = \<lparr>li_db_name = [97], li_table_name = [98], li_user_name = [], li_user_ip = [], li_sql_type = 0, li_mdl_namespace = 1\<rparr>"

definition locked :: "int \<Rightarrow> (thd_ptr \<times> mdl_ticket) list meta" where
  "locked n = (meta_init [(1, \<lparr>tk_id = 1, tk_namespace = (if n = 0 then MDL_BACKUP_LOCK else MDL_TABLE), tk_key = [97, 0, 98],
       tk_type = (if n = 0 then MDL_SHARED else MDL_EXCLUSIVE)\<rparr>)])\<lparr>md_thd_map := [(8589934599, 1)], md_live := [1],
     md_ticket_maps := [(1, [([97, 0, 98], \<lparr>tk_id = 1, tk_namespace = (if n = 0 then MDL_BACKUP_LOCK else MDL_TABLE), tk_key = [97, 0, 98],
       tk_type = (if n = 0 then MDL_SHARED else MDL_EXCLUSIVE)\<rparr>)])]\<rparr>"

lemma demo_key: "ctc_get_conn_key 2 7 True = 8589934599"
  by (simp add: ctc_get_conn_key_def push_bit_eq_mult)

lemma demo_lock: "ctc_mdl_lock_thd demo_env remote_tch (table_lock\<lparr>li_mdl_namespace := n\<rparr>) 0 (meta_init []) = Some (locked n, 0, False)"
  by (simp add: ctc_mdl_lock_thd_def remote_tch_def demo_key ctc_init_thd_def meta_init_def enter_thd_def leave_thd_def acquire_and_record_def
      ctc_init_mdl_request_def mdl_init_def table_lock_def listed_mdl_def demo_env_def demo_server_def is_work_flow_def c_string_def locked_def
      std_insert_def Let_def)

theorem recorded_tickets_held_witness:
  "meta_ok listed_tickets (locked 1) \<and> map_of (md_ticket_maps (locked 1)) 1 \<noteq> None \<and> listed_tickets (md_mdl (locked 1)) 1 \<noteq> {}"
proof -
  have "meta_reach demo_env (locked 1)" by (rule reach_lock [OF reach_init demo_lock])
  then have "meta_ok listed_tickets (locked 1)" by (intro recorded_tickets_held [OF _ demo_fresh]) (simp_all add: listed_laws)
  then show ?thesis by (simp add: locked_def meta_init_def listed_tickets_def)
qed

theorem unlock_undoes_lock_witness:
  "listed_tickets (md_mdl (ctc_mdl_unlock_thd demo_env remote_tch (table_lock\<lparr>li_mdl_namespace := 1\<rparr>) (locked 1))) 1 = {} \<and>
   listed_tickets (md_mdl (locked 1)) 1 \<noteq> {}"
proof -
  have r: "tch_inst_id remote_tch = 2" "tch_thd_id remote_tch = 7" by (simp_all add: remote_tch_def)
  from unlock_undoes_lock [of demo_env listed_tickets "meta_init []" remote_tch "table_lock\<lparr>li_mdl_namespace := 1\<rparr>" 0 "locked 1" 0]
  have "\<exists>t. map_of (md_thd_map (locked 1)) 8589934599 = Some t \<and>
      listed_tickets (md_mdl (ctc_mdl_unlock_thd demo_env remote_tch (table_lock\<lparr>li_mdl_namespace := 1\<rparr>) (locked 1))) = (listed_tickets [])(t := {})"
    by (simp add: listed_laws demo_fresh meta_ok_init demo_lock r demo_key) (simp add: meta_init_def listed_tickets_def)
  then show ?thesis by (auto simp: locked_def listed_tickets_def meta_init_def)
qed


theorem close_ends_connections_witness:
  "md_thd_map (close_ctc_mdl_thd demo_env 0 2 (locked 1)) = [] \<and> ended listed_tickets (close_ctc_mdl_thd demo_env 0 2 (locked 1)) 1"
proof -
  have o: "meta_ok listed_tickets (locked 1)" using lock_ok [OF _ demo_fresh meta_ok_init demo_lock] by (simp add: listed_laws)
  have i: "ctc_get_inst_id_from_conn_key 8589934599 = 2" using conn_key_parts(1) [of 2 7 True] by (simp add: demo_key)
  have c: "close_selects 0 2 8589934599" using i by (simp add: close_selects_def CANTIAN_DOWN_MASK_def)
  have m: "md_thd_map (locked 1) = [(8589934599, 1)]" by (simp add: locked_def)
  from close_ends_connections [of demo_env listed_tickets "locked 1" "close_ctc_mdl_thd demo_env 0 2 (locked 1)" 0 2] o c m
  show ?thesis by (simp add: listed_laws)
qed

end
