(* ===== verification/CTC_Broadcast.thy ===== *)
theory CTC_Broadcast
  imports CTC_Mdl
begin

text \<open>
  The list of dictionary objects a statement changed, from the server that ran it to the others: \<open>invalidate_remote_dd\<close>
  (\<open>CTC_Trx\<close>) packs the objects into broadcasts of eleven entries, \<open>ctc_invalidate_mysql_dd_cache_impl\<close> (\<open>CTC_Meta\<close>) unpacks
  them. The theory shows that every object sent is invalidated at the receiver.
\<close>

section \<open>The receiver of a broadcast\<close>

text \<open>An object of a broadcast: its type number and its names.\<close>

type_synonym dd_obj = "nat \<times> byte list \<times> byte list"

definition decode_entry :: "byte list \<Rightarrow> dd_obj" where
  "decode_entry obj = (entry_type obj, entry_first obj, entry_second obj)"

text \<open>The object's cached copy is gone.\<close>

definition invalidated :: "'m meta_env \<Rightarrow> 'm meta \<Rightarrow> dd_obj \<Rightarrow> bool" where
  "invalidated env s x = (case x of (n, name1, name2) \<Rightarrow>
     (case sv_obj_kind (me_server env) n of
        OBJ_ABSTRACT_TABLE \<Rightarrow> Invalidate_table name1 name2 \<in> set (md_events s)
      | OBJ_TABLESPACE \<Rightarrow> me_in_dictionary env (Invalidate_tablespace name1) \<longrightarrow> Invalidate_tablespace name1 \<in> set (md_events s)
      | OBJ_RT_PROCEDURE \<Rightarrow> me_in_dictionary env (Invalidate_routine True name1 name2) \<longrightarrow> Invalidate_routine True name1 name2 \<in> set (md_events s)
      | OBJ_RT_FUNCTION \<Rightarrow> me_in_dictionary env (Invalidate_routine False name1 name2) \<longrightarrow> Invalidate_routine False name1 name2 \<in> set (md_events s)
      | OBJ_SCHEMA \<Rightarrow> me_in_dictionary env (Invalidate_schema name1) \<longrightarrow> Invalidate_schema name1 \<in> set (md_events s)
      | _ \<Rightarrow> True))"

text \<open>The object is dealt with or waits for the last broadcast in a list of the thread.\<close>

definition handled :: "'m meta_env \<Rightarrow> thd_ptr \<Rightarrow> 'm meta \<Rightarrow> dd_obj \<Rightarrow> bool" where
  "handled env t s x \<longleftrightarrow> invalidated env s x \<or>
     (sv_obj_kind (me_server env) (fst x) \<in> {OBJ_RT_PROCEDURE, OBJ_RT_FUNCTION} \<and> x \<in> decode_entry ` set (the_default [] (map_of (md_routine_maps s) t))) \<or>
     (sv_obj_kind (me_server env) (fst x) = OBJ_SCHEMA \<and> x \<in> decode_entry ` set (the_default [] (map_of (md_schema_maps s) t)))"

definition grants :: "'m meta_env \<Rightarrow> bool" where
  "grants env \<longleftrightarrow> (\<forall>t rq w m. snd (acquire_lock (me_mdl env) t rq w m) \<noteq> None)"

lemma invalidated_mono: "invalidated env s x \<Longrightarrow> set (md_events s) \<subseteq> set (md_events s') \<Longrightarrow> invalidated env s' x"
  by (auto simp: invalidated_def split: obj_kind.splits)

text \<open>What an invalidation leaves as it is.\<close>

definition framed :: "'m meta \<Rightarrow> 'm meta \<Rightarrow> bool" where
  "framed s s' \<longleftrightarrow> md_routine_maps s' = md_routine_maps s \<and> md_schema_maps s' = md_schema_maps s \<and> md_thd_map s' = md_thd_map s"

lemma give_back_fields [simp]:
  "md_events (give_back env t k s) = md_events s" "md_routine_maps (give_back env t k s) = md_routine_maps s"
  "md_schema_maps (give_back env t k s) = md_schema_maps s" "md_thd_map (give_back env t k s) = md_thd_map s"
  by (cases k; simp)+

lemma granted:
  assumes "grants env"
  obtains s' k where "lock_for env t rq s = (s', Some k)" "framed s s'" "md_events s' = md_events s"
proof -
  obtain m k where "acquire_lock (me_mdl env) t rq CTC_MDL_TIMEOUT (md_mdl s) = (m, Some k)"
    using assms unfolding grants_def by (metis not_Some_eq prod.collapse)
  then show ?thesis by (intro that [of "s\<lparr>md_mdl := m\<rparr>" "Some k"]) (simp_all add: lock_for_def framed_def)
qed

lemma granted_unless:
  assumes "grants env"
  obtains s' k where "lock_unless_owned env t rq s = (s', Some k)" "framed s s'" "md_events s' = md_events s"
proof (cases "owns_equal_or_stronger_lock (me_mdl env) t rq (md_mdl s)")
  case True
  then show ?thesis by (intro that [of s None]) (simp_all add: lock_unless_owned_def framed_def)
next
  case False
  from granted [OF assms, of t rq s] obtain s' k where "lock_for env t rq s = (s', Some k)" "framed s s'" "md_events s' = md_events s" .
  with False show ?thesis by (intro that [of s' k]) (simp_all add: lock_unless_owned_def)
qed

lemma log_event_fields [simp]:
  "md_routine_maps (log_event es s) = md_routine_maps s" "md_schema_maps (log_event es s) = md_schema_maps s" "md_thd_map (log_event es s) = md_thd_map s"
  by (simp_all add: log_event_def)

lemma table_events:
  assumes "grants env" "sv_normalized (me_server env)" "invalidate_table env t a b s = (s', e)"
  shows "framed s s'" "md_events s' = md_events s @ [Tdc_remove_table a b, Invalidate_table a b]"
proof -
  from granted_unless [OF assms(1)] obtain s1 k1 where 1: "lock_unless_owned env t (mdl_init env MDL_SCHEMA a [] MDL_INTENTION_EXCLUSIVE) s = (s1, Some k1)"
    "framed s s1" "md_events s1 = md_events s" .
  from granted_unless [OF assms(1)] obtain s2 k2 where 2: "lock_unless_owned env t (mdl_init env MDL_TABLE a b MDL_EXCLUSIVE) s1 = (s2, Some k2)"
    "framed s1 s2" "md_events s2 = md_events s1" .
  show "framed s s'" "md_events s' = md_events s @ [Tdc_remove_table a b, Invalidate_table a b]"
    using assms(2,3) 1 2 by (auto simp: invalidate_table_def framed_def Let_def)
qed

lemma routine_events:
  assumes "grants env" "sv_normalized (me_server env)" "invalidate_routine env t a b n s = (s', e)"
    "p = (sv_obj_kind (me_server env) n = OBJ_RT_PROCEDURE)"
  shows "framed s s'" "set (md_events s) \<subseteq> set (md_events s')"
    "me_in_dictionary env (Invalidate_routine p a b) \<Longrightarrow> Invalidate_routine p a b \<in> set (md_events s')"
proof -
  from granted_unless [OF assms(1)] obtain s1 k1 where 1: "lock_unless_owned env t (mdl_init env MDL_SCHEMA a [] MDL_INTENTION_EXCLUSIVE) s = (s1, Some k1)"
    "framed s s1" "md_events s1 = md_events s" .
  from granted_unless [OF assms(1)] obtain s2 k2 where
    2: "lock_unless_owned env t (mdl_init_by_key env (if p then MDL_PROCEDURE else MDL_FUNCTION) a b MDL_EXCLUSIVE) s1 = (s2, Some k2)"
    "framed s1 s2" "md_events s2 = md_events s1" .
  show "framed s s'" "set (md_events s) \<subseteq> set (md_events s')"
    "me_in_dictionary env (Invalidate_routine p a b) \<Longrightarrow> Invalidate_routine p a b \<in> set (md_events s')"
    using assms(2,3) 1 2 unfolding assms(4) by (auto simp: invalidate_routine_def framed_def Let_def)
qed

lemma schema_events:
  assumes "grants env" "sv_normalized (me_server env)" "invalidate_schema env t a s = (s', e)"
  shows "framed s s'" "set (md_events s) \<subseteq> set (md_events s')"
    "me_in_dictionary env (Invalidate_schema a) \<Longrightarrow> Invalidate_schema a \<in> set (md_events s')"
proof -
  from granted [OF assms(1)] obtain s1 k1 where 1: "lock_for env t (mdl_init env MDL_SCHEMA a [] MDL_EXCLUSIVE) s = (s1, Some k1)"
    "framed s s1" "md_events s1 = md_events s" .
  show "framed s s'" "set (md_events s) \<subseteq> set (md_events s')"
    "me_in_dictionary env (Invalidate_schema a) \<Longrightarrow> Invalidate_schema a \<in> set (md_events s')"
    using assms(2,3) 1 by (auto simp: invalidate_schema_def framed_def Let_def)
qed

lemma tablespace_events:
  assumes "grants env" "sv_normalized (me_server env)" "invalidate_tablespace env t a s = (s', e)"
  shows "framed s s'" "set (md_events s) \<subseteq> set (md_events s')"
    "me_in_dictionary env (Invalidate_tablespace a) \<Longrightarrow> Invalidate_tablespace a \<in> set (md_events s')"
proof -
  from granted [OF assms(1)] obtain s1 k1 where 1: "lock_for env t (mdl_init env MDL_TABLESPACE a [] MDL_EXCLUSIVE) s = (s1, Some k1)"
    "framed s s1" "md_events s1 = md_events s" .
  show "framed s s'" "set (md_events s) \<subseteq> set (md_events s')"
    "me_in_dictionary env (Invalidate_tablespace a) \<Longrightarrow> Invalidate_tablespace a \<in> set (md_events s')"
    using assms(2,3) 1 by (auto simp: invalidate_tablespace_def framed_def Let_def)
qed

text \<open>One entry: it is handled afterwards, and what was handled before stays so.\<close>

definition advances :: "'m meta_env \<Rightarrow> thd_ptr \<Rightarrow> 'm meta \<Rightarrow> 'm meta \<Rightarrow> bool" where
  "advances env t s s' \<longleftrightarrow> set (md_events s) \<subseteq> set (md_events s') \<and> md_thd_map s' = md_thd_map s \<and> (\<forall>x. handled env t s x \<longrightarrow> handled env t s' x)"

lemma advancesI:
  assumes "set (md_events s) \<subseteq> set (md_events s')" "md_thd_map s' = md_thd_map s"
    "set (the_default [] (map_of (md_routine_maps s) t)) \<subseteq> set (the_default [] (map_of (md_routine_maps s') t))"
    "set (the_default [] (map_of (md_schema_maps s) t)) \<subseteq> set (the_default [] (map_of (md_schema_maps s') t))"
  shows "advances env t s s'"
  unfolding advances_def
proof (intro conjI assms(1,2) allI impI)
  fix x
  assume "handled env t s x"
  then show "handled env t s' x" unfolding handled_def
    using invalidated_mono [OF _ assms(1), of env x] image_mono [OF assms(3), of decode_entry] image_mono [OF assms(4), of decode_entry] by auto
qed

lemma entry_handled:
  assumes "grants env" "sv_normalized (me_server env)" "invalidate_entry env t obj (s, e) = (s', e')"
  shows "advances env t s s'" "handled env t s' (decode_entry obj)"
proof -
  let ?k = "sv_obj_kind (me_server env) (entry_type obj)" and ?s = "s\<lparr>md_blocks := md_blocks s + 1\<rparr>"
  consider (table) "?k = OBJ_ABSTRACT_TABLE" | (space) "?k = OBJ_TABLESPACE" | (routine) "?k = OBJ_RT_PROCEDURE \<or> ?k = OBJ_RT_FUNCTION" |
    (schema) "?k = OBJ_SCHEMA" | (other) "?k \<notin> {OBJ_ABSTRACT_TABLE, OBJ_TABLESPACE, OBJ_RT_PROCEDURE, OBJ_RT_FUNCTION, OBJ_SCHEMA}" by blast
  then have "advances env t s s' \<and> handled env t s' (decode_entry obj)"
  proof cases
    case table
    obtain s1 e1 where i: "invalidate_table env t (entry_first obj) (entry_second obj) ?s = (s1, e1)" by force
    have s': "s' = s1\<lparr>md_blocks := md_blocks s1 - 1\<rparr>" using assms(3) table i by (auto simp: invalidate_entry_def Let_def)
    note ev = table_events [OF assms(1,2) i]
    have "advances env t s s'" using ev s' by (intro advancesI) (auto simp: framed_def)
    moreover have "invalidated env s' (decode_entry obj)" using ev(2) s' table by (simp add: invalidated_def decode_entry_def)
    ultimately show ?thesis by (simp add: handled_def)
  next
    case space
    obtain s1 e1 where i: "invalidate_tablespace env t (entry_first obj) ?s = (s1, e1)" by force
    have s': "s' = s1\<lparr>md_blocks := md_blocks s1 - 1\<rparr>" using assms(3) space i by (auto simp: invalidate_entry_def Let_def)
    note ev = tablespace_events [OF assms(1,2) i]
    have "advances env t s s'" using ev s' by (intro advancesI) (auto simp: framed_def)
    moreover have "invalidated env s' (decode_entry obj)" using ev(3) s' space by (simp add: invalidated_def decode_entry_def)
    ultimately show ?thesis by (simp add: handled_def)
  next
    case routine
    then have s': "s' = ctc_insert_routine t obj ?s" using assms(3) by (auto simp: invalidate_entry_def Let_def)
    then have "advances env t s s'" by (intro advancesI) (auto simp: ctc_insert_routine_def)
    with s' routine show ?thesis by (auto simp: handled_def ctc_insert_routine_def decode_entry_def)
  next
    case schema
    then have s': "s' = ctc_insert_schema t obj ?s" using assms(3) by (auto simp: invalidate_entry_def Let_def)
    then have "advances env t s s'" by (intro advancesI) (auto simp: ctc_insert_schema_def)
    with s' schema show ?thesis by (auto simp: handled_def ctc_insert_schema_def decode_entry_def)
  next
    case other
    then have s': "s' = ?s" using assms(3) by (auto simp: invalidate_entry_def Let_def)
    then have "advances env t s s'" by (intro advancesI) auto
    moreover have "invalidated env s' (decode_entry obj)" using other by (auto simp: invalidated_def decode_entry_def split: obj_kind.splits)
    ultimately show ?thesis by (simp add: handled_def)
  qed
  then show "advances env t s s'" "handled env t s' (decode_entry obj)" by auto
qed

lemma advances_refl: "advances env t s s"
  by (simp add: advances_def)

lemma advances_trans: "advances env t s s' \<Longrightarrow> advances env t s' s'' \<Longrightarrow> advances env t s s''"
  by (auto simp: advances_def)

text \<open>The entries of a buffer.\<close>

definition entry_at :: "byte list \<Rightarrow> nat \<Rightarrow> byte list" where
  "entry_at buff i = take OBJ_ENTRY_SIZE (drop (1 + i * OBJ_ENTRY_SIZE) buff)"

definition buff_objs :: "byte list \<Rightarrow> nat \<Rightarrow> dd_obj list" where
  "buff_objs buff n = map (decode_entry \<circ> entry_at buff) [0..<n]"

lemma entries_handled:
  assumes "grants env" "sv_normalized (me_server env)" "1 + n * OBJ_ENTRY_SIZE \<le> length buff" "i \<le> n"
  shows "\<exists>s' e'. invalidate_entries env t buff (1 + n * OBJ_ENTRY_SIZE) (1 + i * OBJ_ENTRY_SIZE) (s, e) = Some (s', e') \<and>
    advances env t s s' \<and> (\<forall>j \<in> {i..<n}. handled env t s' (decode_entry (entry_at buff j)))"
  using assms(4)
proof (induction "n - i" arbitrary: i s e)
  case 0
  then have "i = n" by simp
  then show ?case by (simp add: invalidate_entries.simps advances_refl)
next
  case (Suc m)
  then have i: "i < n" by simp
  obtain s1 e1 where en: "invalidate_entry env t (entry_at buff i) (s, e) = (s1, e1)" by force
  note h = entry_handled [OF assms(1,2) en]
  have "Suc i * OBJ_ENTRY_SIZE \<le> n * OBJ_ENTRY_SIZE" using i by (intro mult_le_mono1) simp
  then have b: "1 + i * OBJ_ENTRY_SIZE + OBJ_ENTRY_SIZE \<le> length buff" using assms(3) by simp
  have l: "1 + i * OBJ_ENTRY_SIZE < 1 + n * OBJ_ENTRY_SIZE" using i mult_strict_right_mono [of i n OBJ_ENTRY_SIZE] by (simp add: OBJ_ENTRY_SIZE_def)
  have st: "invalidate_entries env t buff (1 + n * OBJ_ENTRY_SIZE) (1 + i * OBJ_ENTRY_SIZE) (s, e) =
      invalidate_entries env t buff (1 + n * OBJ_ENTRY_SIZE) (1 + Suc i * OBJ_ENTRY_SIZE) (s1, e1)"
    using b l en by (subst invalidate_entries.simps) (simp add: entry_at_def algebra_simps)
  have "m = n - Suc i" "Suc i \<le> n" using Suc(2) i by auto
  from Suc(1) [OF this, of s1 e1] obtain s' e' where r: "invalidate_entries env t buff (1 + n * OBJ_ENTRY_SIZE) (1 + Suc i * OBJ_ENTRY_SIZE) (s1, e1) = Some (s', e')"
    "advances env t s1 s'" "\<forall>j \<in> {Suc i..<n}. handled env t s' (decode_entry (entry_at buff j))" by blast
  have "handled env t s' (decode_entry (entry_at buff i))" using h(2) r(2) unfolding advances_def by blast
  with r(3) have "\<forall>j \<in> {i..<n}. handled env t s' (decode_entry (entry_at buff j))" by (metis Suc_leI atLeastLessThan_iff le_neq_implies_less)
  with r advances_trans [OF h(1) r(2)] st show ?case by auto
qed

lemma list_events:
  assumes "\<And>obj s s' e. ivd obj s = (s', e) \<Longrightarrow> framed s s' \<and> set (md_events s) \<subseteq> set (md_events s') \<and> (P obj \<longrightarrow> invalidated env s' (decode_entry obj))"
    "invalidate_list ivd objs (s, e) = (s', e')"
  shows "framed s s' \<and> set (md_events s) \<subseteq> set (md_events s') \<and> (\<forall>obj \<in> set objs. P obj \<longrightarrow> invalidated env s' (decode_entry obj))"
  using assms(2)
proof (induction objs arbitrary: s e)
  case (Cons obj objs)
  obtain s1 e1 where i: "ivd obj s = (s1, e1)" by force
  let ?s1 = "s1\<lparr>md_blocks := md_blocks s1 - 1\<rparr>"
  note a = assms(1) [OF i]
  have "invalidate_list ivd objs (?s1, e1) = (s', e')" using Cons(2) i by simp
  from Cons(1) [OF this] have r: "framed ?s1 s'" "set (md_events s1) \<subseteq> set (md_events s')" "\<forall>obj \<in> set objs. P obj \<longrightarrow> invalidated env s' (decode_entry obj)" by auto
  have "P obj \<longrightarrow> invalidated env s' (decode_entry obj)" using a r(2) invalidated_mono by blast
  with a r show ?case by (auto simp: framed_def)
qed (auto simp: framed_def)

lemma routines_released:
  assumes "grants env" "sv_normalized (me_server env)" "release_routines env t (s, e) = (s', e')"
  shows "set (md_events s) \<subseteq> set (md_events s')" "md_schema_maps s' = md_schema_maps s" "md_thd_map s' = md_thd_map s"
    "obj \<in> set (the_default [] (map_of (md_routine_maps s) t)) \<Longrightarrow> sv_obj_kind (me_server env) (entry_type obj) \<in> {OBJ_RT_PROCEDURE, OBJ_RT_FUNCTION} \<Longrightarrow>
       invalidated env s' (decode_entry obj)"
proof -
  let ?ivd = "\<lambda>obj. invalidate_routine env t (entry_first obj) (entry_second obj) (entry_type obj)"
  let ?P = "\<lambda>obj. sv_obj_kind (me_server env) (entry_type obj) \<in> {OBJ_RT_PROCEDURE, OBJ_RT_FUNCTION}"
  have iv: "framed s s' \<and> set (md_events s) \<subseteq> set (md_events s') \<and> (?P obj \<longrightarrow> invalidated env s' (decode_entry obj))"
    if "?ivd obj s = (s', e)" for obj s s' e
  proof -
    note r = routine_events [OF assms(1,2) that refl]
    have "invalidated env s' (decode_entry obj)" if "?P obj" using that r(3) by (auto simp: invalidated_def decode_entry_def)
    with r show ?thesis by simp
  qed
  have "set (md_events s) \<subseteq> set (md_events s') \<and> md_schema_maps s' = md_schema_maps s \<and> md_thd_map s' = md_thd_map s \<and>
      (\<forall>obj \<in> set (the_default [] (map_of (md_routine_maps s) t)). ?P obj \<longrightarrow> invalidated env s' (decode_entry obj))"
  proof (cases "map_of (md_routine_maps s) t")
    case None
    with assms(3) show ?thesis by (auto simp: release_routines_def)
  next
    case (Some objs)
    obtain s1 where i: "invalidate_list ?ivd objs (s, e) = (s1, e')" "s' = s1\<lparr>md_routine_maps := std_erase t (md_routine_maps s1)\<rparr>"
      using assms(3) Some by (auto simp: release_routines_def split: prod.splits)
    from list_events [where P = ?P, OF iv i(1)] have f: "framed s s1" "set (md_events s) \<subseteq> set (md_events s1)"
      "\<forall>obj \<in> set objs. ?P obj \<longrightarrow> invalidated env s1 (decode_entry obj)" by auto
    have "invalidated env s1 x \<longrightarrow> invalidated env s' x" for x using i(2) invalidated_mono [of env s1 x s'] by simp
    with f i(2) Some show ?thesis by (simp add: framed_def)
  qed
  then show "set (md_events s) \<subseteq> set (md_events s')" "md_schema_maps s' = md_schema_maps s" "md_thd_map s' = md_thd_map s"
    "obj \<in> set (the_default [] (map_of (md_routine_maps s) t)) \<Longrightarrow> sv_obj_kind (me_server env) (entry_type obj) \<in> {OBJ_RT_PROCEDURE, OBJ_RT_FUNCTION} \<Longrightarrow>
       invalidated env s' (decode_entry obj)" by auto
qed

lemma schemas_released:
  assumes "grants env" "sv_normalized (me_server env)" "release_schemas env t (s, e) = (s', e')"
  shows "set (md_events s) \<subseteq> set (md_events s')" "md_thd_map s' = md_thd_map s"
    "obj \<in> set (the_default [] (map_of (md_schema_maps s) t)) \<Longrightarrow> sv_obj_kind (me_server env) (entry_type obj) = OBJ_SCHEMA \<Longrightarrow>
       invalidated env s' (decode_entry obj)"
proof -
  let ?ivd = "\<lambda>obj. invalidate_schema env t (entry_first obj)" and ?P = "\<lambda>obj. sv_obj_kind (me_server env) (entry_type obj) = OBJ_SCHEMA"
  have iv: "framed s s' \<and> set (md_events s) \<subseteq> set (md_events s') \<and> (?P obj \<longrightarrow> invalidated env s' (decode_entry obj))"
    if "?ivd obj s = (s', e)" for obj s s' e
    using schema_events [OF assms(1,2) that] by (simp add: invalidated_def decode_entry_def)
  have "set (md_events s) \<subseteq> set (md_events s') \<and> md_thd_map s' = md_thd_map s \<and>
      (\<forall>obj \<in> set (the_default [] (map_of (md_schema_maps s) t)). ?P obj \<longrightarrow> invalidated env s' (decode_entry obj))"
  proof (cases "map_of (md_schema_maps s) t")
    case None
    with assms(3) show ?thesis by (auto simp: release_schemas_def)
  next
    case (Some objs)
    obtain s1 where i: "invalidate_list ?ivd objs (s, e) = (s1, e')" "s' = s1\<lparr>md_schema_maps := std_erase t (md_schema_maps s1)\<rparr>"
      using assms(3) Some by (auto simp: release_schemas_def split: prod.splits)
    from list_events [where P = ?P, OF iv i(1)] have f: "framed s s1" "set (md_events s) \<subseteq> set (md_events s1)"
      "\<forall>obj \<in> set objs. ?P obj \<longrightarrow> invalidated env s1 (decode_entry obj)" by auto
    have "invalidated env s1 x \<longrightarrow> invalidated env s' x" for x using i(2) invalidated_mono [of env s1 x s'] by simp
    with f i(2) Some show ?thesis by (simp add: framed_def)
  qed
  then show "set (md_events s) \<subseteq> set (md_events s')" "md_thd_map s' = md_thd_map s"
    "obj \<in> set (the_default [] (map_of (md_schema_maps s) t)) \<Longrightarrow> sv_obj_kind (me_server env) (entry_type obj) = OBJ_SCHEMA \<Longrightarrow>
       invalidated env s' (decode_entry obj)" by auto
qed

lemma both_released:
  assumes "grants env" "sv_normalized (me_server env)" "release_routine_and_schema env t (s, e) = (s', e')"
  shows "md_thd_map s' = md_thd_map s" "handled env t s x \<Longrightarrow> invalidated env s' x"
proof -
  obtain s1 e1 where r: "release_routines env t (s, e) = (s1, e1)" by force
  then have c: "release_schemas env t (s1, e1) = (s', e')" using assms(2,3) by (simp add: release_routine_and_schema_def)
  note a = routines_released [OF assms(1,2) r] and b = schemas_released [OF assms(1,2) c]
  show "md_thd_map s' = md_thd_map s" using a(3) b(2) by simp
  assume "handled env t s x"
  then consider "invalidated env s x" | obj where "x = decode_entry obj" "obj \<in> set (the_default [] (map_of (md_routine_maps s) t))"
      "sv_obj_kind (me_server env) (fst x) \<in> {OBJ_RT_PROCEDURE, OBJ_RT_FUNCTION}"
    | obj where "x = decode_entry obj" "obj \<in> set (the_default [] (map_of (md_schema_maps s) t))" "sv_obj_kind (me_server env) (fst x) = OBJ_SCHEMA"
    unfolding handled_def by blast
  then show "invalidated env s' x"
  proof cases
    case 1
    with a(1) b(1) show ?thesis by (blast intro: invalidated_mono)
  next
    case 2
    then have "invalidated env s1 x" using a(4) [of obj] by (simp add: decode_entry_def)
    with b(1) show ?thesis by (blast intro: invalidated_mono)
  next
    case 3
    with a(2) b(3) [of obj] show ?thesis by (simp add: decode_entry_def)
  qed
qed

section \<open>The sender of a broadcast\<close>

lemma entry_size: "OBJ_ENTRY_SIZE = 257"
  by (simp add: OBJ_ENTRY_SIZE_def SMALL_RECORD_SIZE_def)

lemma name_read:
  assumes "length name < n" "0 \<notin> set name"
  shows "c_string (strncpy dst name n @ rest) = name"
proof -
  obtain j where j: "n - length name = Suc j" using assms(1) by (metis Suc_diff_Suc)
  have "strncpy dst name n @ rest = name @ 0 # (replicate j 0 @ drop n dst @ rest)"
    using assms(1) j by (simp add: strncpy_def zeros_def)
  moreover have "takeWhile (\<lambda>b. b \<noteq> 0) (name @ 0 # ys) = name" for ys using assms(2) by (metis (mono_tags, lifting) takeWhile.simps(2) takeWhile_append2 append_Nil2)
  ultimately show ?thesis by (simp add: c_string_def)
qed

lemma entry_at_other:
  assumes "1 + Suc i * OBJ_ENTRY_SIZE \<le> n" "n \<le> length buff"
  shows "entry_at (take n buff @ ys) i = entry_at buff i"
  using assms by (simp add: entry_at_def take_drop min_def)

lemma put_entry_objs:
  assumes "put_entry (1 + k * OBJ_ENTRY_SIZE) ty name1 name2 buff = Some b" "ty < 256" "length name1 < 127" "length name2 < 127" "0 \<notin> set name1" "0 \<notin> set name2"
  shows "length b = length buff" "buff_objs b (Suc k) = buff_objs buff k @ [(ty, name1, name2)]" "1 + Suc k * OBJ_ENTRY_SIZE \<le> length buff"
proof -
  let ?n = "1 + k * OBJ_ENTRY_SIZE"
  let ?a = "take SMALL_RECORD_SIZE (drop (?n + 1) buff)" and ?b = "take SMALL_RECORD_SIZE (drop (?n + 1 + SMALL_RECORD_SIZE) buff)"
  define x where "x = strncpy ?a name1 (SMALL_RECORD_SIZE - 1)"
  define y where "y = strncpy ?b name2 (SMALL_RECORD_SIZE - 1)"
  have l: "?n + OBJ_ENTRY_SIZE \<le> length buff" and b: "b = take ?n buff @ (of_nat ty # x @ y @ drop (?n + OBJ_ENTRY_SIZE) buff)"
    using assms(1) by (auto simp: put_entry_def x_def y_def split: if_splits)
  have la: "length ?a = 127 + 1" "length ?b = 127 + 1" using l by (simp_all add: SMALL_RECORD_SIZE_def entry_size)
  have lx: "length x = 128" "length y = 128" using strncpy_length [OF la(1)] strncpy_length [OF la(2)] by (simp_all add: x_def y_def SMALL_RECORD_SIZE_def)
  show "length b = length buff" using l lx by (simp add: b entry_size)
  have ln: "length (take ?n buff) = ?n" using l by simp
  have e: "entry_at b k = of_nat ty # x @ y" unfolding b entry_at_def using lx ln by (simp add: entry_size)
  have "entry_type (entry_at b k) = ty" using assms(2) by (simp add: e entry_type_def unat_of_nat)
  moreover have "entry_first (entry_at b k) = name1" using assms(3,5) by (simp add: e entry_first_def x_def SMALL_RECORD_SIZE_def name_read)
  moreover have "entry_second (entry_at b k) = name2"
  proof -
    have "drop 129 (of_nat ty # x @ y) = y" using lx by simp
    with name_read [of name2 127 ?b "[]"] assms(4,6) show ?thesis by (simp add: e entry_second_def y_def SMALL_RECORD_SIZE_def)
  qed
  ultimately have last': "decode_entry (entry_at b k) = (ty, name1, name2)" by (simp add: decode_entry_def)
  have "entry_at b i = entry_at buff i" if "i < k" for i
  proof -
    have "Suc i * OBJ_ENTRY_SIZE \<le> k * OBJ_ENTRY_SIZE" using that by (intro mult_le_mono1) simp
    then show ?thesis unfolding b using l by (intro entry_at_other) simp_all
  qed
  then have "map (decode_entry \<circ> entry_at b) [0..<k] = buff_objs buff k" by (simp add: buff_objs_def)
  with last' show "buff_objs b (Suc k) = buff_objs buff k @ [(ty, name1, name2)]" by (simp add: buff_objs_def)
  show "1 + Suc k * OBJ_ENTRY_SIZE \<le> length buff" using l by simp
qed

text \<open>The calls the other servers see and what they carry.\<close>

definition request_ok :: "'m meta_env \<Rightarrow> nat \<Rightarrow> invalidate_broadcast_request \<Rightarrow> bool" where
  "request_ok env k req \<longleftrightarrow> \<not> iv_is_dcl req \<and> iv_mysql_inst_id req \<noteq> sv_inst_id (me_server env) \<and> length (iv_buff req) = DD_BROADCAST_RECORD_LENGTH \<and>
     iv_buff_len req = 1 + k * OBJ_ENTRY_SIZE \<and> iv_buff_len req \<le> length (iv_buff req)"

definition request_objs :: "invalidate_broadcast_request \<Rightarrow> dd_obj list" where
  "request_objs req = buff_objs (iv_buff req) ((iv_buff_len req - 1) div OBJ_ENTRY_SIZE)"

definition handler_key :: "ctc_handler \<Rightarrow> nat" where
  "handler_key tch = ctc_get_conn_key (tch_inst_id tch) (tch_thd_id tch) True"

fun payload :: "call \<Rightarrow> dd_obj list" where
  "payload (Dd_invalidate tch req) = request_objs req"
| "payload _ = []"

fun good_call :: "'m meta_env \<Rightarrow> nat \<Rightarrow> call \<Rightarrow> bool" where
  "good_call env key (Dd_invalidate tch req) \<longleftrightarrow> handler_key tch = key \<and> (\<exists>k. request_ok env k req)"
| "good_call env key _ \<longleftrightarrow> False"

definition keeps_key :: "'e engine \<Rightarrow> bool" where
  "keeps_key eng \<longleftrightarrow> (\<forall>tch req e. handler_key (ry_tch (snd (eng (Dd_invalidate tch req) e))) = handler_key tch)"

lemma request_objs_ok: "request_ok env k req \<Longrightarrow> request_objs req = buff_objs (iv_buff req) k"
  by (simp add: request_ok_def request_objs_def entry_size)

lemma add_entry_sends:
  assumes "add_entry eng ty name1 name2 tch req c = Some (c', tch', req')" "keeps_key eng" "request_ok env k req" "handler_key tch = key"
    "ty < 256" "length name1 < 127" "length name2 < 127" "0 \<notin> set name1" "0 \<notin> set name2"
  shows "\<exists>tr k'. cn_trace c' = cn_trace c @ tr \<and> (\<forall>call \<in> fst ` set tr. good_call env key call) \<and> request_ok env k' req' \<and> handler_key tch' = key \<and>
    concat (map (payload \<circ> fst) tr) @ request_objs req' = request_objs req @ [(ty, name1, name2)]"
proof (cases "iv_buff_len req + OBJ_ENTRY_SIZE > DD_BROADCAST_RECORD_LENGTH")
  case False
  then obtain b where b: "put_entry (iv_buff_len req) ty name1 name2 (iv_buff req) = Some b" "c' = c" "tch' = tch"
      "req' = req\<lparr>iv_buff := b, iv_buff_len := iv_buff_len req + OBJ_ENTRY_SIZE\<rparr>"
    using assms(1) by (auto simp: add_entry_def broadcast_and_reload_buffer_def split: Option.bind_splits)
  have "put_entry (1 + k * OBJ_ENTRY_SIZE) ty name1 name2 (iv_buff req) = Some b" using b(1) assms(3) by (simp add: request_ok_def)
  note p = put_entry_objs [OF this assms(5-9)]
  have "request_ok env (Suc k) req'" using assms(3) b(4) p(1,3) by (simp add: request_ok_def)
  moreover from this have "request_objs req' = request_objs req @ [(ty, name1, name2)]"
    using request_objs_ok assms(3) b(4) p(2) by (metis (no_types, lifting) invalidate_broadcast_request.select_convs(1)
        invalidate_broadcast_request.surjective invalidate_broadcast_request.update_convs(1,2))
  ultimately show ?thesis using b(2,3) assms(4) by (intro exI [of _ "[]"] exI [of _ "Suc k"]) simp
next
  case True
  obtain c1 r where q: "request eng (Dd_invalidate tch req) c = (c1, r)" by force
  let ?req = "req\<lparr>iv_err_code := ry_err_code r, iv_buff := zeros DD_BROADCAST_RECORD_LENGTH, iv_buff_len := 1\<rparr>"
  obtain b where b: "put_entry 1 ty name1 name2 (zeros DD_BROADCAST_RECORD_LENGTH) = Some b" "c' = c1" "tch' = ry_tch r"
      "req' = ?req\<lparr>iv_buff := b, iv_buff_len := 1 + OBJ_ENTRY_SIZE\<rparr>"
    using assms(1) True q by (auto simp: add_entry_def broadcast_and_reload_buffer_def broadcast_dd_def split: Option.bind_splits)
  have "put_entry (1 + 0 * OBJ_ENTRY_SIZE) ty name1 name2 (zeros DD_BROADCAST_RECORD_LENGTH) = Some b" using b(1) by simp
  note p = put_entry_objs [OF this assms(5-9)]
  have ok: "request_ok env 1 req'" using assms(3) b(4) p(1,3) by (simp add: request_ok_def zeros_def)
  have "request_objs req' = [(ty, name1, name2)]" using request_objs_ok [OF ok] b(4) p(2) by (simp add: buff_objs_def)
  moreover have "cn_trace c' = cn_trace c @ [(Dd_invalidate tch req, ry_code r)]" using request_simps(3) [OF q] b(2) by simp
  moreover have "handler_key tch' = key" using request_simps(4) [OF q] b(3) assms(2,4) by (simp add: keeps_key_def)
  ultimately show ?thesis using ok assms(3,4)
    by (intro exI [of _ "[(Dd_invalidate tch req, ry_code r)]"] exI [of _ 1]) auto
qed

definition sent_obj :: "(nat \<Rightarrow> obj_kind) \<Rightarrow> (byte list \<times> byte list) \<times> nat \<Rightarrow> dd_obj" where
  "sent_obj kind x = (case x of ((name1, name2), ty) \<Rightarrow> (ty, name1, obj_second (kind ty) name2))"

definition sendable :: "(byte list \<times> byte list) \<times> nat \<Rightarrow> bool" where
  "sendable x \<longleftrightarrow> (case x of ((name1, name2), ty) \<Rightarrow>
     ty < 256 \<and> length name1 < 127 \<and> length name2 < 127 \<and> 0 \<notin> set name1 \<and> 0 \<notin> set name2)"

lemma send_objs_sends:
  assumes "send_objs eng kind objs tch req c = Some (c', tch', req')" "keeps_key eng" "request_ok env k req" "handler_key tch = key"
    "\<forall>x \<in> set objs. sendable x"
  shows "\<exists>tr k'. cn_trace c' = cn_trace c @ tr \<and> (\<forall>call \<in> fst ` set tr. good_call env key call) \<and> request_ok env k' req' \<and> handler_key tch' = key \<and>
    concat (map (payload \<circ> fst) tr) @ request_objs req' = request_objs req @ map (sent_obj kind) (filter (\<lambda>x. obj_sent (kind (snd x))) objs)"
  using assms(1,3-)
proof (induction objs arbitrary: tch req c k)
  case Nil
  then show ?case by (intro exI [of _ "[]"] exI [of _ k]) simp
next
  case (Cons o1 objs)
  obtain n1 n2 ty where o: "o1 = ((n1, n2), ty)" by (metis prod.exhaust)
  show ?case
  proof (cases "obj_sent (kind ty)")
    case False
    with Cons(1) [of tch req c k] Cons(2-) o show ?thesis by (simp add: send_objs_cons del: send_objs.simps)
  next
    case True
    then obtain c1 tch1 req1 where a: "add_entry eng ty n1 (obj_second (kind ty) n2) tch req c = Some (c1, tch1, req1)"
        "send_objs eng kind objs tch1 req1 c1 = Some (c', tch', req')"
      using Cons(2) o by (auto simp: send_objs_cons simp del: send_objs.simps split: Option.bind_splits)
    have v: "ty < 256" "length n1 < 127" "length (obj_second (kind ty) n2) < 127" "0 \<notin> set n1" "0 \<notin> set (obj_second (kind ty) n2)"
      using Cons(5) o by (auto simp: sendable_def obj_second_def)
    from add_entry_sends [OF a(1) assms(2) Cons(3,4) v] obtain tr1 k1 where
      1: "cn_trace c1 = cn_trace c @ tr1" "\<forall>call \<in> fst ` set tr1. good_call env key call" "request_ok env k1 req1" "handler_key tch1 = key"
        "concat (map (payload \<circ> fst) tr1) @ request_objs req1 = request_objs req @ [(ty, n1, obj_second (kind ty) n2)]" by blast
    have so: "\<forall>x \<in> set objs. sendable x" using Cons(5) by simp
    from Cons(1) [OF a(2) 1(3,4) so] obtain tr2 k2 where
      2: "cn_trace c' = cn_trace c1 @ tr2" "\<forall>call \<in> fst ` set tr2. good_call env key call" "request_ok env k2 req'" "handler_key tch' = key"
        "concat (map (payload \<circ> fst) tr2) @ request_objs req' = request_objs req1 @ map (sent_obj kind) (filter (\<lambda>x. obj_sent (kind (snd x))) objs)" by blast
    have "concat (map (payload \<circ> fst) tr1) @ (concat (map (payload \<circ> fst) tr2) @ request_objs req') =
        (request_objs req @ [(ty, n1, obj_second (kind ty) n2)]) @ map (sent_obj kind) (filter (\<lambda>x. obj_sent (kind (snd x))) objs)"
      unfolding 2(5) 1(5) [symmetric] by simp
    then have "concat (map (payload \<circ> fst) (tr1 @ tr2)) @ request_objs req' =
        request_objs req @ map (sent_obj kind) (filter (\<lambda>x. obj_sent (kind (snd x))) (o1 # objs))"
      using True o by (simp add: sent_obj_def)
    moreover have "cn_trace c' = cn_trace c @ (tr1 @ tr2)" "\<forall>call \<in> fst ` set (tr1 @ tr2). good_call env key call" using 1(1,2) 2(1,2) by auto
    ultimately show ?thesis using 2(3,4) by blast
  qed
qed

section \<open>From the sender to the receiver\<close>

text \<open>Another server works off the broadcasts among the calls of a session, in their order.\<close>

fun deliver :: "'m meta_env \<Rightarrow> call list \<Rightarrow> 'm meta \<Rightarrow> 'm meta option" where
  "deliver env [] s = Some s"
| "deliver env (Dd_invalidate tch req # calls) s = do { (s, error) \<leftarrow> ctc_invalidate_mysql_dd_cache_req env tch req s; deliver env calls s }"
| "deliver env (_ # calls) s = deliver env calls s"

definition known :: "'m meta_env \<Rightarrow> nat \<Rightarrow> 'm meta \<Rightarrow> dd_obj list \<Rightarrow> bool" where
  "known env key s xs \<longleftrightarrow> xs = [] \<or> (\<exists>t. map_of (md_thd_map s) key = Some t \<and> (\<forall>x \<in> set xs. handled env t s x))"

definition receives :: "'m meta_env \<Rightarrow> bool" where
  "receives env \<longleftrightarrow> grants env \<and> sv_normalized (me_server env) \<and> is_work_flow (me_server env) \<and> (\<forall>live. me_new_thd env live \<noteq> None)"

lemma handled_cong:
  assumes "md_events s' = md_events s" "md_routine_maps s' = md_routine_maps s" "md_schema_maps s' = md_schema_maps s"
  shows "handled env t s' x = handled env t s x"
proof -
  have "invalidated env s' x = invalidated env s x" using invalidated_mono [of env s x s'] invalidated_mono [of env s' x s] assms(1) by auto
  with assms show ?thesis by (simp add: handled_def)
qed

lemma init_known:
  assumes "receives env" "known env key s xs"
  obtains s1 t where "ctc_init_thd env key s = Some (s1, t)" "map_of (md_thd_map s1) key = Some t" "\<forall>x \<in> set xs. handled env t s1 x"
proof (cases "map_of (md_thd_map s) key")
  case None
  obtain t where t: "me_new_thd env (md_live s) = Some t" using assms(1) by (auto simp: receives_def)
  show ?thesis
  proof (rule that)
    show "ctc_init_thd env key s = Some ((enter_thd t s)\<lparr>md_live := t # md_live s, md_thd_map := std_put key t (md_thd_map s)\<rparr>, t)"
      using None t by (simp add: ctc_init_thd_def)
  qed (use assms(2) None in \<open>simp_all add: known_def\<close>)
next
  case (Some t)
  show ?thesis
  proof (rule that)
    show "ctc_init_thd env key s = Some (enter_thd t s, t)" using Some by (simp add: ctc_init_thd_def)
  qed (use assms(2) Some in \<open>auto simp: known_def handled_cong [of "enter_thd t s" s]\<close>)
qed

lemma receive_step:
  assumes "receives env" "request_ok env k req" "handler_key tch = key" "known env key s xs"
  shows "\<exists>s' b. ctc_invalidate_mysql_dd_cache_req env tch req s = Some (s', b) \<and> known env key s' (xs @ request_objs req) \<and>
    (hd (iv_buff req) = of_char CHR ''1'' \<longrightarrow> (\<forall>x \<in> set (xs @ request_objs req). invalidated env s' x))"
proof -
  have env: "grants env" "sv_normalized (me_server env)" "is_work_flow (me_server env)" using assms(1) by (simp_all add: receives_def)
  from init_known [OF assms(1,4)] obtain s1 t where i: "ctc_init_thd env key s = Some (s1, t)" "map_of (md_thd_map s1) key = Some t"
    "\<forall>x \<in> set xs. handled env t s1 x" .
  have b: "1 + k * OBJ_ENTRY_SIZE \<le> length (iv_buff req)" "iv_buff_len req = 1 + k * OBJ_ENTRY_SIZE" using assms(2) by (auto simp: request_ok_def)
  from entries_handled [OF env(1,2) b(1) le0, of t s1 False] b(2) obtain s2 e2 where
    e: "invalidate_entries env t (iv_buff req) (iv_buff_len req) 1 (s1, False) = Some (s2, e2)" "advances env t s1 s2"
      "\<forall>j \<in> {0..<k}. handled env t s2 (decode_entry (entry_at (iv_buff req) j))" by auto
  have h2: "\<forall>x \<in> set (xs @ request_objs req). handled env t s2 x"
    using i(3) e(2,3) request_objs_ok [OF assms(2)] unfolding advances_def by (auto simp: buff_objs_def)
  have m2: "map_of (md_thd_map s2) key = Some t" using e(2) i(2) by (simp add: advances_def)
  obtain s3 e3 where r: "release_routine_and_schema env t (s2, e2) = (s3, e3)" by force
  note rel = both_released [OF env(1,2) r]
  have ne: "iv_buff req \<noteq> []" using b(1) by auto
  have run: "ctc_invalidate_mysql_dd_cache_req env tch req s =
      (if hd (iv_buff req) = of_char CHR ''1'' then Some (leave_thd s3, e3) else Some (leave_thd s2, e2))"
    using env assms(2,3) i(1) e(1) r b(2) ne
    by (simp add: ctc_invalidate_mysql_dd_cache_req_def ctc_invalidate_mysql_dd_cache_impl_def request_ok_def handler_key_def)
  show ?thesis
  proof (cases "hd (iv_buff req) = of_char CHR ''1''")
    case True
    have inv: "\<forall>x \<in> set (xs @ request_objs req). invalidated env (leave_thd s3) x"
      using h2 rel(2) invalidated_mono [of env s3 _ "leave_thd s3"] by (metis meta_field_simps(26) subset_refl)
    then have "known env key (leave_thd s3) (xs @ request_objs req)" using m2 rel(1) by (auto simp: known_def handled_def)
    with inv run True show ?thesis by auto
  next
    case False
    have "known env key (leave_thd s2) (xs @ request_objs req)" using h2 m2 by (auto simp: known_def handled_cong [of "leave_thd s2" s2])
    with run False show ?thesis by auto
  qed
qed

lemma deliver_known:
  assumes "receives env" "\<forall>call \<in> set calls. good_call env key call" "known env key s xs"
  shows "\<exists>s'. deliver env calls s = Some s' \<and> known env key s' (xs @ concat (map payload calls))"
  using assms(2,3)
proof (induction calls arbitrary: s xs)
  case (Cons call calls)
  then obtain tch req k where c: "call = Dd_invalidate tch req" "handler_key tch = key" "request_ok env k req" by (cases call) auto
  from receive_step [OF assms(1) c(3,2) Cons(3)] obtain s1 b where "ctc_invalidate_mysql_dd_cache_req env tch req s = Some (s1, b)"
    "known env key s1 (xs @ request_objs req)" by blast
  with Cons(1) [of s1 "xs @ request_objs req"] Cons(2) c(1) show ?case by auto
qed simp

lemma deliver_append: "deliver env (a @ b) s = (case deliver env a s of None \<Rightarrow> None | Some s \<Rightarrow> deliver env b s)"
proof (induction a arbitrary: s)
  case (Cons call a)
  then show ?case by (cases call) (auto split: option.split Option.bind_split)
qed simp

lemma marked_ok:
  assumes "request_ok env k req" "q = req\<lparr>iv_buff := (iv_buff req)[0 := v]\<rparr>"
  shows "request_ok env k q" "request_objs q = request_objs req" "hd (iv_buff q) = v"
proof -
  show "request_ok env k q" using assms by (simp add: request_ok_def)
  show "request_objs q = request_objs req" using assms(2) by (simp add: request_objs_def buff_objs_def entry_at_def)
  have "iv_buff req \<noteq> []" using assms(1) by (auto simp: request_ok_def)
  then show "hd (iv_buff q) = v" using assms(2) by (cases "iv_buff req") auto
qed

lemma reset_received:
  assumes "receives env" "iv_mysql_inst_id req \<noteq> sv_inst_id (me_server env)" "\<not> iv_is_dcl req" "iv_buff_len req = 0"
  shows "\<exists>s' b. ctc_invalidate_mysql_dd_cache_req env tch req s = Some (s', b) \<and> Reset_dictionary_cache \<in> set (md_events s')"
proof -
  have "known env (handler_key tch) s []" by (simp add: known_def)
  from init_known [OF assms(1) this] obtain s1 t where "ctc_init_thd env (handler_key tch) s = Some (s1, t)" by metis
  with assms show ?thesis
    by (auto simp: ctc_invalidate_mysql_dd_cache_req_def ctc_invalidate_mysql_dd_cache_impl_def receives_def handler_key_def)
qed


text \<open>Two objects of a statement, a table and a procedure, and a server that gets its locks.\<close>

definition free_env :: "(thd_ptr \<times> mdl_ticket) list meta_env" where
  "free_env = demo_env\<lparr>me_mdl := listed_mdl\<lparr>acquire_lock := (\<lambda>t rq w m.
     let tk = \<lparr>tk_id = Suc (sum_list (map (tk_id \<circ> snd) m)), tk_namespace = rq_namespace rq, tk_key = rq_key rq, tk_type = rq_type rq\<rparr>
     in ((t, tk) # m, Some tk))\<rparr>\<rparr>"

definition sending_server :: server where
  "sending_server = demo_server\<lparr>sv_inst_id := 2, sv_normalized := True, sv_obj_kind := sv_obj_kind (me_server demo_env),
     sv_stack := \<lparr>iv_buff = zeros DD_BROADCAST_RECORD_LENGTH, iv_buff_len = 0, iv_mysql_inst_id = 0, iv_is_dcl = False, iv_is_flush = False, iv_err_code = 0\<rparr>\<rparr>"

definition changed_conn :: "unit conn" where
  "changed_conn = demo0\<lparr>cn_thd := demo_thd\<lparr>th_invalidates := [(([97], [98]), 1), (([97], [99]), 2)]\<rparr>\<rparr>"

lemma demo_kinds: "sv_obj_kind (me_server demo_env) 1 = OBJ_ABSTRACT_TABLE" "sv_obj_kind (me_server demo_env) 2 = OBJ_RT_PROCEDURE"
  by (simp_all add: demo_env_def)

lemma demo_sent: "\<exists>c' tch'. invalidate_remote_dd sending_server demo_engine remote_tch changed_conn = Some (c', tch')"
  by (simp add: invalidate_remote_dd_def sending_server_def changed_conn_def demo_kinds [unfolded One_nat_def] demo_kinds add_entry_def broadcast_and_reload_buffer_def put_entry_def
      broadcast_dd_def request_def demo_engine_def strncpy_def zeros_def entry_size SMALL_RECORD_SIZE_def DD_BROADCAST_RECORD_LENGTH_def DD_BROADCAST_RECORD_SIZE_def Let_def)


end
