(* ===== verification/CTC_Index.thy ===== *)
theory CTC_Index
  imports CTC_Record CTC_Scan CTC_Session
begin

text \<open>
  The search keys of an index scan (datatype_cnvrt_4_index_search.cc) and the scan that uses them (ha_ctc.cc,
  \<open>index_read\<close>). MySQL gives the lower bound as a key image, the parts of the key one after the other, and the upper bound as another
  one. The image is taken apart, each bound is brought into the form a row of Cantian has for the column, and the
  bounds go to the engine with the request.

  The memory \<open>m\<close> holds both images and the record of the table. A pointer to a bound points into an image or, once the
  bound was converted, to an element of the array \<open>d4\<close>.
\<close>

section \<open>The parts of a key\<close>

text \<open>What is read of a \<open>KEY_PART_INFO\<close> and its field.\<close>

record key_part =
  kp_field :: column
  kp_key_length :: nat
  kp_store_length :: nat
  kp_part_of_prefixkey :: bool
  kp_part_of_key_not_extended :: bool

datatype key_ptr = Key_at nat | Data_at nat

text \<open>\<open>key_info_t\<close>, with pointers.\<close>

record key_slot =
  ks_is_key_null :: bool
  ks_left_key :: "key_ptr option"
  ks_right_key :: "key_ptr option"
  ks_left_key_len :: nat
  ks_right_key_len :: nat

definition empty_slot :: key_slot where
  "empty_slot = \<lparr>ks_is_key_null = False, ks_left_key = None, ks_right_key = None, ks_left_key_len = 0, ks_right_key_len = 0\<rparr>"

definition OFFSET_VARCHAR_TYPE :: nat where "OFFSET_VARCHAR_TYPE = 2"

definition null_offset :: "key_part \<Rightarrow> nat" where
  "null_offset p = (if c_nullable (kp_field p) then 1 else 0)"

definition check_blob :: "key_part \<Rightarrow> bool" where
  "check_blob p \<longleftrightarrow> c_type (kp_field p) \<noteq> MYSQL_TYPE_VARCHAR \<and> fd_blob_flag (c_desc (kp_field p)) \<and> kp_part_of_prefixkey p \<and>
     \<not> kp_part_of_key_not_extended p"

definition data_field_len :: "key_part \<Rightarrow> nat" where
  "data_field_len p =
     (if c_type (kp_field p) = MYSQL_TYPE_VARCHAR then null_offset p + kp_key_length p + OFFSET_VARCHAR_TYPE
      else if check_blob p then kp_store_length p
      else null_offset p + kp_key_length p)"

text \<open>
  The out parameters of \<open>ctc_convert_mysql_key_to_cantian\<close>: the length of the part in the image, the bound, its length and
  whether it is null. An empty key leaves them as they were.
\<close>

record key_out =
  ko_data_field_len :: nat
  ko_use_key :: "key_ptr option"
  ko_use_key_len :: nat
  ko_is_key_null :: bool

definition ctc_convert_mysql_key_to_cantian :: "mem \<Rightarrow> key_part \<Rightarrow> nat \<Rightarrow> nat \<Rightarrow> key_out \<Rightarrow> key_out" where
  "ctc_convert_mysql_key_to_cantian m p key key_len out =
     (if key_len = 0 then out
      else
        let field = kp_field p; offset = null_offset p; data_len = kp_key_length p;
            out = out\<lparr>ko_data_field_len := data_field_len p\<rparr>
        in if c_nullable field \<and> m key = 1 then out\<lparr>ko_is_key_null := True, ko_use_key_len := 0\<rparr>
           else if c_type field = MYSQL_TYPE_VARCHAR \<or> check_blob p
           then out\<lparr>ko_use_key := Some (Key_at (key + offset + OFFSET_VARCHAR_TYPE)),
                    ko_use_key_len := nat (le_val (mem_read m (key + offset) 2))\<rparr>
           else if fd_real_type (c_desc field) = MYSQL_TYPE_STRING
           then out\<lparr>ko_use_key := Some (Key_at (key + offset)), ko_use_key_len := trim_pad m (key + offset) (c_pad_char field) data_len\<rparr>
           else out\<lparr>ko_use_key := Some (Key_at (key + offset)), ko_use_key_len := data_len\<rparr>)"

text \<open>
  One round of the loop of \<open>ctc_fill_index_key_info\<close>: the slot of the part and the length of the part in the image.
  \<open>right\<close> says that the upper bound has a byte at \<open>my_key\<close>. The length of the keys is passed in 16 bits.
\<close>

definition fill_slot :: "mem \<Rightarrow> key_part \<Rightarrow> nat \<Rightarrow> nat \<Rightarrow> bool \<Rightarrow> nat \<Rightarrow> nat \<Rightarrow> key_slot \<Rightarrow> key_slot \<times> nat" where
  "fill_slot m p key key_len right my_key end_len s =
     (let out = ctc_convert_mysql_key_to_cantian m p key (key_len mod 65536)
            \<lparr>ko_data_field_len = 0, ko_use_key = ks_left_key s, ko_use_key_len = ks_left_key_len s, ko_is_key_null = ks_is_key_null s\<rparr>;
          s = s\<lparr>ks_left_key := ko_use_key out, ks_left_key_len := ko_use_key_len out, ks_is_key_null := ko_is_key_null out\<rparr>
      in if right
         then let out = ctc_convert_mysql_key_to_cantian m p my_key (end_len mod 65536)
                    (out\<lparr>ko_use_key := ks_right_key s, ko_use_key_len := ks_right_key_len s\<rparr>)
              in (s\<lparr>ks_right_key := ko_use_key out, ks_right_key_len := ko_use_key_len out, ks_is_key_null := ko_is_key_null out\<rparr>,
                  ko_data_field_len out)
         else (s, ko_data_field_len out))"

text \<open>
  The loop, over the key parts that are left. \<open>end_range\<close> is the address and the length of the upper bound. The slots
  filled so far are returned; more of them than the array has is an access outside of it.
\<close>

fun fill_keys :: "mem \<Rightarrow> nat \<Rightarrow> nat \<Rightarrow> (nat \<times> nat) option \<Rightarrow> bool \<Rightarrow> key_part list \<Rightarrow> nat \<Rightarrow> nat \<Rightarrow> key_slot list \<Rightarrow> conv_error + key_slot list" where
  "fill_keys m key_len end_key end_range skip [] key my_key slots = Inl (Conv_code ERR_GENERIC_INTERNAL_ERROR)"
| "fill_keys m key_len end_key end_range skip (p # ps) key my_key slots =
     (if length slots \<ge> MAX_KEY_COLUMNS then Inl Conv_fault
      else
        let more = (case end_range of None \<Rightarrow> False | Some (a, n) \<Rightarrow> my_key < a + n);
            (s, len) = fill_slot m p key key_len (\<not> skip \<and> more) my_key (case end_range of None \<Rightarrow> 0 | Some (a, n) \<Rightarrow> n) empty_slot;
            key = key + len; my_key = (if more then my_key + len else my_key); slots = slots @ [s]
        in if key < end_key \<and> key_len \<noteq> 0 then fill_keys m key_len end_key end_range skip ps key my_key slots
           else Inr slots)"

definition ctc_fill_index_key_info :: "mem \<Rightarrow> key_part list \<Rightarrow> nat \<Rightarrow> nat \<Rightarrow> (nat \<times> nat) option \<Rightarrow> bool \<Rightarrow> conv_error + nat \<times> key_slot list" where
  "ctc_fill_index_key_info m parts key key_len end_range index_skip_scan =
     (case fill_keys m key_len (key + key_len) end_range index_skip_scan parts key (case end_range of None \<Rightarrow> 0 | Some (a, n) \<Rightarrow> a) [] of
        Inl e \<Rightarrow> Inl e
      | Inr slots \<Rightarrow>
          if length parts > MAX_KEY_COLUMNS then Inl Conv_fault
          else Inr (length slots, slots @ replicate (length parts - length slots) (empty_slot\<lparr>ks_is_key_null := True\<rparr>) @
                 replicate (MAX_KEY_COLUMNS - length parts) empty_slot))"

section \<open>The conversion of a bound\<close>

text \<open>
  \<open>ctc_convert_key_from_mysql_to_cantian\<close>: the bytes written to the element of \<open>d4\<close>, if any, and the new length. A column
  without an entry in the table of types is a null pointer that is read.
\<close>

definition CT_ERROR :: int where "CT_ERROR = -1"

definition ctc_convert_key_from_mysql_to_cantian ::
    "('h, 'a) row_api_scheme \<Rightarrow> column \<Rightarrow> mem \<Rightarrow> nat \<Rightarrow> nat \<Rightarrow> conv_error + byte list option \<times> nat" where
  "ctc_convert_key_from_mysql_to_cantian api field m ptr len =
     (case column_aux (api_type_no api) field of
        None \<Rightarrow> Inl Conv_fault
      | Some aux \<Rightarrow>
          if aux_mysql_field_type aux \<in> {MYSQL_TYPE_TINY, MYSQL_TYPE_SHORT, MYSQL_TYPE_INT24}
          then (case convert_numeric_to_cantian api field (aux_mysql_field_type aux) m ptr len of
                  Inl (Conv_code e) \<Rightarrow> Inl (Conv_code CT_ERROR) | Inl e \<Rightarrow> Inl e | Inr (bs, _) \<Rightarrow> Inr (Some bs, 4))
          else if c_type field = MYSQL_TYPE_BIT then Inr (Some (le_bytes 8 (bit_cnvt_mysql_cantian field m ptr)), 8)
          else if c_type field = MYSQL_TYPE_FLOAT then Inr (Some (api_float_to_double api (mem_read m ptr 4)), 8)
          else if aux_sql_data_type aux = DATETIME_DATA
          then (case convert_datetime_to_cantian api field (aux_mysql_field_type aux) m ptr of
                  Inl e \<Rightarrow> Inl e | Inr bs \<Rightarrow> Inr (Some bs, 8))
          else if c_type field = MYSQL_TYPE_DECIMAL then Inl (Conv_code CT_ERROR)
          else if c_type field = MYSQL_TYPE_NEWDECIMAL
          then (case decimal_mysql_to_cantian api (mem_read m ptr (c_pack_length field)) (c_precision field) (c_decimals field) of
                  Inl e \<Rightarrow> Inl (Conv_code e) | Inr (bs, len) \<Rightarrow> Inr (Some bs, len))
          else Inr (None, len))"

text \<open>One bound. Every bound that is not empty takes an element of \<open>d4\<close>, of which there are twice as many as key columns.\<close>

definition convert_bound ::
    "('h, 'a) row_api_scheme \<Rightarrow> column \<Rightarrow> mem \<Rightarrow> key_ptr option \<Rightarrow> nat \<Rightarrow> byte list list \<Rightarrow>
     conv_error + key_ptr option \<times> nat \<times> byte list list" where
  "convert_bound api field m ptr len data =
     (if len = 0 then Inr (ptr, len, data)
      else case ptr of
             Some (Key_at a) \<Rightarrow>
               (case ctc_convert_key_from_mysql_to_cantian api field m a len of
                  Inl e \<Rightarrow> Inl e
                | Inr (None, len) \<Rightarrow> Inr (ptr, len, data @ [[]])
                | Inr (Some bs, len) \<Rightarrow>
                    if length data \<ge> 2 * MAX_KEY_COLUMNS then Inl Conv_fault
                    else Inr (Some (Data_at (length data)), len, data @ [bs]))
           | _ \<Rightarrow> Inl Conv_fault)"

fun convert_slots ::
    "('h, 'a) row_api_scheme \<Rightarrow> key_part list \<Rightarrow> mem \<Rightarrow> bool \<Rightarrow> key_slot list \<Rightarrow> byte list list \<Rightarrow> conv_error + key_slot list \<times> byte list list" where
  "convert_slots api parts m has_right [] data = Inr ([], data)"
| "convert_slots api [] m has_right (s # ss) data = Inl Conv_fault"
| "convert_slots api (p # ps) m has_right (s # ss) data =
     (case convert_bound api (kp_field p) m (ks_left_key s) (ks_left_key_len s) data of
        Inl e \<Rightarrow> Inl e
      | Inr (l, ln, data) \<Rightarrow>
          (case (if has_right then convert_bound api (kp_field p) m (ks_right_key s) (ks_right_key_len s) data
                 else Inr (ks_right_key s, ks_right_key_len s, data)) of
             Inl e \<Rightarrow> Inl e
           | Inr (r, rn, data) \<Rightarrow>
               (case convert_slots api ps m has_right ss data of
                  Inl e \<Rightarrow> Inl e
                | Inr (ss, data) \<Rightarrow>
                    Inr (s\<lparr>ks_left_key := l, ks_left_key_len := ln, ks_right_key := r, ks_right_key_len := rn\<rparr> # ss, data))))"

definition ctc_convert_index_datatype ::
    "('h, 'a) row_api_scheme \<Rightarrow> key_part list \<Rightarrow> mem \<Rightarrow> nat \<times> key_slot list \<Rightarrow> bool \<Rightarrow> conv_error + key_slot list \<times> byte list list" where
  "ctc_convert_index_datatype api parts m info has_right =
     (case convert_slots api parts m has_right (take (fst info) (snd info)) [] of
        Inl e \<Rightarrow> Inl e
      | Inr (slots, data) \<Rightarrow> Inr (slots @ drop (fst info) (snd info), data))"

text \<open>The bytes a bound has when the request is filled, and the bounds as the request functions take them.\<close>

definition deref :: "mem \<Rightarrow> byte list list \<Rightarrow> key_ptr \<Rightarrow> nat \<Rightarrow> byte list" where
  "deref m data p n = (case p of Key_at a \<Rightarrow> mem_read m a n | Data_at i \<Rightarrow> take n (data ! i))"

definition slot_bounds :: "mem \<Rightarrow> byte list list \<Rightarrow> key_slot \<Rightarrow> key_info" where
  "slot_bounds m data s = \<lparr>ki_is_key_null = ks_is_key_null s,
     ki_left_key = map_option (\<lambda>p. deref m data p (ks_left_key_len s)) (ks_left_key s),
     ki_right_key = map_option (\<lambda>p. deref m data p (ks_right_key_len s)) (ks_right_key s)\<rparr>"

definition index_bounds :: "('h, 'a) row_api_scheme \<Rightarrow> mem \<Rightarrow> key_part list \<Rightarrow> nat \<Rightarrow> nat \<Rightarrow> (nat \<times> nat) option \<Rightarrow> bool \<Rightarrow>
    conv_error + nat \<times> key_info list" where
  "index_bounds api m parts key key_len end_range skip =
     (case ctc_fill_index_key_info m parts key key_len end_range skip of
        Inl e \<Rightarrow> Inl e
      | Inr info \<Rightarrow>
          (case ctc_convert_index_datatype api parts m info (\<not> skip \<and> (case end_range of None \<Rightarrow> False | Some (a, n) \<Rightarrow> n \<noteq> 0)) of
             Inl e \<Rightarrow> Inl e
           | Inr (slots, data) \<Rightarrow> Inr (fst info, map (slot_bounds m data) slots)))"

section \<open>MySQL's key images\<close>

definition col_type :: "('h, 'a) row_api_scheme \<Rightarrow> key_part \<Rightarrow> field_type" where
  "col_type api p = entry_type api (kp_field p)"

text \<open>The bytes of a value in the record, for the types of a fixed width.\<close>

definition fixed_width :: "column \<Rightarrow> field_type \<Rightarrow> nat" where
  "fixed_width col t = (case t of
     MYSQL_TYPE_TINY \<Rightarrow> 1 | MYSQL_TYPE_SHORT \<Rightarrow> 2 | MYSQL_TYPE_INT24 \<Rightarrow> 3 | MYSQL_TYPE_LONG \<Rightarrow> 4 | MYSQL_TYPE_FLOAT \<Rightarrow> 4
   | MYSQL_TYPE_DOUBLE \<Rightarrow> 8 | MYSQL_TYPE_LONGLONG \<Rightarrow> 8 | MYSQL_TYPE_YEAR \<Rightarrow> 1 | MYSQL_TYPE_DATE \<Rightarrow> c_pack_length col
   | MYSQL_TYPE_TIME \<Rightarrow> c_pack_length col | MYSQL_TYPE_DATETIME \<Rightarrow> c_pack_length col | MYSQL_TYPE_TIMESTAMP \<Rightarrow> c_pack_length col
   | MYSQL_TYPE_NEWDECIMAL \<Rightarrow> c_pack_length col | MYSQL_TYPE_BIT \<Rightarrow> c_bytes_in_rec col | MYSQL_TYPE_STRING \<Rightarrow> c_row_pack_length col
   | _ \<Rightarrow> 0)"

text \<open>
  A part over a whole column of a type that can be searched for: its entry in the table of types, its lengths, and for the
  types whose conversion can fail that the row \<open>r\<close> can be stored. Bit columns have no bits among the null bits, as the
  handler does not declare \<open>HA_CAN_BIT_FIELD\<close>.
\<close>

definition searchable :: "('h, 'a) row_api_scheme \<Rightarrow> mem \<Rightarrow> key_part \<Rightarrow> bool" where
  "searchable api r p \<longleftrightarrow>
     (let col = kp_field p; t = col_type api p
      in column_aux (api_type_no api) col \<noteq> None \<and> \<not> fd_blob_flag (c_desc col) \<and> 0 < kp_key_length p \<and>
         (c_type col = t \<and> (fd_real_type (c_desc col) = MYSQL_TYPE_STRING \<longleftrightarrow> t = MYSQL_TYPE_STRING) \<or>
          c_type col = MYSQL_TYPE_STRING \<and> fd_real_type (c_desc col) \<in> {MYSQL_TYPE_ENUM, MYSQL_TYPE_SET} \<and>
          t \<in> {MYSQL_TYPE_TINY, MYSQL_TYPE_SHORT, MYSQL_TYPE_INT24, MYSQL_TYPE_LONG, MYSQL_TYPE_LONGLONG}) \<and>
         family_of t \<in> {NUMERIC_DATA, DATETIME_DATA, STRING_DATA} \<and>
         (t = MYSQL_TYPE_BIT \<longrightarrow> c_bit_len col = 0 \<and> c_bytes_in_rec col \<le> 8) \<and>
         (if t = MYSQL_TYPE_VARCHAR then c_length_bytes col \<in> {1, 2} \<and> column_len col t r \<le> kp_key_length p
          else kp_key_length p = fixed_width col t) \<and>
         (\<not> is_null col r \<and> family_of t = DATETIME_DATA \<longrightarrow> (\<exists>bs. convert_datetime_to_cantian api col t r (c_offset col) = Inr bs \<and> length bs = 8)) \<and>
         (\<not> is_null col r \<and> t = MYSQL_TYPE_NEWDECIMAL \<longrightarrow> (\<exists>x. convert_numeric_to_cantian api col t r (c_offset col) 0 = Inr x)))"

text \<open>The key image of a row, as MySQL builds it: a null byte for a column that can be null, then the value.\<close>

definition part_image :: "('h, 'a) row_api_scheme \<Rightarrow> mem \<Rightarrow> mem \<Rightarrow> nat \<Rightarrow> key_part \<Rightarrow> bool" where
  "part_image api r m k p \<longleftrightarrow>
     (let col = kp_field p; t = col_type api p; k' = k + null_offset p
      in (c_nullable col \<longrightarrow> m k = (if is_null col r then 1 else 0)) \<and>
         (\<not> is_null col r \<longrightarrow>
            (if t = MYSQL_TYPE_VARCHAR
             then mem_read m k' 2 = le_bytes 2 (int (column_len col t r)) \<and> mem_read m (k' + 2) (column_len col t r) = column_data api col t r
             else mem_read m k' (kp_key_length p) = mem_read r (c_offset col) (kp_key_length p))))"

fun key_image :: "('h, 'a) row_api_scheme \<Rightarrow> mem \<Rightarrow> mem \<Rightarrow> nat \<Rightarrow> key_part list \<Rightarrow> bool" where
  "key_image api r m k [] \<longleftrightarrow> True"
| "key_image api r m k (p # ps) \<longleftrightarrow> part_image api r m k p \<and> key_image api r m (k + data_field_len p) ps"

definition image_len :: "key_part list \<Rightarrow> nat" where
  "image_len ps = sum_list (map data_field_len ps)"

text \<open>The bound for a row: what the row stores for the column.\<close>

definition bound_of :: "('h, 'a) row_api_scheme \<Rightarrow> mem \<Rightarrow> key_part \<Rightarrow> byte list option" where
  "bound_of api r p =
     (let col = kp_field p; t = col_type api p
      in if is_null col r then None
         else if t = MYSQL_TYPE_NEWDECIMAL
         then (case convert_numeric_to_cantian api col t r (c_offset col) 0 of Inr (bs, n) \<Rightarrow> Some (take n bs) | Inl _ \<Rightarrow> None)
         else Some (column_data api col t r))"

text \<open>The bounds of a scan from the row \<open>r\<close> to the row \<open>r2\<close>, of which the first \<open>j\<close> columns are given.\<close>

fun bounds_of :: "('h, 'a) row_api_scheme \<Rightarrow> mem \<Rightarrow> mem \<Rightarrow> nat \<Rightarrow> key_part list \<Rightarrow> key_info list" where
  "bounds_of api r r2 j [] = []"
| "bounds_of api r r2 j (p # ps) =
     \<lparr>ki_is_key_null = (is_null (kp_field p) r \<or> 0 < j \<and> is_null (kp_field p) r2), ki_left_key = bound_of api r p,
      ki_right_key = (if 0 < j then bound_of api r2 p else None)\<rparr> # bounds_of api r r2 (j - 1) ps"

section \<open>Taking an image apart\<close>

text \<open>What a slot says of a bound before the conversion.\<close>

definition filled :: "('h, 'a) row_api_scheme \<Rightarrow> mem \<Rightarrow> mem \<Rightarrow> key_part \<Rightarrow> key_ptr option \<Rightarrow> nat \<Rightarrow> bool" where
  "filled api r m p ptr len \<longleftrightarrow>
     (let col = kp_field p; t = col_type api p
      in if is_null col r then ptr = None \<and> len = 0
         else \<exists>a. ptr = Some (Key_at a) \<and>
           (if t = MYSQL_TYPE_VARCHAR then len = column_len col t r \<and> mem_read m a len = column_data api col t r
            else mem_read m a (kp_key_length p) = mem_read r (c_offset col) (kp_key_length p) \<and>
                 len = (if t = MYSQL_TYPE_STRING then trim_pad m a (c_pad_char col) (kp_key_length p) else kp_key_length p)))"

lemma is_null_nullable: "is_null col r \<Longrightarrow> c_nullable col"
  by (simp add: is_null_def)

lemma searchableD:
  assumes "searchable api r p"
  shows "column_aux (api_type_no api) (kp_field p) \<noteq> None" "\<not> fd_blob_flag (c_desc (kp_field p))" "0 < kp_key_length p"
    "family_of (col_type api p) \<in> {NUMERIC_DATA, DATETIME_DATA, STRING_DATA}"
    "col_type api p = MYSQL_TYPE_BIT \<longrightarrow> c_bit_len (kp_field p) = 0 \<and> c_bytes_in_rec (kp_field p) \<le> 8"
    "if col_type api p = MYSQL_TYPE_VARCHAR then c_length_bytes (kp_field p) \<in> {1, 2} \<and> column_len (kp_field p) (col_type api p) r \<le> kp_key_length p
     else kp_key_length p = fixed_width (kp_field p) (col_type api p)"
    "\<not> is_null (kp_field p) r \<and> family_of (col_type api p) = DATETIME_DATA \<longrightarrow>
     (\<exists>bs. convert_datetime_to_cantian api (kp_field p) (col_type api p) r (c_offset (kp_field p)) = Inr bs \<and> length bs = 8)"
    "\<not> is_null (kp_field p) r \<and> col_type api p = MYSQL_TYPE_NEWDECIMAL \<longrightarrow>
     (\<exists>x. convert_numeric_to_cantian api (kp_field p) (col_type api p) r (c_offset (kp_field p)) 0 = Inr x)"
    "c_type (kp_field p) = col_type api p \<and> (fd_real_type (c_desc (kp_field p)) = MYSQL_TYPE_STRING \<longleftrightarrow> col_type api p = MYSQL_TYPE_STRING) \<or>
     c_type (kp_field p) = MYSQL_TYPE_STRING \<and> fd_real_type (c_desc (kp_field p)) \<in> {MYSQL_TYPE_ENUM, MYSQL_TYPE_SET} \<and>
     col_type api p \<in> {MYSQL_TYPE_TINY, MYSQL_TYPE_SHORT, MYSQL_TYPE_INT24, MYSQL_TYPE_LONG, MYSQL_TYPE_LONGLONG}"
  using assms unfolding searchable_def Let_def by - ((elim conjE, assumption)+)

lemma varchar_len_16: "column_len col MYSQL_TYPE_VARCHAR r < 65536"
proof -
  have "uint (r (c_offset col)) < 256" using uint_bounded [of "r (c_offset col)"] by simp
  then have "unat (r (c_offset col)) < 65536" unfolding unat_eq_nat_uint by linarith
  moreover have "nat (le_val (mem_read r (c_offset col) 2)) < 65536"
    using le_val_range [of "mem_read r (c_offset col) 2"] by simp linarith
  ultimately show ?thesis by (simp add: column_len_def calculate_variable_len_def)
qed

lemma taken:
  assumes "searchable api r p" "part_image api r m k p" "n \<noteq> 0" "ko_use_key out = None" "ko_use_key_len out = 0"
    "out' = ctc_convert_mysql_key_to_cantian m p k n out"
  shows "filled api r m p (ko_use_key out') (ko_use_key_len out')" "ko_is_key_null out' = (ko_is_key_null out \<or> is_null (kp_field p) r)"
    "ko_data_field_len out' = data_field_len p" "0 < data_field_len p"
proof -
  note d = searchableD [OF assms(1)]
  have nb: "\<not> check_blob p" using d(2) by (simp add: check_blob_def)
  have v: "c_type (kp_field p) = MYSQL_TYPE_VARCHAR \<longleftrightarrow> col_type api p = MYSQL_TYPE_VARCHAR" using d(9) by auto
  have s: "fd_real_type (c_desc (kp_field p)) = MYSQL_TYPE_STRING \<longleftrightarrow> col_type api p = MYSQL_TYPE_STRING" using d(9) by auto
  have l: "col_type api p = MYSQL_TYPE_VARCHAR \<Longrightarrow> column_len (kp_field p) MYSQL_TYPE_VARCHAR r < 65536"
    by (rule varchar_len_16)
  show "0 < data_field_len p" using d(3) nb by (auto simp: data_field_len_def)
  show "ko_data_field_len out' = data_field_len p" using assms(3,6) by (simp add: ctc_convert_mysql_key_to_cantian_def Let_def)
  have nn: "c_nullable (kp_field p) \<and> m k = 1 \<longleftrightarrow> is_null (kp_field p) r"
    using assms(2) is_null_nullable [of "kp_field p" r] by (cases "is_null (kp_field p) r") (auto simp: part_image_def Let_def)
  show "ko_is_key_null out' = (ko_is_key_null out \<or> is_null (kp_field p) r)"
    using assms(3,6) nn by (simp add: ctc_convert_mysql_key_to_cantian_def Let_def)
  show "filled api r m p (ko_use_key out') (ko_use_key_len out')"
  proof (cases "is_null (kp_field p) r")
    case True
    then show ?thesis using assms(3-6) nn by (simp add: ctc_convert_mysql_key_to_cantian_def Let_def filled_def)
  next
    case False
    then show ?thesis using assms(2,3,6) nn v s nb l
      by (auto simp: ctc_convert_mysql_key_to_cantian_def Let_def filled_def part_image_def OFFSET_VARCHAR_TYPE_def le_val_len)
  qed
qed

definition slot_ok :: "('h, 'a) row_api_scheme \<Rightarrow> mem \<Rightarrow> mem \<Rightarrow> bool \<Rightarrow> mem \<Rightarrow> key_part \<Rightarrow> key_slot \<Rightarrow> bool" where
  "slot_ok api r r2 right m p s \<longleftrightarrow>
     ks_is_key_null s = (is_null (kp_field p) r \<or> right \<and> is_null (kp_field p) r2) \<and> filled api r m p (ks_left_key s) (ks_left_key_len s) \<and>
     (if right then filled api r2 m p (ks_right_key s) (ks_right_key_len s) else ks_right_key s = None \<and> ks_right_key_len s = 0)"

fun slots_ok :: "('h, 'a) row_api_scheme \<Rightarrow> mem \<Rightarrow> mem \<Rightarrow> nat \<Rightarrow> mem \<Rightarrow> key_part list \<Rightarrow> key_slot list \<Rightarrow> bool" where
  "slots_ok api r r2 j m (p # ps) (s # ss) \<longleftrightarrow> slot_ok api r r2 (0 < j) m p s \<and> slots_ok api r r2 (j - 1) m ps ss"
| "slots_ok api r r2 j m ps ss \<longleftrightarrow> ps = [] \<and> ss = []"

lemma slot_filled:
  assumes "searchable api r p" "part_image api r m k p" "0 < key_len" "key_len < 65536"
    and "right \<Longrightarrow> searchable api r2 p \<and> part_image api r2 m k2 p \<and> 0 < n \<and> n < 65536"
    and "fill_slot m p k key_len right k2 n empty_slot = (s, len)"
  shows "slot_ok api r r2 right m p s" "len = data_field_len p"
proof -
  let ?o = "\<lparr>ko_data_field_len = 0, ko_use_key = None, ko_use_key_len = 0, ko_is_key_null = False\<rparr>"
  define o1 where "o1 = ctc_convert_mysql_key_to_cantian m p k key_len ?o"
  have l: "filled api r m p (ko_use_key o1) (ko_use_key_len o1)" "ko_is_key_null o1 = is_null (kp_field p) r" "ko_data_field_len o1 = data_field_len p"
    using taken [OF assms(1,2), of key_len ?o o1] assms(3) o1_def by auto
  show "slot_ok api r r2 right m p s" "len = data_field_len p"
  proof (atomize (full), cases right)
    case True
    define o2 where "o2 = ctc_convert_mysql_key_to_cantian m p k2 n (o1\<lparr>ko_use_key := None, ko_use_key_len := 0\<rparr>)"
    have r: "filled api r2 m p (ko_use_key o2) (ko_use_key_len o2)" "ko_is_key_null o2 = (is_null (kp_field p) r \<or> is_null (kp_field p) r2)"
        "ko_data_field_len o2 = data_field_len p"
      using taken [of api r2 p m k2 n "o1\<lparr>ko_use_key := None, ko_use_key_len := 0\<rparr>" o2] assms(5) True l(2) o2_def by auto
    show "slot_ok api r r2 right m p s \<and> len = data_field_len p"
      using assms(3-6) True l r by (auto simp: fill_slot_def Let_def empty_slot_def slot_ok_def o1_def [symmetric] o2_def [symmetric])
  next
    case False
    then show "slot_ok api r r2 right m p s \<and> len = data_field_len p"
      using assms(3,4,6) l by (auto simp: fill_slot_def Let_def empty_slot_def slot_ok_def o1_def [symmetric])
  qed
qed

text \<open>The upper bound that is still ahead: its first \<open>j\<close> parts lie at \<open>my_key\<close> and end with it.\<close>

definition upper :: "('h, 'a) row_api_scheme \<Rightarrow> mem \<Rightarrow> mem \<Rightarrow> nat \<Rightarrow> key_part list \<Rightarrow> (nat \<times> nat) option \<Rightarrow> nat \<Rightarrow> bool" where
  "upper api r2 m j ps end_range my_key \<longleftrightarrow> (case end_range of None \<Rightarrow> j = 0
     | Some (a, n) \<Rightarrow> n < 65536 \<and> a \<le> my_key \<and> my_key + image_len (take j ps) = a + n \<and> j \<le> length ps \<and>
         key_image api r2 m my_key (take j ps) \<and> list_all (searchable api r2) (take j ps))"

lemma image_len_simps [simp]: "image_len [] = 0" "image_len (p # ps) = data_field_len p + image_len ps"
  by (simp_all add: image_len_def)

lemma searchable_len: "searchable api r p \<Longrightarrow> 0 < data_field_len p"
  using searchableD(2,3) [of api r p] by (auto simp: data_field_len_def check_blob_def)

lemma image_len_pos: "list_all (searchable api r) ps \<Longrightarrow> image_len ps = 0 \<longleftrightarrow> ps = []"
  using searchable_len by (cases ps) force+

lemma keys_filled:
  assumes "ps \<noteq> []" "key_image api r m key ps" "list_all (searchable api r) ps" "upper api r2 m j (ps @ qs) end_range my_key"
    and "0 < key_len" "key_len < 65536" "end_key = key + image_len ps" "length slots + length ps \<le> MAX_KEY_COLUMNS"
  shows "\<exists>ss. fill_keys m key_len end_key end_range False (ps @ qs) key my_key slots = Inr (slots @ ss) \<and> slots_ok api r r2 j m ps ss"
  using assms
proof (induction ps arbitrary: key my_key slots j)
  case (Cons p ps)
  define more where "more = (case end_range of None \<Rightarrow> False | Some (a, n) \<Rightarrow> my_key < a + n)"
  define n where "n = (case end_range of None \<Rightarrow> 0 | Some (a, n) \<Rightarrow> n)"
  have up: "more \<longleftrightarrow> 0 < j" "0 < j \<Longrightarrow> searchable api r2 p \<and> part_image api r2 m my_key p \<and> 0 < n \<and> n < 65536"
      "upper api r2 m (j - 1) (ps @ qs) end_range (if more then my_key + data_field_len p else my_key)"
  proof -
    show 1: "more \<longleftrightarrow> 0 < j" using Cons.prems(4) searchable_len [of api r2 p]
      by (cases j) (auto simp: more_def upper_def split: option.splits)
    show "0 < j \<Longrightarrow> searchable api r2 p \<and> part_image api r2 m my_key p \<and> 0 < n \<and> n < 65536"
      using Cons.prems(4) searchable_len [of api r2 p] by (cases j) (auto simp: n_def upper_def split: option.splits)
    show "upper api r2 m (j - 1) (ps @ qs) end_range (if more then my_key + data_field_len p else my_key)"
      using Cons.prems(4) 1 by (cases j) (auto simp: upper_def split: option.splits)
  qed
  obtain s len where f: "fill_slot m p key key_len more my_key n empty_slot = (s, len)" by fastforce
  have sp: "searchable api r p" "part_image api r m key p" using Cons.prems(2,3) by simp_all
  note sf = slot_filled [OF sp Cons.prems(5,6), of more r2 my_key n, OF _ f]
  have sf: "slot_ok api r r2 (0 < j) m p s" "len = data_field_len p" using sf up(1,2) by auto
  have step: "fill_keys m key_len end_key end_range False ((p # ps) @ qs) key my_key slots =
      (if key + data_field_len p < end_key
       then fill_keys m key_len end_key end_range False (ps @ qs) (key + data_field_len p)
              (if more then my_key + data_field_len p else my_key) (slots @ [s])
       else Inr (slots @ [s]))"
    using Cons.prems(5,8) f sf(2) by (simp add: more_def [symmetric] n_def [symmetric])
  show ?case
  proof (cases "ps = []")
    case True
    then show ?thesis using step sf(1) Cons.prems(7) by (intro exI [of _ "[s]"]) simp
  next
    case False
    have "key + data_field_len p < end_key" using False Cons.prems(3,7) image_len_pos [of api r ps] by simp
    moreover obtain ss where "fill_keys m key_len end_key end_range False (ps @ qs) (key + data_field_len p)
              (if more then my_key + data_field_len p else my_key) (slots @ [s]) = Inr ((slots @ [s]) @ ss)" "slots_ok api r r2 (j - 1) m ps ss"
      using Cons.IH [OF False _ _ up(3) Cons.prems(5,6), of "key + data_field_len p" "slots @ [s]"] Cons.prems(2,3,7,8) by auto
    ultimately show ?thesis using step sf(1) by (intro exI [of _ "s # ss"]) simp
  qed
qed simp

section \<open>The converted bounds\<close>

lemma unchanged_numeric: "length bs = n \<Longrightarrow> convert_numeric_datatype n bs u = bs"
  using widen_narrow [of bs n n] le_sval_mod [of bs] le_val_range [of bs]
  by (auto simp: convert_numeric_datatype_def)

lemma key_aux:
  assumes "mysql_enum (api_type_no api)" "searchable api r p"
  obtains aux where "column_aux (api_type_no api) (kp_field p) = Some aux" "aux_mysql_field_type aux = col_type api p"
    "aux_sql_data_type aux = family_of (col_type api p)"
proof -
  obtain aux where a: "column_aux (api_type_no api) (kp_field p) = Some aux" using searchableD(1) [OF assms(2)] by blast
  then have "aux_mysql_field_type aux = col_type api p" by (simp add: col_type_def entry_type_def)
  then show thesis using that [OF a] column_aux_layout [OF assms(1) a] by simp
qed

text \<open>The conversions read the bytes of the value and nothing else.\<close>

lemma same_byte: "mem_read m a n = mem_read r b n \<Longrightarrow> 0 < n \<Longrightarrow> m a = r b"
  using mem_read_eqD [of m a n] by (metis add.right_neutral nth_mem_read)

lemma mem_read_prefix: "mem_read m a n = mem_read r b n \<Longrightarrow> k \<le> n \<Longrightarrow> mem_read m a k = mem_read r b k"
  by (metis take_mem_read)

lemma trim_same:
  assumes "mem_read m a n = mem_read r b n"
  shows "trim_pad m a pad n = trim_pad r b pad n"
proof -
  have "k \<le> n \<Longrightarrow> trim_pad m a pad k = trim_pad r b pad k" for k
  proof (induction k)
    case (Suc k)
    then have "m (a + k) = r (b + k)" using assms by (metis Suc_le_lessD nth_mem_read)
    then show ?case using Suc by simp
  qed simp
  then show ?thesis by simp
qed

lemma datetime_same:
  assumes "mem_read m a (fixed_width col t) = mem_read r b (fixed_width col t)" "family_of t = DATETIME_DATA"
  shows "convert_datetime_to_cantian api col t m a = convert_datetime_to_cantian api col t r b"
proof -
  have "t = MYSQL_TYPE_YEAR \<or> t \<in> {MYSQL_TYPE_DATE, MYSQL_TYPE_TIME, MYSQL_TYPE_DATETIME, MYSQL_TYPE_TIMESTAMP}"
    using assms(2) by (cases t) (simp_all add: family_of_def)
  then show ?thesis
  proof
    assume "t = MYSQL_TYPE_YEAR"
    then show ?thesis using assms(1) same_byte [of m a 1 r b] by (simp add: fixed_width_def convert_datetime_to_cantian_def decode_mysql_datetime_def)
  next
    assume "t \<in> {MYSQL_TYPE_DATE, MYSQL_TYPE_TIME, MYSQL_TYPE_DATETIME, MYSQL_TYPE_TIMESTAMP}"
    then show ?thesis using assms(1) by (auto simp: fixed_width_def convert_datetime_to_cantian_def decode_mysql_datetime_def)
  qed
qed

lemma numeric_same:
  assumes "mem_read m a (fixed_width col t) = mem_read r b (fixed_width col t)" "family_of t = NUMERIC_DATA"
    "t = MYSQL_TYPE_BIT \<longrightarrow> c_bit_len col = 0 \<and> c_bytes_in_rec col \<le> 8"
  shows "convert_numeric_to_cantian api col t m a len = convert_numeric_to_cantian api col t r b len"
proof (cases "t = MYSQL_TYPE_BIT")
  case True
  then have "bit_cnvt_mysql_cantian col m a = bit_cnvt_mysql_cantian col r b"
    using assms(1,3) by (cases "c_bytes_in_rec col = 8") (auto simp: bit_cnvt_mysql_cantian_def bit_high_def fixed_width_def Let_def)
  then show ?thesis using True by (simp add: convert_numeric_to_cantian_def)
next
  case False
  then show ?thesis using assms(1,2) by (cases t) (simp_all add: family_of_def fixed_width_def convert_numeric_to_cantian_def)
qed

text \<open>A bound that was taken from an image becomes what the row stores, at its place in the array.\<close>

definition is_bound :: "mem \<Rightarrow> byte list option \<Rightarrow> key_ptr option \<Rightarrow> nat \<Rightarrow> byte list list \<Rightarrow> bool" where
  "is_bound m v ptr len data \<longleftrightarrow> (\<forall>more. map_option (\<lambda>q. deref m (data @ more) q len) ptr = v)"

definition converts_to :: "mem \<Rightarrow> byte list option \<Rightarrow> byte list list \<Rightarrow> conv_error + key_ptr option \<times> nat \<times> byte list list \<Rightarrow> bool" where
  "converts_to m v data x \<longleftrightarrow> (\<exists>ptr len xs. x = Inr (ptr, len, data @ xs) \<and> length xs \<le> 1 \<and> is_bound m v ptr len (data @ xs))"

lemma converted_fixed:
  assumes a: "api_exact api" and x: "column_aux (api_type_no api) c = Some aux" "aux_mysql_field_type aux = t" "aux_sql_data_type aux = family_of t"
    and same: "mem_read m b (fixed_width c t) = mem_read r (c_offset c) (fixed_width c t)"
    and ct: "c_type c = t \<or> c_type c = MYSQL_TYPE_STRING \<and> t \<in> {MYSQL_TYPE_TINY, MYSQL_TYPE_SHORT, MYSQL_TYPE_INT24, MYSQL_TYPE_LONG, MYSQL_TYPE_LONGLONG}"
    and nv: "t \<noteq> MYSQL_TYPE_VARCHAR" "t \<noteq> MYSQL_TYPE_STRING"
  shows "family_of t = DATETIME_DATA \<Longrightarrow> ctc_convert_key_from_mysql_to_cantian api c m b len =
      (case convert_datetime_to_cantian api c t r (c_offset c) of Inl e \<Rightarrow> Inl e | Inr bs \<Rightarrow> Inr (Some bs, 8))"
    "t = MYSQL_TYPE_NEWDECIMAL \<Longrightarrow> ctc_convert_key_from_mysql_to_cantian api c m b len =
      (case convert_numeric_to_cantian api c t r (c_offset c) 0 of Inl e \<Rightarrow> Inl e | Inr (bs, n) \<Rightarrow> Inr (Some bs, n))"
    "t \<in> {MYSQL_TYPE_LONG, MYSQL_TYPE_DOUBLE, MYSQL_TYPE_LONGLONG} \<Longrightarrow> ctc_convert_key_from_mysql_to_cantian api c m b len = Inr (None, len) \<and>
      mem_read m b (fixed_width c t) = column_data api c t r"
    "family_of t = NUMERIC_DATA \<Longrightarrow> t \<notin> {MYSQL_TYPE_LONG, MYSQL_TYPE_DOUBLE, MYSQL_TYPE_LONGLONG, MYSQL_TYPE_NEWDECIMAL} \<Longrightarrow>
      (t = MYSQL_TYPE_BIT \<longrightarrow> c_bit_len c = 0 \<and> c_bytes_in_rec c \<le> 8) \<Longrightarrow>
      ctc_convert_key_from_mysql_to_cantian api c m b len = Inr (Some (column_data api c t r), length (column_data api c t r))"
proof -
  note k = ctc_convert_key_from_mysql_to_cantian_def x option.case
  show "ctc_convert_key_from_mysql_to_cantian api c m b len =
      (case convert_datetime_to_cantian api c t r (c_offset c) of Inl e \<Rightarrow> Inl e | Inr bs \<Rightarrow> Inr (Some bs, 8))" if dt: "family_of t = DATETIME_DATA"
  proof -
    have "t \<noteq> MYSQL_TYPE_BIT" "t \<noteq> MYSQL_TYPE_FLOAT" "t \<notin> {MYSQL_TYPE_TINY, MYSQL_TYPE_SHORT, MYSQL_TYPE_INT24, MYSQL_TYPE_LONG, MYSQL_TYPE_LONGLONG}"
      using dt by (auto simp: family_of_def)
    then show ?thesis using ct dt datetime_same [OF same dt, of api] by (auto simp: k)
  qed
  show "ctc_convert_key_from_mysql_to_cantian api c m b len =
      (case convert_numeric_to_cantian api c t r (c_offset c) 0 of Inl e \<Rightarrow> Inl e | Inr (bs, n) \<Rightarrow> Inr (Some bs, n))" if "t = MYSQL_TYPE_NEWDECIMAL"
    using that ct same by (auto simp: k family_of_def convert_numeric_to_cantian_def fixed_width_def split: sum.splits)
  show "ctc_convert_key_from_mysql_to_cantian api c m b len = Inr (None, len) \<and> mem_read m b (fixed_width c t) = column_data api c t r"
    if "t \<in> {MYSQL_TYPE_LONG, MYSQL_TYPE_DOUBLE, MYSQL_TYPE_LONGLONG}"
    using that ct same by (auto simp: k family_of_def column_data_def convert_numeric_to_cantian_def fixed_width_def unchanged_numeric)
  show "ctc_convert_key_from_mysql_to_cantian api c m b len = Inr (Some (column_data api c t r), length (column_data api c t r))"
    if num: "family_of t = NUMERIC_DATA" "t \<notin> {MYSQL_TYPE_LONG, MYSQL_TYPE_DOUBLE, MYSQL_TYPE_LONGLONG, MYSQL_TYPE_NEWDECIMAL}"
      and bit: "t = MYSQL_TYPE_BIT \<longrightarrow> c_bit_len c = 0 \<and> c_bytes_in_rec c \<le> 8"
  proof -
    have n: "convert_numeric_to_cantian api c t m b n = convert_numeric_to_cantian api c t r (c_offset c) n" for n
      by (rule numeric_same [OF same num(1) bit])
    consider "t \<in> {MYSQL_TYPE_TINY, MYSQL_TYPE_SHORT, MYSQL_TYPE_INT24}" | "t = MYSQL_TYPE_BIT" | "t = MYSQL_TYPE_FLOAT"
      using num by (cases t) (simp_all add: family_of_def)
    then show ?thesis
    proof cases
      case 1
      then show ?thesis using n [of len] by (auto simp: k column_data_def family_of_def convert_numeric_to_cantian_def convert_numeric_datatype_def)
    next
      case 2
      then show ?thesis using n [of len] ct by (auto simp: k column_data_def family_of_def convert_numeric_to_cantian_def)
    next
      case 3
      then show ?thesis using n [of len] ct a by (auto simp: k column_data_def family_of_def convert_numeric_to_cantian_def api_exact_def)
    qed
  qed
qed

lemma bound_converted:
  assumes a: "api_exact api" and s: "searchable api r p" and f: "filled api r m p ptr len" and d: "length data < 2 * MAX_KEY_COLUMNS"
  shows "converts_to m (bound_of api r p) data (convert_bound api (kp_field p) m ptr len data)"
proof (cases "is_null (kp_field p) r")
  case True
  then show ?thesis using f by (simp add: filled_def Let_def convert_bound_def converts_to_def is_bound_def bound_of_def)
next
  case nn: False
  let ?c = "kp_field p" and ?t = "col_type api p"
  note sd = searchableD [OF s]
  obtain aux where x: "column_aux (api_type_no api) ?c = Some aux" "aux_mysql_field_type aux = ?t" "aux_sql_data_type aux = family_of ?t"
    using key_aux [OF _ s] a by (auto simp: api_exact_def)
  obtain b where b: "ptr = Some (Key_at b)"
      "if ?t = MYSQL_TYPE_VARCHAR then len = column_len ?c ?t r \<and> mem_read m b len = column_data api ?c ?t r
       else mem_read m b (kp_key_length p) = mem_read r (c_offset ?c) (kp_key_length p) \<and>
            len = (if ?t = MYSQL_TYPE_STRING then trim_pad m b (c_pad_char ?c) (kp_key_length p) else kp_key_length p)"
    using f nn by (auto simp: filled_def Let_def)
  have plain: "converts_to m (Some bs) data (convert_bound api ?c m ptr len data)"
    if "ctc_convert_key_from_mysql_to_cantian api ?c m b len = Inr (None, len)" "mem_read m b len = bs" for bs
    using that b(1) by (auto simp: convert_bound_def converts_to_def is_bound_def deref_def)
  have moved: "converts_to m (Some (take n bs)) data (convert_bound api ?c m ptr len data)"
    if "ctc_convert_key_from_mysql_to_cantian api ?c m b len = Inr (Some bs, n)" "0 < len" for bs n
    using that b(1) d by (auto simp: convert_bound_def converts_to_def is_bound_def deref_def nth_append)
  show ?thesis
  proof (cases "family_of ?t = STRING_DATA")
    case True
    then have t: "?t = MYSQL_TYPE_VARCHAR \<or> ?t = MYSQL_TYPE_STRING" by (cases ?t) (simp_all add: family_of_def)
    then have "c_type ?c = ?t" using sd(9) by auto
    then have "ctc_convert_key_from_mysql_to_cantian api ?c m b len = Inr (None, len)"
      using x t by (auto simp: ctc_convert_key_from_mysql_to_cantian_def family_of_def)
    moreover have "mem_read m b len = column_data api ?c ?t r"
    proof (cases "?t = MYSQL_TYPE_VARCHAR")
      case False
      then have t: "?t = MYSQL_TYPE_STRING" and k: "kp_key_length p = c_row_pack_length ?c" using t sd(6) by (auto simp: fixed_width_def)
      have rt: "fd_real_type (c_desc ?c) = MYSQL_TYPE_STRING" using sd(9) t by auto
      have l: "len = trim_pad r (c_offset ?c) (c_pad_char ?c) (kp_key_length p)"
        using b(2) t trim_same [of m b "kp_key_length p" r "c_offset ?c" "c_pad_char ?c"] by simp
      then have "len \<le> kp_key_length p" using trim_pad_le by simp
      then have "mem_read m b len = mem_read r (c_offset ?c) len"
        using b(2) t mem_read_prefix [of m b "kp_key_length p" r "c_offset ?c" len] by simp
      then show ?thesis using t k l rt by (simp add: column_data_def family_of_def column_len_def calculate_variable_len_def)
    qed (use b(2) in auto)
    ultimately show ?thesis using plain nn t by (auto simp: bound_of_def Let_def)
  next
    case False
    then have nv: "?t \<noteq> MYSQL_TYPE_VARCHAR" "?t \<noteq> MYSQL_TYPE_STRING" by (auto simp: family_of_def)
    have same: "mem_read m b (fixed_width ?c ?t) = mem_read r (c_offset ?c) (fixed_width ?c ?t)" and len: "len = fixed_width ?c ?t" "0 < len"
      using b(2) nv sd(3,6) by auto
    have ct: "c_type ?c = ?t \<or> c_type ?c = MYSQL_TYPE_STRING \<and> ?t \<in> {MYSQL_TYPE_TINY, MYSQL_TYPE_SHORT, MYSQL_TYPE_INT24, MYSQL_TYPE_LONG, MYSQL_TYPE_LONGLONG}"
      using sd(9) by auto
    note key = converted_fixed [OF a x same ct nv]
    have "family_of ?t = DATETIME_DATA \<or> family_of ?t = NUMERIC_DATA" using sd(4) False by auto
    then show ?thesis
    proof
      assume dt: "family_of ?t = DATETIME_DATA"
      obtain bs where bs: "convert_datetime_to_cantian api ?c ?t r (c_offset ?c) = Inr bs" "length bs = 8" using sd(7) nn dt by auto
      have "bound_of api r p = Some (take 8 bs)" using bs nn dt by (auto simp: bound_of_def column_data_def Let_def family_of_def)
      moreover have "ctc_convert_key_from_mysql_to_cantian api ?c m b len = Inr (Some bs, 8)" using key(1) dt bs(1) by simp
      ultimately show ?thesis using moved [OF _ len(2)] by simp
    next
      assume num: "family_of ?t = NUMERIC_DATA"
      show ?thesis
      proof (cases "?t = MYSQL_TYPE_NEWDECIMAL")
        case True
        obtain bs n where "convert_numeric_to_cantian api ?c ?t r (c_offset ?c) 0 = Inr (bs, n)" using sd(8) nn True by force
        then have "bound_of api r p = Some (take n bs)" "ctc_convert_key_from_mysql_to_cantian api ?c m b len = Inr (Some bs, n)"
          using key(2) True nn by (auto simp: bound_of_def Let_def)
        then show ?thesis using moved [OF _ len(2)] by simp
      next
        case nd: False
        have v: "bound_of api r p = Some (column_data api ?c ?t r)" using nn nd by (simp add: bound_of_def Let_def)
        show ?thesis
        proof (cases "?t \<in> {MYSQL_TYPE_LONG, MYSQL_TYPE_DOUBLE, MYSQL_TYPE_LONGLONG}")
          case True
          then show ?thesis using plain key(3) len(1) v by auto
        next
          case False
          obtain n where "ctc_convert_key_from_mysql_to_cantian api ?c m b len = Inr (Some (column_data api ?c ?t r), n)" "length (column_data api ?c ?t r) = n"
            using key(4) num nd False sd(5) by auto
          then show ?thesis using moved [OF _ len(2), of "column_data api ?c ?t r" n] v by simp
        qed
      qed
    qed
  qed
qed

lemma slots_ok_length: "slots_ok api r r2 j m ps ss \<Longrightarrow> length ss = length ps"
  by (induction api r r2 j m ps ss rule: slots_ok.induct) simp_all

lemma slots_converted:
  assumes "api_exact api" "list_all (searchable api r) ps" "list_all (searchable api r2) (take j ps)" "slots_ok api r r2 j m ps ss"
    "length data + 2 * length ps \<le> 2 * MAX_KEY_COLUMNS" "0 < j \<longrightarrow> has_right"
  shows "\<exists>ss' xs. convert_slots api (ps @ qs) m has_right ss data = Inr (ss', data @ xs) \<and>
    (\<forall>more. map (slot_bounds m (data @ xs @ more)) ss' = bounds_of api r r2 j ps)"
  using assms(2-)
proof (induction ps arbitrary: ss data j)
  case Nil
  then show ?case by (cases ss) simp_all
next
  case (Cons p ps)
  then obtain s ss1 where s: "ss = s # ss1" "slot_ok api r r2 (0 < j) m p s" "slots_ok api r r2 (j - 1) m ps ss1" by (cases ss) auto
  let ?c = "kp_field p"
  have l: "converts_to m (bound_of api r p) data (convert_bound api ?c m (ks_left_key s) (ks_left_key_len s) data)"
    using bound_converted [OF assms(1), of r p m] Cons.prems(1,4) s(2) by (simp add: slot_ok_def)
  then obtain lp ln xs where lx: "convert_bound api ?c m (ks_left_key s) (ks_left_key_len s) data = Inr (lp, ln, data @ xs)" "length xs \<le> 1"
      "is_bound m (bound_of api r p) lp ln (data @ xs)" by (auto simp: converts_to_def)
  define v where "v = (if 0 < j then bound_of api r2 p else None)"
  have "converts_to m v (data @ xs) (if has_right then convert_bound api ?c m (ks_right_key s) (ks_right_key_len s) (data @ xs)
       else Inr (ks_right_key s, ks_right_key_len s, data @ xs))"
  proof (cases "0 < j")
    case True
    then have "searchable api r2 p" using Cons.prems(2) by (cases j) simp_all
    then show ?thesis using bound_converted [OF assms(1), of r2 p m _ _ "data @ xs"] Cons.prems(4,5) True s(2) lx(2) by (simp add: slot_ok_def v_def)
  next
    case False
    then show ?thesis using s(2) by (auto simp: slot_ok_def v_def convert_bound_def converts_to_def is_bound_def)
  qed
  then obtain rp rn ys where ry: "(if has_right then convert_bound api ?c m (ks_right_key s) (ks_right_key_len s) (data @ xs)
       else Inr (ks_right_key s, ks_right_key_len s, data @ xs)) = Inr (rp, rn, data @ xs @ ys)" "length ys \<le> 1" "is_bound m v rp rn (data @ xs @ ys)"
    by (auto simp: converts_to_def)
  have "list_all (searchable api r2) (take (j - 1) ps)" using Cons.prems(2) by (cases j) simp_all
  then obtain ss' zs where z: "convert_slots api (ps @ qs) m has_right ss1 (data @ xs @ ys) = Inr (ss', (data @ xs @ ys) @ zs)"
      "\<And>more. map (slot_bounds m ((data @ xs @ ys) @ zs @ more)) ss' = bounds_of api r r2 (j - 1) ps"
    using Cons.IH [of "j - 1" ss1 "data @ xs @ ys"] Cons.prems s(3) lx(2) ry(2) by auto
  let ?s = "s\<lparr>ks_left_key := lp, ks_left_key_len := ln, ks_right_key := rp, ks_right_key_len := rn\<rparr>"
  have b: "slot_bounds m (data @ (xs @ ys @ zs) @ more) ?s = hd (bounds_of api r r2 j (p # ps))" for more
    using lx(3) ry(3) s(2) by (simp add: slot_bounds_def is_bound_def slot_ok_def v_def)
  show ?case
    by (rule exI [of _ "?s # ss'"], rule exI [of _ "xs @ ys @ zs"]) (use b z lx(1) ry(1) s(1) in simp)
qed

text \<open>
  C6: the bounds of an index scan are what the rows themselves store. When MySQL gives the key image of a row for the lower bound,
  over one or more of the columns of an index, and possibly that of another row for the upper one, the engine is given for each of the columns
  exactly the bytes a row with that value holds, no bound where the value is null, and the columns behind are marked as null.
\<close>

theorem index_key_matches_row:
  assumes "api_exact api" "ps \<noteq> []" "length (ps @ qs) \<le> MAX_KEY_COLUMNS" "list_all (searchable api r) ps" "key_image api r m key ps"
    "image_len ps < 65536" "upper api r2 m j (ps @ qs) end_range (case end_range of None \<Rightarrow> 0 | Some (a, n) \<Rightarrow> a)"
  shows "index_bounds api m (ps @ qs) key (image_len ps) end_range False =
    Inr (length ps, bounds_of api r r2 j ps @
      replicate (length qs) \<lparr>ki_is_key_null = True, ki_left_key = None, ki_right_key = None\<rparr> @
      replicate (MAX_KEY_COLUMNS - length (ps @ qs)) \<lparr>ki_is_key_null = False, ki_left_key = None, ki_right_key = None\<rparr>)"
proof -
  have pos: "0 < image_len ps" using image_len_pos [OF assms(4)] assms(2) by simp
  obtain ss where f: "fill_keys m (image_len ps) (key + image_len ps) end_range False (ps @ qs) key (case end_range of None \<Rightarrow> 0 | Some (a, n) \<Rightarrow> a) [] = Inr ss"
      "slots_ok api r r2 j m ps ss"
    using keys_filled [OF assms(2,5,4,7) pos assms(6), of "key + image_len ps" "[]"] assms(3) by auto
  have len: "length ss = length ps" using slots_ok_length [OF f(2)] .
  have r2: "list_all (searchable api r2) (take j ps)"
    using assms(7) by (auto simp: upper_def list_all_iff split: option.splits dest: in_set_takeD)
  have right: "0 < j \<longrightarrow> (case end_range of None \<Rightarrow> False | Some (a, n) \<Rightarrow> n \<noteq> 0)"
    using assms(7) image_len_pos [of api r2 "take j (ps @ qs)"] by (auto simp: upper_def split: option.splits)
  obtain ss' xs where c: "convert_slots api (ps @ qs) m (case end_range of None \<Rightarrow> False | Some (a, n) \<Rightarrow> n \<noteq> 0) ss [] = Inr (ss', xs)"
      "map (slot_bounds m xs) ss' = bounds_of api r r2 j ps"
    using slots_converted [OF assms(1,4) r2 f(2) _ right, of "[]" qs] assms(3) by (auto dest: spec [of _ "[]"])
  show ?thesis using f(1) c len assms(3)
    by (simp add: index_bounds_def ctc_fill_index_key_info_def ctc_convert_index_datatype_def slot_bounds_def empty_slot_def map_replicate_const)
qed

lemma mem_read_Suc: "mem_read m a (Suc n) = m a # mem_read m (Suc a) n"
  by (rule nth_equalityI) (auto simp: nth_Cons split: nat.split)

lemma read_numeral:
  "mem_read m a (numeral k) = m a # mem_read m (Suc a) (pred_numeral k)" "mem_read m a 0 = []" "mem_read m a (Suc 0) = [m a]"
  "le_bytes (numeral k) v = word_of_int (v mod 256) # le_bytes (pred_numeral k) (v div 256)"
  by (simp_all add: numeral_eq_Suc mem_read_Suc) (simp_all add: mem_read_def)

definition demo_key :: "key_part list" where
  "demo_key = [\<lparr>kp_field = demo_table ! 0, kp_key_length = 1, kp_store_length = 2, kp_part_of_prefixkey = False, kp_part_of_key_not_extended = True\<rparr>,
     \<lparr>kp_field = demo_table ! 2, kp_key_length = 10, kp_store_length = 12, kp_part_of_prefixkey = False, kp_part_of_key_not_extended = True\<rparr>]"

definition demo_image :: mem where
  "demo_image = mem_write 0 [0, 200, 3, 0, 97, 98, 99] (\<lambda>_. 0)"

lemmas demo_index_defs = demo_key_def demo_table_def demo_image_def demo_record_def basic_api_def plain_column_def mem_write_def

lemma demo_col_type: "col_type demo_api (demo_key ! 0) = MYSQL_TYPE_TINY" "col_type demo_api (demo_key ! 1) = MYSQL_TYPE_VARCHAR"
  by (simp_all add: demo_index_defs col_type_def entry_type_def column_aux_def get_auxiliary_for_field_convert_def
     mysql_type_no_def g_field_cnvrt_aux_array_def aux_entry_def)

lemma demo_searchable: "list_all (searchable demo_api demo_record) demo_key"
proof -
  have "searchable demo_api demo_record (demo_key ! 0)" "searchable demo_api demo_record (demo_key ! 1)"
    unfolding searchable_def demo_col_type
    by (simp_all add: demo_index_defs is_null_def Let_def family_of_def column_aux_def get_auxiliary_for_field_convert_def
     mysql_type_no_def g_field_cnvrt_aux_array_def aux_entry_def fixed_width_def column_len_def calculate_variable_len_def)
  then show ?thesis by (simp add: demo_key_def)
qed

lemma demo_key_image: "key_image demo_api demo_record demo_image 0 demo_key" "image_len demo_key = 14"
proof -
  have l: "data_field_len (demo_key ! 0) = 2" "data_field_len (demo_key ! 1) = 12"
    by (simp_all add: demo_index_defs data_field_len_def null_offset_def check_blob_def OFFSET_VARCHAR_TYPE_def)
  have "part_image demo_api demo_record demo_image 0 (demo_key ! 0)" "part_image demo_api demo_record demo_image 2 (demo_key ! 1)"
    unfolding part_image_def demo_col_type
    by (simp_all add: demo_index_defs Let_def null_offset_def is_null_def  column_len_def column_data_def calculate_variable_len_def
      family_of_def read_numeral)
  then show "key_image demo_api demo_record demo_image 0 demo_key" "image_len demo_key = 14" using l by (simp_all add: demo_key_def numeral_2_eq_2)
qed

theorem index_key_matches_row_witness:
  "index_bounds demo_api demo_image demo_key 0 14 None False =
     Inr (2, \<lparr>ki_is_key_null = False, ki_left_key = Some [200, 255, 255, 255], ki_right_key = None\<rparr> #
       \<lparr>ki_is_key_null = False, ki_left_key = Some [97, 98, 99], ki_right_key = None\<rparr> #
       replicate 14 \<lparr>ki_is_key_null = False, ki_left_key = None, ki_right_key = None\<rparr>)"
proof -
  have b: "bound_of demo_api demo_record (demo_key ! 0) = Some [200, 255, 255, 255]" "bound_of demo_api demo_record (demo_key ! 1) = Some [97, 98, 99]"
    unfolding bound_of_def demo_col_type
    by (simp_all add: demo_index_defs Let_def is_null_def  column_data_def column_len_def calculate_variable_len_def family_of_def
      convert_numeric_to_cantian_def convert_numeric_datatype_def le_sval_def read_numeral)
  have n: "\<not> is_null (kp_field (demo_key ! 0)) demo_record" "\<not> is_null (kp_field (demo_key ! 1)) demo_record"
    by (simp_all add: demo_index_defs is_null_def)
  show ?thesis
    using index_key_matches_row [OF demo_api_exact _ _ demo_searchable demo_key_image(1), of "[]" demo_record 0 None] demo_key_image(2) b n
    by (simp add: demo_key_def upper_def MAX_KEY_COLUMNS_def)
qed

section \<open>Reading through an index\<close>

text \<open>
  The members of the handler and the arguments of MySQL an index scan uses besides those of a table scan: the parts and the name of
  the index, the memory with the keys, the upper bound, and whether the access path is a skip scan.
\<close>

record index_env =
  ix_parts :: "key_part list"
  ix_name :: "byte list"
  ix_mem :: mem
  ix_end_range :: "(nat \<times> nat) option"
  ix_skip_scan :: bool

definition HA_READ_AFTER_KEY :: nat where "HA_READ_AFTER_KEY = 3"
definition HA_READ_BEFORE_KEY :: nat where "HA_READ_BEFORE_KEY = 4"
definition HA_READ_PREFIX_LAST :: nat where "HA_READ_PREFIX_LAST = 6"

definition index_action :: "scan_env \<Rightarrow> 'b scan \<Rightarrow> expected_cursor_action \<times> bool" where
  "index_action env st =
     (let covering = (if m_ror_intersect st then False else m_is_covering_index st);
          action = (if covering then EXP_CURSOR_ACTION_INDEX_ONLY else Scan_action EXP_CURSOR_ACTION_SELECT)
      in if exclusive_lock env
         then (if sql_delete env then (Scan_action EXP_CURSOR_ACTION_DELETE, False)
               else if \<not> sql_alter_table env then (Scan_action EXP_CURSOR_ACTION_UPDATE, False) else (action, covering))
         else (action, covering))"

text \<open>
  \<open>index_read\<close>: \<open>search\<close> is the request with the work on the session around it, \<open>index_search\<close> below; it returns the state of the
  session, the cursor of the handler, a code and a record. \<open>conv\<close> and \<open>conv_index\<close> are the conversions of a whole record and of one of a covering
  index. An error of the search keys is returned as it is; \<^const>\<open>None\<close> is a failed assertion or an access outside of an array.
\<close>

definition index_read ::
    "('h, 'a) row_api_scheme \<Rightarrow> ('b, 'row) rec_buf_api \<Rightarrow> 'row converter \<Rightarrow> 'row converter \<Rightarrow> scan_env \<Rightarrow> index_env \<Rightarrow>
     ('row \<Rightarrow> nat \<Rightarrow> nat option) \<Rightarrow> ('s \<Rightarrow> index_key_info \<Rightarrow> ('s \<times> (bool \<times> nat) \<times> ct_errno \<times> byte list) option) \<Rightarrow>
     nat \<Rightarrow> nat \<Rightarrow> nat \<Rightarrow> 'b scan \<Rightarrow> 's \<Rightarrow> 'row \<Rightarrow> ('b scan \<times> 's \<times> 'row \<times> ha_code) option" where
  "index_read api rb conv conv_index env ix blob_data search key key_len find_flag st s buf =
     (let st = (case m_rec_buf st of None \<Rightarrow> st | Some b \<Rightarrow> if rb_records rb b > 0 then reset_rec_buf rb False st else st);
          (action, covering) = index_action env st; st = st\<lparr>m_is_covering_index := covering\<rparr>
      in case index_bounds api (ix_mem ix) (ix_parts ix) key key_len (ix_end_range ix) (ix_skip_scan ix) of
           Inl (Conv_code e) \<Rightarrow> Some (st, s, buf, Raw e)
         | Inl (Conv_err e) \<Rightarrow> Some (st, s, buf, Ha e)
         | Inl e \<Rightarrow> None
         | Inr (n, kis) \<Rightarrow>
             (case ctc_alloc_ctc_buf_4_read env st of
                (st, e) \<Rightarrow>
                  if e \<noteq> NO_ERROR then Some (st, s, buf, Ha e)
                  else
                    let ii = \<lparr>ii_sorted = m_index_sorted st, ii_need_init = \<not> cursor_valid st, ii_action = action, ii_find_flag = find_flag,
                              ii_active_index = active_index st, ii_index_name = ix_name ix, ii_key_num = n, ii_key_info = kis,
                              ii_index_skip_scan = ix_skip_scan ix\<rparr>
                    in case search s ii of
                         None \<Rightarrow> None
                       | Some (s, (valid, addr), ct_ret, rec) \<Rightarrow>
                           (case process_cantian_record (if covering then conv_index else conv) env blob_data
                                   (st\<lparr>cursor_valid := valid, cursor_addr := addr\<rparr>) buf rec ct_ret HA_ERR_KEY_NOT_FOUND of
                              (st, buf, e) \<Rightarrow> Some (st, s, buf, Ha e))))"

definition index_read_last ::
    "('h, 'a) row_api_scheme \<Rightarrow> ('b, 'row) rec_buf_api \<Rightarrow> 'row converter \<Rightarrow> 'row converter \<Rightarrow> scan_env \<Rightarrow> index_env \<Rightarrow>
     ('row \<Rightarrow> nat \<Rightarrow> nat option) \<Rightarrow> ('s \<Rightarrow> index_key_info \<Rightarrow> ('s \<times> (bool \<times> nat) \<times> ct_errno \<times> byte list) option) \<Rightarrow>
     nat \<Rightarrow> nat \<Rightarrow> 'b scan \<Rightarrow> 's \<Rightarrow> 'row \<Rightarrow> ('b scan \<times> 's \<times> 'row \<times> ha_code) option" where
  "index_read_last api rb conv conv_index env ix blob_data search key_ptr key_len =
     index_read api rb conv conv_index env ix blob_data search key_ptr key_len HA_READ_PREFIX_LAST"

definition end_of_file :: "'b scan \<times> 's \<times> 'row \<times> ha_code \<Rightarrow> 'b scan \<times> 's \<times> 'row \<times> ha_code" where
  "end_of_file = (\<lambda>(st, s, buf, e). (st, s, buf, if e = Ha HA_ERR_KEY_NOT_FOUND then Ha HA_ERR_END_OF_FILE else e))"

definition index_first ::
    "('h, 'a) row_api_scheme \<Rightarrow> ('b, 'row) rec_buf_api \<Rightarrow> 'row converter \<Rightarrow> 'row converter \<Rightarrow> scan_env \<Rightarrow> index_env \<Rightarrow>
     ('row \<Rightarrow> nat \<Rightarrow> nat option) \<Rightarrow> ('s \<Rightarrow> index_key_info \<Rightarrow> ('s \<times> (bool \<times> nat) \<times> ct_errno \<times> byte list) option) \<Rightarrow>
     'b scan \<Rightarrow> 's \<Rightarrow> 'row \<Rightarrow> ('b scan \<times> 's \<times> 'row \<times> ha_code) option" where
  "index_first api rb conv conv_index env ix blob_data search st s buf =
     map_option end_of_file (index_read api rb conv conv_index env ix blob_data search 0 0 HA_READ_AFTER_KEY
       (st\<lparr>cursor_addr := INVALID_VALUE64, cursor_valid := False\<rparr>) s buf)"

definition index_last ::
    "('h, 'a) row_api_scheme \<Rightarrow> ('b, 'row) rec_buf_api \<Rightarrow> 'row converter \<Rightarrow> 'row converter \<Rightarrow> scan_env \<Rightarrow> index_env \<Rightarrow>
     ('row \<Rightarrow> nat \<Rightarrow> nat option) \<Rightarrow> ('s \<Rightarrow> index_key_info \<Rightarrow> ('s \<times> (bool \<times> nat) \<times> ct_errno \<times> byte list) option) \<Rightarrow>
     'b scan \<Rightarrow> 's \<Rightarrow> 'row \<Rightarrow> ('b scan \<times> 's \<times> 'row \<times> ha_code) option" where
  "index_last api rb conv conv_index env ix blob_data search st s buf =
     map_option end_of_file (index_read api rb conv conv_index env ix blob_data search 0 0 HA_READ_BEFORE_KEY st s buf)"

text \<open>
  The part of \<open>index_read\<close> that works on the session: the handler at address \<open>p\<close> takes over the session's state, the
  request runs, the session takes over what the engine changed, and a cursor the engine opened is registered. \<open>call\<close> is the request.
\<close>

definition index_search :: "server \<Rightarrow> 'e engine \<Rightarrow> (ctc_handler \<Rightarrow> index_key_info \<Rightarrow> 'e \<Rightarrow> 'e \<times> ctc_handler \<times> ct_errno \<times> byte list) \<Rightarrow> scan_env \<Rightarrow> nat \<Rightarrow>
    'e conn \<times> ctc_handler \<Rightarrow> index_key_info \<Rightarrow> (('e conn \<times> ctc_handler) \<times> (bool \<times> nat) \<times> ct_errno \<times> byte list) option" where
  "index_search sv eng call env p = (\<lambda>(c, tch) ii. do {
     (c, tch) \<leftarrow> update_member_tch sv True tch c;
     let tch = attachable_trx_update_pre_addr sv (cn_thd c) True tch;
     let (e, tch, ct_ret, rec) = call tch ii (cn_engine c);
     let c = update_sess_ctx_by_tch sv tch (c\<lparr>cn_engine := e\<rparr>);
     let tch = attachable_trx_update_pre_addr sv (cn_thd c) False tch;
     (c, tch) \<leftarrow> (if ii_need_init ii \<and> \<not> non_trx_tmp_table env then update_sess_ctx_cursor_by_tch sv eng p tch c else Some (c, tch));
     Some ((c, tch), (tch_cursor_valid tch, tch_cursor_addr tch), ct_ret, rec) })"

text \<open>A row by its row id. In a partitioned table the position has the number of the partition before the row id.\<close>

definition PARTITION_BYTES_IN_POS :: nat where "PARTITION_BYTES_IN_POS = 2"

definition rnd_pos ::
    "'row converter \<Rightarrow> scan_env \<Rightarrow> ('row \<Rightarrow> nat \<Rightarrow> nat option) \<Rightarrow> bool \<Rightarrow> nat \<Rightarrow> ('s \<Rightarrow> nat \<Rightarrow> nat \<Rightarrow> 's \<times> ct_errno \<times> byte list) \<Rightarrow>
     nat \<Rightarrow> 'b scan \<Rightarrow> 's \<Rightarrow> 'row \<Rightarrow> 'b scan \<times> 's \<times> 'row \<times> mysql_errno" where
  "rnd_pos conv env blob_data is_part ref_length seek pos st s buf =
     (case ctc_alloc_ctc_buf_4_read env st of
        (st, e) \<Rightarrow>
          if e \<noteq> NO_ERROR then (st, s, buf, e)
          else let key_len = (if is_part then ref_length - PARTITION_BYTES_IN_POS else ref_length)
               in case seek s key_len pos of
                    (s, ct_ret, rec) \<Rightarrow>
                      (case process_cantian_record conv env blob_data st buf rec ct_ret HA_ERR_KEY_NOT_FOUND of (st, buf, e) \<Rightarrow> (st, s, buf, e)))"

text \<open>Row ids are ordered by file, page and slot.\<close>

record rowid =
  rid_file :: nat
  rid_page :: nat
  rid_slot :: nat

definition ctc_cmp_cantian_rowid :: "rowid \<Rightarrow> rowid \<Rightarrow> int" where
  "ctc_cmp_cantian_rowid a b =
     (if rid_file a > rid_file b then 1 else if rid_file a < rid_file b then -1
      else if rid_page a > rid_page b then 1 else if rid_page a < rid_page b then -1
      else if rid_slot a > rid_slot b then 1 else if rid_slot a < rid_slot b then -1 else 0)"

lemma rowid_order:
  "ctc_cmp_cantian_rowid a b = 0 \<longleftrightarrow> a = b" "ctc_cmp_cantian_rowid a b = - ctc_cmp_cantian_rowid b a"
  "ctc_cmp_cantian_rowid a b \<le> 0 \<Longrightarrow> ctc_cmp_cantian_rowid b c \<le> 0 \<Longrightarrow> ctc_cmp_cantian_rowid a c \<le> 0"
  by (cases a; cases b; auto simp: ctc_cmp_cantian_rowid_def split: if_splits)+

text \<open>MySQL does not allow the first and the last row of an index to be reported as not found.\<close>

lemma index_ends_found:
  "index_first api rb conv conv_index env ix blob_data eng st s buf = Some (st', s', buf', e) \<Longrightarrow> e \<noteq> Ha HA_ERR_KEY_NOT_FOUND"
  "index_last api rb conv conv_index env ix blob_data eng st s buf = Some (st', s', buf', e) \<Longrightarrow> e \<noteq> Ha HA_ERR_KEY_NOT_FOUND"
  by (auto simp: index_first_def index_last_def end_of_file_def split: prod.splits if_splits)

text \<open>A search keeps the contract of a session, and registers at most the cursor the engine opened for it.\<close>

definition search_call :: "(ctc_handler \<Rightarrow> index_key_info \<Rightarrow> 'e \<Rightarrow> 'e \<times> ctc_handler \<times> ct_errno \<times> byte list) \<Rightarrow> bool" where
  "search_call call \<longleftrightarrow> (\<forall>tch ii e e' tch' ret rec. call tch ii e = (e', tch', ret, rec) \<longrightarrow>
     tch_thd_id tch' = tch_thd_id tch \<and> (tch_sess_addr tch \<noteq> INVALID_VALUE64 \<longrightarrow> tch_sess_addr tch' \<noteq> INVALID_VALUE64))"

lemma search_callD:
  "search_call call \<Longrightarrow> call tch ii e = (e', tch', ret, rec) \<Longrightarrow>
   tch_thd_id tch' = tch_thd_id tch \<and> (tch_sess_addr tch \<noteq> INVALID_VALUE64 \<longrightarrow> tch_sess_addr tch' \<noteq> INVALID_VALUE64)"
  unfolding search_call_def by blast

lemma pre_addr_fields:
  "tch_thd_id (attachable_trx_update_pre_addr sv t b tch) = tch_thd_id tch" "tch_sess_addr (attachable_trx_update_pre_addr sv t b tch) = tch_sess_addr tch"
  by (simp_all add: attachable_trx_update_pre_addr_def)

lemma search_keeps_session:
  assumes "index_search sv eng call env p (c, tch) ii = Some ((c', tch'), x)" "search_call call" "conn_ok h0 seen c" "ctx_of c \<noteq> None"
  shows "\<exists>new. conn_ok h0 (seen + new) c' \<and> size new \<le> 1 \<and> th_thread_id (cn_thd c') = th_thread_id (cn_thd c)"
proof -
  obtain opn where o: "conn_mid h0 seen {#} {#} opn c" "linked opn c" using assms(3) by (auto simp: conn_ok_def)
  obtain c1 t1 where m: "update_member_tch sv True tch c = Some (c1, t1)" using assms(1) by (auto simp: index_search_def Option.bind_eq_Some_conv)
  note 1 = member_tch [OF m o]
  define t2 where "t2 = attachable_trx_update_pre_addr sv (cn_thd c1) True t1"
  obtain e t3 ret rec where r: "call t2 ii (cn_engine c1) = (e, t3, ret, rec)" by (metis prod_cases4)
  have t3: "tch_thd_id t3 = th_thread_id (cn_thd c1)" "opn \<Longrightarrow> tch_sess_addr t3 \<noteq> INVALID_VALUE64"
    using search_callD [OF assms(2) r] 1(4,5) by (auto simp: t2_def pre_addr_fields)
  let ?c = "c1\<lparr>cn_engine := e\<rparr>"
  have ctx: "ctx_of c1 \<noteq> None"
    using m assms(4) by (auto simp: update_member_tch_def alloc_msg_buf_def conn_simps Let_def split: option.splits if_splits prod.splits)
  have mid: "conn_mid h0 seen {#} {#} opn ?c" "linked opn ?c" using 1(1,2) linked_same [of ?c c1] by (simp_all add: conn_mid_def own_def held_def)
  define c2 where "c2 = update_sess_ctx_by_tch sv t3 ?c"
  note u = by_tch [OF mid, of t3 sv, folded c2_def]
  have "linked opn c2" using u(2,4) t3 ctx mid(2) by (auto simp: linked_def split: if_splits)
  then have ok2: "conn_ok h0 seen c2" using u(1) t3(1) ctx by (auto simp: conn_ok_def)
  have id2: "th_thread_id (cn_thd c2) = th_thread_id (cn_thd c)" using u(4) t3(1) ctx same_thread [OF 1(3)] by simp
  define t4 where "t4 = attachable_trx_update_pre_addr sv (cn_thd c2) False t3"
  have e: "(if ii_need_init ii \<and> \<not> non_trx_tmp_table env then update_sess_ctx_cursor_by_tch sv eng p t4 c2 else Some (c2, t4)) = Some (c', tch')"
    using assms(1) m r by (auto simp: index_search_def Let_def Option.bind_eq_Some_conv t2_def [symmetric] c2_def [symmetric] t4_def [symmetric] split: prod.splits)
  show ?thesis
  proof (cases "ii_need_init ii \<and> \<not> non_trx_tmp_table env")
    case True
    then have "conn_ok h0 (seen + registered p t4 c2) c' \<and> th_thread_id (cn_thd c') = th_thread_id (cn_thd c2)"
      using cursor_kept [OF _ ok2, of sv eng p t4 c' tch'] e by simp
    then show ?thesis using id2 by (intro exI [of _ "registered p t4 c2"]) (auto simp: registered_def)
  next
    case False
    then have "c' = c2" using e by (auto split: if_splits)
    then show ?thesis using ok2 id2 by (intro exI [of _ "{#}"]) simp
  qed
qed

end
