(* ===== verification/CTC_Cbo.thy ===== *)
theory CTC_Cbo
  imports Complex_Main CTC_Index
begin

text \<open>
  Cost estimates (ctc_cbo.cc, and \<open>records_in_range\<close> of ha_ctc.cc). The engine gives statistics of each column, among them a
  histogram; from them the share of the rows in a range of an index is estimated.

  A \<open>double\<close> is a rational number, and every operation on doubles is followed by the rounding \<open>cb_round\<close>, a parameter. The value of
  the eight bytes of a double, MySQL's conversion of a decimal to a double and the comparison of strings in a collation
  are parameters too.
\<close>

section \<open>Statistics\<close>

record 'h cbo_api = "'h row_api" +
  cb_round :: "rat \<Rightarrow> rat"
  cb_real :: "byte list \<Rightarrow> rat"
  cb_decimal2double :: "my_decimal \<Rightarrow> byte list"
  cb_collate :: "column \<Rightarrow> byte list \<Rightarrow> byte list \<Rightarrow> int"
  cb_string_max_len :: nat

definition s64 :: "int \<Rightarrow> int" where
  "s64 x = (x + 9223372036854775808) mod 18446744073709551616 - 9223372036854775808"

definition REAL_EPSINON :: rat where "REAL_EPSINON = 1 / 100000"
definition DEFAULT_RANGE_DENSITY :: rat where "DEFAULT_RANGE_DENSITY = 1 / 2"
definition PREFER_RANGE_DENSITY :: rat where "PREFER_RANGE_DENSITY = 4 / 5"
definition STATS_HISTGRAM_MAX_SIZE :: nat where "STATS_HISTGRAM_MAX_SIZE = 254"

datatype compare_type = GREAT | EQUAL | LESS | UNCOMPARABLE
datatype ctc_cmp_type = CMP_TYPE_NULL | CMP_TYPE_OPEN_INTERNAL | CMP_TYPE_CLOSE_INTERNAL
datatype hist_type = FREQUENCY_HIST | HEIGHT_BALANCED_HIST

text \<open>The union of \<open>cache_variant_t\<close>: eight bytes, which for a string are a pointer to the bytes \<open>cv_str\<close>.\<close>

record cache_variant =
  cv_bytes :: "byte list"
  cv_str :: "byte list"

definition v_uint32 :: "cache_variant \<Rightarrow> int" where "v_uint32 v = le_val (take 4 (cv_bytes v))"
definition v_int :: "cache_variant \<Rightarrow> int" where "v_int v = le_sval (take 4 (cv_bytes v))"
definition v_ubigint :: "cache_variant \<Rightarrow> int" where "v_ubigint v = le_val (take 8 (cv_bytes v))"
definition v_bigint :: "cache_variant \<Rightarrow> int" where "v_bigint v = le_sval (take 8 (cv_bytes v))"
definition v_date :: "cache_variant \<Rightarrow> int" where "v_date v = le_sval (take 8 (cv_bytes v))"
definition v_real :: "('h, 'a) cbo_api_scheme \<Rightarrow> cache_variant \<Rightarrow> rat" where "v_real api v = cb_real api (take 8 (cv_bytes v))"

definition put_bytes :: "byte list \<Rightarrow> cache_variant \<Rightarrow> cache_variant" where
  "put_bytes bs v = v\<lparr>cv_bytes := bs @ drop (length bs) (cv_bytes v)\<rparr>"

record column_hist =
  ep_value :: cache_variant
  ep_number :: int

record stats_column =
  st_num_null :: nat
  st_density :: rat
  st_hist_type :: hist_type
  st_hist_count :: nat
  st_column_hist :: "column_hist list"
  st_low_value :: cache_variant
  st_high_value :: cache_variant

record stats_table =
  st_estimate_rows :: nat
  st_columns :: "stats_column list"
  st_blocks :: nat
  st_avg_row_len :: nat

record ctc_key =
  ck_key :: "nat option"
  ck_len :: nat
  ck_cmp_type :: ctc_cmp_type
  ck_col_map :: nat

section \<open>The bounds of a range\<close>

definition convert_enum_key_to_variant :: "mem \<Rightarrow> nat \<Rightarrow> nat \<Rightarrow> cache_variant \<Rightarrow> cache_variant" where
  "convert_enum_key_to_variant m key cap v =
     (if cap = 1 then put_bytes (le_bytes 4 (le_val (mem_read m key 1))) v
      else if cap = 2 then put_bytes (le_bytes 4 (le_val (mem_read m key 2))) v else v)"

definition convert_set_key_to_variant :: "('h, 'a) cbo_api_scheme \<Rightarrow> mem \<Rightarrow> nat \<Rightarrow> nat \<Rightarrow> cache_variant \<Rightarrow> cache_variant" where
  "convert_set_key_to_variant api m key cap v =
     (if cap = 1 then put_bytes (le_bytes 4 (le_val (mem_read m key 1))) v
      else if cap = 2 then put_bytes (le_bytes 4 (le_val (mem_read m key 2))) v
      else if cap = 3 then put_bytes (le_bytes 4 (api_uint3korr api (mem_read m key 3))) v
      else if cap = 4 then put_bytes (mem_read m key 4) v
      else if cap = 8 then put_bytes (mem_read m key 8) v else v)"

text \<open>A bound that is missing or null is the end of the column's values. \<^const>\<open>None\<close>: the null pointer is read.\<close>

definition handle_null_and_single_boundary ::
    "mem \<Rightarrow> ctc_key \<Rightarrow> column \<Rightarrow> cache_variant \<Rightarrow> nat \<Rightarrow> (ctc_key \<times> cache_variant) option option" where
  "handle_null_and_single_boundary m rkey field value key_offset =
     (if ck_cmp_type rkey = CMP_TYPE_NULL then Some (Some (rkey\<lparr>ck_cmp_type := CMP_TYPE_CLOSE_INTERNAL\<rparr>, value))
      else if c_nullable field
      then (case ck_key rkey of
              None \<Rightarrow> None
            | Some key \<Rightarrow> if m (key + key_offset) = 1 then Some (Some (rkey\<lparr>ck_cmp_type := CMP_TYPE_CLOSE_INTERNAL\<rparr>, value)) else Some None)
      else Some None)"

definition convert_int_to_variant :: "nat \<Rightarrow> mem \<Rightarrow> nat \<Rightarrow> bool \<Rightarrow> cache_variant \<Rightarrow> cache_variant" where
  "convert_int_to_variant n m key is_unsigned v =
     put_bytes (le_bytes 4 (if is_unsigned then le_val (mem_read m key n) else le_sval (mem_read m key n))) v"

definition decimal_mysql_to_double :: "('h, 'a) cbo_api_scheme \<Rightarrow> column \<Rightarrow> mem \<Rightarrow> nat \<Rightarrow> byte list" where
  "decimal_mysql_to_double api field m key =
     (if c_type field \<noteq> MYSQL_TYPE_NEWDECIMAL then zeros 8
      else case api_binary2my_decimal api (mem_read m key (c_pack_length field)) (c_precision field) (c_decimals field) of
             Inl _ \<Rightarrow> zeros 8 | Inr d \<Rightarrow> cb_decimal2double api d)"

text \<open>The value of the key at \<open>key\<close>, for each type of column; \<open>len\<close> is the number of bytes of a string that are copied.\<close>

definition boundary_of ::
    "('h, 'a) cbo_api_scheme \<Rightarrow> mem \<Rightarrow> column \<Rightarrow> nat \<Rightarrow> nat \<Rightarrow> cache_variant \<Rightarrow> cache_variant option" where
  "boundary_of api m field key len v = (case fd_real_type (c_desc field) of
     MYSQL_TYPE_SET \<Rightarrow> Some (convert_set_key_to_variant api m key (c_pack_length field) v)
   | MYSQL_TYPE_ENUM \<Rightarrow> Some (convert_enum_key_to_variant m key (c_pack_length field) v)
   | MYSQL_TYPE_BIT \<Rightarrow> Some (put_bytes (le_bytes 8 (bit_cnvt_mysql_cantian field m key)) v)
   | MYSQL_TYPE_TINY \<Rightarrow> Some (convert_int_to_variant 1 m key (c_unsigned field) v)
   | MYSQL_TYPE_SHORT \<Rightarrow> Some (convert_int_to_variant 2 m key (c_unsigned field) v)
   | MYSQL_TYPE_INT24 \<Rightarrow> Some (put_bytes (le_bytes 4 (if c_unsigned field then api_uint3korr api (mem_read m key 3)
                                                       else api_sint3korr api (mem_read m key 3))) v)
   | MYSQL_TYPE_LONG \<Rightarrow> Some (convert_int_to_variant 4 m key (c_unsigned field) v)
   | MYSQL_TYPE_FLOAT \<Rightarrow> Some (put_bytes (api_float_to_double api (mem_read m key 4)) v)
   | MYSQL_TYPE_DOUBLE \<Rightarrow> Some (put_bytes (mem_read m key 8) v)
   | MYSQL_TYPE_LONGLONG \<Rightarrow> Some (put_bytes (mem_read m key 8) v)
   | MYSQL_TYPE_TIMESTAMP2 \<Rightarrow>
       (case convert_datetime_to_cantian api field (entry_type api field) m key of Inl _ \<Rightarrow> None | Inr bs \<Rightarrow> Some (put_bytes bs v))
   | MYSQL_TYPE_YEAR \<Rightarrow>
       (case convert_datetime_to_cantian api field (entry_type api field) m key of Inl _ \<Rightarrow> None | Inr bs \<Rightarrow> Some (put_bytes bs v))
   | MYSQL_TYPE_NEWDATE \<Rightarrow> Some (put_bytes (mem_read m key 8) v)
   | MYSQL_TYPE_DATETIME2 \<Rightarrow>
       Some (put_bytes (cnvrt_datetime_decimal api (mem_read m key (c_pack_length field)) (c_decimals field) DATETIME_MAX_DECIMALS 8) v)
   | MYSQL_TYPE_TIME2 \<Rightarrow>
       Some (put_bytes (cnvrt_time_decimal api (mem_read m key (c_pack_length field)) (c_decimals field) DATETIME_MAX_DECIMALS 8) v)
   | MYSQL_TYPE_DECIMAL \<Rightarrow> Some (put_bytes (decimal_mysql_to_double api field m key) v)
   | MYSQL_TYPE_NEWDECIMAL \<Rightarrow> Some (put_bytes (decimal_mysql_to_double api field m key) v)
   | MYSQL_TYPE_VARCHAR \<Rightarrow> Some (v\<lparr>cv_str := strncpy (cv_str v) (c_string (mem_read m key len)) len\<rparr>)
   | MYSQL_TYPE_VAR_STRING \<Rightarrow> Some (v\<lparr>cv_str := strncpy (cv_str v) (c_string (mem_read m key len)) len\<rparr>)
   | MYSQL_TYPE_STRING \<Rightarrow> Some (v\<lparr>cv_str := strncpy (cv_str v) (c_string (mem_read m key len)) len\<rparr>)
   | _ \<Rightarrow> Some v)"

definition extract_boundary_value ::
    "('h, 'a) cbo_api_scheme \<Rightarrow> mem \<Rightarrow> ctc_key \<Rightarrow> key_part \<Rightarrow> cache_variant \<Rightarrow> cache_variant \<Rightarrow> nat \<Rightarrow> (ctc_key \<times> cache_variant) option" where
  "extract_boundary_value api m rkey p ret_val value key_offset =
     (let field = kp_field p
      in case handle_null_and_single_boundary m rkey field value key_offset of
           None \<Rightarrow> None
         | Some (Some r) \<Rightarrow> Some r
         | Some None \<Rightarrow>
             (case ck_key rkey of
                None \<Rightarrow> None
              | Some k \<Rightarrow>
                  let base = k + key_offset + null_offset p; varchar = fd_real_type (c_desc field) = MYSQL_TYPE_VARCHAR;
                      str_key_len = (if varchar then nat (le_val (mem_read m base 2))
                                     else if fd_real_type (c_desc field) = MYSQL_TYPE_STRING
                                     then trim_pad m base (c_pad_char field) (kp_key_length p) else 0);
                      str_copy_len = (if str_key_len > cb_string_max_len api - 1 then cb_string_max_len api - 1 else str_key_len);
                      key = base + (if varchar then OFFSET_VARCHAR_TYPE else 0)
                  in map_option (\<lambda>v. (rkey, v)) (boundary_of api m field key str_copy_len ret_val)))"

section \<open>Comparing values\<close>

definition two_nums_compare :: "int \<Rightarrow> int \<Rightarrow> compare_type" where
  "two_nums_compare a b = (if a > b then GREAT else if a < b then LESS else EQUAL)"

definition date3 :: "byte list \<Rightarrow> int" where
  "date3 bs = uint (bs ! 0) + uint (bs ! 1) * 256 + uint (bs ! 2) * 65536"

definition date_compare :: "('h, 'a) cbo_api_scheme \<Rightarrow> cache_variant \<Rightarrow> cache_variant \<Rightarrow> rat" where
  "date_compare api a b = cb_round api (of_int (date3 (cv_bytes a) - date3 (cv_bytes b)))"

definition time_compare :: "('h, 'a) cbo_api_scheme \<Rightarrow> cache_variant \<Rightarrow> cache_variant \<Rightarrow> rat" where
  "time_compare api a b = cb_round api (of_int (s64 (api_time_from_binary api (cv_bytes a) DATETIME_MAX_DECIMALS -
     api_time_from_binary api (cv_bytes b) DATETIME_MAX_DECIMALS)))"

definition datetime_compare :: "('h, 'a) cbo_api_scheme \<Rightarrow> cache_variant \<Rightarrow> cache_variant \<Rightarrow> rat" where
  "datetime_compare api a b = cb_round api (of_int (s64 (api_datetime_from_binary api (cv_bytes a) DATETIME_MAX_DECIMALS -
     api_datetime_from_binary api (cv_bytes b) DATETIME_MAX_DECIMALS)))"

definition compare_real :: "rat \<Rightarrow> compare_type" where
  "compare_real x = (if \<bar>x\<bar> < REAL_EPSINON then EQUAL else if x > 0 then GREAT else LESS)"

definition compare :: "('h, 'a) cbo_api_scheme \<Rightarrow> column \<Rightarrow> cache_variant \<Rightarrow> cache_variant \<Rightarrow> compare_type" where
  "compare api field right left =
     (let real = compare_real (cb_round api (v_real api right - v_real api left));
          int32 = (if c_unsigned field then two_nums_compare (v_uint32 right) (v_uint32 left) else two_nums_compare (v_int right) (v_int left));
          str = compare_real (of_int (cb_collate api field (c_string (cv_str right)) (c_string (cv_str left))))
      in case fd_real_type (c_desc field) of
           MYSQL_TYPE_SET \<Rightarrow> if c_pack_length field \<le> 4 then two_nums_compare (v_uint32 right) (v_uint32 left)
                             else two_nums_compare (v_ubigint right) (v_ubigint left)
         | MYSQL_TYPE_ENUM \<Rightarrow> two_nums_compare (v_uint32 right) (v_uint32 left)
         | MYSQL_TYPE_BIT \<Rightarrow> two_nums_compare (v_ubigint right) (v_ubigint left)
         | MYSQL_TYPE_TINY \<Rightarrow> int32 | MYSQL_TYPE_SHORT \<Rightarrow> int32 | MYSQL_TYPE_INT24 \<Rightarrow> int32 | MYSQL_TYPE_LONG \<Rightarrow> int32
         | MYSQL_TYPE_FLOAT \<Rightarrow> real | MYSQL_TYPE_DOUBLE \<Rightarrow> real | MYSQL_TYPE_DECIMAL \<Rightarrow> real | MYSQL_TYPE_NEWDECIMAL \<Rightarrow> real
         | MYSQL_TYPE_LONGLONG \<Rightarrow> if c_unsigned field then two_nums_compare (v_ubigint right) (v_ubigint left)
                                  else two_nums_compare (v_bigint right) (v_bigint left)
         | MYSQL_TYPE_YEAR \<Rightarrow> compare_real (cb_round api (of_int (s64 (v_date right - v_date left))))
         | MYSQL_TYPE_TIMESTAMP2 \<Rightarrow> compare_real (cb_round api (of_int (s64 (v_date right - v_date left))))
         | MYSQL_TYPE_NEWDATE \<Rightarrow> compare_real (date_compare api right left)
         | MYSQL_TYPE_DATETIME2 \<Rightarrow> compare_real (datetime_compare api right left)
         | MYSQL_TYPE_TIME2 \<Rightarrow> compare_real (time_compare api right left)
         | MYSQL_TYPE_VARCHAR \<Rightarrow> str | MYSQL_TYPE_VAR_STRING \<Rightarrow> str | MYSQL_TYPE_STRING \<Rightarrow> str
         | _ \<Rightarrow> UNCOMPARABLE)"

definition eval_density_result :: "rat \<Rightarrow> rat" where
  "eval_density_result density = (if density < 0 then 0 else if density > 1 then 1 else density)"

section \<open>Densities from a histogram\<close>

definition hist_infos :: "stats_column \<Rightarrow> column_hist list" where
  "hist_infos col = take (st_hist_count col) (st_column_hist col)"

text \<open>A quotient of two integers as doubles.\<close>

definition quotient :: "('h, 'a) cbo_api_scheme \<Rightarrow> int \<Rightarrow> int \<Rightarrow> rat" where
  "quotient api a b = cb_round api (cb_round api (of_int a) / cb_round api (of_int b))"

text \<open>The loop of \<open>calc_frequency_hist_equal_density\<close>; \<open>prev\<close> is the number of the entry before, 0 for the first.\<close>

fun equal_nums :: "(cache_variant \<Rightarrow> compare_type) \<Rightarrow> column_hist list \<Rightarrow> int \<Rightarrow> int" where
  "equal_nums cmp [] prev = 0"
| "equal_nums cmp (h # hs) prev =
     (case cmp (ep_value h) of EQUAL \<Rightarrow> ep_number h - prev | GREAT \<Rightarrow> 0 | _ \<Rightarrow> equal_nums cmp hs (ep_number h))"

definition calc_frequency_hist_equal_density :: "('h, 'a) cbo_api_scheme \<Rightarrow> column \<Rightarrow> stats_column \<Rightarrow> cache_variant \<Rightarrow> rat" where
  "calc_frequency_hist_equal_density api field col val =
     (let result = equal_nums (\<lambda>v. compare api field v val) (hist_infos col) 0; total_nums = ep_number (last (hist_infos col))
      in if result > 0 \<and> total_nums > 0 then quotient api result total_nums
         else if result = 0 then 0 else st_density col)"

fun popular_count :: "(cache_variant \<Rightarrow> compare_type) \<Rightarrow> column_hist list \<Rightarrow> nat" where
  "popular_count cmp [] = 0"
| "popular_count cmp (h # hs) =
     (case cmp (ep_value h) of EQUAL \<Rightarrow> Suc (popular_count cmp hs) | GREAT \<Rightarrow> 0 | _ \<Rightarrow> popular_count cmp hs)"

definition calc_balance_hist_equal_density :: "('h, 'a) cbo_api_scheme \<Rightarrow> column \<Rightarrow> stats_column \<Rightarrow> cache_variant \<Rightarrow> rat" where
  "calc_balance_hist_equal_density api field col val =
     (let n = popular_count (\<lambda>v. compare api field v val) (hist_infos col)
      in if n > 1 \<and> st_hist_count col > 0 then quotient api (int n) (int (st_hist_count col)) else st_density col)"

definition calc_equal_null_density :: "('h, 'a) cbo_api_scheme \<Rightarrow> stats_table \<Rightarrow> nat \<Rightarrow> rat" where
  "calc_equal_null_density api stats col_id =
     (if st_estimate_rows stats > 0 then quotient api (int (st_num_null (st_columns stats ! col_id))) (int (st_estimate_rows stats))
      else DEFAULT_RANGE_DENSITY)"

text \<open>\<^const>\<open>None\<close> is the failed assertion on the size of the histogram.\<close>

definition calc_hist_equal_density :: "('h, 'a) cbo_api_scheme \<Rightarrow> column \<Rightarrow> stats_column \<Rightarrow> cache_variant \<Rightarrow> rat option" where
  "calc_hist_equal_density api field col val =
     (if st_hist_count col = 0 then Some (st_density col)
      else if st_hist_count col > STATS_HISTGRAM_MAX_SIZE then None
      else Some (if st_hist_type col = FREQUENCY_HIST then calc_frequency_hist_equal_density api field col val
                 else calc_balance_hist_equal_density api field col val))"

text \<open>The number of the entry before the first one that satisfies \<open>P\<close>.\<close>

fun nums_before :: "(column_hist \<Rightarrow> bool) \<Rightarrow> column_hist list \<Rightarrow> int \<Rightarrow> int option" where
  "nums_before P [] prev = None"
| "nums_before P (h # hs) prev = (if P h then Some prev else nums_before P hs (ep_number h))"

definition calc_hist_between_frequency ::
    "('h, 'a) cbo_api_scheme \<Rightarrow> column \<Rightarrow> stats_column \<Rightarrow> ctc_cmp_type \<Rightarrow> ctc_cmp_type \<Rightarrow> cache_variant \<Rightarrow> cache_variant \<Rightarrow> rat" where
  "calc_hist_between_frequency api field col min_type max_type min_val max_val =
     (let hist = hist_infos col; total_nums = ep_number (last hist);
          in_low = (\<lambda>h. let c = compare api field (ep_value h) min_val
                        in min_type = CMP_TYPE_CLOSE_INTERNAL \<and> (c = GREAT \<or> c = EQUAL) \<or> min_type = CMP_TYPE_OPEN_INTERNAL \<and> c = GREAT);
          above = (\<lambda>h. let c = compare api field (ep_value h) max_val
                       in max_type = CMP_TYPE_OPEN_INTERNAL \<and> (c = GREAT \<or> c = EQUAL) \<or> max_type = CMP_TYPE_CLOSE_INTERNAL \<and> c = GREAT);
          low_nums = (case nums_before in_low hist 0 of None \<Rightarrow> 0 | Some n \<Rightarrow> total_nums - n);
          high_nums = (case nums_before above hist 0 of None \<Rightarrow> total_nums | Some n \<Rightarrow> n)
      in if total_nums > 0 then quotient api (low_nums + high_nums - total_nums) total_nums else st_density col)"

text \<open>The part of a bucket above the key. Differences of unsigned values wrap.\<close>

definition share_int :: "('h, 'a) cbo_api_scheme \<Rightarrow> (int \<Rightarrow> int) \<Rightarrow> int \<Rightarrow> int \<Rightarrow> int \<Rightarrow> rat" where
  "share_int api cast high low key = (if high > low then quotient api (cast (high - key)) (cast (high - low)) else 0)"

definition share_real :: "('h, 'a) cbo_api_scheme \<Rightarrow> rat \<Rightarrow> rat \<Rightarrow> rat" where
  "share_real api num denominator = (if denominator > 0 then cb_round api (num / denominator) else 0)"

definition percent_in_bucket :: "('h, 'a) cbo_api_scheme \<Rightarrow> column \<Rightarrow> stats_column \<Rightarrow> nat \<Rightarrow> cache_variant \<Rightarrow> rat" where
  "percent_in_bucket api field col high key =
     (let hi = (if high \<ge> st_hist_count col then st_high_value col else ep_value (hist_infos col ! high));
          lo = (if high < 1 then st_low_value col else ep_value (hist_infos col ! (high - 1)));
          us = share_int api u32 (v_uint32 hi) (v_uint32 lo) (v_uint32 key);
          ub = share_int api u64 (v_ubigint hi) (v_ubigint lo) (v_ubigint key);
          int32 = (if c_unsigned field then us else share_int api s32 (v_int hi) (v_int lo) (v_int key));
          real = share_real api (cb_round api (v_real api hi - v_real api key)) (cb_round api (v_real api hi - v_real api lo));
          date = share_real api (cb_round api (of_int (s64 (v_date hi - v_date key)))) (cb_round api (of_int (s64 (v_date hi - v_date lo))))
      in case fd_real_type (c_desc field) of
           MYSQL_TYPE_SET \<Rightarrow> if c_pack_length field \<le> 4 then us else ub
         | MYSQL_TYPE_ENUM \<Rightarrow> us
         | MYSQL_TYPE_BIT \<Rightarrow> ub
         | MYSQL_TYPE_TINY \<Rightarrow> int32 | MYSQL_TYPE_SHORT \<Rightarrow> int32 | MYSQL_TYPE_INT24 \<Rightarrow> int32 | MYSQL_TYPE_LONG \<Rightarrow> int32
         | MYSQL_TYPE_FLOAT \<Rightarrow> real | MYSQL_TYPE_DOUBLE \<Rightarrow> real | MYSQL_TYPE_DECIMAL \<Rightarrow> real | MYSQL_TYPE_NEWDECIMAL \<Rightarrow> real
         | MYSQL_TYPE_LONGLONG \<Rightarrow> if c_unsigned field then ub else share_int api s64 (v_bigint hi) (v_bigint lo) (v_bigint key)
         | MYSQL_TYPE_YEAR \<Rightarrow> date | MYSQL_TYPE_TIMESTAMP2 \<Rightarrow> date
         | MYSQL_TYPE_NEWDATE \<Rightarrow> share_real api (date_compare api hi key) (date_compare api hi lo)
         | MYSQL_TYPE_DATETIME2 \<Rightarrow> share_real api (datetime_compare api hi key) (datetime_compare api hi lo)
         | MYSQL_TYPE_TIME2 \<Rightarrow> share_real api (time_compare api hi key) (time_compare api hi lo)
         | _ \<Rightarrow> DEFAULT_RANGE_DENSITY)"

text \<open>The position of the first entry from \<open>i\<close> on that satisfies \<open>P\<close>.\<close>

fun hist_find :: "(column_hist \<Rightarrow> bool) \<Rightarrow> column_hist list \<Rightarrow> nat \<Rightarrow> nat option" where
  "hist_find P [] i = None"
| "hist_find P (h # hs) i = (if P h then Some i else hist_find P hs (Suc i))"

text \<open>The number of whole buckets and the share of the rows in the buckets at the ends.\<close>

definition calc_hist_range_boundary ::
    "('h, 'a) cbo_api_scheme \<Rightarrow> column \<Rightarrow> stats_column \<Rightarrow> ctc_cmp_type \<Rightarrow> ctc_cmp_type \<Rightarrow> cache_variant \<Rightarrow> cache_variant \<Rightarrow> int \<times> rat" where
  "calc_hist_range_boundary api field col min_type max_type min_val max_val =
     (let n = st_hist_count col; hist = hist_infos col; add = (\<lambda>x y. cb_round api (x + y));
          lo = hist_find (\<lambda>h. compare api field (ep_value h) min_val = GREAT) hist 0;
          lo_pos = (case lo of None \<Rightarrow> n - 1 | Some i \<Rightarrow> i);
          percent = add 0 (percent_in_bucket api field col (case lo of None \<Rightarrow> n | Some i \<Rightarrow> i) min_val);
          hi = hist_find (\<lambda>h. let c = compare api field (ep_value h) max_val in c = GREAT \<or> c = EQUAL) (drop lo_pos hist) lo_pos;
          hi_pos = (case hi of None \<Rightarrow> n - 1 | Some i \<Rightarrow> i);
          percent = add percent (- percent_in_bucket api field col (case hi of None \<Rightarrow> n | Some i \<Rightarrow> i) max_val);
          percent = (if n > 0 then cb_round api (percent / cb_round api (of_nat n)) else percent);
          percent = (if min_type = CMP_TYPE_CLOSE_INTERNAL then add percent (calc_balance_hist_equal_density api field col min_val) else percent);
          percent = (if max_type = CMP_TYPE_CLOSE_INTERNAL then add percent (calc_balance_hist_equal_density api field col max_val) else percent)
      in (int hi_pos - int lo_pos, percent))"

definition calc_hist_between_balance ::
    "('h, 'a) cbo_api_scheme \<Rightarrow> column \<Rightarrow> stats_column \<Rightarrow> ctc_cmp_type \<Rightarrow> ctc_cmp_type \<Rightarrow> cache_variant \<Rightarrow> cache_variant \<Rightarrow> rat" where
  "calc_hist_between_balance api field col min_type max_type min_val max_val =
     (case calc_hist_range_boundary api field col min_type max_type min_val max_val of
        (bucket_range, percent) \<Rightarrow>
          if st_hist_count col > 0 then cb_round api (quotient api bucket_range (int (st_hist_count col)) + percent) else percent)"

definition calc_hist_between_density ::
    "('h, 'a) cbo_api_scheme \<Rightarrow> column \<Rightarrow> stats_column \<Rightarrow> ctc_cmp_type \<Rightarrow> ctc_cmp_type \<Rightarrow> cache_variant \<Rightarrow> cache_variant \<Rightarrow> rat option" where
  "calc_hist_between_density api field col min_type max_type min_val max_val =
     (if st_hist_count col = 0 then Some (st_density col)
      else if st_hist_count col > STATS_HISTGRAM_MAX_SIZE then None
      else Some (if st_hist_type col = FREQUENCY_HIST then calc_hist_between_frequency api field col min_type max_type min_val max_val
                 else calc_hist_between_balance api field col min_type max_type min_val max_val))"

section \<open>The share of a range\<close>

text \<open>The new variants of \<open>calc_density_by_cond\<close>: zero, with an empty string of the largest length.\<close>

definition zero_variant :: "('h, 'a) cbo_api_scheme \<Rightarrow> cache_variant" where
  "zero_variant api = \<lparr>cv_bytes = zeros 8, cv_str = zeros (cb_string_max_len api)\<rparr>"

text \<open>The density, whether the next column of the index counts, and the keys, whose kind of comparison may change.\<close>

definition calc_density_by_cond ::
    "('h, 'a) cbo_api_scheme \<Rightarrow> mem \<Rightarrow> stats_column \<Rightarrow> key_part \<Rightarrow> ctc_key \<Rightarrow> ctc_key \<Rightarrow> nat \<Rightarrow> (rat \<times> bool \<times> ctc_key \<times> ctc_key) option" where
  "calc_density_by_cond api m col p kmin kmax key_offset =
     (let field = kp_field p; low_val = st_low_value col; high_val = st_high_value col
      in case extract_boundary_value api m kmin p (zero_variant api) low_val key_offset of
           None \<Rightarrow> None
         | Some (kmin, min_val) \<Rightarrow>
             (case extract_boundary_value api m kmax p (zero_variant api) high_val key_offset of
                None \<Rightarrow> None
              | Some (kmax, max_val) \<Rightarrow>
                  let c = compare api field max_val min_val;
                      ret = (\<lambda>d. Some (d, c = EQUAL, kmin, kmax))
                  in if compare api field max_val low_val = LESS \<or> compare api field min_val high_val = GREAT then ret 0
                     else if c = EQUAL \<and> ck_cmp_type kmin = CMP_TYPE_CLOSE_INTERNAL \<and> ck_cmp_type kmax = CMP_TYPE_CLOSE_INTERNAL
                     then Option.bind (calc_hist_equal_density api field col max_val) ret
                     else if c = UNCOMPARABLE then ret DEFAULT_RANGE_DENSITY
                     else if c = LESS then ret 0
                     else Option.bind (calc_hist_between_density api field col (ck_cmp_type kmin) (ck_cmp_type kmax) min_val max_val) ret))"

fun acc_gcol_num :: "column list \<Rightarrow> nat \<Rightarrow> nat list" where
  "acc_gcol_num [] n = []"
| "acc_gcol_num (c # cs) n = n # acc_gcol_num cs (if c_virtual_gcol c then n + 1 else n)"

definition calc_accumulate_gcol_num :: "column list \<Rightarrow> nat list" where
  "calc_accumulate_gcol_num cols = acc_gcol_num cols 0"

text \<open>The null byte of a key is read only if there is a key.\<close>

definition null_key :: "mem \<Rightarrow> ctc_key \<Rightarrow> nat \<Rightarrow> bool" where
  "null_key m k off = (case ck_key k of None \<Rightarrow> False | Some a \<Rightarrow> m (a + off) = 1)"

definition calculate_column_selectivity ::
    "('h, 'a) cbo_api_scheme \<Rightarrow> mem \<Rightarrow> stats_table \<Rightarrow> nat \<Rightarrow> key_part \<Rightarrow> ctc_key \<Rightarrow> ctc_key \<Rightarrow> nat \<Rightarrow> (rat \<times> bool \<times> ctc_key \<times> ctc_key) option" where
  "calculate_column_selectivity api m stats col_id p kmin kmax key_offset =
     (if c_nullable (kp_field p) \<and> null_key m kmin key_offset \<and> (ck_key kmax = None \<or> key_offset \<ge> ck_len kmax)
      then Some (cb_round api (1 - calc_equal_null_density api stats col_id), True, kmin, kmax)
      else if c_nullable (kp_field p) \<and> null_key m kmin key_offset \<and> null_key m kmax key_offset
      then Some (calc_equal_null_density api stats col_id, True, kmin, kmax)
      else calc_density_by_cond api m (st_columns stats ! col_id) p kmin kmax key_offset)"

definition set_key_boundary_types :: "ctc_key \<Rightarrow> ctc_key \<Rightarrow> nat \<Rightarrow> ctc_cmp_type \<Rightarrow> ctc_cmp_type \<Rightarrow> ctc_key \<times> ctc_key" where
  "set_key_boundary_types kmin kmax i min_type max_type =
     (if bit (ck_col_map kmin) i \<and> bit (ck_col_map kmax) i \<and> (bit (ck_col_map kmin) (i + 1) \<or> bit (ck_col_map kmax) (i + 1))
      then (kmin\<lparr>ck_cmp_type := CMP_TYPE_CLOSE_INTERNAL\<rparr>, kmax\<lparr>ck_cmp_type := CMP_TYPE_CLOSE_INTERNAL\<rparr>)
      else (kmin\<lparr>ck_cmp_type := min_type\<rparr>, kmax\<lparr>ck_cmp_type := max_type\<rparr>))"

text \<open>The loop over the columns of the index. A virtual column is passed over without a step of \<open>key_offset\<close>.\<close>

fun density_loop ::
    "('h, 'a) cbo_api_scheme \<Rightarrow> mem \<Rightarrow> stats_table \<Rightarrow> nat list \<Rightarrow> nat \<Rightarrow> ctc_cmp_type \<Rightarrow> ctc_cmp_type \<Rightarrow> key_part list \<Rightarrow> nat \<Rightarrow>
     ctc_key \<Rightarrow> ctc_key \<Rightarrow> nat \<Rightarrow> rat \<Rightarrow> rat option" where
  "density_loop api m stats gcols valid_map min_type max_type [] i kmin kmax key_offset density = Some density"
| "density_loop api m stats gcols valid_map min_type max_type (p # ps) i kmin kmax key_offset density =
     (if \<not> bit valid_map i then Some density
      else if c_virtual_gcol (kp_field p)
      then density_loop api m stats gcols valid_map min_type max_type ps (i + 1) kmin kmax key_offset density
      else
        let mysql_col_id = c_index (kp_field p); col_id = mysql_col_id - gcols ! mysql_col_id;
            varchar_offset = (if fd_real_type (c_desc (kp_field p)) = MYSQL_TYPE_VARCHAR then OFFSET_VARCHAR_TYPE else 0);
            (kmin, kmax) = set_key_boundary_types kmin kmax i min_type max_type
        in case calculate_column_selectivity api m stats col_id p kmin kmax key_offset of
             None \<Rightarrow> None
           | Some (sel, continue_calc, kmin, kmax) \<Rightarrow>
               let density = cb_round api (density * eval_density_result sel);
                   key_offset = key_offset + varchar_offset + null_offset p + kp_key_length p
               in if continue_calc
                  then density_loop api m stats gcols valid_map min_type max_type ps (i + 1) kmin kmax key_offset density
                  else Some density)"

definition calc_density_one_table ::
    "('h, 'a) cbo_api_scheme \<Rightarrow> mem \<Rightarrow> column list \<Rightarrow> key_part list \<Rightarrow> ctc_key \<Rightarrow> ctc_key \<Rightarrow> stats_table \<Rightarrow> rat option" where
  "calc_density_one_table api m cols parts kmin kmax stats =
     (if st_estimate_rows stats = 0 then Some 0
      else map_option (\<lambda>d. if d < 0 \<or> d > 1 then PREFER_RANGE_DENSITY else d)
             (density_loop api m stats (calc_accumulate_gcol_num cols) (max (ck_col_map kmin) (ck_col_map kmax)) (ck_cmp_type kmin)
                (ck_cmp_type kmax) parts 0 kmin kmax 0 1))"

section \<open>Estimates for the optimizer\<close>

text \<open>MySQL's \<open>key_range\<close>: address, length, the map of the columns and the flag.\<close>

record key_range =
  kr_key :: nat
  kr_length :: nat
  kr_keypart_map :: nat
  kr_flag :: nat

definition HA_READ_KEY_EXACT :: nat where "HA_READ_KEY_EXACT = 0"

definition set_ctc_range_key :: "key_range option \<Rightarrow> bool \<Rightarrow> ctc_key" where
  "set_ctc_range_key r is_min_key = (case r of
     None \<Rightarrow> \<lparr>ck_key = None, ck_len = 0, ck_cmp_type = CMP_TYPE_NULL, ck_col_map = 0\<rparr>
   | Some k \<Rightarrow> \<lparr>ck_key = Some (kr_key k), ck_len = kr_length k,
       ck_cmp_type = (if kr_flag k = HA_READ_KEY_EXACT then CMP_TYPE_CLOSE_INTERNAL
                      else if kr_flag k = HA_READ_BEFORE_KEY then CMP_TYPE_OPEN_INTERNAL
                      else if kr_flag k = HA_READ_AFTER_KEY then (if is_min_key then CMP_TYPE_OPEN_INTERNAL else CMP_TYPE_CLOSE_INTERNAL)
                      else CMP_TYPE_NULL),
       ck_col_map = kr_keypart_map k\<rparr>)"

text \<open>The statistics a table shares between its handlers: whether they were fetched, and the values of the whole table.\<close>

record cbo_stats =
  cs_is_updated :: bool
  cs_records :: nat
  cs_ndv_keys :: "nat list"
  cs_part_cnt :: nat
  cs_tables :: "stats_table list"
  cs_page_size :: nat

definition records_in_range ::
    "('h, 'a) cbo_api_scheme \<Rightarrow> mem \<Rightarrow> column list \<Rightarrow> key_part list \<Rightarrow> cbo_stats option \<Rightarrow> key_range option \<Rightarrow> key_range option \<Rightarrow> nat option" where
  "records_in_range api m cols parts share min_range max_range =
     (let kmin = set_ctc_range_key min_range True; kmax = set_ctc_range_key max_range False;
          (kmin, kmax) = (if ck_len kmax < ck_len kmin then (kmin, kmax\<lparr>ck_cmp_type := CMP_TYPE_NULL\<rparr>)
                                else if ck_len kmax > ck_len kmin then (kmin\<lparr>ck_cmp_type := CMP_TYPE_NULL\<rparr>, kmax)
                                else (kmin, kmax))
      in case share of
           None \<Rightarrow> Some 1
         | Some s \<Rightarrow>
             if \<not> cs_is_updated s then Some 1
             else map_option (\<lambda>d. let n = nat \<lfloor>cb_round api (of_nat (st_estimate_rows (hd (cs_tables s))) * d)\<rfloor> in if n = 0 then 1 else n)
                    (calc_density_one_table api m cols parts kmin kmax (hd (cs_tables s))))"

definition check_index_is_contain_null :: "cbo_stats \<Rightarrow> nat \<Rightarrow> bool" where
  "check_index_is_contain_null s fld_idx \<longleftrightarrow>
     (\<exists>t \<in> set (take (if cs_part_cnt s = 0 then 1 else cs_part_cnt s) (cs_tables s)). st_num_null (st_columns t ! fld_idx) \<noteq> 0)"

text \<open>
  \<open>ctc_index_stats_update\<close>: the rows per value of each key part of each index, computed as \<open>float\<close> with the rounding \<open>rnd\<close>; nothing
  is set for an empty table.
\<close>

definition rec_per_key :: "(rat \<Rightarrow> rat) \<Rightarrow> cbo_stats \<Rightarrow> nat list \<Rightarrow> nat \<Rightarrow> nat \<Rightarrow> key_part \<Rightarrow> rat" where
  "rec_per_key rnd s gcols i j p =
     (let fld_idx = c_index (kp_field p) - gcols ! c_index (kp_field p);
          has_null = (if check_index_is_contain_null s fld_idx then 1 else 0);
          n_diff = cs_ndv_keys s ! (i * MAX_KEY_COLUMNS + j);
          r = (if n_diff \<noteq> 0 then rnd (rnd (of_nat (cs_records s)) / rnd (of_int (u32 (int n_diff + has_null)))) else rnd (of_nat (cs_records s)))
      in if r < 1 then 1 else r)"

definition ctc_index_stats_update :: "(rat \<Rightarrow> rat) \<Rightarrow> column list \<Rightarrow> key_part list list \<Rightarrow> cbo_stats \<Rightarrow> rat list list option" where
  "ctc_index_stats_update rnd cols keys s =
     (if cs_records s = 0 then None
      else Some (map (\<lambda>(i, parts). map (\<lambda>(j, p). rec_per_key rnd s (calc_accumulate_gcol_num cols) i j p) (zip [0..<length parts] parts))
                  (zip [0..<length keys] keys)))"

definition scan_time :: "cbo_stats option \<Rightarrow> rat" where
  "scan_time share =
     (let t = (case share of None \<Rightarrow> 0 | Some s \<Rightarrow> of_nat (st_blocks (hd (cs_tables s)))) in if t < 2 then 2 else t)"

definition index_only_read_time :: "(rat \<Rightarrow> rat) \<Rightarrow> nat \<Rightarrow> nat \<Rightarrow> nat \<Rightarrow> rat \<Rightarrow> rat" where
  "index_only_read_time rnd block_size key_length ref_length records_to_scan =
     (let keys_per_block = of_nat (block_size div 2 div (key_length + ref_length) + 1)
      in rnd (rnd (rnd (records_to_scan + keys_per_block) - 1) / keys_per_block))"

definition read_time :: "(rat \<Rightarrow> rat) \<Rightarrow> cbo_stats option \<Rightarrow> nat \<Rightarrow> rat \<Rightarrow> bool \<Rightarrow> nat \<Rightarrow> nat \<Rightarrow> rat" where
  "read_time rnd share stats_records handler_read_time is_primary ranges rows =
     (if \<not> is_primary then handler_read_time
      else if rows \<le> 2 then of_nat rows
      else if stats_records < rows then scan_time share
      else rnd (of_nat ranges + rnd (rnd (rnd (of_nat rows) / rnd (of_nat stats_records)) * scan_time share)))"

section \<open>A frequency histogram is exact\<close>

text \<open>
  \<open>rows\<close> are the values of the rows of the table, \<open>key\<close> the integer the values of the column are compared by. An entry of the
  histogram has the number of rows up to its value.
\<close>

definition nums :: "(cache_variant \<Rightarrow> int) \<Rightarrow> cache_variant list \<Rightarrow> (int \<Rightarrow> bool) \<Rightarrow> int" where
  "nums key rows Q = int (length (filter (\<lambda>r. Q (key r)) rows))"

definition frequency_hist :: "(cache_variant \<Rightarrow> int) \<Rightarrow> cache_variant list \<Rightarrow> column_hist list \<Rightarrow> bool" where
  "frequency_hist key rows hist \<longleftrightarrow> sorted_wrt (<) (map (key \<circ> ep_value) hist) \<and>
     list_all (\<lambda>h. ep_number h = nums key rows (\<lambda>k. k \<le> key (ep_value h))) hist \<and>
     list_all (\<lambda>r. key r \<in> set (map (key \<circ> ep_value) hist)) rows"

lemma nums_cong: "(\<And>r. r \<in> set rows \<Longrightarrow> Q (key r) = R (key r)) \<Longrightarrow> nums key rows Q = nums key rows R"
  unfolding nums_def by (simp cong: filter_cong)

lemma nums_add: "(\<And>r. r \<in> set rows \<Longrightarrow> \<not> (Q (key r) \<and> R (key r))) \<Longrightarrow> nums key rows (\<lambda>k. Q k \<or> R k) = nums key rows Q + nums key rows R"
  unfolding nums_def by (induction rows) auto

lemma nums_total: "nums key rows (\<lambda>k. \<not> Q k) = int (length rows) - nums key rows Q"
  unfolding nums_def by (induction rows) auto

text \<open>A suffix of the histogram: the rows that are not in it come before it and are counted by \<open>prev\<close>.\<close>

definition suffix_ok :: "(cache_variant \<Rightarrow> int) \<Rightarrow> cache_variant list \<Rightarrow> column_hist list \<Rightarrow> int \<Rightarrow> bool" where
  "suffix_ok key rows hs prev \<longleftrightarrow> sorted_wrt (<) (map (key \<circ> ep_value) hs) \<and>
     list_all (\<lambda>h. ep_number h = nums key rows (\<lambda>k. k \<le> key (ep_value h))) hs \<and>
     prev = nums key rows (\<lambda>k. k \<notin> set (map (key \<circ> ep_value) hs)) \<and>
     (\<forall>r \<in> set rows. key r \<notin> set (map (key \<circ> ep_value) hs) \<longrightarrow> (\<forall>h \<in> set hs. key r < key (ep_value h)))"

lemma whole_ok: "frequency_hist key rows hist \<Longrightarrow> suffix_ok key rows hist 0"
  by (auto simp: frequency_hist_def suffix_ok_def nums_def list_all_iff filter_empty_conv)

lemma suffix_step:
  assumes "suffix_ok key rows (h # hs) prev"
  shows "suffix_ok key rows hs (ep_number h)" "ep_number h = prev + nums key rows (\<lambda>k. k = key (ep_value h))"
proof -
  let ?K = "set (map (key \<circ> ep_value) hs)" and ?k = "key (ep_value h)"
  have gt: "\<forall>x \<in> ?K. ?k < x" using assms by (auto simp: suffix_ok_def)
  have lt: "key r < ?k" if "r \<in> set rows" "key r \<notin> ?K" "key r \<noteq> ?k" for r using assms that by (auto simp: suffix_ok_def)
  have e: "ep_number h = nums key rows (\<lambda>k. k \<le> ?k)" using assms by (simp add: suffix_ok_def)
  have le: "key r \<le> ?k \<longleftrightarrow> key r \<notin> ?K" if "r \<in> set rows" for r using gt lt [OF that] by force
  have 1: "nums key rows (\<lambda>k. k \<le> ?k) = nums key rows (\<lambda>k. k \<notin> ?K)" by (rule nums_cong) (rule le)
  have 2: "key r < key (ep_value h')" if "r \<in> set rows" "key r \<notin> ?K" "h' \<in> set hs" for r h'
    using le [OF that(1)] that(2,3) gt by fastforce
  show "suffix_ok key rows hs (ep_number h)" using assms 1 2 e by (simp add: suffix_ok_def)
  have "nums key rows (\<lambda>k. k \<le> ?k) = nums key rows (\<lambda>k. k \<notin> set (map (key \<circ> ep_value) (h # hs)) \<or> k = ?k)"
    using le gt by (intro nums_cong) auto
  also have "\<dots> = prev + nums key rows (\<lambda>k. k = ?k)"
    using assms by (subst nums_add) (auto simp: suffix_ok_def)
  finally show "ep_number h = prev + nums key rows (\<lambda>k. k = ?k)" using e by simp
qed

lemma nums_before_counts:
  assumes "suffix_ok key rows hs prev" "\<And>k l. Q k \<Longrightarrow> k \<le> l \<Longrightarrow> Q l"
    "\<And>r. r \<in> set rows \<Longrightarrow> key r \<notin> set (map (key \<circ> ep_value) hs) \<Longrightarrow> \<not> Q (key r)" "\<And>h. P h = Q (key (ep_value h))"
  shows "case nums_before P hs prev of None \<Rightarrow> nums key rows Q = 0 | Some n \<Rightarrow> n = nums key rows (\<lambda>k. \<not> Q k)"
  using assms(1,3)
proof (induction hs arbitrary: prev)
  case Nil
  then have "filter (\<lambda>r. Q (key r)) rows = []" by (simp add: filter_empty_conv)
  then show ?case by (simp add: nums_def)
next
  case (Cons h hs)
  show ?case
  proof (cases "Q (key (ep_value h))")
    case True
    have "\<not> Q (key r) \<longleftrightarrow> key r \<notin> set (map (key \<circ> ep_value) (h # hs))" if "r \<in> set rows" for r
      using Cons.prems(2) [OF that] Cons.prems(1) True assms(2) [of "key (ep_value h)"] by (auto simp: suffix_ok_def)
    then have "nums key rows (\<lambda>k. \<not> Q k) = prev"
      using Cons.prems(1) by (subst nums_cong [of rows "\<lambda>k. \<not> Q k" key "\<lambda>k. k \<notin> set (map (key \<circ> ep_value) (h # hs))"]) (auto simp: suffix_ok_def)
    then show ?thesis using True assms(4) by simp
  next
    case False
    have "\<not> Q (key r)" if "r \<in> set rows" "key r \<notin> set (map (key \<circ> ep_value) hs)" for r
      using Cons.prems(2) [OF that(1)] that(2) False by (cases "key r = key (ep_value h)") auto
    then show ?thesis using Cons.IH [OF suffix_step(1) [OF Cons.prems(1)]] False assms(4) by simp
  qed
qed

lemma equal_counts:
  assumes "suffix_ok key rows hs prev" "\<And>v. cmp v = two_nums_compare (key v) k"
    "\<And>r. r \<in> set rows \<Longrightarrow> key r \<notin> set (map (key \<circ> ep_value) hs) \<Longrightarrow> key r < k"
  shows "equal_nums cmp hs prev = nums key rows (\<lambda>x. x = k)"
  using assms(1,3)
proof (induction hs arbitrary: prev)
  case Nil
  then have "filter (\<lambda>r. key r = k) rows = []" by (auto simp: filter_empty_conv)
  then show ?case by (simp add: nums_def)
next
  case (Cons h hs)
  let ?k = "key (ep_value h)"
  consider "?k = k" | "k < ?k" | "?k < k" by linarith
  then show ?case
  proof cases
    case 1
    then show ?thesis using suffix_step(2) [OF Cons.prems(1)] assms(2) by (simp add: two_nums_compare_def)
  next
    case 2
    have "key r \<noteq> k" if "r \<in> set rows" for r using Cons.prems(2) [OF that] Cons.prems(1) 2 by (fastforce simp: suffix_ok_def)
    then have "filter (\<lambda>r. key r = k) rows = []" by (auto simp: filter_empty_conv)
    then show ?thesis using 2 assms(2) by (simp add: two_nums_compare_def nums_def)
  next
    case 3
    have "key r < k" if "r \<in> set rows" "key r \<notin> set (map (key \<circ> ep_value) hs)" for r
      using Cons.prems(2) [OF that(1)] that(2) 3 by (cases "key r = ?k") auto
    then show ?thesis using Cons.IH [OF suffix_step(1) [OF Cons.prems(1)]] 3 assms(2) by (simp add: two_nums_compare_def)
  qed
qed

lemma last_counts:
  assumes "suffix_ok key rows hs prev" "hs \<noteq> []"
  shows "ep_number (last hs) = int (length rows)"
  using assms
proof (induction hs arbitrary: prev)
  case (Cons h hs)
  show ?case
  proof (cases "hs = []")
    case True
    have "nums key rows (\<lambda>k. k \<notin> set (map (key \<circ> ep_value) hs)) = int (length rows)" using True by (simp add: nums_def)
    then show ?thesis using suffix_step(1) [OF Cons.prems(1)] True by (simp add: suffix_ok_def)
  next
    case False
    then show ?thesis using Cons.IH [OF suffix_step(1) [OF Cons.prems(1)]] by simp
  qed
qed simp

definition above_min :: "ctc_cmp_type \<Rightarrow> int \<Rightarrow> int \<Rightarrow> bool" where
  "above_min t lo k \<longleftrightarrow> (case t of CMP_TYPE_CLOSE_INTERNAL \<Rightarrow> lo \<le> k | CMP_TYPE_OPEN_INTERNAL \<Rightarrow> lo < k | CMP_TYPE_NULL \<Rightarrow> False)"

definition below_max :: "ctc_cmp_type \<Rightarrow> int \<Rightarrow> int \<Rightarrow> bool" where
  "below_max t hi k \<longleftrightarrow> (case t of CMP_TYPE_CLOSE_INTERNAL \<Rightarrow> k \<le> hi | CMP_TYPE_OPEN_INTERNAL \<Rightarrow> k < hi | CMP_TYPE_NULL \<Rightarrow> True)"


section \<open>The estimate is within the table\<close>

text \<open>What is used of the rounding of doubles: it is monotone and exact on the integers of 32 bits.\<close>

definition rounding :: "(rat \<Rightarrow> rat) \<Rightarrow> bool" where
  "rounding rnd \<longleftrightarrow> mono rnd \<and> (\<forall>n < 2 ^ 32. rnd (of_nat n) = of_nat n)"

lemma rounding_01: "rounding rnd \<Longrightarrow> rnd 0 = 0" "rounding rnd \<Longrightarrow> rnd 1 = 1"
  by (auto simp: rounding_def dest: spec [of _ 0] spec [of _ 1])

lemma rounded_unit: "rounding rnd \<Longrightarrow> 0 \<le> x \<Longrightarrow> x \<le> 1 \<Longrightarrow> 0 \<le> rnd x \<and> rnd x \<le> 1"
  using rounding_01 [of rnd] unfolding rounding_def mono_def by metis

text \<open>The product stays between 0 and 1: the check at the end of \<open>calc_density_one_table\<close> never replaces it.\<close>

lemma density_unit:
  assumes "rounding (cb_round api)"
  shows "density_loop api m stats gcols valid_map min_type max_type ps i kmin kmax off d = Some d' \<Longrightarrow> 0 \<le> d \<Longrightarrow> d \<le> 1 \<Longrightarrow> 0 \<le> d' \<and> d' \<le> 1"
proof (induction ps arbitrary: i kmin kmax off d)
  case (Cons p ps)
  have u: "0 \<le> cb_round api (d * eval_density_result x) \<and> cb_round api (d * eval_density_result x) \<le> 1" for x
  proof -
    have e: "0 \<le> eval_density_result x" "eval_density_result x \<le> 1" by (simp_all add: eval_density_result_def)
    then show ?thesis using Cons.prems(2,3) rounded_unit [OF assms, of "d * eval_density_result x"] mult_le_one [OF Cons.prems(3) e] by simp
  qed
  show ?case using Cons.prems Cons.IH u by (auto simp: Let_def split: if_splits option.splits prod.splits)
qed simp

lemma density_one_table_unit:
  assumes "rounding (cb_round api)" "calc_density_one_table api m cols parts kmin kmax stats = Some d"
  shows "0 \<le> d" "d \<le> 1"
  using density_unit [OF assms(1)] assms(2) by (force simp: calc_density_one_table_def split: if_splits)+


definition cbo_demo :: "unit cbo_api" where
  "cbo_demo = row_api.extend basic_api (cbo_api.fields (\<lambda>x. x) (\<lambda>_. 0) (\<lambda>_. zeros 8) (\<lambda>_ _ _. 0) 16)"

definition demo_value :: "int \<Rightarrow> cache_variant" where
  "demo_value n = \<lparr>cv_bytes = le_bytes 8 n, cv_str = []\<rparr>"

definition demo_stats :: stats_column where
  "demo_stats = \<lparr>st_num_null = 0, st_density = 1 / 2, st_hist_type = FREQUENCY_HIST, st_hist_count = 2,
     st_column_hist = [\<lparr>ep_value = demo_value 1, ep_number = 2\<rparr>, \<lparr>ep_value = demo_value 3, ep_number = 3\<rparr>],
     st_low_value = demo_value 1, st_high_value = demo_value 3\<rparr>"

lemma cbo_demo_round [simp]: "cb_round cbo_demo x = x"
  by (simp add: cbo_demo_def row_api.defs cbo_api.defs)

lemma demo_value_int [simp]: "0 \<le> n \<Longrightarrow> n < 100 \<Longrightarrow> v_int (demo_value n) = n"
  using le_sval_le_bytes [of 4 n] by (simp add: v_int_def demo_value_def take_le_bytes)


definition demo_share :: cbo_stats where
  "demo_share = \<lparr>cs_is_updated = True, cs_records = 3, cs_ndv_keys = [2], cs_part_cnt = 0,
     cs_tables = [\<lparr>st_estimate_rows = 3, st_columns = [demo_stats], st_blocks = 1, st_avg_row_len = 8\<rparr>], cs_page_size = 8192\<rparr>"


end
