(* ===== verification/Spec2Isabelle.thy ===== *)
theory Spec2Isabelle
  imports CTC_Date CTC_Mydec CTC_Fill CTC_Error CTC_Write CTC_Broadcast CTC_Cbo
begin

text \<open>
  The MySQL connector of the Cantian storage engine (src/storage/ctc).

  \<^bold>\<open>The program.\<close> MySQL calls a storage engine through the class \<open>handler\<close>: \<open>ha_ctc\<close> (ha_ctc.cc) opens scans,
  fetches, inserts, updates and deletes rows and takes conditions of a statement for evaluation in the engine.
  Rows are converted between MySQL's record format and Cantian's row format (datatype_cnvrtr.cc), conditions
  are checked, split and serialised (ctc_util.cc), and every request goes to the Cantian process as a
  message in shared memory (ctc_srv_mq_module.cc). Errors of Cantian come back as numbers and become MySQL's
  (ctc_error.cc).

  \<^bold>\<open>The theories.\<close>
  \<^item> CTC_Prelude: C's integer conversions, digit lists, shared rewrite rules. CTC_Bytes: byte memory, integers
    in it, disjoint areas.
  \<^item> CTC_Date (datatype_cnvrtr.cc, \<open>cm_encode_date\<close>, \<open>cm_decode_date\<close>, \<open>check_datetime_vaild\<close> and the
    conversions around them): the encoding is a bijection on valid dates and preserves their order.
  \<^item> CTC_Mydec (datatype_cnvrtr.cc, \<open>convert_mydec_to_dec4\<close>, \<open>convert_dec4_to_mydec\<close>): sign and digits are kept
    both ways, and the results fit their types.
  \<^item> CTC_Types (datatype_cnvrtr.cc): the table of column types and its lookup.
  \<^item> CTC_Rowhead, CTC_Lob, CTC_Row, CTC_Record (datatype_cnvrtr.cc): the row head, large objects inside the row
    and in pieces, the columns, and whole records. Reading what was written gives every stored column back; a
    row is not longer than the length reserved for it; the inputs for which either fails are stated as
    theorems of their own.
  \<^item> CTC_Cond, CTC_Fill (ctc_util.cc, ha_ctc.cc \<open>cond_push\<close>): which conditions are pushed down, how a condition
    is split and how the pushed part is serialised. A row that satisfies the condition of the statement is never
    lost; the remainder checks what the engine does not; the serialisation frees what it allocates.
  \<^item> CTC_Error (ctc_error.cc, ctc_error.h, ha_ctc.cc): no error becomes success, and which errors are reported.
  \<^item> CTC_Scan (ha_ctc.cc, \<open>rnd_init\<close>, \<open>rnd_next\<close>, \<open>index_fetch\<close>, \<open>position\<close> and the record buffer): a scan
    with or without prefetched batches hands out the rows of the engine's cursor in their order, each once.
  \<^item> CTC_Write (ha_ctc.cc, \<open>write_row\<close>, \<open>start_bulk_insert\<close>, \<open>update_row\<close>, \<open>delete_row\<close> and what they call): a
    bulk insert leaves exactly the given rows in the table or reports the engine's error.
  \<^item> CTC_Mq (ctc_srv_mq_module.cc): messages and their segments, shared memory that is allocated and freed, and
    the counter of message threads as a step relation.
  \<^item> CTC_Stub, CTC_Ddl_Stub (ctc_srv_mq_stub.cc, srv_mq_msg.h): one function per request of the interface
    ctc_srv.h, which allocates its request, fills it, sends it and copies the answer back. The shared memory is
    as before the request, with the exceptions stated; success is reported only for an answered request; the
    bounds of an index scan and the rows of a batch arrive where the other side reads them.
  \<^item> CTC_Command (ctc_ddl_rewriter_plugin.cc): the table of commands and which of them define data or privileges.
  \<^item> CTC_Trx (ha_ctc.cc, \<open>get_or_init_sess_ctx\<close> to \<open>ctc_release_savepoint\<close>, \<open>start_stmt\<close>, \<open>external_lock\<close>): the
    session context of a connection, its transaction, its cursors, its message block. CTC_Session: the connection
    as the step relation \<open>conn_run\<close>. Whatever operations run in whatever order and whatever the engine answers,
    begins and ends of transactions alternate, every cursor is given back once, the shared memory is given
    back, and a statement can always start.
  \<^item> CTC_Index (datatype_cnvrt_4_index_search.cc, ha_ctc.cc \<open>index_read\<close>, \<open>index_first\<close>, \<open>index_last\<close>, \<open>rnd_pos\<close>): MySQL's key images
    are taken apart and converted; the bounds the engine is given are the bytes that rows with these values store. The
    part of a search that works on the session keeps the contract of CTC_Trx.
  \<^item> CTC_Cbo (ctc_cbo.cc, ha_ctc.cc \<open>records_in_range\<close>): the share of the rows in a range from the histograms of the columns.
    From a frequency histogram it is exact; the estimate is always between one and the rows of the table.
  \<^item> CTC_Meta (ctc_meta_data.cc, ctc_proxy_util.h): what a server does for the statements of the other servers: the keys of
    their connections, the threads that stand for them, metadata locks and their tickets, invalidation of the dictionary
    cache, close. CTC_Mdl: the requests as the step relation \<open>meta_reach\<close>. In every state reached the recorded tickets are
    locks held by threads alive; an unlock undoes a lock; a close ends exactly the threads it names, except for shared
    locks. CTC_Broadcast: the objects \<open>invalidate_remote_dd\<close> (CTC_Trx) sends are dropped from the receiver's cache.

  \<^bold>\<open>State and effects.\<close> A struct or class is a record with the fields the sources read or change; a function
  that changes state takes it and returns it changed. An assertion that fails, a null pointer that is read and
  an access outside of an array are values (\<open>None\<close> or an error), never assumed away. C integers are words
  or integers with every narrowing conversion written out; doubles are rational numbers with a rounding, a parameter, after each operation
  (infinities and values that are not numbers are left out). Loops are recursive functions that terminate, by
  their structure or by a measure; the one loop that need not end (the sum of the record lengths in CTC_Stub, whose
  index has eight bits) is a partial function, proved to end for the counts the program uses. There is no fuel.

  \<^bold>\<open>Parameters.\<close> MySQL's own classes and libraries (\<open>Field\<close>, \<open>Item\<close>, binary decimals, packed times, the
  record buffer), the Cantian engine behind its interface, the allocators and the message queue library are not
  in these sources. What is read of them is an argument of the definitions; what is used of their documented
  behaviour is a hypothesis or a locale: \<open>record_buffer\<close> for MySQL's record buffer, \<open>batch_scan\<close> and
  \<open>bulk_writer\<close> for the engine, \<open>lob_store\<close> for its large objects, \<open>column_classes\<close> for the bitmap of a row,
  \<open>remote_reply\<close> for the answers of the message queue, \<open>session_op\<close> for the operations on a connection. MySQL's metadata
  locks are the record \<open>mdl_api\<close> with the laws \<open>mdl_laws\<close>; the requests to one server are taken one after the
  other; two that interleave are not modelled. For
  transactions the engine is a function from a call and its state to a reply and a new state; the field
  \<open>sv_normalized\<close> of the server is the build switch METADATA_NORMALIZED.

  \<^bold>\<open>Not modelled.\<close> The data definition (ha_ctc_ddl.cc, ctc_ddl_util.cc) and the checks and broadcast of each
  statement (ctc_ddl_rewriter_plugin.cc), which fill generated protobuf messages and call MySQL's dictionary;
  system variables set by other servers (ctc_meta_data.cc, \<open>ctc_set_sys_var\<close>) and remote statements
  (ctc_mysql_proxy.cc, ctc_proxy_util.cc), which work through MySQL's client library; partitioned
  tables and parallel reading (ha_ctcpart.cc, ha_ctc_pq.cc); the request \<open>ctc_get_cbo_stats\<close> and call statistics
  (ctc_stats.cc); generated code under protobuf and the headers of the message queue library.
\<close>

end
